(* ===== verification/Prelude.thy ===== *)
theory Prelude
  imports Main "HOL-Library.AList"
begin

text \<open>
  Shared vocabulary of the development.  Three things every component needs:
  the 64-bit signed integers of Go with the wrap-around written out, Go maps as
  association lists (one list is one iteration order of the map, so a theorem
  that holds for every list holds for every order the runtime may choose), and
  a few generic facts about lists and folds.  The collection \<open>gomap\<close> holds the
  rewrite rules that move a map operation to \<open>map_of\<close>.
\<close>

named_theorems gomap \<open>operations on Go maps, seen through map_of\<close>
named_theorems goint \<open>64-bit integers inside their range\<close>

section \<open>64-bit signed integers\<close>

definition wrap64 :: "int \<Rightarrow> int" where
  "wrap64 x = (x + 2 ^ 63) mod 2 ^ 64 - 2 ^ 63"

definition in_int64 :: "int \<Rightarrow> bool" where
  "in_int64 x \<longleftrightarrow> - (2 ^ 63) \<le> x \<and> x < 2 ^ 63"

lemma wrap64_in_range: "in_int64 (wrap64 x)"
  by (simp add: wrap64_def in_int64_def)

lemma wrap64_id [goint]: "in_int64 x \<Longrightarrow> wrap64 x = x"
  by (simp add: wrap64_def in_int64_def)

lemma in_int64_nonneg [goint]: "0 \<le> x \<Longrightarrow> x < 9223372036854775808 \<Longrightarrow> in_int64 x"
  by (simp add: in_int64_def)

text \<open>Go's integer division truncates towards zero; a zero divisor panics.\<close>

definition go_div :: "int \<Rightarrow> int \<Rightarrow> int option" where
  "go_div a b = (if b = 0 then None else Some (wrap64 (sgn a * sgn b * (\<bar>a\<bar> div \<bar>b\<bar>))))"

lemma go_div_nonneg:
  assumes "0 \<le> a" "a < 2 ^ 63" "0 < b"
  shows "go_div a b = Some (a div b)"
proof -
  have "a div b \<le> a" using assms zdiv_mono2 [of a 1 b] by simp
  then have "in_int64 (a div b)"
    using assms by (simp add: in_int64_def pos_imp_zdiv_nonneg_iff order.trans [of _ 0])
  moreover have "sgn a * sgn b * (\<bar>a\<bar> div \<bar>b\<bar>) = a div b"
    using assms by (cases "a = 0") (simp_all add: sgn_if)
  ultimately have "wrap64 (sgn a * sgn b * (\<bar>a\<bar> div \<bar>b\<bar>)) = a div b" by (simp only: wrap64_id)
  then show ?thesis using assms by (simp only: go_div_def if_False) simp
qed

section \<open>Go maps\<close>

type_synonym ('k, 'v) gomap = "('k \<times> 'v) list"

abbreviation gm_get :: "('k, 'v) gomap \<Rightarrow> 'k \<Rightarrow> 'v option" where
  "gm_get m k \<equiv> map_of m k"

abbreviation gm_put :: "'k \<Rightarrow> 'v \<Rightarrow> ('k, 'v) gomap \<Rightarrow> ('k, 'v) gomap" where
  "gm_put k v m \<equiv> AList.update k v m"

abbreviation gm_del :: "'k \<Rightarrow> ('k, 'v) gomap \<Rightarrow> ('k, 'v) gomap" where
  "gm_del k m \<equiv> AList.delete k m"

abbreviation gm_has :: "('k, 'v) gomap \<Rightarrow> 'k \<Rightarrow> bool" where
  "gm_has m k \<equiv> (map_of m k \<noteq> None)"

abbreviation wf_gomap :: "('k, 'v) gomap \<Rightarrow> bool" where
  "wf_gomap m \<equiv> distinct (map fst m)"

lemma gm_put_get [gomap]: "gm_get (gm_put k v m) k' = (if k' = k then Some v else gm_get m k')"
  by (simp add: update_conv')

lemma gm_del_get [gomap]: "gm_get (gm_del k m) k' = (if k' = k then None else gm_get m k')"
  by (simp add: delete_conv')

lemma gm_put_wf [simp]: "wf_gomap m \<Longrightarrow> wf_gomap (gm_put k v m)"
  by (rule distinct_update)

lemma gm_del_wf [simp]: "wf_gomap m \<Longrightarrow> wf_gomap (gm_del k m)"
  by (rule distinct_delete)

lemma gm_get_mem: "wf_gomap m \<Longrightarrow> (gm_get m k = Some v) = ((k, v) \<in> set m)"
  by simp

lemma gm_has_mem: "gm_has m k = (k \<in> fst ` set m)"
  by (simp add: map_of_eq_None_iff)

text \<open>A map as a set of entries: two lists with distinct keys are the same map
  exactly when they hold the same entries.\<close>

lemma gm_eq_iff_set:
  assumes "wf_gomap a" "wf_gomap b"
  shows "(map_of a = map_of b) = (set a = set b)"
  using assms by (simp add: map_of_inject_set)

text \<open>Deleting a list of keys one after the other, as a Go loop of \<open>delete\<close> does.\<close>

fun gm_del_all :: "'k list \<Rightarrow> ('k, 'v) gomap \<Rightarrow> ('k, 'v) gomap" where
  "gm_del_all [] m = m"
| "gm_del_all (k # ks) m = gm_del_all ks (gm_del k m)"

lemma gm_del_all_get [gomap]:
  "gm_get (gm_del_all ks m) k = (if k \<in> set ks then None else gm_get m k)"
  by (induction ks arbitrary: m) (auto simp: gomap)

lemma gm_del_all_wf [simp]: "wf_gomap m \<Longrightarrow> wf_gomap (gm_del_all ks m)"
  by (induction ks arbitrary: m) auto

section \<open>Lists and options\<close>

lemma option_eqI: "(\<And>r. (a = Some r) = (b = Some r)) \<Longrightarrow> a = b"
  by (cases a; cases b) auto

lemma list_all_takeWhile_all: "\<forall>x\<in>set a. c x \<Longrightarrow> takeWhile c (a @ b) = a @ takeWhile c b"
  by (simp add: takeWhile_append)

lemma filter_map_fst: "map fst (filter (\<lambda>p. Q (fst p)) m) = filter Q (map fst m)"
  by (induction m) auto

end
