(* ===== verification/GoStrings.thy ===== *)
theory GoStrings
  imports Prelude "HOL-Library.Char_ord" "HOL-Library.List_Lexorder" "HOL-Library.Sublist"
begin

text \<open>
  Comparison functions in Go's style, and the parts of Go's \<open>strings\<close>, \<open>strconv\<close> and \<open>fmt\<close> packages the program
  uses.  A Go string is a sequence of bytes, here a \<open>char list\<close>, and
  \<open>strings.Compare\<close> is the lexicographic order on bytes.
\<close>

section \<open>Comparison functions\<close>

text \<open>The contract of a Go comparison function: it answers -1, 0 or 1, swapping the
  arguments swaps the sign, and "not after" is transitive.  Both the third-party
  RPM comparison (a hypothesis) and the comparisons of the program (proved) meet it.\<close>

locale go_order =
  fixes cmp :: "'a \<Rightarrow> 'a \<Rightarrow> int"
  assumes cmp_range: "cmp a b \<in> {-1, 0, 1}"
    and cmp_anti: "cmp b a = - cmp a b"
    and cmp_trans: "cmp a b \<le> 0 \<Longrightarrow> cmp b c \<le> 0 \<Longrightarrow> cmp a c \<le> 0"
begin

lemma cmp_self: "cmp a a = 0"
  using cmp_anti [of a a] by simp

lemma cmp_total: "cmp a b \<le> 0 \<or> cmp b a \<le> 0"
  using cmp_anti [of a b] by linarith

lemma cmp_less_trans1: "cmp a b < 0 \<Longrightarrow> cmp b c \<le> 0 \<Longrightarrow> cmp a c < 0"
  using cmp_trans [of a b c] cmp_trans [of b c a] cmp_anti [of a c] cmp_anti [of a b]
    cmp_anti [of b c] by linarith

lemma cmp_less_trans2: "cmp a b \<le> 0 \<Longrightarrow> cmp b c < 0 \<Longrightarrow> cmp a c < 0"
  using cmp_trans [of a b c] cmp_trans [of c a b] cmp_anti [of a c] cmp_anti [of a b]
    cmp_anti [of b c] by linarith

lemma cmp_sgn: "cmp a b = (if cmp a b < 0 then -1 else if cmp b a < 0 then 1 else 0)"
  using cmp_range [of a b] cmp_anti [of a b] by auto

lemma cmp_cong: "cmp a b = 0 \<Longrightarrow> cmp a c = cmp b c"
proof -
  assume ab: "cmp a b = 0"
  then have ba: "cmp b a = 0" using cmp_anti [of a b] by simp
  have "(cmp a c < 0) = (cmp b c < 0)"
    using cmp_less_trans2 [of a b c] cmp_less_trans2 [of b a c] ab ba by auto
  moreover have "(cmp c a < 0) = (cmp c b < 0)"
    using cmp_less_trans1 [of c a b] cmp_less_trans1 [of c b a] ab ba by auto
  ultimately show ?thesis using cmp_sgn [of a c] cmp_sgn [of b c] by metis
qed

end

text \<open>Comparing a key, and falling back to a second comparison on a tie.\<close>

lemma go_order_on: "go_order c \<Longrightarrow> go_order (\<lambda>a b. c (f a) (f b))"
  unfolding go_order_def by blast

lemma go_order_then:
  assumes "go_order c" "go_order d"
  shows "go_order (\<lambda>a b. if c a b \<noteq> 0 then c a b else d a b)"
proof
  show "(if c a b \<noteq> 0 then c a b else d a b) \<in> {-1, 0, 1}" for a b
    using assms go_order.cmp_range by metis
  show "(if c b a \<noteq> 0 then c b a else d b a) = - (if c a b \<noteq> 0 then c a b else d a b)" for a b
    using go_order.cmp_anti [OF assms(1), of b a] go_order.cmp_anti [OF assms(2), of b a] by simp
  show "(if c a e \<noteq> 0 then c a e else d a e) \<le> 0"
    if ab: "(if c a b \<noteq> 0 then c a b else d a b) \<le> 0"
      and be: "(if c b e \<noteq> 0 then c b e else d b e) \<le> 0" for a b e
  proof (cases "c a b = 0")
    case True
    then have "c a e = c b e" by (rule go_order.cmp_cong [OF assms(1)])
    then show ?thesis
      using True ab be go_order.cmp_trans [OF assms(2), of a b e] by (auto split: if_splits)
  next
    case False
    then have "c a b < 0" using ab by simp
    moreover have "c b e \<le> 0" using be by (auto split: if_splits)
    ultimately have "c a e < 0" by (rule go_order.cmp_less_trans1 [OF assms(1)])
    then show ?thesis by simp
  qed
qed

section \<open>strings\<close>

definition go_compare :: "string \<Rightarrow> string \<Rightarrow> int" where
  "go_compare a b = (if a < b then -1 else if b < a then 1 else 0)"

lemma go_compare_self [simp]: "go_compare a a = 0"
  by (simp add: go_compare_def)

lemma go_compare_eq0 [simp]: "(go_compare a b = 0) = (a = b)"
  by (auto simp: go_compare_def)

lemma go_compare_range: "go_compare a b \<in> {-1, 0, 1}"
  by (simp add: go_compare_def)

lemma go_compare_anti: "go_compare b a = - go_compare a b"
  by (auto simp: go_compare_def)

lemma go_compare_le: "(go_compare a b \<le> 0) = (a \<le> b)"
  by (auto simp: go_compare_def)

interpretation str: go_order go_compare
  by unfold_locales (auto simp: go_compare_def split: if_splits)

abbreviation has_prefix :: "string \<Rightarrow> string \<Rightarrow> bool" where
  "has_prefix s p \<equiv> prefix p s"

fun str_contains :: "string \<Rightarrow> string \<Rightarrow> bool" where
  "str_contains [] sub = (sub = [])"
| "str_contains (x # xs) sub = (prefix sub (x # xs) \<or> str_contains xs sub)"

lemma str_contains_iff: "str_contains s sub = (\<exists>a b. s = a @ sub @ b)"
proof (induction s)
  case Nil
  then show ?case by simp
next
  case (Cons x xs)
  have "(\<exists>a b. x # xs = a @ sub @ b) = (prefix sub (x # xs) \<or> (\<exists>a b. xs = a @ sub @ b))"
    by (auto simp: prefix_def Cons_eq_append_conv)
  then show ?case using Cons.IH by simp
qed

lemma str_contains_char: "str_contains s [c] = (c \<in> set s)"
  by (auto simp: str_contains_iff in_set_conv_decomp)

text \<open>\<open>strings.Index\<close> for a one-byte pattern, cut there: the parts before and after.\<close>

fun cut_at :: "char \<Rightarrow> string \<Rightarrow> (string \<times> string) option" where
  "cut_at c [] = None"
| "cut_at c (x # xs) =
     (if x = c then Some ([], xs)
      else (case cut_at c xs of None \<Rightarrow> None | Some (a, b) \<Rightarrow> Some (x # a, b)))"

lemma cut_at_Some: "cut_at c s = Some (a, b) \<Longrightarrow> s = a @ c # b \<and> c \<notin> set a"
  by (induction s arbitrary: a) (auto split: if_splits option.splits)

lemma cut_at_None: "(cut_at c s = None) = (c \<notin> set s)"
  by (induction s) (auto split: option.splits)

lemma cut_at_append: "c \<notin> set a \<Longrightarrow> cut_at c (a @ c # b) = Some (a, b)"
  by (induction a) auto

text \<open>\<open>strings.Split\<close> and \<open>strings.Join\<close> with a one-byte separator.\<close>

fun split_on :: "char \<Rightarrow> string \<Rightarrow> string list" where
  "split_on c [] = [[]]"
| "split_on c (x # xs) =
     (if x = c then [] # split_on c xs
      else (case split_on c xs of [] \<Rightarrow> [[x]] | y # ys \<Rightarrow> (x # y) # ys))"

fun join_with :: "string \<Rightarrow> string list \<Rightarrow> string" where
  "join_with sep [] = []"
| "join_with sep [x] = x"
| "join_with sep (x # y # r) = x @ sep @ join_with sep (y # r)"

lemma split_on_ne [simp]: "split_on c s \<noteq> []"
  by (induction s) (auto split: list.splits)

lemma join_with_Cons: "xs \<noteq> [] \<Longrightarrow> join_with sep (x # xs) = x @ sep @ join_with sep xs"
  by (cases xs) auto

lemma join_split: "join_with [c] (split_on c s) = s"
proof (induction s)
  case Nil
  then show ?case by simp
next
  case (Cons x xs)
  obtain y ys where s: "split_on c xs = y # ys" by (meson neq_Nil_conv split_on_ne)
  have "join_with [c] ((x # y) # ys) = x # join_with [c] (y # ys)"
    by (cases ys) auto
  then show ?case using Cons.IH s by (simp add: join_with_Cons)
qed

lemma split_on_single: "c \<notin> set s \<Longrightarrow> split_on c s = [s]"
  by (induction s) auto

lemma split_on_append: "c \<notin> set a \<Longrightarrow> split_on c (a @ c # b) = a # split_on c b"
  by (induction a) auto

lemma split_join:
  "xs \<noteq> [] \<Longrightarrow> \<forall>x\<in>set xs. c \<notin> set x \<Longrightarrow> split_on c (join_with [c] xs) = xs"
proof (induction "[c]" xs rule: join_with.induct)
  case (3 x y r)
  then show ?case by (simp add: split_on_append)
qed (simp_all add: split_on_single)

lemma split_on_no_sep: "x \<in> set (split_on c s) \<Longrightarrow> c \<notin> set x"
proof (induction s arbitrary: x)
  case Nil
  then show ?case by simp
next
  case (Cons a s)
  then show ?case by (fastforce split: if_splits list.splits)
qed

section \<open>strconv and fmt\<close>

definition is_digit :: "char \<Rightarrow> bool" where
  "is_digit c \<longleftrightarrow> (48::nat) \<le> of_char c \<and> (of_char c :: nat) \<le> 57"

definition digit_val :: "char \<Rightarrow> nat" where
  "digit_val c = of_char c - 48"

definition digit_char :: "nat \<Rightarrow> char" where
  "digit_char n = char_of (48 + n)"

lemma is_digit_char: "n < 10 \<Longrightarrow> is_digit (digit_char n)"
  by (simp add: is_digit_def digit_char_def of_char_of take_bit_eq_mod)

lemma digit_val_char: "n < 10 \<Longrightarrow> digit_val (digit_char n) = n"
  by (simp add: digit_val_def digit_char_def of_char_of take_bit_eq_mod)

text \<open>Decimal digits of a natural number, as \<open>fmt\<close>'s \<open>%d\<close> prints it.\<close>

fun show_nat :: "nat \<Rightarrow> string" where
  "show_nat n = (if n < 10 then [digit_char n] else show_nat (n div 10) @ [digit_char (n mod 10)])"

declare show_nat.simps [simp del]

definition show_int :: "int \<Rightarrow> string" where
  "show_int i = (if i < 0 then CHR ''-'' # show_nat (nat (- i)) else show_nat (nat i))"

fun dec_val :: "nat \<Rightarrow> string \<Rightarrow> nat option" where
  "dec_val acc [] = Some acc"
| "dec_val acc (c # cs) = (if is_digit c then dec_val (10 * acc + digit_val c) cs else None)"

text \<open>\<open>strconv.Atoi\<close> on a 64-bit platform: an optional sign, at least one digit,
  nothing else, and a value inside the range of \<open>int\<close>.\<close>

definition go_atoi :: "string \<Rightarrow> int option" where
  "go_atoi s =
     (let (neg, ds) = (case s of [] \<Rightarrow> (False, s)
                       | c # r \<Rightarrow> if c = CHR ''-'' then (True, r)
                                  else if c = CHR ''+'' then (False, r) else (False, s))
      in if ds = [] then None
         else (case dec_val 0 ds of
                 None \<Rightarrow> None
               | Some n \<Rightarrow>
                   (if neg then (if int n \<le> 2 ^ 63 then Some (- int n) else None)
                    else (if int n < 2 ^ 63 then Some (int n) else None))))"

lemma dec_val_append:
  "dec_val acc (xs @ ys) = (case dec_val acc xs of None \<Rightarrow> None | Some a \<Rightarrow> dec_val a ys)"
  by (induction xs arbitrary: acc) auto

lemma show_nat_digits: "\<forall>c\<in>set (show_nat n). is_digit c"
proof (induction n rule: show_nat.induct)
  case (1 n)
  then show ?case
    by (subst show_nat.simps) (auto simp: is_digit_char)
qed

lemma show_nat_ne [simp]: "show_nat n \<noteq> []"
  by (subst show_nat.simps) simp

lemma dec_val_show_nat: "dec_val 0 (show_nat n) = Some n"
proof (induction n rule: show_nat.induct)
  case (1 n)
  show ?case
  proof (cases "n < 10")
    case True
    then show ?thesis
      by (subst show_nat.simps) (simp add: is_digit_char digit_val_char)
  next
    case False
    then show ?thesis using 1
      by (subst show_nat.simps)
        (simp add: dec_val_append is_digit_char digit_val_char)
  qed
qed

lemma is_digit_not_sign: "is_digit c \<Longrightarrow> c \<noteq> CHR ''-'' \<and> c \<noteq> CHR ''+''"
  by (auto simp: is_digit_def)

lemma go_atoi_show_nat: "int n < 2 ^ 63 \<Longrightarrow> go_atoi (show_nat n) = Some (int n)"
proof -
  assume n: "int n < 2 ^ 63"
  obtain c r where s: "show_nat n = c # r" by (meson neq_Nil_conv show_nat_ne)
  then have "is_digit c" using show_nat_digits [of n] by simp
  then have "c \<noteq> CHR ''-''" "c \<noteq> CHR ''+''" by (auto dest: is_digit_not_sign)
  then show ?thesis
    using dec_val_show_nat [of n] n s by (simp add: go_atoi_def)
qed

lemma go_atoi_range: "go_atoi s = Some i \<Longrightarrow> in_int64 i"
proof -
  assume a: "go_atoi s = Some i"
  have "\<And>n::nat. int n < 2 ^ 63 \<Longrightarrow> in_int64 (int n)"
    by (simp add: in_int64_def)
  moreover have "\<And>n::nat. int n \<le> 2 ^ 63 \<Longrightarrow> in_int64 (- int n)"
    by (simp add: in_int64_def)
  ultimately show ?thesis using a
    by (auto simp: go_atoi_def Let_def split: if_splits list.splits option.splits prod.splits)
qed

end
