(* ===== verification/GoRegexp.thy ===== *)
theory GoRegexp
  imports GoStrings
begin

text \<open>
  Go's \<open>regexp\<close> package as the program uses it: leftmost-first matching (the
  match a backtracking matcher finds first) with numbered groups.  Every
  repetition in the program's patterns is greedy and over one character class,
  so the syntax has classes and repeated classes only.  The matcher is written
  in continuation style: a continuation that fails makes the matcher try the
  next alternative in priority order.
\<close>

datatype re =
    Chars "char \<Rightarrow> bool"
  | Many nat "char \<Rightarrow> bool"
  | Seq re re
  | Opt re
  | Grp nat re
  | Bol
  | Eol

type_synonym rstate = "nat \<times> string"
type_synonym captures = "(nat \<times> string) list"

text \<open>Repetition counts from \<open>n\<close> down to \<open>lo\<close>, the longest first.\<close>

fun try_down :: "nat \<Rightarrow> nat \<Rightarrow> (nat \<Rightarrow> 'r option) \<Rightarrow> 'r option" where
  "try_down lo n k =
     (if n < lo then None
      else (case k n of
              Some r \<Rightarrow> Some r
            | None \<Rightarrow> (case n of 0 \<Rightarrow> None | Suc n' \<Rightarrow> try_down lo n' k)))"

declare try_down.simps [simp del]

fun rx :: "re \<Rightarrow> rstate \<Rightarrow> captures \<Rightarrow> (rstate \<Rightarrow> captures \<Rightarrow> 'r option) \<Rightarrow> 'r option" where
  "rx (Chars p) (i, s) cs k =
     (case s of [] \<Rightarrow> None | x # t \<Rightarrow> if p x then k (Suc i, t) cs else None)"
| "rx (Many lo p) (i, s) cs k =
     try_down lo (length (takeWhile p s)) (\<lambda>n. k (i + n, drop n s) cs)"
| "rx (Seq a b) st cs k = rx a st cs (\<lambda>st' cs'. rx b st' cs' k)"
| "rx (Opt a) st cs k = (case rx a st cs k of Some r \<Rightarrow> Some r | None \<Rightarrow> k st cs)"
| "rx (Grp n a) (i, s) cs k =
     rx a (i, s) cs (\<lambda>(j, s') cs'. k (j, s') ((n, take (j - i) s) # cs'))"
| "rx Bol (i, s) cs k = (if i = 0 then k (i, s) cs else None)"
| "rx Eol (i, s) cs k = (if s = [] then k (i, s) cs else None)"

text \<open>The leftmost position where the pattern matches: the text of the whole
  match (group 0) and of the groups.\<close>

fun rx_find :: "re \<Rightarrow> nat \<Rightarrow> string \<Rightarrow> captures option" where
  "rx_find r i s =
     (case rx r (i, s) [] (\<lambda>(j, t) cs. Some ((0, take (j - i) s) # cs)) of
        Some cs \<Rightarrow> Some cs
      | None \<Rightarrow> (case s of [] \<Rightarrow> None | _ # t \<Rightarrow> rx_find r (Suc i) t))"

declare rx_find.simps [simp del]

definition find_submatch :: "re \<Rightarrow> string \<Rightarrow> captures option" where
  "find_submatch r s = rx_find r 0 s"

definition match_string :: "re \<Rightarrow> string \<Rightarrow> bool" where
  "match_string r s = (find_submatch r s \<noteq> None)"

text \<open>A group that did not take part in the match reads as the empty string.\<close>

definition group :: "captures \<Rightarrow> nat \<Rightarrow> string" where
  "group cs n = (case map_of cs n of None \<Rightarrow> [] | Some t \<Rightarrow> t)"

section \<open>Laws of the matcher\<close>

lemma try_down_hit:
  assumes "lo \<le> j" "j \<le> n" "k j = Some r" "\<And>m. j < m \<Longrightarrow> m \<le> n \<Longrightarrow> k m = None"
  shows "try_down lo n k = Some r"
  using assms(2,4)
proof (induction n)
  case 0
  with assms have "j = 0" by simp
  with assms show ?case by (subst try_down.simps) simp
next
  case (Suc n)
  show ?case
  proof (cases "j = Suc n")
    case True
    with assms show ?thesis by (simp add: try_down.simps [of lo "Suc n"])
  next
    case False
    with Suc.prems have j: "j \<le> n" by simp
    have "try_down lo n k = Some r" using Suc.IH [OF j] Suc.prems(2) by simp
    moreover have "k (Suc n) = None" using Suc.prems False by simp
    ultimately show ?thesis using assms(1) j by (simp add: try_down.simps [of lo "Suc n"])
  qed
qed

lemma try_down_top: "lo \<le> n \<Longrightarrow> k n = Some r \<Longrightarrow> try_down lo n k = Some r"
  by (rule try_down_hit [of lo n]) auto

lemma try_down_None:
  assumes "\<And>m. lo \<le> m \<Longrightarrow> m \<le> n \<Longrightarrow> k m = None"
  shows "try_down lo n k = None"
  using assms
proof (induction n)
  case 0
  then show ?case by (simp add: try_down.simps [of lo 0])
next
  case (Suc n)
  then show ?case by (simp add: try_down.simps [of lo "Suc n"])
qed

lemma try_down_cases:
  "try_down lo n k = Some r \<Longrightarrow> \<exists>j. lo \<le> j \<and> j \<le> n \<and> k j = Some r"
proof (induction n)
  case 0
  then show ?case by (auto simp: try_down.simps [of lo 0] split: if_splits option.splits)
next
  case (Suc n)
  show ?case
  proof (cases "k (Suc n)")
    case None
    with Suc.prems have "try_down lo n k = Some r"
      by (simp add: try_down.simps [of lo "Suc n"] split: if_splits)
    with Suc.IH show ?thesis by (meson le_Suc_eq)
  next
    case (Some x)
    with Suc.prems show ?thesis
      by (auto simp: try_down.simps [of lo "Suc n"] intro!: exI [of _ "Suc n"] split: if_splits)
  qed
qed

text \<open>A match at the very start wins over every later one.\<close>

lemma find_submatch_at_start:
  assumes "rx r (0, s) [] (\<lambda>(j, t) cs. Some ((0, take j s) # cs)) = Some cs"
  shows "find_submatch r s = Some cs"
  using assms by (simp add: find_submatch_def rx_find.simps [of r 0 s])

text \<open>A repeated class in front of a character \<open>c\<close> the continuation insists on:
  when the text after that \<open>c\<close> holds no other \<open>c\<close> within reach of the
  repetition, the match stops exactly there.\<close>

lemma many_sep:
  assumes "lo \<le> length a" "\<forall>x\<in>set a. p x" "c \<notin> set b"
    and fail: "\<And>j s'. s' = [] \<or> hd s' \<noteq> c \<Longrightarrow> k (j, s') cs = None"
    and hit: "k (i + length a, c # b @ t) cs = Some r"
    and stop: "p c \<Longrightarrow> t = [] \<or> hd t \<noteq> c \<and> \<not> p (hd t)"
  shows "rx (Many lo p) (i, a @ c # b @ t) cs k = Some r"
proof -
  let ?s = "a @ c # b @ t"
  let ?k = "\<lambda>n. k (i + n, drop n ?s) cs"
  have k0: "?k (length a) = Some r" using hit by simp
  have le: "length a \<le> length (takeWhile p ?s)"
    using assms(2) by (simp add: list_all_takeWhile_all)
  have miss: "?k m = None" if m: "length a < m" "m \<le> length (takeWhile p ?s)" for m
  proof -
    have pc: "p c"
      using m assms(2) by (cases "p c") (simp_all add: list_all_takeWhile_all)
    have tw: "takeWhile p t = []" using stop [OF pc] by (cases t) auto
    have "length (takeWhile p (b @ t)) \<le> length b"
    proof (cases "\<forall>x\<in>set b. p x")
      case True
      then show ?thesis using tw by (simp add: list_all_takeWhile_all)
    next
      case False
      then show ?thesis by (auto simp: takeWhile_append length_takeWhile_le)
    qed
    then have mle: "m \<le> length a + 1 + length b"
      using m(2) pc assms(2) by (simp add: list_all_takeWhile_all)
    define d where "d = m - length a - 1"
    have m_eq: "m = length a + Suc d" using m(1) by (simp add: d_def)
    have dr: "drop m ?s = drop d (b @ t)" by (simp add: m_eq)
    have "drop d (b @ t) = [] \<or> hd (drop d (b @ t)) \<noteq> c"
    proof (cases "d < length b")
      case True
      then have "hd (drop d (b @ t)) = b ! d" by (simp add: hd_drop_conv_nth nth_append)
      moreover have "b ! d \<noteq> c" using assms(3) True nth_mem by metis
      ultimately show ?thesis by simp
    next
      case False
      then have "drop d (b @ t) = t" using mle m_eq by simp
      then show ?thesis using stop [OF pc] by auto
    qed
    then show ?thesis using fail dr by simp
  qed
  have "try_down lo (length (takeWhile p ?s)) ?k = Some r"
    by (rule try_down_hit [where j = "length a"]) (use assms(1) le k0 miss in auto)
  then show ?thesis by simp
qed

lemma many_sep_end:
  assumes "lo \<le> length a" "\<forall>x\<in>set a. p x" "c \<notin> set b"
    and "\<And>j s'. s' = [] \<or> hd s' \<noteq> c \<Longrightarrow> k (j, s') cs = None"
    and "k (i + length a, c # b) cs = Some r"
  shows "rx (Many lo p) (i, a @ c # b) cs k = Some r"
  using many_sep [where t = "[]", of lo a p c b k cs i r] assms by simp

text \<open>A repeated class up to the end of the text.\<close>

lemma many_end:
  assumes "lo \<le> length a" "\<forall>x\<in>set a. p x" "k (i + length a, []) cs = Some r"
  shows "rx (Many lo p) (i, a) cs k = Some r"
proof -
  have "length (takeWhile p a) = length a"
    using assms(2) by (metis takeWhile_eq_all_conv)
  with assms show ?thesis by (auto intro: try_down_top)
qed

text \<open>A repeated class whose continuation insists on a character that does not
  follow any of its repetitions fails.\<close>

lemma many_no_sep:
  assumes fail: "\<And>j s'. s' = [] \<or> hd s' \<noteq> c \<Longrightarrow> k (j, s') cs = None"
    and no: "c \<notin> set (tl s)" "s \<noteq> [] \<Longrightarrow> lo = 0 \<Longrightarrow> hd s \<noteq> c"
  shows "rx (Many lo p) (i, s) cs k = None"
proof -
  have "k (i + m, drop m s) cs = None" if "lo \<le> m" for m
  proof (rule fail)
    show "drop m s = [] \<or> hd (drop m s) \<noteq> c"
    proof (cases "m < length s")
      case True
      then have h: "hd (drop m s) = s ! m" by (simp add: hd_drop_conv_nth)
      show ?thesis
      proof (cases m)
        case 0
        then show ?thesis using no(2) that by (cases s) auto
      next
        case (Suc m')
        then have "s ! m \<in> set (tl s)" using True by (cases s) auto
        then show ?thesis using h no(1) by auto
      qed
    qed simp
  qed
  then show ?thesis by (simp add: try_down_None)
qed

lemma chars_fail: "s' = [] \<or> \<not> p (hd s') \<Longrightarrow> rx (Chars p) (j, s') cs k = None"
  by (cases s') auto

end
