(* ===== verification/Nevra.thy ===== *)
theory Nevra
  imports GoRegexp
begin

text \<open>
  Package identifiers (\<open>base/utils/rpm.go\<close>): name, epoch, version, release
  and architecture, their parser, their printers and their order.  The RPM
  version comparison is the third-party package \<open>gorpm\<close>; it is the parameter
  \<open>label_compare\<close>, and what the program relies on is the contract \<open>go_order\<close>.
\<close>

record nevra =
  nv_name :: string
  nv_epoch :: int
  nv_version :: string
  nv_release :: string
  nv_arch :: string

datatype nevra_error = NoMatch string | BadEpoch string | Mismatch string

section \<open>Printing\<close>

definition string_e :: "nevra \<Rightarrow> bool \<Rightarrow> string" where
  "string_e n show_epoch =
     (if nv_epoch n \<noteq> 0 \<or> show_epoch
      then nv_name n @ ''-'' @ show_int (nv_epoch n) @ '':'' @ nv_version n @ ''-''
             @ nv_release n @ ''.'' @ nv_arch n
      else nv_name n @ ''-'' @ nv_version n @ ''-'' @ nv_release n @ ''.'' @ nv_arch n)"

definition nevra_string :: "nevra \<Rightarrow> string" where
  "nevra_string n = string_e n False"

definition evr_string_e :: "nevra \<Rightarrow> bool \<Rightarrow> string" where
  "evr_string_e n show_epoch =
     (if nv_epoch n \<noteq> 0 \<or> show_epoch
      then show_int (nv_epoch n) @ '':'' @ nv_version n @ ''-'' @ nv_release n
      else nv_version n @ ''-'' @ nv_release n)"

definition evr_string :: "nevra \<Rightarrow> string" where
  "evr_string n = evr_string_e n False"

definition evra_string_e :: "nevra \<Rightarrow> bool \<Rightarrow> string" where
  "evra_string_e n show_epoch =
     (if nv_epoch n \<noteq> 0 \<or> show_epoch
      then show_int (nv_epoch n) @ '':'' @ nv_version n @ ''-'' @ nv_release n @ ''.'' @ nv_arch n
      else nv_version n @ ''-'' @ nv_release n @ ''.'' @ nv_arch n)"

definition evra_string :: "nevra \<Rightarrow> string" where
  "evra_string n = evra_string_e n False"

definition nevra_string_e :: "string \<Rightarrow> string \<Rightarrow> bool \<Rightarrow> string" where
  "nevra_string_e name evra show_epoch =
     (let evra' = (if show_epoch \<and> \<not> str_contains evra '':'' then ''0:'' @ evra else evra)
      in name @ ''-'' @ evra')"

section \<open>Parsing\<close>

definition arch_char :: "char \<Rightarrow> bool" where
  "arch_char c \<longleftrightarrow> (CHR ''a'' \<le> c \<and> c \<le> CHR ''z'') \<or> is_digit c \<or> c = CHR ''_''"

definition ver_char :: "char \<Rightarrow> bool" where
  "ver_char c \<longleftrightarrow> c \<noteq> CHR ''-'' \<and> c \<noteq> CHR '':''"

definition name_char :: "char \<Rightarrow> bool" where
  "name_char c \<longleftrightarrow> c \<noteq> CHR '':''"

text \<open>Groups 1 and 4 are the optional epochs with their colon, 2 and 5 the epochs
  (\<open>e1\<close>, \<open>e2\<close>), 3 the name, 6 the version, 7 the release, 8 the architecture.\<close>

definition nevra_regex :: re where
  "nevra_regex =
     Seq (Opt (Grp 1 (Seq (Grp 2 (Many 1 is_digit)) (Chars (\<lambda>c. c = CHR '':'')))))
    (Seq (Grp 3 (Many 1 name_char))
    (Seq (Chars (\<lambda>c. c = CHR ''-''))
    (Seq (Opt (Grp 4 (Seq (Grp 5 (Many 1 is_digit)) (Chars (\<lambda>c. c = CHR '':'')))))
    (Seq (Grp 6 (Many 0 ver_char))
    (Seq (Chars (\<lambda>c. c = CHR ''-''))
    (Seq (Grp 7 (Many 0 ver_char))
    (Seq (Chars (\<lambda>c. c = CHR ''.''))
         (Grp 8 (Many 0 arch_char)))))))))"

definition parse_nevra :: "string \<Rightarrow> nevra_error + nevra" where
  "parse_nevra s =
     (case find_submatch nevra_regex s of
        None \<Rightarrow> Inl (NoMatch s)
      | Some parsed \<Rightarrow>
          (let epoch = (if group parsed 2 \<noteq> [] then go_atoi (group parsed 2)
                        else if group parsed 5 \<noteq> [] then go_atoi (group parsed 5)
                        else Some 0)
           in (case epoch of
                 None \<Rightarrow> Inl (BadEpoch s)
               | Some e \<Rightarrow>
                   (let res = \<lparr>nv_name = group parsed 3, nv_epoch = e, nv_version = group parsed 6,
                               nv_release = group parsed 7, nv_arch = group parsed 8\<rparr>
                    in if e = 0 \<and> nevra_string res = s then Inr res
                       else if string_e res True \<noteq> s then Inl (Mismatch s)
                       else Inr res))))"

definition parse_name_evra :: "string \<Rightarrow> string \<Rightarrow> nevra_error + nevra" where
  "parse_name_evra name evra = parse_nevra (name @ ''-'' @ evra)"

definition nevra_parses :: "string \<Rightarrow> bool" where
  "nevra_parses s = (case parse_nevra s of Inl _ \<Rightarrow> False | Inr _ \<Rightarrow> True)"

section \<open>Order\<close>

type_synonym evr = "string \<times> string \<times> string"

definition evra_cmp :: "(evr \<Rightarrow> evr \<Rightarrow> int) \<Rightarrow> nevra \<Rightarrow> nevra \<Rightarrow> int" where
  "evra_cmp label_compare n m =
     (let ret = label_compare (show_int (nv_epoch n), nv_version n, nv_release n)
                              (show_int (nv_epoch m), nv_version m, nv_release m)
      in if ret = 0 then go_compare (nv_arch n) (nv_arch m) else ret)"

definition nevra_cmp :: "(evr \<Rightarrow> evr \<Rightarrow> int) \<Rightarrow> nevra \<Rightarrow> nevra \<Rightarrow> int" where
  "nevra_cmp label_compare n m =
     (let ret = go_compare (nv_name n) (nv_name m)
      in if ret \<noteq> 0 then ret else evra_cmp label_compare n m)"

text \<open>The order is as good as the RPM comparison it is built on.\<close>

lemma evra_cmp_order:
  assumes "go_order label_compare"
  shows "go_order (evra_cmp label_compare)"
proof -
  have "evra_cmp label_compare = (\<lambda>n m.
      if label_compare (show_int (nv_epoch n), nv_version n, nv_release n)
                       (show_int (nv_epoch m), nv_version m, nv_release m) \<noteq> 0
      then label_compare (show_int (nv_epoch n), nv_version n, nv_release n)
                         (show_int (nv_epoch m), nv_version m, nv_release m)
      else go_compare (nv_arch n) (nv_arch m))"
    by (auto simp: fun_eq_iff evra_cmp_def Let_def)
  then show ?thesis
    by (simp only:) (rule go_order_then [OF go_order_on [OF assms] go_order_on [OF str.go_order_axioms]])
qed

lemma nevra_cmp_order:
  assumes "go_order label_compare"
  shows "go_order (nevra_cmp label_compare)"
proof -
  have "nevra_cmp label_compare = (\<lambda>n m. if go_compare (nv_name n) (nv_name m) \<noteq> 0
      then go_compare (nv_name n) (nv_name m) else evra_cmp label_compare n m)"
    by (auto simp: fun_eq_iff nevra_cmp_def Let_def)
  then show ?thesis
    by (simp only:) (rule go_order_then [OF go_order_on [OF str.go_order_axioms] evra_cmp_order [OF assms]])
qed

text \<open>A concrete comparison that meets the contract, for instances of the parameter.\<close>

definition text_label_compare :: "evr \<Rightarrow> evr \<Rightarrow> int" where
  "text_label_compare a b =
     (if go_compare (fst a) (fst b) \<noteq> 0 then go_compare (fst a) (fst b)
      else if go_compare (fst (snd a)) (fst (snd b)) \<noteq> 0 then go_compare (fst (snd a)) (fst (snd b))
      else go_compare (snd (snd a)) (snd (snd b)))"

interpretation text_label: go_order text_label_compare
proof -
  have eq: "text_label_compare = (\<lambda>a b.
      if go_compare (fst a) (fst b) \<noteq> 0 then go_compare (fst a) (fst b)
      else if go_compare (fst (snd a)) (fst (snd b)) \<noteq> 0 then go_compare (fst (snd a)) (fst (snd b))
      else go_compare (snd (snd a)) (snd (snd b)))"
    by (simp add: fun_eq_iff text_label_compare_def)
  have key: "go_order (\<lambda>a b. go_compare (f a) (f b))" for f :: "evr \<Rightarrow> string"
    by (rule go_order_on [OF str.go_order_axioms])
  show "go_order text_label_compare"
    by (subst eq) (intro go_order_then key)
qed

lemma nevra_cmp_same_name:
  "nv_name n = nv_name m \<Longrightarrow> nevra_cmp lc n m = evra_cmp lc n m"
  by (simp add: nevra_cmp_def)

section \<open>What the printer and the parser agree on\<close>

definition nevra_wf :: "nevra \<Rightarrow> bool" where
  "nevra_wf n \<longleftrightarrow>
     nv_name n \<noteq> [] \<and> list_all name_char (nv_name n) \<and> 0 \<le> nv_epoch n \<and> nv_epoch n < 2 ^ 63
     \<and> list_all ver_char (nv_version n) \<and> list_all ver_char (nv_release n)
     \<and> list_all arch_char (nv_arch n)"

lemma arch_char_facts:
  "arch_char c \<Longrightarrow> c \<noteq> CHR ''-'' \<and> c \<noteq> CHR '':'' \<and> c \<noteq> CHR ''.''"
  by (auto simp: arch_char_def is_digit_def less_eq_char_def)

lemma digit_facts:
  "is_digit c \<Longrightarrow> c \<noteq> CHR ''-'' \<and> c \<noteq> CHR '':'' \<and> c \<noteq> CHR ''.''"
  by (auto simp: is_digit_def)

text \<open>The tail of the pattern, after the (optional) second epoch.\<close>

definition rx_vra :: re where
  "rx_vra =
     Seq (Grp 6 (Many 0 ver_char))
    (Seq (Chars (\<lambda>c. c = CHR ''-''))
    (Seq (Grp 7 (Many 0 ver_char))
    (Seq (Chars (\<lambda>c. c = CHR ''.''))
         (Grp 8 (Many 0 arch_char)))))"

lemma rx_vra_match:
  assumes v: "list_all ver_char v" and r: "list_all ver_char r" and a: "list_all arch_char a"
    and k: "k (i + length v + length r + length a + 2, [])
              ((8, a) # (7, r) # (6, v) # cs) = Some res"
  shows "rx rx_vra (i, v @ CHR ''-'' # r @ CHR ''.'' # a) cs k = Some res"
proof -
  let ?ra = "r @ CHR ''.'' # a"
  have arch: "rx (Grp 8 (Many 0 arch_char)) (i', a) ((7, r) # (6, v) # cs) k = Some res"
    if i': "i' = i + length v + length r + 2" for i'
  proof -
    have tw: "length (takeWhile arch_char a) = length a"
      using a by (metis list_all_iff takeWhile_eq_all_conv)
    show ?thesis using k i' by (auto simp: tw intro!: try_down_top)
  qed
  have rel: "rx (Seq (Grp 7 (Many 0 ver_char))
               (Seq (Chars (\<lambda>c. c = CHR ''.'')) (Grp 8 (Many 0 arch_char))))
             (i', ?ra) ((6, v) # cs) k = Some res"
    if i': "i' = i + length v + 1" for i'
    unfolding rx.simps(3,5)
  proof (rule many_sep_end, goal_cases)
    case 2
    show ?case using r by (simp add: list_all_iff)
  next
    case 3
    show ?case using a by (auto simp: list_all_iff dest: arch_char_facts)
  next
    case (4 j s')
    then show ?case by (cases s') auto
  next
    case 5
    show ?case using arch [of "Suc (i' + length r)"] i' by simp
  qed simp
  show ?thesis
    unfolding rx_vra_def rx.simps(3,5)
  proof (rule many_sep_end, goal_cases)
    case 2
    show ?case using v by (simp add: list_all_iff)
  next
    case 3
    show ?case using r a by (auto simp: list_all_iff ver_char_def dest: arch_char_facts)
  next
    case (4 j s')
    then show ?case by (cases s') auto
  next
    case 5
    show ?case using rel [of "Suc (i + length v)"] by (simp del: rx.simps(2,5))
  qed simp
qed

lemma rx_vra_no_dash: "CHR ''-'' \<notin> set s \<Longrightarrow> rx rx_vra (i, s) cs k = None"
  unfolding rx_vra_def rx.simps(3,5)
proof (rule many_no_sep [where c = "CHR ''-''"], goal_cases)
  case (1 j s')
  then show ?case by (cases s') auto
next
  case 2
  then show ?case by (cases s) auto
next
  case 3
  then show ?case by (cases s) auto
qed

text \<open>An optional epoch \<open>digits:\<close> in front of the rest.\<close>

definition rx_epoch :: "nat \<Rightarrow> nat \<Rightarrow> re" where
  "rx_epoch n m = Opt (Grp n (Seq (Grp m (Many 1 is_digit)) (Chars (\<lambda>c. c = CHR '':''))))"

lemma rx_epoch_match:
  assumes e: "e \<noteq> []" "\<forall>x\<in>set e. is_digit x"
    and k: "k (i + length e + 1, t) ((n, e @ '':'') # (m, e) # cs) = Some r"
  shows "rx (rx_epoch n m) (i, e @ CHR '':'' # t) cs k = Some r"
proof -
  have "rx (Grp n (Seq (Grp m (Many 1 is_digit)) (Chars (\<lambda>c. c = CHR '':''))))
          (i, e @ CHR '':'' # [] @ t) cs k = Some r"
    unfolding rx.simps(3,5)
  proof (rule many_sep, goal_cases)
    case 1
    show ?case using e(1) by (cases e) auto
  next
    case (4 j s')
    then show ?case by (cases s') auto
  next
    case 5
    show ?case using k by simp
  next
    case 6
    then show ?case by (simp add: is_digit_def)
  qed (use e in auto)
  then show ?thesis by (simp only: rx_epoch_def rx.simps append_Nil option.case)
qed

text \<open>Where no colon follows the leading digits the optional epoch matches nothing.\<close>

lemma rx_epoch_skip:
  assumes "CHR '':'' \<notin> set (takeWhile (\<lambda>c. c \<noteq> CHR ''-'') s)" "CHR ''-'' \<in> set s \<or> CHR '':'' \<notin> set s"
  shows "rx (rx_epoch n m) (i, s) cs k = k (i, s) cs"
proof -
  have none: "rx (Many 1 is_digit) (i, s) cs k' = None"
    if fail: "\<And>j s'. s' = [] \<or> hd s' \<noteq> CHR '':'' \<Longrightarrow> k' (j, s') cs = None" for k'
  proof -
    have "k' (i + j, drop j s) cs = None" if j: "j \<le> length (takeWhile is_digit s)" for j
    proof (rule fail)
      have "set (take j s) \<subseteq> set (takeWhile is_digit s)"
        by (subst takeWhile_eq_take) (rule set_take_subset_set_take [OF j])
      then have d: "\<forall>x\<in>set (take j s). x \<noteq> CHR ''-''"
        by (auto dest: set_takeWhileD digit_facts)
      show "drop j s = [] \<or> hd (drop j s) \<noteq> CHR '':''"
      proof (rule ccontr)
        assume a: "\<not> ?thesis"
        then obtain t where t: "drop j s = CHR '':'' # t" by (cases "drop j s") auto
        have s: "s = take j s @ CHR '':'' # t" by (metis append_take_drop_id t)
        have "takeWhile (\<lambda>c. c \<noteq> CHR ''-'') s
              = take j s @ CHR '':'' # takeWhile (\<lambda>c. c \<noteq> CHR ''-'') t"
          using d by (subst s) (simp add: takeWhile_append2)
        then show False using assms(1) by simp
      qed
    qed
    then show ?thesis by (simp add: try_down_None)
  qed
  have "rx (Grp n (Seq (Grp m (Many 1 is_digit)) (Chars (\<lambda>c. c = CHR '':'')))) (i, s) cs k = None"
    unfolding rx.simps(3,5)
  proof (rule none, goal_cases)
    case (1 j s')
    then show ?case by (cases s') auto
  qed
  then show ?thesis by (simp add: rx_epoch_def)
qed

lemma nevra_regex_eq:
  "nevra_regex = Seq (rx_epoch 1 2) (Seq (Grp 3 (Many 1 name_char))
     (Seq (Chars (\<lambda>c. c = CHR ''-'')) (Seq (rx_epoch 4 5) rx_vra)))"
  by (simp add: nevra_regex_def rx_epoch_def rx_vra_def)

text \<open>The part after the name matches once: a second dash never has another after it.\<close>

lemma rx_rest_last_dash:
  assumes "CHR ''-'' \<notin> set t" "CHR '':'' \<notin> set t"
  shows "rx (Seq (rx_epoch 4 5) rx_vra) (i, t) cs k = None"
proof -
  have "CHR '':'' \<notin> set (takeWhile (\<lambda>c. c \<noteq> CHR ''-'') t)"
    using assms(2) by (meson set_takeWhileD)
  then have "rx (rx_epoch 4 5) (i, t) cs (\<lambda>st' cs'. rx rx_vra st' cs' k) = rx rx_vra (i, t) cs k"
    using assms(2) by (simp add: rx_epoch_skip)
  then show ?thesis using assms(1) by (simp add: rx_vra_no_dash)
qed

lemma drop_to_dash:
  assumes "CHR ''-'' \<notin> set v" "CHR ''-'' \<notin> set u" "drop d (v @ CHR ''-'' # u) = CHR ''-'' # t"
  shows "t = u"
proof (cases "d \<le> length v")
  case True
  then have "drop d v @ CHR ''-'' # u = CHR ''-'' # t" using assms(3) by simp
  then show ?thesis using assms(1) in_set_dropD [of "CHR ''-''" d v] by (cases "drop d v") auto
next
  case False
  then have "drop (d - Suc (length v)) u = CHR ''-'' # t"
    using assms(3) by (simp add: Suc_diff_Suc drop_Cons' split: if_splits)
  then have "CHR ''-'' \<in> set u" by (metis in_set_dropD list.set_intros(1))
  then show ?thesis using assms(2) by simp
qed

lemma wf_name:
  assumes "nevra_wf n"
  shows "nv_name n \<noteq> []" "\<forall>x\<in>set (nv_name n). name_char x" "CHR '':'' \<notin> set (nv_name n)"
  using assms by (auto simp: nevra_wf_def list_all_iff name_char_def)

lemma not_in_class:
  "\<not> ver_char CHR ''-''" "\<not> ver_char CHR '':''" "\<not> arch_char CHR ''-''" "\<not> arch_char CHR '':''"
  by (auto simp: ver_char_def arch_char_def is_digit_def less_eq_char_def)

lemma wf_no_sep:
  assumes "nevra_wf n"
  shows "CHR ''-'' \<notin> set (nv_version n)" "CHR '':'' \<notin> set (nv_version n)"
    "CHR ''-'' \<notin> set (nv_release n)" "CHR '':'' \<notin> set (nv_release n)"
    "CHR ''-'' \<notin> set (nv_arch n)" "CHR '':'' \<notin> set (nv_arch n)"
  using assms not_in_class by (auto simp: nevra_wf_def list_all_iff)

lemma epoch_skip_at_name:
  assumes wf: "nevra_wf n"
  shows "rx (rx_epoch k m) (i, nv_name n @ CHR ''-'' # t) cs kont = kont (i, nv_name n @ CHR ''-'' # t) cs"
proof (rule rx_epoch_skip)
  have "takeWhile (\<lambda>c. c \<noteq> CHR ''-'') (nv_name n @ CHR ''-'' # t)
        = takeWhile (\<lambda>c. c \<noteq> CHR ''-'') (nv_name n)"
    by (simp add: takeWhile_tail)
  then show "CHR '':'' \<notin> set (takeWhile (\<lambda>c. c \<noteq> CHR ''-'') (nv_name n @ CHR ''-'' # t))"
    using wf_name(3) [OF wf] by (auto dest: set_takeWhileD)
qed simp

lemma match_with_epoch:
  assumes wf: "nevra_wf n" and e: "e \<noteq> []" "\<forall>x\<in>set e. is_digit x"
  shows "find_submatch nevra_regex (nv_name n @ CHR ''-'' # e @ CHR '':'' # nv_version n @
           CHR ''-'' # nv_release n @ CHR ''.'' # nv_arch n)
    = Some ((0, nv_name n @ CHR ''-'' # e @ CHR '':'' # nv_version n @
           CHR ''-'' # nv_release n @ CHR ''.'' # nv_arch n) #
      [(8, nv_arch n), (7, nv_release n), (6, nv_version n), (4, e @ '':''), (5, e), (3, nv_name n)])"
proof (rule find_submatch_at_start, unfold nevra_regex_eq rx.simps(3,5) epoch_skip_at_name [OF wf],
    rule many_sep, goal_cases)
  case 1
  show ?case using wf_name(1) [OF wf] by (cases "nv_name n") auto
next
  case 2
  show ?case by (rule wf_name(2) [OF wf])
next
  case 3
  show ?case using e(2) digit_facts by blast
next
  case (4 j s')
  then show ?case by (cases s') auto
next
  case 5
  have "rx (Seq (rx_epoch 4 5) rx_vra) (length (nv_name n) + 1, e @ CHR '':'' # nv_version n @
          CHR ''-'' # nv_release n @ CHR ''.'' # nv_arch n) [(3, nv_name n)]
          (\<lambda>(j, t) cs. Some ((0, take j (nv_name n @ CHR ''-'' # e @ CHR '':'' # nv_version n @
           CHR ''-'' # nv_release n @ CHR ''.'' # nv_arch n)) # cs))
        = Some ((0, nv_name n @ CHR ''-'' # e @ CHR '':'' # nv_version n @
           CHR ''-'' # nv_release n @ CHR ''.'' # nv_arch n) #
      [(8, nv_arch n), (7, nv_release n), (6, nv_version n), (4, e @ '':''), (5, e), (3, nv_name n)])"
    unfolding rx.simps(3)
    by (rule rx_epoch_match [OF e], rule rx_vra_match)
      (use wf in \<open>simp_all add: nevra_wf_def\<close>)
  then show ?case by simp
next
  case 6
  show ?case by (simp add: name_char_def)
qed

lemma match_without_epoch:
  assumes wf: "nevra_wf n"
  shows "find_submatch nevra_regex (nv_name n @ CHR ''-'' # nv_version n @ CHR ''-'' # nv_release n @
       CHR ''.'' # nv_arch n)
    = Some ((0, nv_name n @ CHR ''-'' # nv_version n @ CHR ''-'' # nv_release n @
       CHR ''.'' # nv_arch n) #
      [(8, nv_arch n), (7, nv_release n), (6, nv_version n), (3, nv_name n)])"
    (is "find_submatch _ ?s = Some ?cs")
proof (rule find_submatch_at_start, unfold nevra_regex_eq rx.simps(3,5) epoch_skip_at_name [OF wf]
    rx.simps(2), rule try_down_hit [where j = "length (nv_name n)"], goal_cases)
  case 1
  show ?case using wf_name(1) [OF wf] by (cases "nv_name n") auto
next
  case 2
  show ?case using wf_name(2) [OF wf] by (simp add: list_all_takeWhile_all)
next
  case 3
  let ?w = "nv_version n @ CHR ''-'' # nv_release n @ CHR ''.'' # nv_arch n"
  have nocolon: "CHR '':'' \<notin> set ?w"
    using wf_no_sep [OF wf] by simp
  have "rx (Seq (rx_epoch 4 5) rx_vra) (length (nv_name n) + 1, ?w) [(3, nv_name n)]
          (\<lambda>(j, t) cs. Some ((0, take j ?s) # cs)) = Some ?cs"
    unfolding rx.simps(3)
  proof (subst rx_epoch_skip, goal_cases)
    case 1
    show ?case using nocolon by (meson set_takeWhileD)
  next
    case 2
    show ?case using nocolon by simp
  next
    case 3
    show ?case by (rule rx_vra_match) (use wf in \<open>simp_all add: nevra_wf_def\<close>)
  qed
  then show ?case by simp
next
  case (4 m)
  let ?u = "nv_release n @ CHR ''.'' # nv_arch n"
  have nd: "CHR ''-'' \<notin> set (nv_version n)" "CHR ''-'' \<notin> set ?u" "CHR '':'' \<notin> set ?u"
    using wf_no_sep [OF wf] by simp_all
  define d where "d = m - Suc (length (nv_name n))"
  have m: "m = length (nv_name n) + Suc d" using 4(1) by (simp add: d_def)
  show ?case
  proof (cases "drop m ?s")
    case (Cons x t)
    show ?thesis
    proof (cases "x = CHR ''-''")
      case True
      then have "drop d (nv_version n @ CHR ''-'' # ?u) = CHR ''-'' # t"
        using Cons m by simp
      then have "t = ?u" by (rule drop_to_dash [OF nd(1,2)])
      then have "rx (Seq (rx_epoch 4 5) rx_vra) (Suc m, t) [(3, take m ?s)] k = None" for k
        using nd by (intro rx_rest_last_dash) auto
      then show ?thesis using Cons True by (simp del: take_append drop_append)
    qed (use Cons in simp)
  qed simp
qed

section \<open>Round trips\<close>

lemma nevra_fields:
  "\<lparr>nv_name = nv_name n, nv_epoch = nv_epoch n, nv_version = nv_version n,
     nv_release = nv_release n, nv_arch = nv_arch n\<rparr> = n"
  by simp

lemma parse_epoch_form:
  assumes "nevra_wf n"
  shows "parse_nevra (string_e n True) = Inr n"
proof -
  have e: "show_int (nv_epoch n) = show_nat (nat (nv_epoch n))"
    using assms by (simp add: show_int_def nevra_wf_def)
  have s: "string_e n True = nv_name n @ CHR ''-'' # show_int (nv_epoch n) @ CHR '':'' # nv_version n @
           CHR ''-'' # nv_release n @ CHR ''.'' # nv_arch n"
    by (simp add: string_e_def)
  have a: "go_atoi (show_int (nv_epoch n)) = Some (nv_epoch n)"
    using assms go_atoi_show_nat [of "nat (nv_epoch n)"] by (simp add: e nevra_wf_def nat_less_iff)
  have "find_submatch nevra_regex (string_e n True)
    = Some [(0, string_e n True), (8, nv_arch n), (7, nv_release n), (6, nv_version n),
            (4, show_int (nv_epoch n) @ '':''), (5, show_int (nv_epoch n)), (3, nv_name n)]"
    unfolding s by (rule match_with_epoch [OF assms]) (simp_all add: e show_nat_digits)
  then show ?thesis
    using a by (simp add: parse_nevra_def group_def e nevra_fields del: nevra.surjective)
qed

lemma parse_short_form:
  assumes "nevra_wf n"
  shows "parse_nevra (nevra_string n) = Inr n"
proof (cases "nv_epoch n = 0")
  case True
  then have s: "nevra_string n = nv_name n @ CHR ''-'' # nv_version n @ CHR ''-'' # nv_release n @
       CHR ''.'' # nv_arch n"
    by (simp add: nevra_string_def string_e_def)
  show ?thesis
    using match_without_epoch [OF assms, folded s] True
    by (simp add: parse_nevra_def group_def nevra_fields [of n, unfolded True] del: nevra.surjective)
next
  case False
  then have "nevra_string n = string_e n True" by (simp add: nevra_string_def string_e_def)
  then show ?thesis using parse_epoch_form [OF assms] by simp
qed

section \<open>What the parser accepts\<close>

lemma grp_many_sound:
  assumes "rx (Grp g (Many lo p)) (i, s) cs k = Some r"
  obtains u t where "s = u @ t" "lo \<le> length u" "list_all p u" "k (i + length u, t) ((g, u) # cs) = Some r"
proof -
  have "try_down lo (length (takeWhile p s)) (\<lambda>n. k (i + n, drop n s) ((g, take n s) # cs)) = Some r"
    using assms by (simp only: rx.simps prod.case add_diff_cancel_left')
  from try_down_cases [OF this] obtain n where n: "lo \<le> n" "n \<le> length (takeWhile p s)"
    "k (i + n, drop n s) ((g, take n s) # cs) = Some r"
    by blast
  have len: "length (take n s) = n" using n(2) length_takeWhile_le [of p s] by simp
  have "set (take n s) \<subseteq> set (takeWhile p s)"
    by (subst takeWhile_eq_take) (rule set_take_subset_set_take [OF n(2)])
  then have "list_all p (take n s)" unfolding list_all_iff by (meson set_takeWhileD subsetD)
  show thesis
  proof (rule that)
    show "s = take n s @ drop n s" by simp
    show "lo \<le> length (take n s)" using n(1) by (simp only: len)
    show "list_all p (take n s)" by fact
    show "k (i + length (take n s), drop n s) ((g, take n s) # cs) = Some r" using n(3) by (simp only: len)
  qed
qed

lemma chars_sound:
  assumes "rx (Chars p) (i, s) cs k = Some r"
  obtains x t where "s = x # t" "p x" "k (Suc i, t) cs = Some r"
  using assms by (cases s) (auto split: if_splits)

lemma seq_chars_sound:
  assumes "rx (Seq (Chars (\<lambda>c. c = d)) b) (i, s) cs k = Some r"
  obtains t where "s = d # t" "rx b (Suc i, t) cs k = Some r"
  using assms by (cases s) (auto split: if_splits)

text \<open>What an optional epoch leaves in the captures: nothing, or digits under its two groups.\<close>

definition epoch_caps :: "nat \<Rightarrow> nat \<Rightarrow> captures \<Rightarrow> bool" where
  "epoch_caps n m e \<longleftrightarrow> e = [] \<or> (\<exists>w d. e = [(n, w), (m, d)] \<and> d \<noteq> [] \<and> list_all is_digit d)"

lemma rx_epoch_sound:
  assumes "rx (rx_epoch n m) (i, s) cs k = Some r"
  obtains e j t where "epoch_caps n m e" "k (j, t) (e @ cs) = Some r"
proof (cases "rx (Grp n (Seq (Grp m (Many 1 is_digit)) (Chars (\<lambda>c. c = CHR '':'')))) (i, s) cs k")
  case None
  then have "k (i, s) cs = Some r" using assms by (simp only: rx_epoch_def rx.simps option.case)
  then show thesis by (intro that [of "[]"]) (simp_all add: epoch_caps_def)
next
  case (Some r')
  then have eq: "r' = r" using assms by (simp only: rx_epoch_def rx.simps option.case option.inject)
  have "rx (Grp m (Many 1 is_digit)) (i, s) cs (\<lambda>st' cs'. rx (Chars (\<lambda>c. c = CHR '':'')) st' cs'
      (\<lambda>(j, s') cs'. k (j, s') ((n, take (j - i) s) # cs'))) = Some r"
    using Some by (simp only: rx.simps(3,5) eq)
  then obtain u t where u: "1 \<le> length u" "list_all is_digit u"
    "rx (Chars (\<lambda>c. c = CHR '':'')) (i + length u, t) ((m, u) # cs)
      (\<lambda>(j, s') cs'. k (j, s') ((n, take (j - i) s) # cs')) = Some r"
    by (rule grp_many_sound) blast
  from u(3) obtain x t' where x: "(\<lambda>(j, s') cs'. k (j, s') ((n, take (j - i) s) # cs')) (Suc (i + length u), t')
      ((m, u) # cs) = Some r"
    by (rule chars_sound) blast
  have "epoch_caps n m [(n, take (Suc (i + length u) - i) s), (m, u)]"
    using u(1,2) by (auto simp: epoch_caps_def)
  then show thesis by (rule that) (use x in simp)
qed

lemma rx_vra_sound:
  assumes "rx rx_vra (i, s) cs k = Some r"
  obtains v l a j t where "list_all ver_char v" "list_all ver_char l" "list_all arch_char a"
    "k (j, t) ((8, a) # (7, l) # (6, v) # cs) = Some r"
proof -
  let ?k8 = "\<lambda>st' cs'. rx (Seq (Chars (\<lambda>c. c = CHR ''.'')) (Grp 8 (Many 0 arch_char))) st' cs' k"
  let ?k7 = "\<lambda>st' cs'. rx (Seq (Chars (\<lambda>c. c = CHR ''-'')) (Seq (Grp 7 (Many 0 ver_char))
      (Seq (Chars (\<lambda>c. c = CHR ''.'')) (Grp 8 (Many 0 arch_char))))) st' cs' k"
  have "rx (Grp 6 (Many 0 ver_char)) (i, s) cs ?k7 = Some r"
    using assms by (simp only: rx_vra_def rx.simps(3))
  then obtain v t1 where v: "list_all ver_char v" "?k7 (i + length v, t1) ((6, v) # cs) = Some r"
    by (rule grp_many_sound) blast
  from v(2) obtain t2 where "rx (Seq (Grp 7 (Many 0 ver_char)) (Seq (Chars (\<lambda>c. c = CHR ''.''))
      (Grp 8 (Many 0 arch_char)))) (Suc (i + length v), t2) ((6, v) # cs) k = Some r"
    by (rule seq_chars_sound) blast
  then have "rx (Grp 7 (Many 0 ver_char)) (Suc (i + length v), t2) ((6, v) # cs) ?k8 = Some r"
    by (simp only: rx.simps(3))
  then obtain l t3 j3 where l: "list_all ver_char l" "?k8 (j3, t3) ((7, l) # (6, v) # cs) = Some r"
    by (rule grp_many_sound) blast
  from l(2) obtain t4 j4 where "rx (Grp 8 (Many 0 arch_char)) (j4, t4) ((7, l) # (6, v) # cs) k = Some r"
    by (rule seq_chars_sound) blast
  then obtain a j t where "list_all arch_char a" "k (j, t) ((8, a) # (7, l) # (6, v) # cs) = Some r"
    by (rule grp_many_sound) blast
  with v(1) l(1) show thesis by (rule that)
qed

definition nevra_caps :: "captures \<Rightarrow> bool" where
  "nevra_caps cs \<longleftrightarrow> (\<exists>w a l v e2 name e1.
     cs = (0, w) # (8, a) # (7, l) # (6, v) # e2 @ (3, name) # e1
   \<and> list_all arch_char a \<and> list_all ver_char l \<and> list_all ver_char v \<and> epoch_caps 4 5 e2
   \<and> name \<noteq> [] \<and> list_all name_char name \<and> epoch_caps 1 2 e1)"

lemma nevra_match_sound:
  assumes "rx nevra_regex (i, s) [] (\<lambda>(j, t) cs. Some ((0, f j) # cs)) = Some cs"
  shows "nevra_caps cs"
proof -
  let ?k = "\<lambda>(j, t) cs. Some ((0, f j) # cs)"
  let ?k4 = "\<lambda>st' cs'. rx (Seq (rx_epoch 4 5) rx_vra) st' cs' ?k"
  let ?k3 = "\<lambda>st' cs'. rx (Seq (Chars (\<lambda>c. c = CHR ''-'')) (Seq (rx_epoch 4 5) rx_vra)) st' cs' ?k"
  have "rx (rx_epoch 1 2) (i, s) [] (\<lambda>st' cs'. rx (Grp 3 (Many 1 name_char)) st' cs' ?k3) = Some cs"
    using assms by (simp only: nevra_regex_eq rx.simps(3))
  then obtain e1 j1 t1 where e1: "epoch_caps 1 2 e1"
    "rx (Grp 3 (Many 1 name_char)) (j1, t1) (e1 @ []) ?k3 = Some cs"
    by (rule rx_epoch_sound) blast
  from e1(2) obtain name j2 t2 where n: "1 \<le> length name" "list_all name_char name"
    "?k3 (j2, t2) ((3, name) # e1 @ []) = Some cs"
    by (rule grp_many_sound) blast
  from n(3) obtain j3 t3 where "rx (Seq (rx_epoch 4 5) rx_vra) (j3, t3) ((3, name) # e1 @ []) ?k = Some cs"
    by (rule seq_chars_sound) blast
  then have "rx (rx_epoch 4 5) (j3, t3) ((3, name) # e1 @ []) (\<lambda>st' cs'. rx rx_vra st' cs' ?k) = Some cs"
    by (simp only: rx.simps(3))
  then obtain e2 j4 t4 where e2: "epoch_caps 4 5 e2" "rx rx_vra (j4, t4) (e2 @ (3, name) # e1 @ []) ?k = Some cs"
    by (rule rx_epoch_sound) blast
  from e2(2) obtain v l a j t where "list_all ver_char v" "list_all ver_char l" "list_all arch_char a"
    "Some ((0, f j) # (8, a) # (7, l) # (6, v) # e2 @ (3, name) # e1 @ []) = Some cs"
    by (rule rx_vra_sound) (unfold prod.case, blast)
  then show ?thesis using e1(1) n(1,2) e2(1) unfolding nevra_caps_def by fastforce
qed

lemma rx_find_nevra: "rx_find nevra_regex i s = Some cs \<Longrightarrow> nevra_caps cs"
proof (induction s arbitrary: i)
  case Nil
  then show ?case
    using nevra_match_sound [of i "[]" "\<lambda>j. take (j - i) []" cs]
    by (simp add: rx_find.simps [of _ i] split: option.splits)
next
  case (Cons x s)
  show ?case
  proof (cases "rx nevra_regex (i, x # s) [] (\<lambda>(j, t) cs. Some ((0, take (j - i) (x # s)) # cs))")
    case None
    then show ?thesis using Cons by (simp add: rx_find.simps [of _ i "x # s"])
  next
    case (Some cs')
    then have "cs' = cs" using Cons.prems by (simp add: rx_find.simps [of _ i "x # s"])
    then show ?thesis using nevra_match_sound [OF Some] by simp
  qed
qed

lemma atoi_digits_nonneg: "d \<noteq> [] \<Longrightarrow> list_all is_digit d \<Longrightarrow> go_atoi d = Some e \<Longrightarrow> 0 \<le> e"
  using is_digit_not_sign
  by (auto simp: go_atoi_def Let_def neq_Nil_conv split: if_splits option.splits)

lemma parse_nevra_wf:
  assumes "parse_nevra s = Inr n"
  shows "nevra_wf n \<and> (s = string_e n True \<or> s = nevra_string n)"
proof -
  obtain cs where cs: "find_submatch nevra_regex s = Some cs"
    using assms by (auto simp: parse_nevra_def split: option.splits)
  then obtain w a l v e2 name e1 where c: "cs = (0, w) # (8, a) # (7, l) # (6, v) # e2 @ (3, name) # e1"
    "list_all arch_char a" "list_all ver_char l" "list_all ver_char v" "epoch_caps 4 5 e2"
    "name \<noteq> []" "list_all name_char name" "epoch_caps 1 2 e1"
    using rx_find_nevra unfolding find_submatch_def nevra_caps_def by blast
  have digits: "group cs 2 = [] \<or> list_all is_digit (group cs 2)" "group cs 5 = [] \<or> list_all is_digit (group cs 5)"
    using c(5,8) by (auto simp: c(1) group_def epoch_caps_def)
  have g: "group cs 3 = name" "group cs 6 = v" "group cs 7 = l" "group cs 8 = a"
    using c(5) by (auto simp: c(1) group_def epoch_caps_def)
  have e: "0 \<le> nv_epoch n \<and> nv_epoch n < 2 ^ 63"
    using assms digits atoi_digits_nonneg go_atoi_range
    by (auto simp: parse_nevra_def cs Let_def in_int64_def split: if_splits option.splits)
  have n: "nv_name n = name" "nv_version n = v" "nv_release n = l" "nv_arch n = a"
    "s = string_e n True \<or> s = nevra_string n"
    using assms by (auto simp: parse_nevra_def cs Let_def g split: if_splits option.splits)
  show ?thesis using n e c by (simp add: nevra_wf_def)
qed

text \<open>C34.  The parser accepts exactly the two printed forms of a well-formed NEVRA (with the
  epoch, and without it when it is zero) and gives back the NEVRA that was printed.\<close>

theorem parse_nevra_exact:
  "parse_nevra s = Inr n \<longleftrightarrow> nevra_wf n \<and> (s = string_e n True \<or> s = nevra_string n)"
  using parse_nevra_wf parse_epoch_form parse_short_form by blast

end
