(* ===== verification/Models.thy ===== *)
theory Models
  imports GoStrings
begin

text \<open>
  The database models of \<open>base/models/models.go\<close>, one record per table the
  modelled components read or write.  Keys and foreign keys are \<open>int\<close>, UUIDs
  their canonical text, time stamps \<open>int\<close> (nanoseconds); pointers are options.
  A join with \<open>advisory_metadata\<close> (gorm's \<open>Preload\<close>) embeds its row.
\<close>

type_synonym uuid = string
type_synonym timestamp = int

record system_inventory =
  si_id :: int
  si_inventory_id :: uuid
  si_account :: int
  si_vmaas_json :: "string option"
  si_json_checksum :: "string option"
  si_last_updated :: "timestamp option"
  si_unchanged_since :: "timestamp option"
  si_last_upload :: "timestamp option"
  si_stale :: bool
  si_display_name :: string
  si_reporter_id :: "int option"
  si_yum_updates :: string
  si_yum_checksum :: "string option"
  si_satellite_managed :: bool
  si_built_pkgcache :: bool
  si_arch :: "string option"
  si_bootc :: bool
  si_tags :: string
  si_created :: timestamp
  si_workspace_id :: "uuid option"
  si_workspace_name :: "string option"
  si_stale_timestamp :: "timestamp option"
  si_stale_warning_timestamp :: "timestamp option"
  si_culled_timestamp :: "timestamp option"
  si_os_name :: "string option"
  si_os_major :: "int option"
  si_os_minor :: "int option"
  si_rhsm_version :: "string option"
  si_subscription_manager_id :: "uuid option"
  si_sap_workload :: bool
  si_sap_workload_sids :: "string list"
  si_ansible_workload :: bool
  si_ansible_workload_controller_version :: "string option"
  si_mssql_workload :: bool
  si_mssql_workload_version :: "string option"
  si_crowdstrike_workload :: bool
  si_ibm_db2_workload :: bool
  si_intersystems_workload :: bool
  si_oracle_db_workload :: bool
  si_rhel_ai_workload :: bool
  si_satellite_workload :: bool

record system_patch =
  sp_system_id :: int
  sp_account :: int
  sp_last_evaluation :: "timestamp option"
  sp_installable :: int
  sp_installable_enh :: int
  sp_installable_bug :: int
  sp_installable_sec :: int
  sp_packages_installed :: int
  sp_packages_installable :: int
  sp_packages_applicable :: int
  sp_third_party :: bool
  sp_applicable :: int
  sp_applicable_enh :: int
  sp_applicable_bug :: int
  sp_applicable_sec :: int
  sp_template_id :: "int option"

record system_platform =
  pl_inventory :: system_inventory
  pl_patch :: system_patch

record advisory_metadata =
  am_id :: int
  am_name :: string
  am_description :: string
  am_synopsis :: string
  am_summary :: string
  am_solution :: "string option"
  am_type_id :: int
  am_public_date :: "timestamp option"
  am_modified_date :: "timestamp option"
  am_url :: "string option"
  am_severity_id :: "int option"
  am_package_data :: "string list"
  am_cve_list :: "string list"
  am_reboot_required :: bool
  am_release_versions :: "string list"
  am_synced :: bool

record system_advisory =
  sa_account :: int
  sa_system :: int
  sa_advisory_id :: int
  sa_advisory :: advisory_metadata
  sa_status :: int

record advisory_account_data =
  aad_advisory_id :: int
  aad_account :: int
  aad_applicable :: int
  aad_installable :: int
  aad_notified :: "timestamp option"

record system_package =
  pk_account :: int
  pk_system :: int
  pk_package_id :: int
  pk_name_id :: int
  pk_installable_id :: "int option"
  pk_applicable_id :: "int option"

record template_advisory =
  ta_account :: int
  ta_template_id :: int
  ta_advisory_id :: int
  ta_advisory :: advisory_metadata

definition nil_uuid :: uuid where
  "nil_uuid = ''00000000-0000-0000-0000-000000000000''"

definition zero_advisory :: advisory_metadata where
  "zero_advisory = \<lparr>am_id = 0, am_name = [], am_description = [], am_synopsis = [], am_summary = [],
     am_solution = None, am_type_id = 0, am_public_date = None, am_modified_date = None,
     am_url = None, am_severity_id = None, am_package_data = [], am_cve_list = [],
     am_reboot_required = False, am_release_versions = [], am_synced = False\<rparr>"

definition zero_inventory :: system_inventory where
  "zero_inventory = \<lparr>si_id = 0, si_inventory_id = nil_uuid, si_account = 0, si_vmaas_json = None,
     si_json_checksum = None, si_last_updated = None, si_unchanged_since = None, si_last_upload = None,
     si_stale = False, si_display_name = [], si_reporter_id = None, si_yum_updates = [],
     si_yum_checksum = None, si_satellite_managed = False, si_built_pkgcache = False, si_arch = None,
     si_bootc = False, si_tags = [], si_created = 0, si_workspace_id = None, si_workspace_name = None,
     si_stale_timestamp = None, si_stale_warning_timestamp = None, si_culled_timestamp = None,
     si_os_name = None, si_os_major = None, si_os_minor = None, si_rhsm_version = None,
     si_subscription_manager_id = None, si_sap_workload = False, si_sap_workload_sids = [],
     si_ansible_workload = False, si_ansible_workload_controller_version = None,
     si_mssql_workload = False, si_mssql_workload_version = None, si_crowdstrike_workload = False,
     si_ibm_db2_workload = False, si_intersystems_workload = False, si_oracle_db_workload = False,
     si_rhel_ai_workload = False, si_satellite_workload = False\<rparr>"

definition zero_patch :: system_patch where
  "zero_patch = \<lparr>sp_system_id = 0, sp_account = 0, sp_last_evaluation = None, sp_installable = 0,
     sp_installable_enh = 0, sp_installable_bug = 0, sp_installable_sec = 0, sp_packages_installed = 0,
     sp_packages_installable = 0, sp_packages_applicable = 0, sp_third_party = False, sp_applicable = 0,
     sp_applicable_enh = 0, sp_applicable_bug = 0, sp_applicable_sec = 0, sp_template_id = None\<rparr>"

text \<open>\<open>GetInventoryID\<close> and \<open>InternalSystemID\<close>: the zero value for a nil system.\<close>

definition get_inventory_id :: "system_platform option \<Rightarrow> uuid" where
  "get_inventory_id v = (case v of None \<Rightarrow> nil_uuid | Some s \<Rightarrow> si_inventory_id (pl_inventory s))"

end
