(* ===== verification/PackageCache.thy ===== *)
theory PackageCache
  imports Nevra Models "HOL-Library.Monad_Syntax"
begin

text \<open>
  The evaluator's in-memory package cache (\<open>evaluator/package_cache.go\<close>) in front of the
  tables \<open>package\<close> and \<open>package_name\<close>.  The LRU caches are a third-party package: their
  operations are a parameter (\<open>lru_ops\<close>) and \<open>lru_ok\<close> is what the program relies on, namely
  that a cache only ever answers what was put under that key (it may forget at any
  time).  A database read that fails panics; a panic is \<open>None\<close>.
\<close>

section \<open>Packages in the database\<close>

record package_meta =
  pm_id :: int
  pm_name_id :: int
  pm_name :: string
  pm_evra :: string
  pm_summary :: "string option"
  pm_description :: "string option"

record package_row =
  pr_id :: int
  pr_name_id :: int
  pr_evra :: string
  pr_summary :: "string option"
  pr_description :: "string option"

record package_db =
  d_names :: "(int \<times> string) list"
  d_packages :: "package_row list"
  d_next_name :: int
  d_next_package :: int
  d_down :: bool

text \<open>\<open>package p JOIN package_name pn ON p.name_id = pn.id\<close>, the columns the cache selects.\<close>

definition pkg_view :: "package_db \<Rightarrow> package_meta list" where
  "pkg_view db = concat (map (\<lambda>p. map (\<lambda>(i, name). \<lparr>pm_id = pr_id p, pm_name_id = i, pm_name = name,
       pm_evra = pr_evra p, pm_summary = pr_summary p, pm_description = pr_description p\<rparr>)
     (filter (\<lambda>(i, name). i = pr_name_id p) (d_names db))) (d_packages db))"

text \<open>\<open>ORDER BY evra DESC\<close> and \<open>Take\<close>: the first row with the greatest text.\<close>

fun top_evra :: "package_meta list \<Rightarrow> package_meta option" where
  "top_evra [] = None"
| "top_evra (m # ms) =
     (case top_evra ms of None \<Rightarrow> Some m
      | Some t \<Rightarrow> if go_compare (pm_evra m) (pm_evra t) < 0 then Some t else Some m)"

definition read_package_from_db :: "package_db \<Rightarrow> (package_meta \<Rightarrow> bool) \<Rightarrow> bool \<Rightarrow> package_meta option option" where
  "read_package_from_db db cond by_evra =
     (if d_down db then None
      else Some (if by_evra then top_evra (filter cond (pkg_view db)) else find cond (pkg_view db)))"

definition read_packages_from_db :: "package_db \<Rightarrow> (package_meta \<Rightarrow> bool) \<Rightarrow> package_meta list option" where
  "read_packages_from_db db cond = (if d_down db then None else Some (filter cond (pkg_view db)))"

definition read_by_id :: "package_db \<Rightarrow> int \<Rightarrow> package_meta option option" where
  "read_by_id db i = read_package_from_db db (\<lambda>m. pm_id m = i) False"

definition read_by_nevra :: "package_db \<Rightarrow> string \<Rightarrow> package_meta option option" where
  "read_by_nevra db s =
     (case parse_nevra s of
        Inl _ \<Rightarrow> Some None
      | Inr n \<Rightarrow> read_package_from_db db (\<lambda>m. pm_name m = nv_name n \<and> pm_evra m = evra_string n) False)"

definition read_latest_by_name :: "package_db \<Rightarrow> string \<Rightarrow> package_meta option option" where
  "read_latest_by_name db name = read_package_from_db db (\<lambda>m. pm_name m = name) True"

definition read_name_by_id :: "package_db \<Rightarrow> int \<Rightarrow> package_meta option option" where
  "read_name_by_id db i = read_package_from_db db (\<lambda>m. pm_name_id m = i) True"

fun parse_all :: "string list \<Rightarrow> (string, nevra) gomap \<Rightarrow> (string, nevra) gomap" where
  "parse_all [] parsed = parsed"
| "parse_all (s # ss) parsed =
     (case parse_nevra s of Inl _ \<Rightarrow> parse_all ss parsed | Inr n \<Rightarrow> parse_all ss (gm_put s n parsed))"

text \<open>A key that does not parse never gets into \<open>parsed\<close>, so the test \<open>!invalid[nevra]\<close> of
  the code always holds there.\<close>

definition read_by_nevras :: "package_db \<Rightarrow> string list
    \<Rightarrow> (package_meta list \<times> (string, nevra) gomap) option" where
  "read_by_nevras db ss =
     (let parsed = parse_all ss [];
          nevras = map (\<lambda>(s, n). (nv_name n, evra_string n)) parsed
      in do {
        res \<leftarrow> read_packages_from_db db (\<lambda>m. (pm_name m, pm_evra m) \<in> set nevras);
        let res_nevras = map (\<lambda>m. pm_name m @ ''-'' @
              (if str_contains (pm_evra m) '':'' then pm_evra m else ''0:'' @ pm_evra m)) res;
        Some (res, filter (\<lambda>(s, n). s \<notin> set res_nevras) parsed)
      })"

section \<open>The caches\<close>

record ('c, 'k) lru_ops =
  lru_new :: "int \<Rightarrow> 'c option"
  lru_get :: "'c \<Rightarrow> 'k \<Rightarrow> package_meta option \<times> 'c"
  lru_peek :: "'c \<Rightarrow> 'k \<Rightarrow> package_meta option"
  lru_add :: "'c \<Rightarrow> 'k \<Rightarrow> package_meta \<Rightarrow> 'c"
  lru_contains_or_add :: "'c \<Rightarrow> 'k \<Rightarrow> package_meta \<Rightarrow> 'c"

definition lru_ok :: "('c, 'k) lru_ops \<Rightarrow> bool" where
  "lru_ok ops \<longleftrightarrow>
     (\<forall>n c k. lru_new ops n = Some c \<longrightarrow> lru_peek ops c k = None)
   \<and> (\<forall>c k. fst (lru_get ops c k) = lru_peek ops c k)
   \<and> (\<forall>c k k'. lru_peek ops (snd (lru_get ops c k)) k' = lru_peek ops c k')
   \<and> (\<forall>c k v k' w. lru_peek ops (lru_add ops c k v) k' = Some w \<longrightarrow>
        (if k' = k then w = v else lru_peek ops c k' = Some w))
   \<and> (\<forall>c k v k' w. lru_peek ops (lru_contains_or_add ops c k v) k' = Some w \<longrightarrow>
        (k' = k \<and> w = v) \<or> lru_peek ops c k' = Some w)"

record ('i, 's) cache_env =
  ce_ids :: "('i, int) lru_ops"
  ce_strings :: "('s, string) lru_ops"
  ce_vercmp :: "string \<Rightarrow> string \<Rightarrow> int"

record ('i, 's) package_cache =
  pc_enabled :: bool
  pc_preload :: bool
  pc_size :: int
  pc_name_size :: int
  pc_by_id :: "'i option"
  pc_by_nevra :: "'s option"
  pc_latest_by_name :: "'s option"
  pc_name_by_id :: "'i option"

text \<open>The four LRU pointers are nil in a disabled cache.  Creating an LRU with a bad size panics.\<close>

definition new_package_cache :: "('i, 's) cache_env \<Rightarrow> bool \<Rightarrow> bool \<Rightarrow> int \<Rightarrow> int \<Rightarrow> ('i, 's) package_cache option" where
  "new_package_cache env enabled preload sz name_sz =
     (if enabled then do {
        by_id \<leftarrow> lru_new (ce_ids env) sz;
        by_nevra \<leftarrow> lru_new (ce_strings env) sz;
        latest \<leftarrow> lru_new (ce_strings env) name_sz;
        names \<leftarrow> lru_new (ce_ids env) name_sz;
        Some \<lparr>pc_enabled = enabled, pc_preload = preload, pc_size = sz, pc_name_size = name_sz,
              pc_by_id = Some by_id, pc_by_nevra = Some by_nevra, pc_latest_by_name = Some latest,
              pc_name_by_id = Some names\<rparr> }
      else Some \<lparr>pc_enabled = enabled, pc_preload = preload, pc_size = sz, pc_name_size = name_sz,
              pc_by_id = None, pc_by_nevra = None, pc_latest_by_name = None, pc_name_by_id = None\<rparr>)"

section \<open>Adding\<close>

definition add_by_id :: "('i, 's) cache_env \<Rightarrow> package_meta \<Rightarrow> ('i, 's) package_cache \<Rightarrow> ('i, 's) package_cache option" where
  "add_by_id env pkg c = do {
     l \<leftarrow> pc_by_id c;
     Some (c\<lparr>pc_by_id := Some (lru_add (ce_ids env) l (pm_id pkg) pkg)\<rparr>) }"

definition add_by_nevra :: "('i, 's) cache_env \<Rightarrow> package_meta \<Rightarrow> ('i, 's) package_cache \<Rightarrow> ('i, 's) package_cache option" where
  "add_by_nevra env pkg c = do {
     l \<leftarrow> pc_by_nevra c;
     Some (c\<lparr>pc_by_nevra := Some (lru_add (ce_strings env) l
       (nevra_string_e (pm_name pkg) (pm_evra pkg) True) pkg)\<rparr>) }"

definition add_latest_by_name :: "('i, 's) cache_env \<Rightarrow> package_meta \<Rightarrow> ('i, 's) package_cache \<Rightarrow> ('i, 's) package_cache option" where
  "add_latest_by_name env pkg c = do {
     l \<leftarrow> pc_latest_by_name c;
     let newer = (case lru_peek (ce_strings env) l (pm_name pkg) of
                    None \<Rightarrow> True
                  | Some latest \<Rightarrow> ce_vercmp env (pm_evra pkg) (pm_evra latest) > 0);
     Some (if newer then c\<lparr>pc_latest_by_name := Some (lru_add (ce_strings env) l (pm_name pkg) pkg)\<rparr> else c) }"

definition add_name_by_id :: "('i, 's) cache_env \<Rightarrow> package_meta \<Rightarrow> ('i, 's) package_cache \<Rightarrow> ('i, 's) package_cache option" where
  "add_name_by_id env pkg c = do {
     l \<leftarrow> pc_name_by_id c;
     Some (c\<lparr>pc_name_by_id := Some (lru_contains_or_add (ce_ids env) l (pm_name_id pkg) pkg)\<rparr>) }"

definition cache_add :: "('i, 's) cache_env \<Rightarrow> package_meta \<Rightarrow> ('i, 's) package_cache \<Rightarrow> ('i, 's) package_cache option" where
  "cache_add env pkg c = do {
     c \<leftarrow> add_by_id env pkg c;
     c \<leftarrow> add_by_nevra env pkg c;
     c \<leftarrow> add_latest_by_name env pkg c;
     add_name_by_id env pkg c }"

fun cache_add_all :: "('i, 's) cache_env \<Rightarrow> package_meta list \<Rightarrow> ('i, 's) package_cache \<Rightarrow> ('i, 's) package_cache option" where
  "cache_add_all env [] c = Some c"
| "cache_add_all env (m # ms) c = do { c' \<leftarrow> cache_add env m c; cache_add_all env ms c' }"

text \<open>\<open>Load\<close>: the \<open>size\<close> newest rows, by descending id.\<close>

definition cache_load :: "('i, 's) cache_env \<Rightarrow> package_db \<Rightarrow> ('i, 's) package_cache \<Rightarrow> ('i, 's) package_cache option" where
  "cache_load env db c =
     (if \<not> pc_enabled c \<or> \<not> pc_preload c then Some c
      else if d_down db then None
      else cache_add_all env (take (nat (pc_size c)) (rev (sort_key pm_id (pkg_view db)))) c)"

section \<open>Lookups\<close>

text \<open>The four lookups have one shape: try the cache, then the database; a row found
  there is cached and returned, but only when the cache is enabled.\<close>

definition cached_get :: "('c \<Rightarrow> bool) \<Rightarrow> ('c \<Rightarrow> 'k \<Rightarrow> (package_meta option \<times> 'c) option)
    \<Rightarrow> ('k \<Rightarrow> package_meta option option) \<Rightarrow> (package_meta \<Rightarrow> 'c \<Rightarrow> 'c option)
    \<Rightarrow> 'c \<Rightarrow> 'k \<Rightarrow> (package_meta option \<times> 'c) option" where
  "cached_get enabled hit read add c k = do {
     (val, c) \<leftarrow> (if enabled c then hit c k else Some (None, c));
     (case val of
        Some v \<Rightarrow> Some (Some v, c)
      | None \<Rightarrow> do {
          metadata \<leftarrow> read k;
          (case metadata of
             Some m \<Rightarrow> if enabled c then do { c \<leftarrow> add m c; Some (Some m, c) } else Some (None, c)
           | None \<Rightarrow> Some (None, c)) }) }"

definition hit_by_id :: "('i, 's) cache_env \<Rightarrow> ('i, 's) package_cache \<Rightarrow> int
    \<Rightarrow> (package_meta option \<times> ('i, 's) package_cache) option" where
  "hit_by_id env c i = do {
     l \<leftarrow> pc_by_id c;
     let (v, l) = lru_get (ce_ids env) l i;
     Some (v, c\<lparr>pc_by_id := Some l\<rparr>) }"

definition hit_by_nevra :: "('i, 's) cache_env \<Rightarrow> ('i, 's) package_cache \<Rightarrow> string
    \<Rightarrow> (package_meta option \<times> ('i, 's) package_cache) option" where
  "hit_by_nevra env c s = do {
     l \<leftarrow> pc_by_nevra c;
     let (v, l) = lru_get (ce_strings env) l s;
     Some (v, c\<lparr>pc_by_nevra := Some l\<rparr>) }"

definition hit_latest_by_name :: "('i, 's) cache_env \<Rightarrow> ('i, 's) package_cache \<Rightarrow> string
    \<Rightarrow> (package_meta option \<times> ('i, 's) package_cache) option" where
  "hit_latest_by_name env c s = do {
     l \<leftarrow> pc_latest_by_name c;
     let (v, l) = lru_get (ce_strings env) l s;
     Some (v, c\<lparr>pc_latest_by_name := Some l\<rparr>) }"

definition hit_name_by_id :: "('i, 's) cache_env \<Rightarrow> ('i, 's) package_cache \<Rightarrow> int
    \<Rightarrow> (package_meta option \<times> ('i, 's) package_cache) option" where
  "hit_name_by_id env c i = do {
     l \<leftarrow> pc_name_by_id c;
     let (v, l) = lru_get (ce_ids env) l i;
     Some (v, c\<lparr>pc_name_by_id := Some l\<rparr>) }"

definition get_by_id :: "('i, 's) cache_env \<Rightarrow> package_db \<Rightarrow> ('i, 's) package_cache \<Rightarrow> int
    \<Rightarrow> (package_meta option \<times> ('i, 's) package_cache) option" where
  "get_by_id env db = cached_get pc_enabled (hit_by_id env) (read_by_id db) (cache_add env)"

definition get_by_nevra :: "('i, 's) cache_env \<Rightarrow> package_db \<Rightarrow> ('i, 's) package_cache \<Rightarrow> string
    \<Rightarrow> (package_meta option \<times> ('i, 's) package_cache) option" where
  "get_by_nevra env db = cached_get pc_enabled (hit_by_nevra env) (read_by_nevra db) (cache_add env)"

definition get_latest_by_name :: "('i, 's) cache_env \<Rightarrow> package_db \<Rightarrow> ('i, 's) package_cache \<Rightarrow> string
    \<Rightarrow> (package_meta option \<times> ('i, 's) package_cache) option" where
  "get_latest_by_name env db =
     cached_get pc_enabled (hit_latest_by_name env) (read_latest_by_name db) (cache_add env)"

definition get_name_by_id :: "('i, 's) cache_env \<Rightarrow> package_db \<Rightarrow> ('i, 's) package_cache \<Rightarrow> int
    \<Rightarrow> ((string \<times> bool) \<times> ('i, 's) package_cache) option" where
  "get_name_by_id env db c i = do {
     (m, c) \<leftarrow> cached_get pc_enabled (hit_name_by_id env) (read_name_by_id db) (cache_add env) c i;
     Some ((case m of None \<Rightarrow> ([], False) | Some m \<Rightarrow> (pm_name m, True)), c) }"

fun split_cached :: "('i, 's) cache_env \<Rightarrow> string list \<Rightarrow> ('i, 's) package_cache
    \<Rightarrow> package_meta list \<Rightarrow> string list \<Rightarrow> (package_meta list \<times> string list \<times> ('i, 's) package_cache) option" where
  "split_cached env [] c cached missing = Some (cached, missing, c)"
| "split_cached env (s # ss) c cached missing = do {
     (v, c) \<leftarrow> hit_by_nevra env c s;
     (case v of Some m \<Rightarrow> split_cached env ss c (cached @ [m]) missing
      | None \<Rightarrow> split_cached env ss c cached (missing @ [s])) }"

definition get_by_nevras :: "('i, 's) cache_env \<Rightarrow> package_db \<Rightarrow> ('i, 's) package_cache \<Rightarrow> string list
    \<Rightarrow> ((package_meta list \<times> (string, nevra) gomap \<times> bool) \<times> ('i, 's) package_cache) option" where
  "get_by_nevras env db c nevras = do {
     (cached, missing_cache, c) \<leftarrow>
        (if pc_enabled c then split_cached env nevras c [] [] else Some ([], [], c));
     if pc_enabled c \<and> missing_cache = [] then Some ((cached, [], True), c)
     else do {
       let missing_cache = (if missing_cache = [] then nevras else missing_cache);
       (metadata, missing_db) \<leftarrow> read_by_nevras db missing_cache;
       if pc_enabled c \<and> metadata @ cached \<noteq> []
       then do { c \<leftarrow> cache_add_all env metadata c; Some ((metadata @ cached, missing_db, True), c) }
       else if metadata \<noteq> [] then Some ((metadata, missing_db, True), c)
       else Some (([], missing_db, False), c) } }"

end
