(* ===== verification/PackageCacheLaws.thy ===== *)
theory PackageCacheLaws
  imports PackageCache
begin

text \<open>
  What the package cache promises while the tables behind it change: it never answers
  anything but a row that the database has held under the key, whatever the LRU caches
  evict, and an enabled cache answers with the identity (id, name and evra) the database
  has now as long as rows are only added or get other texts.  The four single lookups share
  the contract \<open>cached_lookup\<close>; \<open>cache_run\<close> is the life of a cache over a changing database.
\<close>

section \<open>Well-formed package tables\<close>

definition canonical :: "package_meta \<Rightarrow> bool" where
  "canonical m \<longleftrightarrow> (\<exists>n. nevra_wf n \<and> pm_name m = nv_name n \<and> pm_evra m = evra_string n)"

definition package_db_ok :: "package_db \<Rightarrow> bool" where
  "package_db_ok db \<longleftrightarrow>
     distinct (map pr_id (d_packages db)) \<and> distinct (map fst (d_names db)) \<and> distinct (map snd (d_names db))
   \<and> distinct (map (\<lambda>p. (pr_name_id p, pr_evra p)) (d_packages db))
   \<and> (\<forall>p\<in>set (d_packages db). pr_name_id p \<in> fst ` set (d_names db))
   \<and> (\<forall>p\<in>set (d_packages db). pr_id p < d_next_package db)
   \<and> (\<forall>(i, name)\<in>set (d_names db). 0 < i \<and> i < d_next_name db) \<and> 0 < d_next_name db
   \<and> (\<forall>m\<in>set (pkg_view db). canonical m)"

lemma pkg_view_mem:
  "m \<in> set (pkg_view db) \<longleftrightarrow> (\<exists>p\<in>set (d_packages db). (pr_name_id p, pm_name m) \<in> set (d_names db)
     \<and> pm_id m = pr_id p \<and> pm_name_id m = pr_name_id p \<and> pm_evra m = pr_evra p
     \<and> pm_summary m = pr_summary p \<and> pm_description m = pr_description p)"
  by (cases m) (fastforce simp: pkg_view_def)

lemma view_id_inj:
  assumes "package_db_ok db" "m \<in> set (pkg_view db)" "m' \<in> set (pkg_view db)" "pm_id m = pm_id m'"
  shows "m = m'"
proof -
  obtain p p' where p: "p \<in> set (d_packages db)" "(pr_name_id p, pm_name m) \<in> set (d_names db)"
      "pm_id m = pr_id p" "pm_name_id m = pr_name_id p" "pm_evra m = pr_evra p"
      "pm_summary m = pr_summary p" "pm_description m = pr_description p"
    and p': "p' \<in> set (d_packages db)" "(pr_name_id p', pm_name m') \<in> set (d_names db)"
      "pm_id m' = pr_id p'" "pm_name_id m' = pr_name_id p'" "pm_evra m' = pr_evra p'"
      "pm_summary m' = pr_summary p'" "pm_description m' = pr_description p'"
    using assms(2,3) unfolding pkg_view_mem by blast
  have "p = p'"
    using assms(1,4) p(1,3) p'(1,3) unfolding package_db_ok_def by (auto dest: distinct_map [THEN iffD1] inj_onD)
  moreover have "pm_name m = pm_name m'"
    using assms(1) p(2) p'(2) \<open>p = p'\<close> eq_key_imp_eq_value unfolding package_db_ok_def by metis
  ultimately show ?thesis using p p' by (cases m; cases m') simp
qed

lemma view_nevra_inj:
  assumes "package_db_ok db" "m \<in> set (pkg_view db)" "m' \<in> set (pkg_view db)"
    "pm_name m = pm_name m'" "pm_evra m = pm_evra m'"
  shows "m = m'"
proof -
  obtain p p' where p: "p \<in> set (d_packages db)" "(pr_name_id p, pm_name m) \<in> set (d_names db)"
      "pm_id m = pr_id p" "pm_evra m = pr_evra p"
    and p': "p' \<in> set (d_packages db)" "(pr_name_id p', pm_name m') \<in> set (d_names db)"
      "pm_id m' = pr_id p'" "pm_evra m' = pr_evra p'"
    using assms(2,3) unfolding pkg_view_mem by blast
  have "inj_on snd (set (d_names db))" using assms(1) by (simp add: package_db_ok_def distinct_map)
  then have "pr_name_id p = pr_name_id p'" using inj_onD [OF _ _ p(2) p'(2)] assms(4) by fastforce
  moreover have "inj_on (\<lambda>p. (pr_name_id p, pr_evra p)) (set (d_packages db))"
    using assms(1) by (simp add: package_db_ok_def distinct_map)
  ultimately have "p = p'" using p p' assms(5) by (auto dest: inj_onD)
  then show ?thesis using view_id_inj [OF assms(1-3)] p p' by simp
qed

lemma ver_no_colon: "nevra_wf n \<Longrightarrow> CHR '':'' \<notin> set (nv_version n) \<and> CHR '':'' \<notin> set (nv_release n) \<and> CHR '':'' \<notin> set (nv_arch n)"
proof -
  have "\<not> arch_char (CHR '':'')" using arch_char_facts [of "CHR '':''"] by blast
  moreover have "\<not> ver_char (CHR '':'')" by (simp add: ver_char_def)
  ultimately show "nevra_wf n \<Longrightarrow> ?thesis" unfolding nevra_wf_def list_all_iff by blast
qed

text \<open>The key under which a row is cached is its NEVRA with the epoch.\<close>

lemma cached_key:
  assumes "nevra_wf n" "pm_name m = nv_name n" "pm_evra m = evra_string n"
  shows "nevra_string_e (pm_name m) (pm_evra m) True = string_e n True"
proof (cases "nv_epoch n = 0")
  case True
  then have "\<not> str_contains (pm_evra m) '':''"
    using ver_no_colon [OF assms(1)] by (simp add: assms(3) evra_string_def evra_string_e_def str_contains_char)
  moreover have "show_int 0 = ''0''" by code_simp
  ultimately show ?thesis
    using True by (simp add: assms(2,3) nevra_string_e_def string_e_def evra_string_def evra_string_e_def)
next
  case False
  then have "str_contains (pm_evra m) '':''"
    by (simp add: assms(3) evra_string_def evra_string_e_def str_contains_char)
  then show ?thesis
    using False by (simp add: assms(2,3) nevra_string_e_def string_e_def evra_string_def evra_string_e_def)
qed

text \<open>The rows that answer a key, among a set of rows: those of the tables, or those they have had.\<close>

definition nevra_row :: "package_meta set \<Rightarrow> string \<Rightarrow> package_meta \<Rightarrow> bool" where
  "nevra_row rows s m \<longleftrightarrow> m \<in> rows \<and>
     (\<exists>n. parse_nevra s = Inr n \<and> pm_name m = nv_name n \<and> pm_evra m = evra_string n)"

lemma nevra_row_key:
  assumes "canonical m" "m \<in> rows"
  shows "nevra_row rows (nevra_string_e (pm_name m) (pm_evra m) True) m"
proof -
  obtain n where n: "nevra_wf n" "pm_name m = nv_name n" "pm_evra m = evra_string n"
    using assms(1) unfolding canonical_def by blast
  then show ?thesis using assms(2) cached_key [OF n] parse_epoch_form [OF n(1)] by (auto simp: nevra_row_def)
qed

text \<open>What never changes about a row while it exists; its texts are updated by the synchronisation.\<close>

definition ident :: "package_meta \<Rightarrow> int \<times> int \<times> string \<times> string" where
  "ident m = (pm_id m, pm_name_id m, pm_name m, pm_evra m)"

definition same_rows :: "package_db \<Rightarrow> package_meta set" where
  "same_rows db = {m. ident m \<in> ident ` set (pkg_view db)}"

lemma same_rows_mem: "m \<in> same_rows db \<longleftrightarrow> (\<exists>m0\<in>set (pkg_view db). ident m0 = ident m)"
  unfolding same_rows_def mem_Collect_eq image_iff by (simp only: eq_commute)

lemma view_same_rows: "set (pkg_view db) \<subseteq> same_rows db"
  by (auto simp: same_rows_def)

lemma same_rows_canonical: "package_db_ok db \<Longrightarrow> m \<in> same_rows db \<Longrightarrow> canonical m"
  by (auto simp: same_rows_mem package_db_ok_def canonical_def ident_def) metis

lemma nevra_row_same:
  assumes "package_db_ok db" "nevra_row (same_rows db) s m" "nevra_row (set (pkg_view db)) s m'"
  shows "ident m' = ident m"
proof -
  obtain m0 where m0: "m0 \<in> set (pkg_view db)" "ident m0 = ident m"
    using assms(2) by (auto simp: nevra_row_def same_rows_mem)
  then have "m0 = m'"
    using view_nevra_inj [OF assms(1) m0(1), of m'] assms(2,3) by (auto simp: nevra_row_def ident_def)
  then show ?thesis using m0(2) by simp
qed

section \<open>The contract of a cached lookup\<close>

text \<open>An invariant of the cache, the operations a lookup is made of, and the rows that answer
  a key.  A hit answers such a row, so does the database, and adding one keeps the invariant.\<close>

locale cached_lookup =
  fixes enabled :: "'c \<Rightarrow> bool"
    and inv :: "'c \<Rightarrow> bool"
    and hit :: "'c \<Rightarrow> 'k \<Rightarrow> (package_meta option \<times> 'c) option"
    and read :: "'k \<Rightarrow> package_meta option option"
    and add :: "package_meta \<Rightarrow> 'c \<Rightarrow> 'c option"
    and good :: "'k \<Rightarrow> package_meta \<Rightarrow> bool"
  assumes hit_ok: "inv c \<Longrightarrow> enabled c \<Longrightarrow>
        \<exists>v c'. hit c k = Some (v, c') \<and> inv c' \<and> enabled c' \<and> (\<forall>m. v = Some m \<longrightarrow> good k m)"
    and read_ok: "inv c \<Longrightarrow> read k = Some (Some m) \<Longrightarrow> good k m"
    and add_ok: "inv c \<Longrightarrow> enabled c \<Longrightarrow> good k m \<Longrightarrow> \<exists>c'. add m c = Some c' \<and> inv c' \<and> enabled c'"
begin

lemma get_enabled:
  assumes "inv c" "enabled c" "read k = Some r"
  shows "\<exists>v c'. cached_get enabled hit read add c k = Some (v, c') \<and> inv c' \<and> enabled c'
    \<and> (\<forall>m. v = Some m \<longrightarrow> good k m) \<and> (v = None \<longrightarrow> r = None)"
proof -
  obtain v c1 where hit: "hit c k = Some (v, c1)" "inv c1" "enabled c1" "\<forall>m. v = Some m \<longrightarrow> good k m"
    using hit_ok [OF assms(1,2)] by blast
  show ?thesis
  proof (cases v)
    case (Some m)
    then show ?thesis using hit assms(2) by (simp add: cached_get_def)
  next
    case None
    show ?thesis
    proof (cases r)
      case None
      then show ?thesis using hit \<open>v = None\<close> assms by (simp add: cached_get_def)
    next
      case (Some m)
      then have good: "good k m" using read_ok [OF assms(1)] assms(3) by simp
      obtain c2 where "add m c1 = Some c2" "inv c2" "enabled c2" using add_ok [OF hit(2,3) good] by blast
      then show ?thesis using hit \<open>v = None\<close> assms Some good by (simp add: cached_get_def)
    qed
  qed
qed

text \<open>Every lookup that returns leaves the cache as it should be, also while the database is down.\<close>

lemma get_step:
  assumes "inv c" "cached_get enabled hit read add c k = Some (v, c')"
  shows "inv c' \<and> (\<forall>m. v = Some m \<longrightarrow> good k m)"
proof (cases "enabled c")
  case True
  obtain w c1 where hit: "hit c k = Some (w, c1)" "inv c1" "enabled c1" "\<forall>m. w = Some m \<longrightarrow> good k m"
    using hit_ok [OF assms(1) True] by blast
  show ?thesis
  proof (cases w)
    case (Some m)
    then show ?thesis using hit assms(2) True by (auto simp: cached_get_def)
  next
    case None
    show ?thesis
    proof (cases "read k")
      case None
      then show ?thesis using hit \<open>w = None\<close> assms(2) True by (simp add: cached_get_def)
    next
      case (Some r)
      show ?thesis
        using get_enabled [OF assms(1) True Some] assms(2) by auto
    qed
  qed
next
  case False
  then show ?thesis using assms by (auto simp: cached_get_def bind_eq_Some_conv split: option.splits)
qed

text \<open>When a key has at most one row, the lookup answers exactly what the database holds.\<close>

lemma get_exact:
  assumes "inv c" "enabled c" "read k = Some r" "\<And>m m'. good k m \<Longrightarrow> good k m' \<Longrightarrow> m = m'"
    "\<And>m. good k m \<Longrightarrow> r \<noteq> None"
  shows "\<exists>c'. cached_get enabled hit read add c k = Some (r, c') \<and> inv c' \<and> enabled c'"
proof -
  obtain v c' where g: "cached_get enabled hit read add c k = Some (v, c')" "inv c'" "enabled c'"
    "\<forall>m. v = Some m \<longrightarrow> good k m" "v = None \<longrightarrow> r = None"
    using get_enabled [OF assms(1-3)] by blast
  have "v = r"
  proof (cases v)
    case None
    then show ?thesis using g(5) by simp
  next
    case (Some m)
    then have "good k m" using g(4) by simp
    moreover obtain m' where "r = Some m'" using assms(5) [OF \<open>good k m\<close>] by blast
    moreover have "good k m'" using read_ok [OF assms(1)] assms(3) \<open>r = Some m'\<close> by simp
    ultimately show ?thesis using Some assms(4) by simp
  qed
  then show ?thesis using g by blast
qed

text \<open>A disabled cache reads the database and throws the answer away.\<close>

lemma get_disabled:
  "\<not> enabled c \<Longrightarrow> read k = Some r \<Longrightarrow> cached_get enabled hit read add c k = Some (None, c)"
  by (cases r) (simp_all add: cached_get_def)

end

section \<open>Coherence\<close>

definition slot_ok :: "('c, 'k) lru_ops \<Rightarrow> ('k \<Rightarrow> package_meta \<Rightarrow> bool) \<Rightarrow> 'c option \<Rightarrow> bool" where
  "slot_ok ops good o' = (case o' of None \<Rightarrow> False | Some l \<Rightarrow> \<forall>k m. lru_peek ops l k = Some m \<longrightarrow> good k m)"

definition id_row :: "package_meta set \<Rightarrow> int \<Rightarrow> package_meta \<Rightarrow> bool" where
  "id_row rows i m \<longleftrightarrow> m \<in> rows \<and> pm_id m = i"

definition name_row :: "package_meta set \<Rightarrow> string \<Rightarrow> package_meta \<Rightarrow> bool" where
  "name_row rows name m \<longleftrightarrow> m \<in> rows \<and> pm_name m = name"

definition name_id_row :: "package_meta set \<Rightarrow> int \<Rightarrow> package_meta \<Rightarrow> bool" where
  "name_id_row rows i m \<longleftrightarrow> m \<in> rows \<and> pm_name_id m = i"

text \<open>Every entry of the four caches is a row of \<open>rows\<close> under its key; \<open>rows\<close> includes the tables.\<close>

definition cache_inv :: "('i, 's) cache_env \<Rightarrow> package_meta set \<Rightarrow> package_db \<Rightarrow> ('i, 's) package_cache \<Rightarrow> bool" where
  "cache_inv env rows db c \<longleftrightarrow> (\<forall>m\<in>rows. canonical m) \<and> set (pkg_view db) \<subseteq> rows
   \<and> lru_ok (ce_ids env) \<and> lru_ok (ce_strings env)
   \<and> (pc_enabled c \<longrightarrow>
        slot_ok (ce_ids env) (id_row rows) (pc_by_id c)
      \<and> slot_ok (ce_strings env) (nevra_row rows) (pc_by_nevra c)
      \<and> slot_ok (ce_strings env) (name_row rows) (pc_latest_by_name c)
      \<and> slot_ok (ce_ids env) (name_id_row rows) (pc_name_by_id c))"

lemma slot_mono: "slot_ok ops good x \<Longrightarrow> (\<And>k m. good k m \<Longrightarrow> good' k m) \<Longrightarrow> slot_ok ops good' x"
  by (auto simp: slot_ok_def split: option.splits)

lemma cache_inv_mono:
  assumes "cache_inv env rows db c" "rows \<subseteq> rows'" "\<forall>m\<in>rows'. canonical m" "set (pkg_view db') \<subseteq> rows'"
  shows "cache_inv env rows' db' c"
proof -
  have "id_row rows k m \<Longrightarrow> id_row rows' k m" "nevra_row rows s m \<Longrightarrow> nevra_row rows' s m"
    "name_row rows s m \<Longrightarrow> name_row rows' s m" "name_id_row rows k m \<Longrightarrow> name_id_row rows' k m" for k s m
    using assms(2) by (auto simp: id_row_def nevra_row_def name_row_def name_id_row_def)
  then show ?thesis using assms(1,3,4) unfolding cache_inv_def by (auto intro: slot_mono)
qed

lemma lru_okD:
  assumes "lru_ok ops"
  shows "lru_new ops n = Some c \<Longrightarrow> lru_peek ops c k = None"
    "fst (lru_get ops c k) = lru_peek ops c k"
    "lru_peek ops (snd (lru_get ops c k)) k' = lru_peek ops c k'"
    "lru_peek ops (lru_add ops c k v) k' = Some w \<Longrightarrow> if k' = k then w = v else lru_peek ops c k' = Some w"
    "lru_peek ops (lru_contains_or_add ops c k v) k' = Some w \<Longrightarrow> (k' = k \<and> w = v) \<or> lru_peek ops c k' = Some w"
proof -
  note c = assms [unfolded lru_ok_def]
  show "lru_new ops n = Some c \<Longrightarrow> lru_peek ops c k = None"
    by (rule c [THEN conjunct1, rule_format])
  show "fst (lru_get ops c k) = lru_peek ops c k"
    by (rule c [THEN conjunct2, THEN conjunct1, rule_format])
  show "lru_peek ops (snd (lru_get ops c k)) k' = lru_peek ops c k'"
    by (rule c [THEN conjunct2, THEN conjunct2, THEN conjunct1, rule_format])
  show "lru_peek ops (lru_add ops c k v) k' = Some w \<Longrightarrow> if k' = k then w = v else lru_peek ops c k' = Some w"
    by (rule c [THEN conjunct2, THEN conjunct2, THEN conjunct2, THEN conjunct1, rule_format])
  show "lru_peek ops (lru_contains_or_add ops c k v) k' = Some w \<Longrightarrow> (k' = k \<and> w = v) \<or> lru_peek ops c k' = Some w"
    by (rule c [THEN conjunct2, THEN conjunct2, THEN conjunct2, THEN conjunct2, rule_format])
qed

lemma slot_get:
  assumes "lru_ok ops" "slot_ok ops good (Some l)"
  shows "(\<forall>m. fst (lru_get ops l k) = Some m \<longrightarrow> good k m) \<and> slot_ok ops good (Some (snd (lru_get ops l k)))"
  using assms(2) by (simp add: lru_okD(2,3) [OF assms(1)] slot_ok_def)

lemma slot_add:
  assumes "lru_ok ops" "slot_ok ops good (Some l)" "good k v"
  shows "slot_ok ops good (Some (lru_add ops l k v))" "slot_ok ops good (Some (lru_contains_or_add ops l k v))"
proof -
  have peek: "lru_peek ops l k' = Some w \<Longrightarrow> good k' w" for k' w
    using assms(2) by (simp add: slot_ok_def)
  have "lru_peek ops (lru_add ops l k v) k' = Some w \<Longrightarrow> good k' w" for k' w
    using lru_okD(4) [OF assms(1)] assms(3) peek by (metis (full_types))
  then show "slot_ok ops good (Some (lru_add ops l k v))" by (simp add: slot_ok_def)
  have "lru_peek ops (lru_contains_or_add ops l k v) k' = Some w \<Longrightarrow> good k' w" for k' w
    using lru_okD(5) [OF assms(1)] assms(3) peek by blast
  then show "slot_ok ops good (Some (lru_contains_or_add ops l k v))" by (simp add: slot_ok_def)
qed

lemma slot_Some: "slot_ok ops good o' \<Longrightarrow> \<exists>l. o' = Some l \<and> slot_ok ops good (Some l)"
  by (cases o') (simp_all add: slot_ok_def)

lemma cache_add_ok:
  assumes "cache_inv env rows db c" "pc_enabled c" "m \<in> rows"
  shows "\<exists>c'. cache_add env m c = Some c' \<and> cache_inv env rows db c' \<and> pc_enabled c'"
proof -
  have ok: "canonical m" "lru_ok (ce_ids env)" "lru_ok (ce_strings env)"
    using assms(1,3) by (simp_all add: cache_inv_def)
  have slots: "slot_ok (ce_ids env) (id_row rows) (pc_by_id c)" "slot_ok (ce_strings env) (nevra_row rows) (pc_by_nevra c)"
      "slot_ok (ce_strings env) (name_row rows) (pc_latest_by_name c)"
      "slot_ok (ce_ids env) (name_id_row rows) (pc_name_by_id c)"
    using assms(1,2) by (simp_all add: cache_inv_def)
  obtain li where li: "pc_by_id c = Some li" "slot_ok (ce_ids env) (id_row rows) (Some li)"
    using slot_Some [OF slots(1)] by blast
  obtain ls where ls: "pc_by_nevra c = Some ls" "slot_ok (ce_strings env) (nevra_row rows) (Some ls)"
    using slot_Some [OF slots(2)] by blast
  obtain ln where ln: "pc_latest_by_name c = Some ln" "slot_ok (ce_strings env) (name_row rows) (Some ln)"
    using slot_Some [OF slots(3)] by blast
  obtain lm where lm: "pc_name_by_id c = Some lm" "slot_ok (ce_ids env) (name_id_row rows) (Some lm)"
    using slot_Some [OF slots(4)] by blast
  have keyed: "id_row rows (pm_id m) m" "name_row rows (pm_name m) m" "name_id_row rows (pm_name_id m) m"
    using assms(3) by (simp_all add: id_row_def name_row_def name_id_row_def)
  have base: "\<forall>m\<in>rows. canonical m" "set (pkg_view db) \<subseteq> rows" using assms(1) by (simp_all add: cache_inv_def)
  note added = slot_add(1) [OF ok(2) li(2) keyed(1)] slot_add(1) [OF ok(3) ls(2) nevra_row_key [OF ok(1) assms(3)]]
    slot_add(1) [OF ok(3) ln(2) keyed(2)] slot_add(2) [OF ok(2) lm(2) keyed(3)]
  show ?thesis
    unfolding cache_add_def add_by_id_def add_by_nevra_def add_latest_by_name_def add_name_by_id_def Let_def
    by (simp add: li(1) ls(1) ln(1) lm(1) cache_inv_def ok base added ln(2) assms(2))
qed

section \<open>The four lookups meet the contract\<close>

lemma top_evra_mem: "top_evra ms = Some m \<Longrightarrow> m \<in> set ms"
  by (induction ms arbitrary: m) (auto split: option.splits if_splits)

lemma top_evra_None: "top_evra ms = None \<longleftrightarrow> ms = []"
  by (cases ms) (auto split: option.splits)

lemma read_package_mem:
  "read_package_from_db db cond b = Some (Some m) \<Longrightarrow> m \<in> set (pkg_view db) \<and> cond m"
  by (auto simp: read_package_from_db_def find_Some_iff dest: top_evra_mem split: if_splits)

lemma read_package_None:
  "read_package_from_db db cond b = Some None \<Longrightarrow> m \<in> set (pkg_view db) \<Longrightarrow> \<not> cond m"
  by (auto simp: read_package_from_db_def find_None_iff top_evra_None filter_empty_conv split: if_splits)

lemma reads_up:
  assumes "\<not> d_down db"
  shows "\<exists>r. read_by_nevra db s = Some r" "\<exists>r. read_by_id db i = Some r"
    "\<exists>r. read_latest_by_name db s = Some r" "\<exists>r. read_name_by_id db i = Some r"
  using assms
  by (simp_all add: read_by_nevra_def read_by_id_def read_latest_by_name_def read_name_by_id_def
      read_package_from_db_def split: sum.splits)

lemma hit_frame:
  assumes "cache_inv env rows db c" "pc_enabled c"
  shows "\<exists>v c'. hit_by_id env c i = Some (v, c') \<and> cache_inv env rows db c' \<and> pc_enabled c' \<and> (\<forall>m. v = Some m \<longrightarrow> id_row rows i m)"
    and "\<exists>v c'. hit_by_nevra env c s = Some (v, c') \<and> cache_inv env rows db c' \<and> pc_enabled c' \<and> (\<forall>m. v = Some m \<longrightarrow> nevra_row rows s m)"
    and "\<exists>v c'. hit_latest_by_name env c s = Some (v, c') \<and> cache_inv env rows db c' \<and> pc_enabled c' \<and> (\<forall>m. v = Some m \<longrightarrow> name_row rows s m)"
    and "\<exists>v c'. hit_name_by_id env c i = Some (v, c') \<and> cache_inv env rows db c' \<and> pc_enabled c' \<and> (\<forall>m. v = Some m \<longrightarrow> name_id_row rows i m)"
proof -
  have ok: "\<forall>m\<in>rows. canonical m" "set (pkg_view db) \<subseteq> rows" "lru_ok (ce_ids env)" "lru_ok (ce_strings env)"
    and slots: "slot_ok (ce_ids env) (id_row rows) (pc_by_id c)" "slot_ok (ce_strings env) (nevra_row rows) (pc_by_nevra c)"
      "slot_ok (ce_strings env) (name_row rows) (pc_latest_by_name c)"
      "slot_ok (ce_ids env) (name_id_row rows) (pc_name_by_id c)"
    using assms by (simp_all add: cache_inv_def)
  obtain l where l: "pc_by_id c = Some l" "slot_ok (ce_ids env) (id_row rows) (Some l)" using slot_Some [OF slots(1)] by blast
  show "\<exists>v c'. hit_by_id env c i = Some (v, c') \<and> cache_inv env rows db c' \<and> pc_enabled c' \<and> (\<forall>m. v = Some m \<longrightarrow> id_row rows i m)"
    using slot_get [OF ok(3) l(2), of i] slots ok assms(2)
    by (simp add: hit_by_id_def l(1) case_prod_unfold Let_def cache_inv_def)
  obtain l where l: "pc_by_nevra c = Some l" "slot_ok (ce_strings env) (nevra_row rows) (Some l)" using slot_Some [OF slots(2)] by blast
  show "\<exists>v c'. hit_by_nevra env c s = Some (v, c') \<and> cache_inv env rows db c' \<and> pc_enabled c' \<and> (\<forall>m. v = Some m \<longrightarrow> nevra_row rows s m)"
    using slot_get [OF ok(4) l(2), of s] slots ok assms(2)
    by (simp add: hit_by_nevra_def l(1) case_prod_unfold Let_def cache_inv_def)
  obtain l where l: "pc_latest_by_name c = Some l" "slot_ok (ce_strings env) (name_row rows) (Some l)" using slot_Some [OF slots(3)] by blast
  show "\<exists>v c'. hit_latest_by_name env c s = Some (v, c') \<and> cache_inv env rows db c' \<and> pc_enabled c' \<and> (\<forall>m. v = Some m \<longrightarrow> name_row rows s m)"
    using slot_get [OF ok(4) l(2), of s] slots ok assms(2)
    by (simp add: hit_latest_by_name_def l(1) case_prod_unfold Let_def cache_inv_def)
  obtain l where l: "pc_name_by_id c = Some l" "slot_ok (ce_ids env) (name_id_row rows) (Some l)" using slot_Some [OF slots(4)] by blast
  show "\<exists>v c'. hit_name_by_id env c i = Some (v, c') \<and> cache_inv env rows db c' \<and> pc_enabled c' \<and> (\<forall>m. v = Some m \<longrightarrow> name_id_row rows i m)"
    using slot_get [OF ok(3) l(2), of i] slots ok assms(2)
    by (simp add: hit_name_by_id_def l(1) case_prod_unfold Let_def cache_inv_def)
qed

lemma read_by_nevra_row: "read_by_nevra db s = Some (Some m) \<Longrightarrow> nevra_row (set (pkg_view db)) s m"
  by (auto simp: read_by_nevra_def nevra_row_def dest: read_package_mem split: sum.splits)

lemma read_by_nevra_None: "read_by_nevra db s = Some None \<Longrightarrow> \<not> nevra_row (set (pkg_view db)) s m"
  by (auto simp: read_by_nevra_def nevra_row_def dest: read_package_None split: sum.splits)

interpretation id: cached_lookup pc_enabled "cache_inv env rows db" "hit_by_id env" "read_by_id db" "cache_add env" "id_row rows"
  for env rows db
proof unfold_locales
  show "cache_inv env rows db c \<Longrightarrow> pc_enabled c \<Longrightarrow> \<exists>v c'. hit_by_id env c k = Some (v, c') \<and> cache_inv env rows db c'
      \<and> pc_enabled c' \<and> (\<forall>m. v = Some m \<longrightarrow> id_row rows k m)" for c k
    by (rule hit_frame(1))
  show "cache_inv env rows db c \<Longrightarrow> read_by_id db k = Some (Some m) \<Longrightarrow> id_row rows k m" for c k m
    by (auto simp: cache_inv_def read_by_id_def id_row_def dest: read_package_mem)
  show "cache_inv env rows db c \<Longrightarrow> pc_enabled c \<Longrightarrow> id_row rows k m \<Longrightarrow>
      \<exists>c'. cache_add env m c = Some c' \<and> cache_inv env rows db c' \<and> pc_enabled c'" for c k m
    unfolding id_row_def by (elim conjE) (rule cache_add_ok)
qed

interpretation nevra: cached_lookup pc_enabled "cache_inv env rows db" "hit_by_nevra env" "read_by_nevra db" "cache_add env"
    "nevra_row rows"
  for env rows db
proof unfold_locales
  show "cache_inv env rows db c \<Longrightarrow> pc_enabled c \<Longrightarrow> \<exists>v c'. hit_by_nevra env c k = Some (v, c') \<and> cache_inv env rows db c'
      \<and> pc_enabled c' \<and> (\<forall>m. v = Some m \<longrightarrow> nevra_row rows k m)" for c k
    by (rule hit_frame(2))
  show "cache_inv env rows db c \<Longrightarrow> read_by_nevra db k = Some (Some m) \<Longrightarrow> nevra_row rows k m" for c k m
    by (auto simp: cache_inv_def nevra_row_def dest!: read_by_nevra_row)
  show "cache_inv env rows db c \<Longrightarrow> pc_enabled c \<Longrightarrow> nevra_row rows k m \<Longrightarrow>
      \<exists>c'. cache_add env m c = Some c' \<and> cache_inv env rows db c' \<and> pc_enabled c'" for c k m
    unfolding nevra_row_def by (elim conjE) (rule cache_add_ok)
qed

interpretation latest: cached_lookup pc_enabled "cache_inv env rows db" "hit_latest_by_name env" "read_latest_by_name db"
    "cache_add env" "name_row rows"
  for env rows db
proof unfold_locales
  show "cache_inv env rows db c \<Longrightarrow> pc_enabled c \<Longrightarrow> \<exists>v c'. hit_latest_by_name env c k = Some (v, c') \<and> cache_inv env rows db c'
      \<and> pc_enabled c' \<and> (\<forall>m. v = Some m \<longrightarrow> name_row rows k m)" for c k
    by (rule hit_frame(3))
  show "cache_inv env rows db c \<Longrightarrow> read_latest_by_name db k = Some (Some m) \<Longrightarrow> name_row rows k m" for c k m
    by (auto simp: cache_inv_def read_latest_by_name_def name_row_def dest: read_package_mem)
  show "cache_inv env rows db c \<Longrightarrow> pc_enabled c \<Longrightarrow> name_row rows k m \<Longrightarrow>
      \<exists>c'. cache_add env m c = Some c' \<and> cache_inv env rows db c' \<and> pc_enabled c'" for c k m
    unfolding name_row_def by (elim conjE) (rule cache_add_ok)
qed

interpretation name_id: cached_lookup pc_enabled "cache_inv env rows db" "hit_name_by_id env" "read_name_by_id db"
    "cache_add env" "name_id_row rows"
  for env rows db
proof unfold_locales
  show "cache_inv env rows db c \<Longrightarrow> pc_enabled c \<Longrightarrow> \<exists>v c'. hit_name_by_id env c k = Some (v, c') \<and> cache_inv env rows db c'
      \<and> pc_enabled c' \<and> (\<forall>m. v = Some m \<longrightarrow> name_id_row rows k m)" for c k
    by (rule hit_frame(4))
  show "cache_inv env rows db c \<Longrightarrow> read_name_by_id db k = Some (Some m) \<Longrightarrow> name_id_row rows k m" for c k m
    by (auto simp: cache_inv_def read_name_by_id_def name_id_row_def dest: read_package_mem)
  show "cache_inv env rows db c \<Longrightarrow> pc_enabled c \<Longrightarrow> name_id_row rows k m \<Longrightarrow>
      \<exists>c'. cache_add env m c = Some c' \<and> cache_inv env rows db c' \<and> pc_enabled c'" for c k m
    unfolding name_id_row_def by (elim conjE) (rule cache_add_ok)
qed

section \<open>Coherence with the tables of the moment\<close>

text \<open>Every entry has the identity of a row the tables hold now; its texts may be older.\<close>

definition coherent :: "('i, 's) cache_env \<Rightarrow> package_db \<Rightarrow> ('i, 's) package_cache \<Rightarrow> bool" where
  "coherent env db c \<longleftrightarrow> package_db_ok db \<and> cache_inv env (same_rows db) db c"

definition keeps_rows :: "package_db \<Rightarrow> package_db \<Rightarrow> bool" where
  "keeps_rows db db' \<longleftrightarrow> ident ` set (pkg_view db) \<subseteq> ident ` set (pkg_view db')"

lemma keeps_rows_refl [simp]: "keeps_rows db db"
  by (simp add: keeps_rows_def)

lemma keeps_rows_trans: "keeps_rows db db' \<Longrightarrow> keeps_rows db' db'' \<Longrightarrow> keeps_rows db db''"
  by (auto simp: keeps_rows_def)

lemma coherent_keeps:
  assumes "coherent env db c" "package_db_ok db'" "keeps_rows db db'"
  shows "coherent env db' c"
proof -
  have "same_rows db \<subseteq> same_rows db'" using assms(3) by (auto simp: same_rows_def keeps_rows_def)
  then show ?thesis
    using cache_inv_mono [of env "same_rows db" db c "same_rows db'" db'] assms(1,2) same_rows_canonical view_same_rows
    unfolding coherent_def by blast
qed

text \<open>Lookups by NEVRA and by id answer with the identity the tables have: at most one row matches.\<close>

lemma get_by_nevra_same:
  assumes "coherent env db c" "pc_enabled c" "read_by_nevra db s = Some r"
  shows "\<exists>v c'. get_by_nevra env db c s = Some (v, c') \<and> map_option ident v = map_option ident r
    \<and> coherent env db c' \<and> pc_enabled c'"
proof -
  have ok: "package_db_ok db" and inv: "cache_inv env (same_rows db) db c" using assms(1) by (simp_all add: coherent_def)
  obtain v c' where g: "get_by_nevra env db c s = Some (v, c')" "cache_inv env (same_rows db) db c'" "pc_enabled c'"
    "\<forall>m. v = Some m \<longrightarrow> nevra_row (same_rows db) s m" "v = None \<longrightarrow> r = None"
    unfolding get_by_nevra_def using nevra.get_enabled [OF inv assms(2,3)] by blast
  have "map_option ident v = map_option ident r"
  proof (cases v)
    case None
    then show ?thesis using g(5) by simp
  next
    case (Some m)
    then have m: "nevra_row (same_rows db) s m" using g(4) by simp
    then obtain m0 where "nevra_row (set (pkg_view db)) s m0"
      by (auto simp: nevra_row_def same_rows_mem ident_def)
    then obtain m' where "r = Some m'" using read_by_nevra_None [of db s] assms(3) by (cases r) auto
    then show ?thesis using nevra_row_same [OF ok m read_by_nevra_row] assms(3) Some by simp
  qed
  then show ?thesis using g ok by (auto simp: coherent_def)
qed

lemma get_by_id_same:
  assumes "coherent env db c" "pc_enabled c" "read_by_id db i = Some r"
  shows "\<exists>v c'. get_by_id env db c i = Some (v, c') \<and> map_option ident v = map_option ident r
    \<and> coherent env db c' \<and> pc_enabled c'"
proof -
  have ok: "package_db_ok db" and inv: "cache_inv env (same_rows db) db c" using assms(1) by (simp_all add: coherent_def)
  obtain v c' where g: "get_by_id env db c i = Some (v, c')" "cache_inv env (same_rows db) db c'" "pc_enabled c'"
    "\<forall>m. v = Some m \<longrightarrow> id_row (same_rows db) i m" "v = None \<longrightarrow> r = None"
    unfolding get_by_id_def using id.get_enabled [OF inv assms(2,3)] by blast
  have "map_option ident v = map_option ident r"
  proof (cases v)
    case None
    then show ?thesis using g(5) by simp
  next
    case (Some m)
    then obtain m0 where m0: "m0 \<in> set (pkg_view db)" "ident m0 = ident m" "pm_id m0 = i"
      using g(4) by (auto simp: id_row_def same_rows_mem ident_def)
    then obtain m' where m': "r = Some m'"
      using read_package_None [of db "\<lambda>m. pm_id m = i" False m0] assms(3) by (cases r) (auto simp: read_by_id_def)
    then have "m' \<in> set (pkg_view db)" "pm_id m' = i"
      using assms(3) read_package_mem [of db "\<lambda>m. pm_id m = i"] by (auto simp: read_by_id_def)
    then have "m' = m0" using view_id_inj [OF ok _ m0(1)] m0(3) by simp
    then show ?thesis using m0(2) m' Some by simp
  qed
  then show ?thesis using g ok by (auto simp: coherent_def)
qed

section \<open>The life of a cache\<close>

lemma new_cache_inv:
  assumes "\<forall>m\<in>rows. canonical m" "set (pkg_view db) \<subseteq> rows" "lru_ok (ce_ids env)" "lru_ok (ce_strings env)"
    "new_package_cache env en pre sz name_sz = Some c"
  shows "cache_inv env rows db c"
proof (cases en)
  case True
  obtain by_id by_nevra latest names where l: "lru_new (ce_ids env) sz = Some by_id"
      "lru_new (ce_strings env) sz = Some by_nevra" "lru_new (ce_strings env) name_sz = Some latest"
      "lru_new (ce_ids env) name_sz = Some names"
    and c: "c = \<lparr>pc_enabled = en, pc_preload = pre, pc_size = sz, pc_name_size = name_sz,
              pc_by_id = Some by_id, pc_by_nevra = Some by_nevra, pc_latest_by_name = Some latest,
              pc_name_by_id = Some names\<rparr>"
    using assms(5) True by (auto simp: new_package_cache_def bind_eq_Some_conv)
  show ?thesis
    unfolding cache_inv_def c slot_ok_def
    by (simp add: assms(1-4) lru_okD(1) [OF assms(3) l(1)] lru_okD(1) [OF assms(4) l(2)]
        lru_okD(1) [OF assms(4) l(3)] lru_okD(1) [OF assms(3) l(4)])
next
  case False
  then show ?thesis using assms by (auto simp: new_package_cache_def cache_inv_def)
qed

lemma cache_add_all_ok:
  "cache_inv env rows db c \<Longrightarrow> pc_enabled c \<Longrightarrow> set ms \<subseteq> rows \<Longrightarrow>
   \<exists>c'. cache_add_all env ms c = Some c' \<and> cache_inv env rows db c' \<and> pc_enabled c'"
proof (induction ms arbitrary: c)
  case (Cons m ms)
  obtain c1 where "cache_add env m c = Some c1" "cache_inv env rows db c1" "pc_enabled c1"
    using cache_add_ok [OF Cons.prems(1,2)] Cons.prems(3) by auto
  then show ?case using Cons.IH [of c1] Cons.prems(3) by simp
qed simp

lemma cache_load_inv:
  assumes "cache_inv env rows db c" "cache_load env db c = Some c'"
  shows "cache_inv env rows db c'"
proof (cases "pc_enabled c \<and> pc_preload c")
  case True
  have view: "set (pkg_view db) \<subseteq> rows" using assms(1) by (simp add: cache_inv_def)
  have sub: "set (take (nat (pc_size c)) (rev (sort_key pm_id (pkg_view db)))) \<subseteq> rows"
    using view set_take_subset [of "nat (pc_size c)" "rev (sort_key pm_id (pkg_view db))"] by auto
  show ?thesis using cache_add_all_ok [OF assms(1) _ sub] True assms(2) by (auto simp: cache_load_def split: if_splits)
next
  case False
  then show ?thesis using assms by (auto simp: cache_load_def split: if_splits)
qed

lemma split_cached_ok:
  assumes "cache_inv env rows db c" "pc_enabled c" "set cached \<subseteq> rows"
  shows "\<exists>cached' missing' c'. split_cached env ss c cached missing = Some (cached', missing', c')
    \<and> cache_inv env rows db c' \<and> pc_enabled c' \<and> set cached' \<subseteq> rows"
  using assms
proof (induction ss arbitrary: c cached missing)
  case (Cons s ss)
  obtain v c1 where h: "hit_by_nevra env c s = Some (v, c1)" "cache_inv env rows db c1" "pc_enabled c1"
    "\<forall>m. v = Some m \<longrightarrow> nevra_row rows s m"
    using hit_frame(2) [OF Cons.prems(1,2)] by blast
  show ?case
  proof (cases v)
    case None
    then show ?thesis using Cons.IH [OF h(2,3) Cons.prems(3)] h(1) by simp
  next
    case (Some m)
    then have "set (cached @ [m]) \<subseteq> rows" using h(4) Cons.prems(3) by (simp add: nevra_row_def)
    then show ?thesis using Cons.IH [OF h(2,3), of "cached @ [m]"] h(1) Some by simp
  qed
qed simp

lemma read_by_nevras_rows:
  "read_by_nevras db ss = Some (ms, missing) \<Longrightarrow> set ms \<subseteq> set (pkg_view db)"
  by (auto simp: read_by_nevras_def read_packages_from_db_def Let_def split: if_splits)

lemma get_by_nevras_inv:
  assumes "cache_inv env rows db c" "get_by_nevras env db c ss = Some (w, c')"
  shows "cache_inv env rows db c' \<and> pc_enabled c' = pc_enabled c"
proof (cases "pc_enabled c")
  case True
  obtain cached missing c1 where sp: "split_cached env ss c [] [] = Some (cached, missing, c1)"
    "cache_inv env rows db c1" "pc_enabled c1"
    using split_cached_ok [OF assms(1) True, of "[]" ss "[]"] by auto
  show ?thesis
  proof (cases "missing = []")
    case True
    then show ?thesis using assms(2) sp \<open>pc_enabled c\<close> by (auto simp: get_by_nevras_def)
  next
    case False
    then obtain ms mis where rd: "read_by_nevras db missing = Some (ms, mis)"
      using assms(2) sp True by (auto simp: get_by_nevras_def bind_eq_Some_conv)
    have "set ms \<subseteq> rows" using read_by_nevras_rows [OF rd] sp(2) by (auto simp: cache_inv_def)
    then obtain c2 where "cache_add_all env ms c1 = Some c2" "cache_inv env rows db c2" "pc_enabled c2"
      using cache_add_all_ok [OF sp(2,3)] by blast
    then show ?thesis using assms(2) sp rd True False by (auto simp: get_by_nevras_def split: if_splits)
  qed
next
  case False
  then show ?thesis using assms by (auto simp: get_by_nevras_def bind_eq_Some_conv split: if_splits)
qed

text \<open>Every state the evaluator's cache can be in, with the tables it has lived through, the
  newest first: created and loaded, looked up in any way, the tables changed by whoever writes
  them (or gone down) between any two lookups.\<close>

inductive cache_run :: "('i, 's) cache_env \<Rightarrow> package_db list \<Rightarrow> ('i, 's) package_cache \<Rightarrow> bool" for env where
  create: "new_package_cache env en pre sz name_sz = Some c \<Longrightarrow> cache_load env db c = Some c' \<Longrightarrow> cache_run env [db] c'"
| change: "cache_run env dbs c \<Longrightarrow> cache_run env (db # dbs) c"
| by_id: "cache_run env (db # dbs) c \<Longrightarrow> get_by_id env db c i = Some (v, c') \<Longrightarrow> cache_run env (db # dbs) c'"
| by_nevra: "cache_run env (db # dbs) c \<Longrightarrow> get_by_nevra env db c s = Some (v, c') \<Longrightarrow> cache_run env (db # dbs) c'"
| latest: "cache_run env (db # dbs) c \<Longrightarrow> get_latest_by_name env db c s = Some (v, c') \<Longrightarrow> cache_run env (db # dbs) c'"
| name: "cache_run env (db # dbs) c \<Longrightarrow> get_name_by_id env db c i = Some (w, c') \<Longrightarrow> cache_run env (db # dbs) c'"
| by_nevras: "cache_run env (db # dbs) c \<Longrightarrow> get_by_nevras env db c ss = Some (u, c') \<Longrightarrow> cache_run env (db # dbs) c'"

text \<open>Every row the cache may have seen.\<close>

definition seen_rows :: "package_db list \<Rightarrow> package_meta set" where
  "seen_rows dbs = (\<Union>db\<in>set dbs. set (pkg_view db))"

lemma cache_run_inv:
  assumes "cache_run env dbs c" "lru_ok (ce_ids env)" "lru_ok (ce_strings env)"
    and "seen_rows dbs \<subseteq> rows" "\<forall>m\<in>rows. canonical m"
  shows "cache_inv env rows (hd dbs) c"
  using assms(1,4)
proof (induction rule: cache_run.induct)
  case (create en pre sz name_sz c db c')
  have "set (pkg_view db) \<subseteq> rows" using create(3) by (simp add: seen_rows_def)
  from cache_load_inv [OF new_cache_inv [OF assms(5) this assms(2,3) create(1)] create(2)]
  show ?case by simp
next
  case (change dbs c db)
  then have "cache_inv env rows (hd dbs) c" "set (pkg_view db) \<subseteq> rows" by (auto simp: seen_rows_def)
  then show ?case using cache_inv_mono [OF _ subset_refl assms(5)] by simp
next
  case (by_id db dbs c i v c')
  show ?case using id.get_step [of env rows db c i v c'] by_id by (simp add: get_by_id_def)
next
  case (by_nevra db dbs c s v c')
  show ?case using nevra.get_step [of env rows db c s v c'] by_nevra by (simp add: get_by_nevra_def)
next
  case (latest db dbs c s v c')
  show ?case using latest.get_step [of env rows db c s v c'] latest by (simp add: get_latest_by_name_def)
next
  case (name db dbs c i w c')
  obtain v where "cached_get pc_enabled (hit_name_by_id env) (read_name_by_id db) (cache_add env) c i = Some (v, c')"
    using name(2) by (auto simp: get_name_by_id_def bind_eq_Some_conv)
  then show ?case using name_id.get_step [of env rows db c i v c'] name(3,4) by simp
next
  case (by_nevras db dbs c ss u c')
  show ?case using get_by_nevras_inv [OF _ by_nevras(2), of rows] by_nevras(3,4) by simp
qed

lemma seen_canonical: "\<forall>db\<in>set dbs. package_db_ok db \<Longrightarrow> m \<in> seen_rows dbs \<Longrightarrow> canonical m"
  by (auto simp: seen_rows_def package_db_ok_def)

lemma cache_run_coherent:
  assumes "cache_run env (db # dbs) c" "lru_ok (ce_ids env)" "lru_ok (ce_strings env)"
    "package_db_ok db" "\<forall>d\<in>set dbs. keeps_rows d db"
  shows "coherent env db c"
proof -
  have "seen_rows (db # dbs) \<subseteq> same_rows db"
    using assms(5) view_same_rows [of db] by (fastforce simp: seen_rows_def keeps_rows_def same_rows_def)
  from cache_run_inv [OF assms(1-3) this] same_rows_canonical [OF assms(4)] assms(4)
  show ?thesis by (simp add: coherent_def)
qed

section \<open>Properties\<close>

text \<open>C26.  The package cache is never invalidated, and the tables change behind it.  Whatever
  happened to the tables and whatever was looked up (single or in bulk) and evicted before, an
  enabled cache with the database up does not panic, answers a NEVRA by "unknown" only when the
  tables of the moment do not have it, and otherwise by a row that the tables hold or have held
  under that NEVRA; and the state it is left in is one of which the same holds.  As long as rows
  were only added or given other texts, the answer is the row of the tables up to its texts (same
  id, name and version), and when no text changed either, it is exactly what the database answers.
  A row that has been deleted meanwhile (by the cleaning of unused packages) may still be answered.\<close>

theorem package_cache_transparent:
  assumes "cache_run env (db # dbs) c" "\<forall>d\<in>set (db # dbs). package_db_ok d"
    and "lru_ok (ce_ids env)" "lru_ok (ce_strings env)" "\<not> d_down db" "pc_enabled c"
  shows "\<exists>v c'. get_by_nevra env db c s = Some (v, c') \<and> cache_run env (db # dbs) c' \<and> pc_enabled c'
    \<and> (case v of None \<Rightarrow> read_by_nevra db s = Some None
       | Some m \<Rightarrow> \<exists>d\<in>set (db # dbs). nevra_row (set (pkg_view d)) s m)
    \<and> ((\<forall>d\<in>set dbs. keeps_rows d db) \<longrightarrow> map_option ident v = map_option ident (the (read_by_nevra db s)))
    \<and> ((\<forall>d\<in>set dbs. set (pkg_view d) \<subseteq> set (pkg_view db)) \<longrightarrow> v = the (read_by_nevra db s))"
proof -
  have ok: "package_db_ok db" using assms(2) by simp
  obtain r where r: "read_by_nevra db s = Some r" using reads_up(1) [OF assms(5)] by blast
  have inv: "cache_inv env (seen_rows (db # dbs)) db c"
    using cache_run_inv [OF assms(1,3,4) subset_refl] seen_canonical [OF assms(2)] by simp
  obtain v c' where g: "get_by_nevra env db c s = Some (v, c')" "pc_enabled c'"
    "\<forall>m. v = Some m \<longrightarrow> nevra_row (seen_rows (db # dbs)) s m" "v = None \<longrightarrow> r = None"
    unfolding get_by_nevra_def using nevra.get_enabled [OF inv assms(6) r] by blast
  have past: "\<exists>d\<in>set (db # dbs). nevra_row (set (pkg_view d)) s m" if "v = Some m" for m
    using g(3) that unfolding nevra_row_def seen_rows_def by blast
  have same: "map_option ident v = map_option ident r" if "\<forall>d\<in>set dbs. keeps_rows d db"
    using get_by_nevra_same [OF cache_run_coherent [OF assms(1,3,4) ok that] assms(6) r] g(1) by simp
  have exact: "v = r" if "\<forall>d\<in>set dbs. set (pkg_view d) \<subseteq> set (pkg_view db)"
  proof -
    have seen: "seen_rows (db # dbs) = set (pkg_view db)" using that by (auto simp: seen_rows_def)
    have "\<exists>c'. cached_get pc_enabled (hit_by_nevra env) (read_by_nevra db) (cache_add env) c s = Some (r, c')"
      using nevra.get_exact [OF inv assms(6) r] view_nevra_inj [OF ok] read_by_nevra_None [of db s] r
      unfolding seen by (fastforce simp: nevra_row_def)
    then show ?thesis using g(1) by (simp add: get_by_nevra_def)
  qed
  show ?thesis
    using g(1,2) cache_run.by_nevra [OF assms(1) g(1)] past same exact g(4) r
    by (intro exI [of _ v] exI [of _ c'] conjI) (simp_all split: option.splits)
qed

text \<open>With the cache disabled every single lookup reads the row from the database and throws
  it away: a package that is in the tables is reported as unknown, by NEVRA, by id, by name
  and by name id.  Only the bulk lookup still finds it.\<close>

theorem disabled_cache_finds_nothing:
  assumes "\<not> pc_enabled c" "\<not> d_down db"
  shows "get_by_nevra env db c s = Some (None, c) \<and> get_by_id env db c i = Some (None, c)
    \<and> get_latest_by_name env db c name = Some (None, c) \<and> get_name_by_id env db c i = Some (([], False), c)
    \<and> (\<forall>ss m missing. read_by_nevras db ss = Some (m # ms, missing) \<longrightarrow>
         get_by_nevras env db c ss = Some ((m # ms, missing, True), c))"
proof -
  obtain a b d e where r: "read_by_nevra db s = Some a" "read_by_id db i = Some b"
      "read_latest_by_name db name = Some d" "read_name_by_id db i = Some e"
    using reads_up [OF assms(2)] by blast
  show ?thesis
    using nevra.get_disabled [OF assms(1) r(1)] id.get_disabled [OF assms(1) r(2)]
      latest.get_disabled [OF assms(1) r(3)] name_id.get_disabled [OF assms(1) r(4)] assms(1)
    by (simp add: get_by_nevra_def get_by_id_def get_latest_by_name_def get_name_by_id_def get_by_nevras_def)
qed

section \<open>Witnesses\<close>

text \<open>A list in order of recency with a size, as an instance of the LRU contract.\<close>

type_synonym 'k recency = "nat \<times> ('k \<times> package_meta) list"

definition recency_ops :: "('k recency, 'k) lru_ops" where
  "recency_ops = \<lparr>
     lru_new = (\<lambda>n. if 0 < n then Some (nat n, []) else None),
     lru_get = (\<lambda>(n, l) k. (map_of l k, (n, case map_of l k of None \<Rightarrow> l | Some v \<Rightarrow> (k, v) # AList.delete k l))),
     lru_peek = (\<lambda>(n, l) k. map_of l k),
     lru_add = (\<lambda>(n, l) k v. (n, take n ((k, v) # AList.delete k l))),
     lru_contains_or_add = (\<lambda>(n, l) k v. if map_of l k \<noteq> None then (n, l) else (n, take n ((k, v) # l)))\<rparr>"

lemma map_of_take: "map_of (take n l) k = Some v \<Longrightarrow> map_of l k = Some v"
proof (induction l arbitrary: n)
  case (Cons a l)
  then show ?case by (cases n) (auto split: if_splits)
qed simp

lemma recency_ok: "lru_ok recency_ops"
  unfolding lru_ok_def
  by (auto simp: recency_ops_def delete_conv' split: if_splits option.splits dest!: map_of_take)

definition sample_packages :: package_db where
  "sample_packages = \<lparr>d_names = [(1, ''foo'')],
     d_packages = [\<lparr>pr_id = 5, pr_name_id = 1, pr_evra = ''1-1.x'', pr_summary = None, pr_description = None\<rparr>],
     d_next_name = 2, d_next_package = 6, d_down = False\<rparr>"

definition sample_env :: "(int recency, string recency) cache_env" where
  "sample_env = \<lparr>ce_ids = recency_ops, ce_strings = recency_ops, ce_vercmp = go_compare\<rparr>"

definition sample_cache :: "bool \<Rightarrow> (int recency, string recency) package_cache" where
  "sample_cache en = the (new_package_cache sample_env en False 10 10)"

lemma sample_packages_ok: "package_db_ok sample_packages"
proof -
  let ?n = "\<lparr>nv_name = ''foo'', nv_epoch = 0, nv_version = ''1'', nv_release = ''1'', nv_arch = ''x''\<rparr>"
  have "nevra_wf ?n" "evra_string ?n = ''1-1.x''" by code_simp+
  then have "canonical \<lparr>pm_id = 5, pm_name_id = 1, pm_name = ''foo'', pm_evra = ''1-1.x'', pm_summary = None,
      pm_description = None\<rparr>"
    unfolding canonical_def by (intro exI [of _ ?n]) simp
  then show ?thesis by (simp add: package_db_ok_def sample_packages_def pkg_view_def)
qed

lemma sample_cache_new: "new_package_cache sample_env en False 10 10 = Some (sample_cache en)"
  by (cases en) (simp_all add: sample_cache_def new_package_cache_def sample_env_def recency_ops_def)

lemma sample_cache_run: "cache_run sample_env [sample_packages] (sample_cache en)"
proof (rule cache_run.create [OF sample_cache_new])
  have "\<not> pc_preload (sample_cache en)"
    by (cases en) (simp_all add: sample_cache_def new_package_cache_def sample_env_def recency_ops_def)
  then show "cache_load sample_env sample_packages (sample_cache en) = Some (sample_cache en)"
    by (simp add: cache_load_def)
qed

lemma sample_cache_enabled [simp]: "pc_enabled (sample_cache en) = en"
  by (cases en) (simp_all add: sample_cache_def new_package_cache_def sample_env_def recency_ops_def)

lemma sample_env_ok: "lru_ok (ce_ids sample_env)" "lru_ok (ce_strings sample_env)"
  by (simp_all add: sample_env_def recency_ok)

lemma sample_packages_up: "\<not> d_down sample_packages"
  by (simp add: sample_packages_def)

text \<open>The tables lose their package after it was looked up: the cache still answers it.\<close>

definition emptied_packages :: package_db where
  "emptied_packages = sample_packages\<lparr>d_packages := []\<rparr>"

definition used_cache :: "(int recency, string recency) package_cache" where
  "used_cache = snd (the (get_by_nevra sample_env sample_packages (sample_cache True) ''foo-0:1-1.x''))"

theorem package_cache_transparent_witness:
  "\<exists>v c'. get_by_nevra sample_env emptied_packages used_cache ''foo-0:1-1.x'' = Some (v, c')
     \<and> cache_run sample_env [emptied_packages, sample_packages] c'
     \<and> map_option pm_id v = Some 5 \<and> read_by_nevra emptied_packages ''foo-0:1-1.x'' = Some None"
proof -
  have "map_option snd (get_by_nevra sample_env sample_packages (sample_cache True) ''foo-0:1-1.x'') \<noteq> None" by code_simp
  then obtain v where "get_by_nevra sample_env sample_packages (sample_cache True) ''foo-0:1-1.x'' = Some (v, used_cache)"
    by (auto simp: used_cache_def)
  then have run: "cache_run sample_env [emptied_packages, sample_packages] used_cache"
    by (intro cache_run.change cache_run.by_nevra [OF sample_cache_run])
  have ok: "\<forall>d\<in>set [emptied_packages, sample_packages]. package_db_ok d"
    using sample_packages_ok by (auto simp: emptied_packages_def package_db_ok_def sample_packages_def pkg_view_def)
  have c: "pc_enabled used_cache" "map_option (map_option pm_id \<circ> fst) (get_by_nevra sample_env emptied_packages used_cache ''foo-0:1-1.x'')
      = Some (Some 5)" "read_by_nevra emptied_packages ''foo-0:1-1.x'' = Some None" by code_simp+
  have up: "\<not> d_down emptied_packages" by (simp add: emptied_packages_def sample_packages_def)
  show ?thesis
    using package_cache_transparent [OF run ok sample_env_ok up c(1), of "''foo-0:1-1.x''"] c(2,3) by auto
qed

theorem disabled_cache_finds_nothing_witness:
  "read_by_nevra sample_packages ''foo-1-1.x'' \<noteq> Some None
   \<and> get_by_nevra sample_env sample_packages (sample_cache False) ''foo-1-1.x'' = Some (None, sample_cache False)"
proof -
  have "read_by_nevra sample_packages ''foo-1-1.x'' \<noteq> Some None" by code_simp
  then show ?thesis
    using disabled_cache_finds_nothing [of "sample_cache False" sample_packages sample_env "''foo-1-1.x''"]
      sample_packages_up by simp
qed

end
