(* ===== verification/EvalStore.thy ===== *)
theory EvalStore
  imports Models
begin

text \<open>
  The tables of \<open>database_admin/schema/create_schema.sql\<close> the evaluator reads and
  writes, keyed by their primary keys, and the statements it issues on them.  Every
  statement may fail: \<open>faults\<close> says which, one site per call in the code, so that a
  theorem quantified over \<open>faults\<close> covers every failure pattern.
\<close>

datatype db_site =
    MissingNamesLookup | MissingNamesInsert | StoredLoad | ChangedNamesLookup
  | DeleteOldAdvisories | CheckSystem | UpsertAdvisories | ReloadAdvisories | UpsertAccountData
  | PackagesLoad | DeleteOldPackages | UpsertPackages | UpdatePatch | CommitTx
  | PackageNameInsert | PackageInsert | LoadSystem | ThirdPartyCount | LazyPackages | TemplateErrata | InvalidateCaches
  | TemplatesLoad | UnnotifiedLoad | TagsLoad | MarkNotified

datatype eval_error =
    DbError db_site
  | DuplicateRow
  | NotLazySaved
  | InvalidArgs
  | MissingInCache int
  | VmaasBadRequest
  | VmaasFailed
  | BadVmaasJson
  | PublishFailed

type_synonym faults = "db_site \<Rightarrow> bool"

type_synonym advisory_key = "int \<times> int \<times> int"
type_synonym account_key = "int \<times> int"

record eval_db =
  t_metadata :: "advisory_metadata list"
  t_next_advisory :: int
  t_system_advisories :: "(advisory_key, int) gomap"
  t_account_data :: "(account_key, advisory_account_data) gomap"
  t_system_packages :: "(advisory_key, int \<times> int option \<times> int option) gomap"
  t_inventory :: "(account_key, system_inventory) gomap"
  t_patch :: "(account_key, system_patch) gomap"

text \<open>The schema's constraints: names and ids of \<open>advisory_metadata\<close> are unique and below the
  sequence, the other tables have one row per key, and an advisory row's foreign key
  points to a metadata row.\<close>

definition wf_db :: "eval_db \<Rightarrow> bool" where
  "wf_db db \<longleftrightarrow>
     distinct (map am_name (t_metadata db)) \<and> distinct (map am_id (t_metadata db))
   \<and> (\<forall>m\<in>set (t_metadata db). am_id m < t_next_advisory db)
   \<and> wf_gomap (t_system_advisories db)
   \<and> (\<forall>(acc, sys, adv)\<in>fst ` set (t_system_advisories db). adv \<in> am_id ` set (t_metadata db))"

section \<open>Statements\<close>

definition lookup_metadata :: "eval_db \<Rightarrow> string \<Rightarrow> advisory_metadata option" where
  "lookup_metadata db name = find (\<lambda>m. am_name m = name) (t_metadata db)"

definition metadata_by_id :: "eval_db \<Rightarrow> int \<Rightarrow> advisory_metadata option" where
  "metadata_by_id db i = find (\<lambda>m. am_id m = i) (t_metadata db)"

text \<open>\<open>INSERT .. ON CONFLICT DO NOTHING\<close> into \<open>advisory_metadata\<close>: a row whose name is
  taken is skipped, every other one gets the next id.\<close>

fun insert_metadata :: "advisory_metadata list \<Rightarrow> eval_db \<Rightarrow> eval_db" where
  "insert_metadata [] db = db"
| "insert_metadata (m # ms) db =
     (if lookup_metadata db (am_name m) \<noteq> None then insert_metadata ms db
      else insert_metadata ms
             (db\<lparr>t_metadata := t_metadata db @ [m\<lparr>am_id := t_next_advisory db\<rparr>],
                 t_next_advisory := t_next_advisory db + 1\<rparr>))"

text \<open>\<open>INSERT .. ON CONFLICT (..) DO UPDATE\<close>: PostgreSQL rejects a statement that touches a
  row twice; otherwise every row is inserted or updated by \<open>f\<close>.\<close>

fun upsert_all :: "('v option \<Rightarrow> 'v \<Rightarrow> 'v) \<Rightarrow> ('k \<times> 'v) list \<Rightarrow> ('k, 'v) gomap \<Rightarrow> ('k, 'v) gomap" where
  "upsert_all f [] t = t"
| "upsert_all f ((k, v) # rows) t = upsert_all f rows (gm_put k (f (gm_get t k) v) t)"

definition bulk_upsert :: "('v option \<Rightarrow> 'v \<Rightarrow> 'v) \<Rightarrow> ('k \<times> 'v) list \<Rightarrow> ('k, 'v) gomap
    \<Rightarrow> eval_error + ('k, 'v) gomap" where
  "bulk_upsert f rows t =
     (if distinct (map fst rows) then Inr (upsert_all f rows t) else Inl DuplicateRow)"

definition delete_keys :: "('k \<Rightarrow> bool) \<Rightarrow> ('k, 'v) gomap \<Rightarrow> ('k, 'v) gomap" where
  "delete_keys p t = filter (\<lambda>(k, v). \<not> p k) t"

section \<open>Laws\<close>

lemma find_Some_iff_unique:
  "distinct (map f xs) \<Longrightarrow> (find (\<lambda>x. f x = k) xs = Some x) = (x \<in> set xs \<and> f x = k)"
  by (induction xs) (auto simp: image_iff)

lemma find_None_key: "(find (\<lambda>x. f x = k) xs = None) = (k \<notin> f ` set xs)"
  by (auto simp: find_None_iff image_iff)

lemma lookup_metadata_Some:
  "wf_db db \<Longrightarrow> (lookup_metadata db name = Some m) = (m \<in> set (t_metadata db) \<and> am_name m = name)"
  by (simp add: lookup_metadata_def wf_db_def find_Some_iff_unique)

lemma metadata_by_id_Some:
  "wf_db db \<Longrightarrow> (metadata_by_id db i = Some m) = (m \<in> set (t_metadata db) \<and> am_id m = i)"
  by (simp add: metadata_by_id_def wf_db_def find_Some_iff_unique)

lemma lookup_metadata_None:
  "(lookup_metadata db name = None) = (name \<notin> am_name ` set (t_metadata db))"
  by (simp add: lookup_metadata_def find_None_key)

lemma metadata_name_inj:
  "wf_db db \<Longrightarrow> m \<in> set (t_metadata db) \<Longrightarrow> m' \<in> set (t_metadata db) \<Longrightarrow> am_name m = am_name m' \<Longrightarrow> m = m'"
  unfolding wf_db_def by (meson distinct_map inj_onD)

lemma metadata_id_inj:
  "wf_db db \<Longrightarrow> m \<in> set (t_metadata db) \<Longrightarrow> m' \<in> set (t_metadata db) \<Longrightarrow> am_id m = am_id m' \<Longrightarrow> m = m'"
  unfolding wf_db_def by (meson distinct_map inj_onD)

lemma upsert_all_get:
  "distinct (map fst rows) \<Longrightarrow>
   gm_get (upsert_all f rows t) k =
     (case gm_get rows k of None \<Rightarrow> gm_get t k | Some v \<Rightarrow> Some (f (gm_get t k) v))"
proof (induction rows arbitrary: t)
  case Nil
  then show ?case by simp
next
  case (Cons r rows)
  obtain j v where r: "r = (j, v)" by (cases r)
  have "gm_get rows j = None" using Cons.prems r by (simp add: map_of_eq_None_iff)
  then show ?case using Cons r by (auto simp: gomap split: option.splits)
qed

lemma upsert_all_wf [simp]: "wf_gomap t \<Longrightarrow> wf_gomap (upsert_all f rows t)"
  by (induction f rows t rule: upsert_all.induct) auto

lemma delete_keys_get [gomap]: "gm_get (delete_keys p t) k = (if p k then None else gm_get t k)"
  by (induction t) (auto simp: delete_keys_def)

lemma delete_keys_wf [simp]: "wf_gomap t \<Longrightarrow> wf_gomap (delete_keys p t)"
proof -
  have "map fst (delete_keys p t) = filter (\<lambda>k. \<not> p k) (map fst t)"
    by (induction t) (auto simp: delete_keys_def)
  then show "wf_gomap t \<Longrightarrow> wf_gomap (delete_keys p t)" by simp
qed

lemma insert_metadata_frame [simp]:
  "t_system_advisories (insert_metadata ms db) = t_system_advisories db"
  "t_account_data (insert_metadata ms db) = t_account_data db"
  "t_system_packages (insert_metadata ms db) = t_system_packages db"
  "t_inventory (insert_metadata ms db) = t_inventory db"
  "t_patch (insert_metadata ms db) = t_patch db"
  by (induction ms db rule: insert_metadata.induct) auto

lemma insert_metadata_wf: "wf_db db \<Longrightarrow> wf_db (insert_metadata ms db)"
proof (induction ms db rule: insert_metadata.induct)
  case (2 m ms db)
  show ?case
  proof (cases "lookup_metadata db (am_name m) = None")
    case True
    have "wf_db (db\<lparr>t_metadata := t_metadata db @ [m\<lparr>am_id := t_next_advisory db\<rparr>],
                 t_next_advisory := t_next_advisory db + 1\<rparr>)"
      using 2(3) True by (fastforce simp: wf_db_def lookup_metadata_None)
    then show ?thesis using 2 True by simp
  next
    case False
    then show ?thesis using 2 by simp
  qed
qed simp

lemma insert_metadata_names:
  "am_name ` set (t_metadata (insert_metadata ms db)) = am_name ` set (t_metadata db) \<union> am_name ` set ms"
proof (induction ms db rule: insert_metadata.induct)
  case (2 m ms db)
  then show ?case
    using lookup_metadata_None [of db "am_name m"] by (cases "lookup_metadata db (am_name m)") auto
qed simp

lemma insert_metadata_keeps:
  "set (t_metadata db) \<subseteq> set (t_metadata (insert_metadata ms db))"
  by (induction ms db rule: insert_metadata.induct) (auto split: if_splits)

lemma insert_metadata_lookup:
  assumes "wf_db db" "lookup_metadata db n = Some m"
  shows "lookup_metadata (insert_metadata ms db) n = Some m"
  using assms insert_metadata_keeps lookup_metadata_Some [OF assms(1)]
    lookup_metadata_Some [OF insert_metadata_wf [OF assms(1)]] by blast

end
