(* ===== verification/Vmaas.thy ===== *)
theory Vmaas
  imports GoStrings
begin

text \<open>
  The VMaaS API types of \<open>base/vmaas/vmaas.go\<close>.  A Go pointer field is an
  \<open>option\<close>; every getter reads a nil receiver or a nil field as the zero value.
  The update list of a package is a pointer to a struct with one pointer field,
  hence \<open>update list option option\<close>: \<open>None\<close> is a nil pointer (JSON null),
  \<open>Some None\<close> a struct without \<open>available_updates\<close>.
\<close>

abbreviation (input) INSTALLABLE :: int where "INSTALLABLE \<equiv> 0"
abbreviation (input) APPLICABLE :: int where "APPLICABLE \<equiv> 1"

record avail_update =
  up_repository :: "string option"
  up_releasever :: "string option"
  up_basearch :: "string option"
  up_erratum :: "string option"
  up_package :: "string option"
  up_package_name :: "string option"
  up_evra :: "string option"
  up_status :: int

type_synonym update_list = "avail_update list option"
type_synonym update_list_ptr = "update_list option"

record updates_response =
  ur_update_list :: "(string, update_list_ptr) gomap option"
  ur_repository_list :: "string list option"
  ur_modules_list :: "(string \<times> string) list option"
  ur_releasever :: "string option"
  ur_basearch :: "string option"
  ur_last_change :: "string option"
  ur_build_pkgcache :: "bool option"

record updates_request =
  rq_package_list :: "string list"
  rq_repository_list :: "string list"
  rq_repository_paths :: "string list"
  rq_modules_list :: "(string \<times> string) list option"
  rq_releasever :: "string option"
  rq_basearch :: "string option"
  rq_security_only :: "bool option"
  rq_latest_only :: "bool option"
  rq_third_party :: "bool option"
  rq_optimistic_updates :: "bool option"
  rq_epoch_required :: "bool option"

definition str_of :: "string option \<Rightarrow> string" where
  "str_of p = (case p of None \<Rightarrow> [] | Some s \<Rightarrow> s)"

section \<open>Getters and setters\<close>

text \<open>\<open>GetUpdateList\<close> answers a nil map for a nil response or a nil field.\<close>

definition get_update_list :: "updates_response option \<Rightarrow> (string, update_list_ptr) gomap option" where
  "get_update_list o' = (case o' of None \<Rightarrow> None | Some r \<Rightarrow> ur_update_list r)"

text \<open>Ranging over a nil map visits nothing.\<close>

definition update_entries :: "updates_response option \<Rightarrow> (string, update_list_ptr) gomap" where
  "update_entries o' = (case get_update_list o' of None \<Rightarrow> [] | Some m \<Rightarrow> m)"

definition get_build_pkgcache :: "updates_response option \<Rightarrow> bool" where
  "get_build_pkgcache o' =
     (case o' of None \<Rightarrow> False
      | Some r \<Rightarrow> (case ur_build_pkgcache r of None \<Rightarrow> False | Some b \<Rightarrow> b))"

definition get_available_updates :: "update_list_ptr \<Rightarrow> avail_update list" where
  "get_available_updates p =
     (case p of None \<Rightarrow> [] | Some None \<Rightarrow> [] | Some (Some us) \<Rightarrow> us)"

definition set_installability :: "int \<Rightarrow> avail_update \<Rightarrow> avail_update" where
  "set_installability status u = u\<lparr>up_status := status\<rparr>"

definition set_updates_installability :: "int \<Rightarrow> update_list_ptr \<Rightarrow> update_list_ptr" where
  "set_updates_installability status p =
     (case p of None \<Rightarrow> None | Some None \<Rightarrow> Some None
      | Some (Some us) \<Rightarrow> Some (Some (map (set_installability status) us)))"

definition get_package_name :: "avail_update \<Rightarrow> string" where
  "get_package_name u = str_of (up_package_name u)"

definition get_evra :: "avail_update \<Rightarrow> string" where
  "get_evra u = str_of (up_evra u)"

definition get_package :: "avail_update \<Rightarrow> string" where
  "get_package u =
     (let name = get_package_name u; evra = get_evra u
      in if 0 < length name \<and> 0 < length evra then join_with ''-'' [name, evra]
         else str_of (up_package u))"

definition get_erratum :: "avail_update \<Rightarrow> string" where
  "get_erratum u = str_of (up_erratum u)"

definition get_basearch :: "avail_update \<Rightarrow> string" where
  "get_basearch u = str_of (up_basearch u)"

definition get_releasever :: "avail_update \<Rightarrow> string" where
  "get_releasever u = str_of (up_releasever u)"

definition get_repository :: "avail_update \<Rightarrow> string" where
  "get_repository u = str_of (up_repository u)"

definition get_modules_list :: "updates_request option \<Rightarrow> (string \<times> string) list" where
  "get_modules_list o' =
     (case o' of None \<Rightarrow> []
      | Some r \<Rightarrow> (case rq_modules_list r of None \<Rightarrow> [] | Some l \<Rightarrow> l))"

definition set_releasever :: "string \<Rightarrow> updates_request \<Rightarrow> updates_request" where
  "set_releasever v r = r\<lparr>rq_releasever := Some v\<rparr>"

text \<open>\<open>UpdatesV3ResponseAvailableUpdates.Cmp\<close>: the status is not compared.\<close>

definition upd_cmp :: "avail_update \<Rightarrow> avail_update \<Rightarrow> int" where
  "upd_cmp a b =
     (let cmp = go_compare (get_package a) (get_package b) in if cmp \<noteq> 0 then cmp
      else let cmp = go_compare (get_erratum a) (get_erratum b) in if cmp \<noteq> 0 then cmp
      else let cmp = go_compare (get_repository a) (get_repository b) in if cmp \<noteq> 0 then cmp
      else let cmp = go_compare (get_basearch a) (get_basearch b) in if cmp \<noteq> 0 then cmp
      else go_compare (get_releasever a) (get_releasever b))"

section \<open>Laws\<close>

lemma set_installability_status [simp]: "up_status (set_installability s u) = s"
  by (simp add: set_installability_def)

lemma set_installability_get [simp]:
  "get_package (set_installability s u) = get_package u"
  "get_package_name (set_installability s u) = get_package_name u"
  "get_evra (set_installability s u) = get_evra u"
  "get_erratum (set_installability s u) = get_erratum u"
  by (simp_all add: set_installability_def get_package_def get_package_name_def get_evra_def
      get_erratum_def Let_def)

lemma get_available_set_installability [simp]:
  "get_available_updates (set_updates_installability s p)
   = map (set_installability s) (get_available_updates p)"
  by (auto simp: get_available_updates_def set_updates_installability_def split: option.splits)

interpretation upd: go_order upd_cmp
proof -
  have eq: "upd_cmp = (\<lambda>a b. if go_compare (get_package a) (get_package b) \<noteq> 0
        then go_compare (get_package a) (get_package b)
        else if go_compare (get_erratum a) (get_erratum b) \<noteq> 0
        then go_compare (get_erratum a) (get_erratum b)
        else if go_compare (get_repository a) (get_repository b) \<noteq> 0
        then go_compare (get_repository a) (get_repository b)
        else if go_compare (get_basearch a) (get_basearch b) \<noteq> 0
        then go_compare (get_basearch a) (get_basearch b)
        else go_compare (get_releasever a) (get_releasever b))"
    by (auto simp: fun_eq_iff upd_cmp_def Let_def)
  have key: "go_order (\<lambda>a b. go_compare (f a) (f b))" for f :: "avail_update \<Rightarrow> string"
    by (rule go_order_on [OF str.go_order_axioms])
  show "go_order upd_cmp"
    by (subst eq) (intro go_order_then key)
qed

text \<open>Equal under \<open>Cmp\<close> is equal in every field the program reads, the status apart.\<close>

lemma upd_cmp_eq0:
  "upd_cmp a b = 0 \<longleftrightarrow> get_package a = get_package b \<and> get_erratum a = get_erratum b
     \<and> get_repository a = get_repository b \<and> get_basearch a = get_basearch b
     \<and> get_releasever a = get_releasever b"
  by (auto simp: upd_cmp_def Let_def)

end
