(* ===== verification/Advisories.thy ===== *)
theory Advisories
  imports EvalStore Vmaas GoRegexp "HOL-Library.Product_Lexorder"
begin

text \<open>
  Advisory evaluation (\<open>evaluator/evaluate_advisories.go\<close>, \<open>remediations.go\<close>,
  \<open>advisory_update.go\<close>): what VMaaS reports against what is stored for a system, the
  changes between the two, and the statements that bring the tables up to date.
  Configuration switches are arguments; logging and metrics are left out.
\<close>

datatype change = NoChange | Add | Keep | Update | Remove

record ext_advisory =
  ea_change :: change
  ea_row :: system_advisory

type_synonym ext_advisory_map = "(string, ext_advisory) gomap"
type_synonym system_advisory_map = "(string, system_advisory) gomap"

section \<open>What VMaaS reports\<close>

fun report_step :: "avail_update list \<Rightarrow> (string, int) gomap \<Rightarrow> (string, int) gomap" where
  "report_step [] advisories = advisories"
| "report_step (u # us) advisories =
     (let erratum = get_erratum u
      in if 0 < length erratum
         then (if gm_get advisories erratum = Some INSTALLABLE then report_step us advisories
               else report_step us (gm_put erratum (up_status u) advisories))
         else report_step us advisories)"

fun report_entries :: "(string, update_list_ptr) gomap \<Rightarrow> (string, int) gomap \<Rightarrow> (string, int) gomap" where
  "report_entries [] advisories = advisories"
| "report_entries ((k, l) # es) advisories =
     report_entries es (report_step (get_available_updates l) advisories)"

definition get_reported_advisories :: "updates_response option \<Rightarrow> (string, int) gomap" where
  "get_reported_advisories r = report_entries (update_entries r) []"

definition get_reported_package_updates :: "updates_response option \<Rightarrow> string list" where
  "get_reported_package_updates r =
     remdups (concat (map (\<lambda>(k, l). map get_package (get_available_updates l)) (update_entries r)))"

definition create_remediations_state :: "uuid \<Rightarrow> updates_response option \<Rightarrow> uuid \<times> string list" where
  "create_remediations_state i r =
     (i, sort (map (\<lambda>a. ''patch:'' @ a) (map fst (get_reported_advisories r))
             @ map (\<lambda>p. ''patch:'' @ p) (get_reported_package_updates r)))"

section \<open>Advisory metadata\<close>

fun ids_of_rows :: "advisory_metadata list \<Rightarrow> (string, int) gomap \<Rightarrow> (string, int) gomap" where
  "ids_of_rows [] m = m"
| "ids_of_rows (a # as) m = ids_of_rows as (gm_put (am_name a) (am_id a) m)"

definition get_advisory_metadata_ids :: "faults \<Rightarrow> db_site \<Rightarrow> eval_db \<Rightarrow> string list
    \<Rightarrow> eval_error + (string, int) gomap" where
  "get_advisory_metadata_ids faults site db names =
     (if faults site then Inl (DbError site)
      else Inr (ids_of_rows (filter (\<lambda>m. am_name m \<in> set names) (t_metadata db)) []))"

definition get_missing_advisories :: "faults \<Rightarrow> eval_db \<Rightarrow> (string, int) gomap
    \<Rightarrow> eval_error + string list" where
  "get_missing_advisories faults db advisories =
     (let names = filter (\<lambda>n. 0 < length n) (map fst advisories)
      in (case get_advisory_metadata_ids faults MissingNamesLookup db names of
            Inl e \<Rightarrow> Inl e
          | Inr ids \<Rightarrow>
              if length advisories = length ids then Inr []
              else Inr (filter (\<lambda>n. \<not> gm_has ids n) (map fst advisories))))"

definition rhel_regexp :: re where
  "rhel_regexp = Seq Bol (Seq (Chars (\<lambda>c. c = CHR ''R'')) (Seq (Chars (\<lambda>c. c = CHR ''H''))
     (Seq (Chars (\<lambda>c. c \<noteq> CHR 0x0A)) (Seq (Chars (\<lambda>c. c = CHR ''A'')) (Chars (\<lambda>c. c = CHR ''-''))))))"

definition missing_advisory_row :: "string \<Rightarrow> advisory_metadata" where
  "missing_advisory_row name =
     (let txt = (if match_string rhel_regexp name then ''https://access.redhat.com/errata/'' @ name
                 else ''Not Available for 3rd party systems'')
      in zero_advisory\<lparr>am_name := name, am_description := txt, am_synopsis := txt, am_summary := txt,
           am_type_id := 0, am_reboot_required := False, am_synced := False\<rparr>)"

text \<open>The insert runs in a transaction of its own that is committed whatever happens later.\<close>

definition store_missing_advisories :: "faults \<Rightarrow> eval_db \<Rightarrow> string list \<Rightarrow> eval_error option \<times> eval_db" where
  "store_missing_advisories faults db names =
     (let to_store = map missing_advisory_row (filter (\<lambda>n. 0 < length n \<and> length n < 100) names)
      in if to_store = [] then (None, db)
         else if faults MissingNamesInsert then (Some (DbError MissingNamesInsert), db)
         else (None, insert_metadata to_store db))"

definition lazy_save_advisories :: "faults \<Rightarrow> eval_db \<Rightarrow> updates_response option
    \<Rightarrow> eval_error option \<times> eval_db" where
  "lazy_save_advisories faults db r =
     (let reported = get_reported_advisories r
      in if length reported < 1 then (None, db)
         else (case get_missing_advisories faults db reported of
                 Inl e \<Rightarrow> (Some e, db)
               | Inr names \<Rightarrow>
                   if length names = 0 then (None, db) else store_missing_advisories faults db names))"

text \<open>\<open>loadSystemAdvisories\<close>: the rows of one system, each with its metadata row
  (gorm leaves the zero row where there is none), as a map by advisory name.\<close>

definition advisory_row :: "eval_db \<Rightarrow> advisory_key \<Rightarrow> int \<Rightarrow> system_advisory" where
  "advisory_row db k status =
     (case k of (acc, sys, adv) \<Rightarrow>
        \<lparr>sa_account = acc, sa_system = sys, sa_advisory_id = adv,
         sa_advisory = (case metadata_by_id db adv of None \<Rightarrow> zero_advisory | Some m \<Rightarrow> m),
         sa_status = status\<rparr>)"

fun rows_by_name :: "system_advisory list \<Rightarrow> system_advisory_map \<Rightarrow> system_advisory_map" where
  "rows_by_name [] m = m"
| "rows_by_name (r # rs) m = rows_by_name rs (gm_put (am_name (sa_advisory r)) r m)"

definition load_system_advisories :: "faults \<Rightarrow> db_site \<Rightarrow> eval_db \<Rightarrow> int \<Rightarrow> int
    \<Rightarrow> eval_error + system_advisory_map" where
  "load_system_advisories faults site db acc sys =
     (if faults site then Inl (DbError site)
      else Inr (rows_by_name
        (map (\<lambda>(k, s). advisory_row db k s)
          (filter (\<lambda>((a, y, v), s). y = sys \<and> a = acc) (t_system_advisories db))) []))"

section \<open>Changes\<close>

definition new_row :: "int \<Rightarrow> system_advisory" where
  "new_row status = \<lparr>sa_account = 0, sa_system = 0, sa_advisory_id = 0, sa_advisory = zero_advisory,
     sa_status = status\<rparr>"

fun eval_reported :: "(string, int) gomap \<Rightarrow> system_advisory_map \<Rightarrow> ext_advisory_map \<Rightarrow> string list
    \<Rightarrow> ext_advisory_map \<times> string list" where
  "eval_reported [] stored ext missing = (ext, missing)"
| "eval_reported ((name, status) # rs) stored ext missing =
     (case gm_get stored name of
        Some row \<Rightarrow>
          if status \<noteq> sa_status row
          then eval_reported rs stored
                 (gm_put name \<lparr>ea_change = Update, ea_row = row\<lparr>sa_status := status\<rparr>\<rparr> ext) missing
          else eval_reported rs stored (gm_put name \<lparr>ea_change = Keep, ea_row = row\<rparr> ext) missing
      | None \<Rightarrow>
          eval_reported rs stored (gm_put name \<lparr>ea_change = Add, ea_row = new_row status\<rparr> ext)
            (missing @ [name]))"

fun set_missing_ids :: "(string, int) gomap \<Rightarrow> string list \<Rightarrow> ext_advisory_map
    \<Rightarrow> eval_error + ext_advisory_map" where
  "set_missing_ids ids [] ext = Inr ext"
| "set_missing_ids ids (name # names) ext =
     (case gm_get ids name of
        None \<Rightarrow> Inl NotLazySaved
      | Some i \<Rightarrow>
          (case gm_get ext name of
             None \<Rightarrow> set_missing_ids ids names
                       (gm_put name \<lparr>ea_change = NoChange, ea_row = (new_row 0)\<lparr>sa_advisory_id := i\<rparr>\<rparr> ext)
           | Some e \<Rightarrow> set_missing_ids ids names
                       (gm_put name (e\<lparr>ea_row := (ea_row e)\<lparr>sa_advisory_id := i\<rparr>\<rparr>) ext)))"

definition load_missing_names_ids :: "faults \<Rightarrow> eval_db \<Rightarrow> string list \<Rightarrow> ext_advisory_map
    \<Rightarrow> eval_error + ext_advisory_map" where
  "load_missing_names_ids faults db names ext =
     (case get_advisory_metadata_ids faults ChangedNamesLookup db names of
        Inl e \<Rightarrow> Inl e
      | Inr ids \<Rightarrow> set_missing_ids ids names ext)"

fun eval_removed :: "system_advisory_map \<Rightarrow> (string, int) gomap \<Rightarrow> ext_advisory_map \<Rightarrow> ext_advisory_map" where
  "eval_removed [] reported ext = ext"
| "eval_removed ((name, row) # rs) reported ext =
     (if gm_has reported name then eval_removed rs reported ext
      else eval_removed rs reported (gm_put name \<lparr>ea_change = Remove, ea_row = row\<rparr> ext))"

definition evaluate_changes :: "faults \<Rightarrow> eval_db \<Rightarrow> updates_response option \<Rightarrow> system_advisory_map
    \<Rightarrow> eval_error + ext_advisory_map" where
  "evaluate_changes faults db r stored =
     (let reported = get_reported_advisories r;
          (ext, missing) = eval_reported reported stored [] []
      in (case load_missing_names_ids faults db missing ext of
            Inl e \<Rightarrow> Inl e
          | Inr ext' \<Rightarrow> Inr (eval_removed stored reported ext')))"

definition lazy_save_and_load_advisories :: "bool \<Rightarrow> faults \<Rightarrow> eval_db \<Rightarrow> system_platform
    \<Rightarrow> updates_response option \<Rightarrow> (eval_error + ext_advisory_map option) \<times> eval_db" where
  "lazy_save_and_load_advisories analysis faults db system r =
     (if \<not> analysis then (Inr None, db)
      else (case lazy_save_advisories faults db r of
              (Some e, db') \<Rightarrow> (Inl e, db')
            | (None, db') \<Rightarrow>
                (case load_system_advisories faults StoredLoad db' (si_account (pl_inventory system))
                        (si_id (pl_inventory system)) of
                   Inl e \<Rightarrow> (Inl e, db')
                 | Inr stored \<Rightarrow>
                     (case evaluate_changes faults db' r stored of
                        Inl e \<Rightarrow> (Inl e, db')
                      | Inr merged \<Rightarrow> (Inr (Some merged), db')))))"

section \<open>Storing\<close>

fun process_advisories :: "system_platform \<Rightarrow> ext_advisory_map \<Rightarrow> int list \<times> system_advisory list" where
  "process_advisories system [] = ([], [])"
| "process_advisories system ((name, a) # as) =
     (let (del, objs) = process_advisories system as
      in (case ea_change a of
            Remove \<Rightarrow> (sa_advisory_id (ea_row a) # del, objs)
          | NoChange \<Rightarrow> (del, objs)
          | Keep \<Rightarrow> (del, objs)
          | _ \<Rightarrow> (del, \<lparr>sa_account = si_account (pl_inventory system),
                       sa_system = si_id (pl_inventory system),
                       sa_advisory_id = sa_advisory_id (ea_row a),
                       sa_advisory = sa_advisory (ea_row a),
                       sa_status = sa_status (ea_row a)\<rparr> # objs)))"

definition delete_old_system_advisories :: "faults \<Rightarrow> eval_db \<Rightarrow> int \<Rightarrow> int \<Rightarrow> int list \<Rightarrow> eval_error + eval_db" where
  "delete_old_system_advisories faults db acc sys patched =
     (if faults DeleteOldAdvisories then Inl (DbError DeleteOldAdvisories)
      else Inr (db\<lparr>t_system_advisories :=
        delete_keys (\<lambda>(a, y, v). a = acc \<and> y = sys \<and> v \<in> set patched) (t_system_advisories db)\<rparr>))"

definition valid_system :: "faults \<Rightarrow> eval_db \<Rightarrow> int \<Rightarrow> int \<Rightarrow> bool" where
  "valid_system faults db acc sys = (\<not> faults CheckSystem \<and> gm_has (t_inventory db) (acc, sys))"

definition upsert_system_advisories :: "faults \<Rightarrow> eval_db \<Rightarrow> system_advisory list \<Rightarrow> eval_error + eval_db" where
  "upsert_system_advisories faults db objs =
     (if objs = [] then Inr db
      else if faults UpsertAdvisories then Inl (DbError UpsertAdvisories)
      else (case bulk_upsert (\<lambda>_ s. s)
                  (map (\<lambda>r. ((sa_account r, sa_system r, sa_advisory_id r), sa_status r)) objs)
                  (t_system_advisories db) of
              Inl e \<Rightarrow> Inl e
            | Inr t \<Rightarrow> Inr (db\<lparr>t_system_advisories := t\<rparr>)))"

definition update_system_advisories :: "faults \<Rightarrow> eval_db \<Rightarrow> system_platform \<Rightarrow> ext_advisory_map
    \<Rightarrow> eval_error + eval_db" where
  "update_system_advisories faults db system ext =
     (let (delete_ids, objs) = process_advisories system ext;
          acc = si_account (pl_inventory system); sys = si_id (pl_inventory system)
      in (case delete_old_system_advisories faults db acc sys delete_ids of
            Inl e \<Rightarrow> Inl e
          | Inr db' \<Rightarrow>
              if \<not> valid_system faults db' acc sys then Inr db'
              else upsert_system_advisories faults db' objs))"

section \<open>Account caches\<close>

definition aad_row :: "int \<Rightarrow> int \<Rightarrow> int \<Rightarrow> int \<Rightarrow> advisory_account_data" where
  "aad_row adv acc installable applicable =
     \<lparr>aad_advisory_id = adv, aad_account = acc, aad_applicable = applicable,
      aad_installable = installable, aad_notified = None\<rparr>"

fun aad_changes :: "int \<Rightarrow> ext_advisory_map \<Rightarrow> (int, advisory_account_data) gomap
    \<Rightarrow> (int, advisory_account_data) gomap" where
  "aad_changes acc [] m = m"
| "aad_changes acc ((name, a) # as) m =
     (let adv = sa_advisory_id (ea_row a); status = sa_status (ea_row a)
      in aad_changes acc as
           (case ea_change a of
              Remove \<Rightarrow>
                (if status \<noteq> APPLICABLE then gm_put adv (aad_row adv acc (-1) (-1)) m
                 else gm_put adv (aad_row adv acc (-1) 0) m)
            | NoChange \<Rightarrow> m
            | Keep \<Rightarrow> m
            | _ \<Rightarrow>
                (if status = INSTALLABLE then gm_put adv (aad_row adv acc 1 1) m
                 else if gm_has m adv then m
                 else gm_put adv (aad_row adv acc 0 1) m)))"

definition calc_advisory_changes :: "system_platform \<Rightarrow> ext_advisory_map \<Rightarrow> advisory_account_data list" where
  "calc_advisory_changes system ext =
     (if si_stale (pl_inventory system) then []
      else sort_key (\<lambda>r. (aad_account r, aad_advisory_id r))
             (map snd (aad_changes (si_account (pl_inventory system)) ext [])))"

text \<open>The upsert adds the row's counts to the stored ones.\<close>

definition add_counts :: "advisory_account_data option \<Rightarrow> advisory_account_data \<Rightarrow> advisory_account_data" where
  "add_counts old new =
     (case old of None \<Rightarrow> new
      | Some r \<Rightarrow> r\<lparr>aad_installable := aad_installable r + aad_installable new,
                    aad_applicable := aad_applicable r + aad_applicable new\<rparr>)"

definition update_advisory_account_data :: "faults \<Rightarrow> eval_db \<Rightarrow> system_platform \<Rightarrow> ext_advisory_map
    \<Rightarrow> eval_error + eval_db" where
  "update_advisory_account_data faults db system ext =
     (let changes = calc_advisory_changes system ext
      in if length changes = 0 then Inr db
         else if faults UpsertAccountData then Inl (DbError UpsertAccountData)
         else (case bulk_upsert add_counts
                     (map (\<lambda>r. ((aad_account r, aad_advisory_id r), r)) changes) (t_account_data db) of
                 Inl e \<Rightarrow> Inl e
               | Inr t \<Rightarrow> Inr (db\<lparr>t_account_data := t\<rparr>)))"

definition store_advisory_data :: "bool \<Rightarrow> faults \<Rightarrow> eval_db \<Rightarrow> system_platform \<Rightarrow> ext_advisory_map
    \<Rightarrow> eval_error + system_advisory_map option \<times> eval_db" where
  "store_advisory_data analysis faults db system ext =
     (if \<not> analysis then Inr (None, db)
      else (case update_system_advisories faults db system ext of
              Inl e \<Rightarrow> Inl e
            | Inr db1 \<Rightarrow>
                (case load_system_advisories faults ReloadAdvisories db1 (si_account (pl_inventory system))
                        (si_id (pl_inventory system)) of
                   Inl e \<Rightarrow> Inl e
                 | Inr new_rows \<Rightarrow>
                     (case update_advisory_account_data faults db1 system ext of
                        Inl e \<Rightarrow> Inl e
                      | Inr db2 \<Rightarrow> Inr (Some new_rows, db2)))))"

section \<open>Advisory update events\<close>

definition get_changed_advisory_ids :: "ext_advisory_map \<Rightarrow> int list" where
  "get_changed_advisory_ids ext =
     map (\<lambda>(n, a). sa_advisory_id (ea_row a)) (filter (\<lambda>(n, a). ea_change a \<noteq> Keep) ext)"

end
