(* ===== verification/Packages.thy ===== *)
theory Packages
  imports PackageCacheLaws Advisories
begin

text \<open>
  Package evaluation (\<open>evaluator/evaluate_packages.go\<close>): saving unknown packages, loading
  the installed and the latest packages of a system, and bringing \<open>system_package2\<close>
  up to date.  An outer \<open>None\<close> is a panic of the package cache.
\<close>

type_synonym ('i, 's) pkg_state = "('i, 's) package_cache \<times> package_db"

record named_package =
  np_name_id :: int
  np_package_id :: int
  np_installable_id :: "int option"
  np_applicable_id :: "int option"
  np_change :: change

type_synonym named_package_map = "(string, named_package) gomap"

section \<open>Lazy saving\<close>

text \<open>\<open>updatePackageNameDB\<close>: the id of the row, 0 when the insert fails or conflicts.  Like
  every insert here it runs in a transaction of its own.\<close>

definition update_package_name_db :: "faults \<Rightarrow> package_db \<Rightarrow> string \<Rightarrow> eval_error option \<times> int \<times> package_db" where
  "update_package_name_db faults db name =
     (if faults PackageNameInsert \<or> name = [] then (Some (DbError PackageNameInsert), 0, db)
      else if name \<in> snd ` set (d_names db) then (None, 0, db)
      else (None, d_next_name db,
            db\<lparr>d_names := d_names db @ [(d_next_name db, name)], d_next_name := d_next_name db + 1\<rparr>))"

definition get_missing_package :: "('i, 's) cache_env \<Rightarrow> faults \<Rightarrow> nevra \<Rightarrow> ('i, 's) pkg_state
    \<Rightarrow> (package_row \<times> ('i, 's) pkg_state) option" where
  "get_missing_package env faults parsed st = do {
     let (c, db) = st;
     (latest, c) \<leftarrow> get_latest_by_name env db c (nv_name parsed);
     let pkg = \<lparr>pr_id = 0, pr_name_id = 0, pr_evra = evra_string parsed, pr_summary = None, pr_description = None\<rparr>;
     (case latest of
        Some l \<Rightarrow> Some (pkg\<lparr>pr_name_id := pm_name_id l, pr_summary := pm_summary l,
                            pr_description := pm_description l\<rparr>, (c, db))
      | None \<Rightarrow>
          (let (err, i, db) = update_package_name_db faults db (nv_name parsed);
               i = (if i = 0
                    then (case find (\<lambda>(j, name). name = nv_name parsed) (d_names db) of
                            None \<Rightarrow> 0 | Some (j, name) \<Rightarrow> if d_down db then 0 else j)
                    else i)
           in Some (pkg\<lparr>pr_name_id := i\<rparr>, (c, db)))) }"

fun get_missing_loop :: "('i, 's) cache_env \<Rightarrow> faults \<Rightarrow> (string, nevra) gomap \<Rightarrow> package_row list
    \<Rightarrow> ('i, 's) pkg_state \<Rightarrow> (package_row list \<times> ('i, 's) pkg_state) option" where
  "get_missing_loop env faults [] packages st = Some (packages, st)"
| "get_missing_loop env faults ((nevra, parsed) # ns) packages st = do {
     (pkg, st) \<leftarrow> get_missing_package env faults parsed st;
     get_missing_loop env faults ns (packages @ [pkg]) st }"

definition listed_nevras :: "updates_response option \<Rightarrow> string list" where
  "listed_nevras r = concat (map (\<lambda>(nevra, l). nevra #
     map (\<lambda>u. get_package_name u @ ''-'' @ get_evra u) (get_available_updates l)) (update_entries r))"

definition get_missing_packages :: "('i, 's) cache_env \<Rightarrow> faults \<Rightarrow> updates_response option
    \<Rightarrow> ('i, 's) pkg_state \<Rightarrow> (package_row list \<times> ('i, 's) pkg_state) option" where
  "get_missing_packages env faults r st = do {
     let (c, db) = st;
     ((_, missing, _), c) \<leftarrow> get_by_nevras env db c (listed_nevras r);
     get_missing_loop env faults missing [] (c, db) }"

text \<open>\<open>INSERT .. ON CONFLICT DO NOTHING\<close> into \<open>package\<close>; a row without a package name breaks
  the foreign key and with it the whole statement.\<close>

fun insert_packages :: "package_row list \<Rightarrow> package_db \<Rightarrow> package_db" where
  "insert_packages [] db = db"
| "insert_packages (p # ps) db =
     (if \<exists>q\<in>set (d_packages db). pr_name_id q = pr_name_id p \<and> pr_evra q = pr_evra p then insert_packages ps db
      else insert_packages ps
             (db\<lparr>d_packages := d_packages db @ [p\<lparr>pr_id := d_next_package db\<rparr>],
                 d_next_package := d_next_package db + 1\<rparr>))"

definition update_package_db :: "faults \<Rightarrow> package_db \<Rightarrow> package_row list \<Rightarrow> eval_error option \<times> package_db" where
  "update_package_db faults db missing =
     (if missing = [] then (None, db)
      else if faults PackageInsert \<or> (\<exists>p\<in>set missing. pr_name_id p \<notin> fst ` set (d_names db))
      then (Some (DbError PackageInsert), db)
      else (None, insert_packages missing db))"

definition lazy_save_packages :: "bool \<Rightarrow> ('i, 's) cache_env \<Rightarrow> faults \<Rightarrow> updates_response option
    \<Rightarrow> ('i, 's) pkg_state \<Rightarrow> (eval_error option \<times> ('i, 's) pkg_state) option" where
  "lazy_save_packages enable_lazy env faults r st =
     (if \<not> enable_lazy then Some (None, st)
      else do {
        (missing, (c, db)) \<leftarrow> get_missing_packages env faults r st;
        let (err, db) = update_package_db faults db missing;
        Some (err, (c, db)) })"

section \<open>Loading\<close>

definition is_valid_nevra :: "('i, 's) cache_env \<Rightarrow> package_db \<Rightarrow> ('i, 's) package_cache \<Rightarrow> string
    \<Rightarrow> (bool \<times> ('i, 's) package_cache) option" where
  "is_valid_nevra env db c nevra =
     (if has_prefix ''gpg-pubkey'' nevra then Some (False, c)
      else do { (m, c) \<leftarrow> get_by_nevra env db c nevra; Some (m \<noteq> None, c) })"

fun latest_scan :: "avail_update list \<Rightarrow> string \<Rightarrow> string \<Rightarrow> string \<times> string" where
  "latest_scan [] installable applicable = (installable, applicable)"
| "latest_scan (u # us) installable applicable =
     (let nevra = get_package u
      in if length nevra = 0 then latest_scan us installable applicable
         else if up_status u = INSTALLABLE then latest_scan us nevra applicable
         else if up_status u = APPLICABLE then latest_scan us installable nevra
         else latest_scan us installable applicable)"

definition id_if_known :: "('i, 's) cache_env \<Rightarrow> package_db \<Rightarrow> ('i, 's) package_cache \<Rightarrow> string
    \<Rightarrow> (int option \<times> ('i, 's) package_cache) option" where
  "id_if_known env db c nevra =
     (if 0 < length nevra then do { (m, c) \<leftarrow> get_by_nevra env db c nevra; Some (map_option pm_id m, c) }
      else Some (None, c))"

definition latest_packages_from_updates_list :: "('i, 's) cache_env \<Rightarrow> package_db \<Rightarrow> ('i, 's) package_cache
    \<Rightarrow> avail_update list \<Rightarrow> ((int option \<times> int option) \<times> ('i, 's) package_cache) option" where
  "latest_packages_from_updates_list env db c us = do {
     let (latest_installable, latest_applicable) = latest_scan us [] [];
     (installable_id, c) \<leftarrow> id_if_known env db c latest_installable;
     (applicable_id, c) \<leftarrow> id_if_known env db c latest_applicable;
     Some ((installable_id, applicable_id), c) }"

record pkg_counts =
  cnt_installed :: int
  cnt_installable :: int
  cnt_applicable :: int

fun update_list_loop :: "('i, 's) cache_env \<Rightarrow> package_db \<Rightarrow> (string, update_list_ptr) gomap
    \<Rightarrow> ('i, 's) package_cache \<Rightarrow> named_package_map \<Rightarrow> pkg_counts
    \<Rightarrow> (named_package_map \<times> pkg_counts \<times> ('i, 's) package_cache) option" where
  "update_list_loop env db [] c packages cnt = Some (packages, cnt, c)"
| "update_list_loop env db ((nevra, l) # es) c packages cnt = do {
     (valid, c) \<leftarrow> is_valid_nevra env db c nevra;
     if \<not> valid then update_list_loop env db es c packages cnt
     else do {
       let cnt = cnt\<lparr>cnt_installed := cnt_installed cnt + 1\<rparr>;
       (meta, c) \<leftarrow> get_by_nevra env db c nevra;
       (case meta of
          None \<Rightarrow> update_list_loop env db es c packages cnt
        | Some m \<Rightarrow> do {
            ((ins, app), c) \<leftarrow> latest_packages_from_updates_list env db c (get_available_updates l);
            let packages = gm_put nevra \<lparr>np_name_id = pm_name_id m, np_package_id = pm_id m,
                  np_installable_id = ins, np_applicable_id = app, np_change = Add\<rparr> packages;
            let cnt = (if ins \<noteq> None then cnt\<lparr>cnt_installable := cnt_installable cnt + 1\<rparr> else cnt);
            let cnt = (if ins \<noteq> None \<or> app \<noteq> None then cnt\<lparr>cnt_applicable := cnt_applicable cnt + 1\<rparr> else cnt);
            update_list_loop env db es c packages cnt }) } }"

definition packages_from_update_list :: "('i, 's) cache_env \<Rightarrow> package_db \<Rightarrow> ('i, 's) package_cache
    \<Rightarrow> updates_response option \<Rightarrow> (named_package_map \<times> pkg_counts \<times> ('i, 's) package_cache) option" where
  "packages_from_update_list env db c r =
     update_list_loop env db (update_entries r) c []
       \<lparr>cnt_installed = 0, cnt_installable = 0, cnt_applicable = 0\<rparr>"

definition latest_pkgs_changed :: "named_package \<Rightarrow> named_package \<Rightarrow> bool" where
  "latest_pkgs_changed current stored =
     (let installable_equal = (np_installable_id current = None \<and> np_installable_id stored = None)
            \<or> (np_installable_id current \<noteq> None \<and> np_installable_id stored \<noteq> None
               \<and> the (np_installable_id current) = the (np_installable_id stored));
          applicable_equal = (np_applicable_id current = None \<and> np_applicable_id stored = None)
            \<or> (np_applicable_id current \<noteq> None \<and> np_applicable_id stored \<noteq> None
               \<and> the (np_applicable_id current) = the (np_applicable_id stored))
      in \<not> (installable_equal \<and> applicable_equal))"

fun stored_packages_loop :: "('i, 's) cache_env \<Rightarrow> package_db \<Rightarrow> named_package list
    \<Rightarrow> ('i, 's) package_cache \<Rightarrow> named_package_map
    \<Rightarrow> ((eval_error + named_package_map) \<times> ('i, 's) package_cache) option" where
  "stored_packages_loop env db [] c packages = Some (Inr packages, c)"
| "stored_packages_loop env db (columns # rows) c packages = do {
     (pkg_cache, c) \<leftarrow> get_by_id env db c (np_package_id columns);
     (case pkg_cache of
        None \<Rightarrow> Some (Inl (MissingInCache (np_package_id columns)), c)
      | Some m \<Rightarrow>
          (let nevra = nevra_string_e (pm_name m) (pm_evra m) True
           in (case gm_get packages nevra of
                 Some p \<Rightarrow> stored_packages_loop env db rows c
                   (gm_put nevra (p\<lparr>np_change := if latest_pkgs_changed p columns then Update else Keep\<rparr>) packages)
               | None \<Rightarrow> stored_packages_loop env db rows c
                   (gm_put nevra (columns\<lparr>np_change := Remove\<rparr>) packages)))) }"

definition stored_columns :: "eval_db \<Rightarrow> int \<Rightarrow> int \<Rightarrow> named_package list" where
  "stored_columns edb acc sys =
     map (\<lambda>((a, y, p), (n, ins, app)). \<lparr>np_name_id = n, np_package_id = p, np_installable_id = ins,
            np_applicable_id = app, np_change = NoChange\<rparr>)
       (filter (\<lambda>((a, y, p), _). a = acc \<and> y = sys) (t_system_packages edb))"

definition load_system_nevras_from_db :: "('i, 's) cache_env \<Rightarrow> faults \<Rightarrow> package_db \<Rightarrow> eval_db
    \<Rightarrow> system_platform \<Rightarrow> ('i, 's) package_cache \<Rightarrow> named_package_map
    \<Rightarrow> ((eval_error + named_package_map) \<times> ('i, 's) package_cache) option" where
  "load_system_nevras_from_db env faults db edb system c packages =
     (if faults PackagesLoad then Some (Inl (DbError PackagesLoad), c)
      else stored_packages_loop env db
             (stored_columns edb (si_account (pl_inventory system)) (si_id (pl_inventory system))) c packages)"

definition load_packages :: "('i, 's) cache_env \<Rightarrow> faults \<Rightarrow> package_db \<Rightarrow> eval_db \<Rightarrow> system_platform
    \<Rightarrow> updates_response option \<Rightarrow> ('i, 's) package_cache
    \<Rightarrow> ((eval_error + named_package_map \<times> pkg_counts) \<times> ('i, 's) package_cache) option" where
  "load_packages env faults db edb system r c = do {
     (packages, cnt, c) \<leftarrow> packages_from_update_list env db c r;
     (res, c) \<leftarrow> load_system_nevras_from_db env faults db edb system c packages;
     Some (case res of Inl e \<Rightarrow> Inl e | Inr packages \<Rightarrow> Inr (packages, cnt), c) }"

definition lazy_save_and_load_packages :: "bool \<Rightarrow> bool \<Rightarrow> ('i, 's) cache_env \<Rightarrow> faults \<Rightarrow> eval_db
    \<Rightarrow> system_platform \<Rightarrow> updates_response option \<Rightarrow> ('i, 's) pkg_state
    \<Rightarrow> ((eval_error + named_package_map \<times> pkg_counts) \<times> ('i, 's) pkg_state) option" where
  "lazy_save_and_load_packages analysis enable_lazy env faults edb system r st =
     (if \<not> analysis
      then Some (Inr ([], \<lparr>cnt_installed = 0, cnt_installable = 0, cnt_applicable = 0\<rparr>), st)
      else do {
        (err, (c, db)) \<leftarrow> lazy_save_packages enable_lazy env faults r st;
        (case err of
           Some e \<Rightarrow> Some (Inl e, (c, db))
         | None \<Rightarrow> do {
             (res, c) \<leftarrow> load_packages env faults db edb system r c;
             Some (res, (c, db)) }) })"

section \<open>Storing\<close>

definition create_system_package :: "system_platform \<Rightarrow> named_package \<Rightarrow> system_package" where
  "create_system_package system pkg =
     \<lparr>pk_account = si_account (pl_inventory system), pk_system = si_id (pl_inventory system),
      pk_package_id = np_package_id pkg, pk_name_id = np_name_id pkg,
      pk_installable_id = np_installable_id pkg, pk_applicable_id = np_applicable_id pkg\<rparr>"

fun split_packages :: "system_platform \<Rightarrow> named_package_map \<Rightarrow> string list \<Rightarrow> int list
    \<Rightarrow> int list \<times> system_package list" where
  "split_packages system m [] uniq = ([], [])"
| "split_packages system m (nevra # nevras) uniq =
     (case gm_get m nevra of
        None \<Rightarrow> split_packages system m nevras uniq
      | Some pkg \<Rightarrow>
          (case np_change pkg of
             Remove \<Rightarrow> (let (removed, updated) = split_packages system m nevras uniq
                         in (np_package_id pkg # removed, updated))
           | Keep \<Rightarrow> split_packages system m nevras uniq
           | NoChange \<Rightarrow> split_packages system m nevras uniq
           | _ \<Rightarrow>
               (if np_package_id pkg \<in> set uniq then split_packages system m nevras uniq
                else (let (removed, updated) = split_packages system m nevras (np_package_id pkg # uniq)
                      in (removed, create_system_package system pkg # updated)))))"

definition delete_old_system_packages :: "faults \<Rightarrow> eval_db \<Rightarrow> system_platform \<Rightarrow> int list \<Rightarrow> eval_error + eval_db" where
  "delete_old_system_packages faults db system pkg_ids =
     (if faults DeleteOldPackages then Inl (DbError DeleteOldPackages)
      else Inr (db\<lparr>t_system_packages := delete_keys (\<lambda>(a, y, p). a = si_account (pl_inventory system)
             \<and> y = si_id (pl_inventory system) \<and> p \<in> set pkg_ids) (t_system_packages db)\<rparr>))"

text \<open>The upsert keeps the stored \<open>name_id\<close> and replaces the two references.\<close>

definition replace_latest :: "(int \<times> int option \<times> int option) option \<Rightarrow> int \<times> int option \<times> int option
    \<Rightarrow> int \<times> int option \<times> int option" where
  "replace_latest old new = (case old of None \<Rightarrow> new | Some (name_id, _, _) \<Rightarrow> (name_id, snd new))"

definition package_rows :: "system_package list \<Rightarrow> (advisory_key \<times> int \<times> int option \<times> int option) list" where
  "package_rows ps = map (\<lambda>p. ((pk_account p, pk_system p, pk_package_id p),
     (pk_name_id p, pk_installable_id p, pk_applicable_id p))) ps"

definition update_system_packages :: "bool \<Rightarrow> faults \<Rightarrow> eval_db \<Rightarrow> system_platform \<Rightarrow> named_package_map
    \<Rightarrow> eval_error + eval_db" where
  "update_system_packages analysis faults db system m =
     (if \<not> analysis then Inr db
      else let (removed, updated) = split_packages system m (sort (map fst m)) []
           in (case delete_old_system_packages faults db system removed of
                 Inl e \<Rightarrow> Inl e
               | Inr db \<Rightarrow>
                   if updated = [] then Inr db
                   else if faults UpsertPackages then Inl (DbError UpsertPackages)
                   else (case bulk_upsert replace_latest (package_rows updated) (t_system_packages db) of
                           Inl e \<Rightarrow> Inl e
                         | Inr t \<Rightarrow> Inr (db\<lparr>t_system_packages := t\<rparr>))))"

end
