(* ===== verification/VmaasMerge.thy ===== *)
theory VmaasMerge
  imports Vmaas Nevra
begin

text \<open>
  Merging two VMaaS responses (\<open>base/utils/vmaas.go\<close>): the merge of two sorted
  lists of updates, the removal of packages that are not the newest of their
  name, and their composition.  The merge loop has a \<open>continue\<close> that does not
  advance, so it is modelled with fuel: \<open>None\<close> is "still running".
\<close>

section \<open>mergeUpdates\<close>

text \<open>The two lists are the parts \<open>updatesA[a:]\<close> and \<open>updatesB[b:]\<close> still to be read;
  one unit of fuel is one turn of the loop.\<close>

fun merge_loop :: "(evr \<Rightarrow> evr \<Rightarrow> int) \<Rightarrow> nat \<Rightarrow> avail_update list \<Rightarrow> avail_update list
    \<Rightarrow> avail_update list option" where
  "merge_loop lc fuel [] us_b = Some us_b"
| "merge_loop lc fuel us_a [] = Some us_a"
| "merge_loop lc 0 (u # us_a) (v # us_b) = None"
| "merge_loop lc (Suc fuel) (u # us_a) (v # us_b) =
     (case parse_nevra (get_package u) of
        Inl _ \<Rightarrow> merge_loop lc fuel (u # us_a) (v # us_b)
      | Inr n \<Rightarrow>
          (case parse_nevra (get_package v) of
             Inl _ \<Rightarrow> merge_loop lc fuel (u # us_a) (v # us_b)
           | Inr m \<Rightarrow>
               (let cmp = nevra_cmp lc n m;
                    cmp = (if cmp = 0 then upd_cmp u v else cmp)
                in if cmp < 0 then map_option ((#) u) (merge_loop lc fuel us_a (v # us_b))
                   else if cmp > 0 then map_option ((#) v) (merge_loop lc fuel (u # us_a) us_b)
                   else map_option ((#) u) (merge_loop lc fuel us_a us_b))))"

definition merge_updates :: "(evr \<Rightarrow> evr \<Rightarrow> int) \<Rightarrow> nat \<Rightarrow> update_list_ptr \<Rightarrow> update_list_ptr
    \<Rightarrow> update_list_ptr option" where
  "merge_updates lc fuel list_a list_b =
     map_option (\<lambda>us. Some (Some us))
       (merge_loop lc fuel (get_available_updates list_a) (get_available_updates list_b))"

section \<open>RemoveNonLatestPackages\<close>

text \<open>\<open>name_map\<close> remembers the newest key seen for a name, \<open>to_del\<close> what to delete.\<close>

fun rnl_scan :: "(evr \<Rightarrow> evr \<Rightarrow> int) \<Rightarrow> string list \<Rightarrow> (string, string \<times> nevra) gomap
    \<Rightarrow> string list \<Rightarrow> (string, string \<times> nevra) gomap \<times> string list" where
  "rnl_scan lc [] name_map to_del = (name_map, to_del)"
| "rnl_scan lc (k # ks) name_map to_del =
     (case parse_nevra k of
        Inl _ \<Rightarrow> rnl_scan lc ks name_map (to_del @ [k])
      | Inr n \<Rightarrow>
          (case gm_get name_map (nv_name n) of
             Some (k', n') \<Rightarrow>
               (let cmp = nevra_cmp lc n' n
                in if cmp = -1 then rnl_scan lc ks (gm_put (nv_name n) (k, n) name_map) (to_del @ [k'])
                   else if cmp = 1 then rnl_scan lc ks name_map (to_del @ [k])
                   else rnl_scan lc ks name_map to_del)
           | None \<Rightarrow> rnl_scan lc ks (gm_put (nv_name n) (k, n) name_map) to_del))"

definition remove_non_latest :: "(evr \<Rightarrow> evr \<Rightarrow> int) \<Rightarrow> updates_response \<Rightarrow> updates_response" where
  "remove_non_latest lc updates =
     (let update_list = update_entries (Some updates);
          (_, to_del) = rnl_scan lc (map fst update_list) [] []
      in updates\<lparr>ur_update_list := Some (gm_del_all to_del update_list)\<rparr>)"

section \<open>MergeVMaaSResponses\<close>

fun merge_entries :: "(evr \<Rightarrow> evr \<Rightarrow> int) \<Rightarrow> nat \<Rightarrow> (string, update_list_ptr) gomap
    \<Rightarrow> (string, update_list_ptr) gomap \<Rightarrow> (string, update_list_ptr) gomap option" where
  "merge_entries lc fuel [] merged = Some merged"
| "merge_entries lc fuel ((k, list_b) # bs) merged =
     (case gm_get merged k of
        Some list_a \<Rightarrow>
          (case merge_updates lc fuel list_a list_b of
             None \<Rightarrow> None
           | Some l \<Rightarrow> merge_entries lc fuel bs (gm_put k l merged))
      | None \<Rightarrow> merge_entries lc fuel bs (gm_put k list_b merged))"

definition merge_responses :: "(evr \<Rightarrow> evr \<Rightarrow> int) \<Rightarrow> nat \<Rightarrow> updates_response option
    \<Rightarrow> updates_response option \<Rightarrow> updates_response option option" where
  "merge_responses lc fuel a b =
     (case a of
        None \<Rightarrow> Some b
      | Some ra \<Rightarrow>
          (case b of
             None \<Rightarrow> Some a
           | Some rb \<Rightarrow>
               (case get_update_list a of
                  None \<Rightarrow> Some b
                | Some merged \<Rightarrow>
                    (case merge_entries lc fuel (update_entries b) merged of
                       None \<Rightarrow> None
                     | Some m \<Rightarrow>
                         Some (Some (remove_non_latest lc (ra\<lparr>ur_update_list := Some m\<rparr>)))))))"

section \<open>The merge loop\<close>

definition pkg_parses :: "avail_update \<Rightarrow> bool" where
  "pkg_parses u = nevra_parses (get_package u)"

text \<open>The order the loop merges by: the package first, then the rest of the update.\<close>

definition pkg_nevra :: "avail_update \<Rightarrow> nevra" where
  "pkg_nevra u = (case parse_nevra (get_package u) of
     Inr n \<Rightarrow> n | Inl _ \<Rightarrow> \<lparr>nv_name = [], nv_epoch = 0, nv_version = [], nv_release = [], nv_arch = []\<rparr>)"

definition merge_cmp :: "(evr \<Rightarrow> evr \<Rightarrow> int) \<Rightarrow> avail_update \<Rightarrow> avail_update \<Rightarrow> int" where
  "merge_cmp lc u v =
     (if nevra_cmp lc (pkg_nevra u) (pkg_nevra v) \<noteq> 0
      then nevra_cmp lc (pkg_nevra u) (pkg_nevra v) else upd_cmp u v)"

definition sorted_updates :: "(evr \<Rightarrow> evr \<Rightarrow> int) \<Rightarrow> avail_update list \<Rightarrow> bool" where
  "sorted_updates lc us = sorted_wrt (\<lambda>u v. merge_cmp lc u v < 0) us"

lemma merge_cmp_order: "go_order lc \<Longrightarrow> go_order (merge_cmp lc)"
  unfolding merge_cmp_def
  by (rule go_order_then [OF go_order_on [OF nevra_cmp_order] upd.go_order_axioms])

lemma pkg_parses_iff: "pkg_parses u \<longleftrightarrow> parse_nevra (get_package u) = Inr (pkg_nevra u)"
  by (auto simp: pkg_parses_def nevra_parses_def pkg_nevra_def split: sum.splits)

text \<open>One turn on two parsable heads.\<close>

lemma merge_loop_step:
  assumes "pkg_parses u" "pkg_parses v"
  shows "merge_loop lc (Suc fuel) (u # us) (v # vs) =
    (if merge_cmp lc u v < 0 then map_option ((#) u) (merge_loop lc fuel us (v # vs))
     else if merge_cmp lc u v > 0 then map_option ((#) v) (merge_loop lc fuel (u # us) vs)
     else map_option ((#) u) (merge_loop lc fuel us vs))"
  using assms by (simp add: pkg_parses_iff merge_cmp_def Let_def)

text \<open>An unparsable head is read again for ever.\<close>

lemma merge_loop_stuck:
  assumes "\<not> pkg_parses u \<or> \<not> pkg_parses v"
  shows "merge_loop lc fuel (u # us) (v # vs) = None"
proof (induction fuel)
  case 0
  then show ?case by simp
next
  case (Suc fuel)
  then show ?case using assms
    by (auto simp: pkg_parses_def nevra_parses_def split: sum.splits)
qed

definition merge_spec :: "(evr \<Rightarrow> evr \<Rightarrow> int) \<Rightarrow> avail_update list \<Rightarrow> avail_update list
    \<Rightarrow> avail_update set" where
  "merge_spec lc us vs = set us \<union> {v \<in> set vs. \<forall>u \<in> set us. merge_cmp lc u v \<noteq> 0}"

text \<open>Induction over a merge that ends: one turn per case, on parsable lists.\<close>

lemma merge_loop_induct:
  assumes "length us + length vs \<le> fuel" "list_all pkg_parses us" "list_all pkg_parses vs"
    and nil_a: "\<And>vs. P [] vs vs"
    and nil_b: "\<And>us. P us [] us"
    and less: "\<And>u us v vs r. merge_cmp lc u v < 0 \<Longrightarrow> P us (v # vs) r \<Longrightarrow> P (u # us) (v # vs) (u # r)"
    and greater: "\<And>u us v vs r. merge_cmp lc u v > 0 \<Longrightarrow> P (u # us) vs r \<Longrightarrow> P (u # us) (v # vs) (v # r)"
    and same: "\<And>u us v vs r. merge_cmp lc u v = 0 \<Longrightarrow> P us vs r \<Longrightarrow> P (u # us) (v # vs) (u # r)"
  shows "\<exists>r. merge_loop lc fuel us vs = Some r \<and> P us vs r"
  using assms(1-3)
proof (induction fuel arbitrary: us vs)
  case 0
  then show ?case using nil_a by simp
next
  case (Suc fuel)
  show ?case
  proof (cases "us = [] \<or> vs = []")
    case True
    then show ?thesis using nil_a nil_b by (cases us) auto
  next
    case False
    then obtain u us' v vs' where us: "us = u # us'" and vs: "vs = v # vs'"
      by (metis neq_Nil_conv)
    have u: "pkg_parses u" and v: "pkg_parses v" using Suc.prems us vs by auto
    consider "merge_cmp lc u v < 0" | "merge_cmp lc u v > 0" | "merge_cmp lc u v = 0" by linarith
    then show ?thesis
    proof cases
      case 1
      obtain r where "merge_loop lc fuel us' vs = Some r" "P us' vs r"
        using Suc.IH [of us' vs] Suc.prems us by auto
      then show ?thesis using 1 less us vs by (auto simp: merge_loop_step [OF u v] simp del: merge_loop.simps(4))
    next
      case 2
      obtain r where "merge_loop lc fuel us vs' = Some r" "P us vs' r"
        using Suc.IH [of us vs'] Suc.prems vs by auto
      then show ?thesis using 2 greater us vs by (auto simp: merge_loop_step [OF u v] simp del: merge_loop.simps(4))
    next
      case 3
      obtain r where "merge_loop lc fuel us' vs' = Some r" "P us' vs' r"
        using Suc.IH [of us' vs'] Suc.prems us vs by auto
      then show ?thesis using 3 same us vs by (auto simp: merge_loop_step [OF u v] simp del: merge_loop.simps(4))
    qed
  qed
qed

lemma merge_loop_total:
  assumes "length us + length vs \<le> fuel" "list_all pkg_parses us" "list_all pkg_parses vs"
  shows "\<exists>r. merge_loop lc fuel us vs = Some r \<and> set r \<subseteq> set us \<union> set vs"
  by (rule merge_loop_induct [OF assms, where P = "\<lambda>us vs r. set r \<subseteq> set us \<union> set vs"]) auto

lemma merge_loop_sorted:
  assumes lc: "go_order lc" and len: "length us + length vs \<le> fuel"
    and parse: "list_all pkg_parses us" "list_all pkg_parses vs"
    and sorted: "sorted_updates lc us" "sorted_updates lc vs"
  shows "\<exists>r. merge_loop lc fuel us vs = Some r \<and> sorted_updates lc r \<and> set r = merge_spec lc us vs"
proof -
  note ord = merge_cmp_order [OF lc]
  have anti: "merge_cmp lc b a = - merge_cmp lc a b" for a b
    by (rule go_order.cmp_anti [OF ord])
  have less1: "merge_cmp lc a b < 0 \<Longrightarrow> merge_cmp lc b c < 0 \<Longrightarrow> merge_cmp lc a c < 0" for a b c
    using go_order.cmp_less_trans1 [OF ord, of a b c] by simp
  have less2: "merge_cmp lc a b = 0 \<Longrightarrow> merge_cmp lc a c = merge_cmp lc b c" for a b c
    by (rule go_order.cmp_cong [OF ord])
  let ?P = "\<lambda>us vs r. sorted_updates lc us \<longrightarrow> sorted_updates lc vs \<longrightarrow>
              sorted_updates lc r \<and> set r = merge_spec lc us vs"
  have "\<exists>r. merge_loop lc fuel us vs = Some r \<and> ?P us vs r"
  proof (rule merge_loop_induct [OF len parse], goal_cases)
    case 1
    show ?case by (simp add: merge_spec_def)
  next
    case 2
    show ?case by (simp add: merge_spec_def)
  next
    case (3 u us v vs r)
    have "merge_cmp lc u w < 0" if "w \<in> set (v # vs)" "sorted_updates lc (v # vs)" for w
      using that 3(1) less1 by (auto simp: sorted_updates_def)
    then show ?case using 3(2) by (fastforce simp: sorted_updates_def merge_spec_def)
  next
    case (4 u us v vs r)
    then have vu: "merge_cmp lc v u < 0" using anti [of u v] by simp
    have "merge_cmp lc v w < 0 \<and> merge_cmp lc w v \<noteq> 0"
      if "w \<in> set (u # us)" "sorted_updates lc (u # us)" for w
      using that vu less1 anti [of v w] by (fastforce simp: sorted_updates_def)
    then show ?case using 4(2) by (fastforce simp: sorted_updates_def merge_spec_def)
  next
    case (5 u us v vs r)
    have "merge_cmp lc u w < 0" if "w \<in> set vs" "sorted_updates lc (v # vs)" for w
      using that less2 [OF 5(1)] by (auto simp: sorted_updates_def)
    then show ?case using 5 by (fastforce simp: sorted_updates_def merge_spec_def)
  qed
  then show ?thesis using sorted by blast
qed

section \<open>The newest package of every name\<close>

text \<open>The scan's invariant after the keys \<open>P\<close>: the map's entries are parsed keys of
  that name, every parsed key is at most its name's entry, and the keys to
  delete are the others.\<close>

definition is_top :: "(string, string \<times> nevra) gomap \<Rightarrow> string \<Rightarrow> bool" where
  "is_top nm k \<longleftrightarrow> (\<exists>n n'. parse_nevra k = Inr n \<and> gm_get nm (nv_name n) = Some (k, n'))"

definition rnl_entries :: "string set \<Rightarrow> (string, string \<times> nevra) gomap \<Rightarrow> bool" where
  "rnl_entries P nm \<longleftrightarrow> (\<forall>x k n. gm_get nm x = Some (k, n) \<longrightarrow>
     k \<in> P \<and> parse_nevra k = Inr n \<and> nv_name n = x)"

definition rnl_bound :: "(evr \<Rightarrow> evr \<Rightarrow> int) \<Rightarrow> string set \<Rightarrow> (string, string \<times> nevra) gomap \<Rightarrow> bool" where
  "rnl_bound lc P nm \<longleftrightarrow> (\<forall>k n. k \<in> P \<longrightarrow> parse_nevra k = Inr n \<longrightarrow>
     (\<exists>k' n'. gm_get nm (nv_name n) = Some (k', n') \<and> nevra_cmp lc n n' \<le> 0))"

definition rnl_inv :: "(evr \<Rightarrow> evr \<Rightarrow> int) \<Rightarrow> string set \<Rightarrow> (string, string \<times> nevra) gomap
    \<Rightarrow> string list \<Rightarrow> bool" where
  "rnl_inv lc P nm del \<longleftrightarrow> rnl_entries P nm \<and> rnl_bound lc P nm \<and> set del = {k \<in> P. \<not> is_top nm k}"

text \<open>No two keys are the same package in the order (for instance with and without
  a zero epoch).\<close>

definition no_ties :: "(evr \<Rightarrow> evr \<Rightarrow> int) \<Rightarrow> string set \<Rightarrow> bool" where
  "no_ties lc K \<longleftrightarrow>
     (\<forall>k\<in>K. \<forall>k'\<in>K. \<forall>n n'. parse_nevra k = Inr n \<longrightarrow> parse_nevra k' = Inr n' \<longrightarrow>
        nv_name n = nv_name n' \<longrightarrow> nevra_cmp lc n n' = 0 \<longrightarrow> k = k')"

lemma rnl_inv_start: "rnl_inv lc {} [] []"
  by (simp add: rnl_inv_def rnl_entries_def rnl_bound_def)

lemma rnl_entriesD:
  "rnl_entries P nm \<Longrightarrow> gm_get nm x = Some (k, n) \<Longrightarrow> k \<in> P \<and> parse_nevra k = Inr n \<and> nv_name n = x"
  unfolding rnl_entries_def by blast

lemma rnl_boundD:
  "rnl_bound lc P nm \<Longrightarrow> k \<in> P \<Longrightarrow> parse_nevra k = Inr n \<Longrightarrow>
   \<exists>k' n'. gm_get nm (nv_name n) = Some (k', n') \<and> nevra_cmp lc n n' \<le> 0"
  unfolding rnl_bound_def by blast

lemma is_top_in: "rnl_entries P nm \<Longrightarrow> is_top nm k \<Longrightarrow> k \<in> P"
  unfolding is_top_def by (blast dest: rnl_entriesD)

lemma is_top_put:
  assumes "parse_nevra k = Inr n"
  shows "is_top (gm_put (nv_name n) (k, n) nm) j \<longleftrightarrow>
    j = k \<or> (is_top nm j \<and> (\<forall>m. parse_nevra j = Inr m \<longrightarrow> nv_name m \<noteq> nv_name n))"
  using assms by (auto simp: is_top_def gomap)

lemma rnl_entries_put:
  "rnl_entries P nm \<Longrightarrow> parse_nevra k = Inr n \<Longrightarrow>
   rnl_entries (insert k P) (gm_put (nv_name n) (k, n) nm)"
  by (auto simp: rnl_entries_def gomap)

lemma rnl_entries_insert: "rnl_entries P nm \<Longrightarrow> rnl_entries (insert k P) nm"
  by (auto simp: rnl_entries_def)

lemma rnl_bound_put:
  assumes "go_order lc" "rnl_bound lc P nm" "parse_nevra k = Inr n"
    and "\<And>j m. j \<in> P \<Longrightarrow> parse_nevra j = Inr m \<Longrightarrow> nv_name m = nv_name n \<Longrightarrow> nevra_cmp lc m n \<le> 0"
  shows "rnl_bound lc (insert k P) (gm_put (nv_name n) (k, n) nm)"
  unfolding rnl_bound_def
proof (intro allI impI)
  fix j m assume j: "j \<in> insert k P" "parse_nevra j = Inr m"
  have self: "nevra_cmp lc n n = 0"
    by (rule go_order.cmp_self [OF nevra_cmp_order [OF assms(1)]])
  show "\<exists>k' n'. gm_get (gm_put (nv_name n) (k, n) nm) (nv_name m) = Some (k', n')
      \<and> nevra_cmp lc m n' \<le> 0"
  proof (cases "nv_name m = nv_name n")
    case True
    have "nevra_cmp lc m n \<le> 0"
    proof (cases "j = k")
      case True
      then have "m = n" using j(2) assms(3) by simp
      then show ?thesis using self by simp
    next
      case False
      then have "j \<in> P" using j(1) by simp
      then show ?thesis using j(2) \<open>nv_name m = nv_name n\<close> by (rule assms(4))
    qed
    then show ?thesis using True by (simp add: gomap)
  next
    case False
    then have "j \<in> P" using j assms(3) by auto
    then obtain k' n' where "gm_get nm (nv_name m) = Some (k', n')" "nevra_cmp lc m n' \<le> 0"
      using rnl_boundD [OF assms(2) _ j(2)] by blast
    then show ?thesis using False by (simp add: gomap)
  qed
qed

lemma rnl_bound_insert:
  assumes "rnl_bound lc P nm"
    and "\<And>n. parse_nevra k = Inr n \<Longrightarrow>
      \<exists>k' n'. gm_get nm (nv_name n) = Some (k', n') \<and> nevra_cmp lc n n' \<le> 0"
  shows "rnl_bound lc (insert k P) nm"
  using assms unfolding rnl_bound_def by blast

lemma rnl_inv_drop:
  assumes inv: "rnl_inv lc P nm del" and k: "k \<notin> P"
    and le: "\<And>n. parse_nevra k = Inr n \<Longrightarrow>
      \<exists>k' n'. gm_get nm (nv_name n) = Some (k', n') \<and> nevra_cmp lc n n' \<le> 0"
  shows "rnl_inv lc (insert k P) nm (del @ [k])"
proof -
  have "\<not> is_top nm k" using inv k is_top_in unfolding rnl_inv_def by blast
  then have "set (del @ [k]) = {j \<in> insert k P. \<not> is_top nm j}"
    using inv by (auto simp: rnl_inv_def)
  then show ?thesis
    using inv rnl_bound_insert [OF _ le] rnl_entries_insert unfolding rnl_inv_def by blast
qed

lemma rnl_inv_new:
  assumes inv: "rnl_inv lc P nm del" and k: "k \<notin> P" "parse_nevra k = Inr n"
    and none: "gm_get nm (nv_name n) = None" and lc: "go_order lc"
  shows "rnl_inv lc (insert k P) (gm_put (nv_name n) (k, n) nm) del"
proof -
  have other: "nv_name m \<noteq> nv_name n" if "j \<in> P" "parse_nevra j = Inr m" for j m
    using inv rnl_boundD [OF _ that] none unfolding rnl_inv_def by fastforce
  have "{j \<in> insert k P. \<not> is_top (gm_put (nv_name n) (k, n) nm) j} = {j \<in> P. \<not> is_top nm j}"
    using other k by (auto simp: is_top_put)
  moreover have "rnl_bound lc (insert k P) (gm_put (nv_name n) (k, n) nm)"
    using inv other by (intro rnl_bound_put [OF lc _ k(2)]) (auto simp: rnl_inv_def)
  moreover have "rnl_entries (insert k P) (gm_put (nv_name n) (k, n) nm)"
    using inv rnl_entries_put [OF _ k(2)] by (simp add: rnl_inv_def)
  ultimately show ?thesis using inv by (simp add: rnl_inv_def)
qed

lemma rnl_inv_newer:
  assumes inv: "rnl_inv lc P nm del" and k: "k \<notin> P" "parse_nevra k = Inr n"
    and some: "gm_get nm (nv_name n) = Some (k', n')" and less: "nevra_cmp lc n' n < 0"
    and lc: "go_order lc"
  shows "rnl_inv lc (insert k P) (gm_put (nv_name n) (k, n) nm) (del @ [k'])"
proof -
  have parts: "rnl_entries P nm" "rnl_bound lc P nm" "set del = {j \<in> P. \<not> is_top nm j}"
    using inv by (auto simp: rnl_inv_def)
  have k': "k' \<in> P" "parse_nevra k' = Inr n'" "nv_name n' = nv_name n"
    using rnl_entriesD [OF parts(1) some] by auto
  have "nevra_cmp lc m n \<le> 0" if "j \<in> P" "parse_nevra j = Inr m" "nv_name m = nv_name n" for j m
  proof -
    have "nevra_cmp lc m n' \<le> 0" using rnl_boundD [OF parts(2) that(1,2)] that(3) some by auto
    then have "nevra_cmp lc m n < 0"
      by (rule go_order.cmp_less_trans2 [OF nevra_cmp_order [OF lc] _ less])
    then show ?thesis by simp
  qed
  then have b: "rnl_bound lc (insert k P) (gm_put (nv_name n) (k, n) nm)"
    using rnl_bound_put [OF lc parts(2) k(2)] by blast
  have same: "j = k'" if "is_top nm j" "parse_nevra j = Inr m" "nv_name m = nv_name n" for j m
    using that some by (auto simp: is_top_def)
  have "is_top nm k'" using k' some by (auto simp: is_top_def)
  then have "is_top (gm_put (nv_name n) (k, n) nm) j \<longleftrightarrow> j = k \<or> (is_top nm j \<and> j \<noteq> k')" for j
    unfolding is_top_put [OF k(2)] using same k' by (metis (no_types) is_top_def sum.sel(2))
  then have "set (del @ [k']) = {j \<in> insert k P. \<not> is_top (gm_put (nv_name n) (k, n) nm) j}"
    using k k' by (auto simp: parts(3))
  then show ?thesis using rnl_entries_put [OF parts(1) k(2)] b unfolding rnl_inv_def by blast
qed

lemma rnl_scan_inv:
  assumes "go_order lc" "no_ties lc (P \<union> set ks)" "distinct ks" "P \<inter> set ks = {}"
    and "rnl_inv lc P nm del" "rnl_scan lc ks nm del = (nm', del')"
  shows "rnl_inv lc (P \<union> set ks) nm' del'"
  using assms(2-)
proof (induction ks arbitrary: P nm del)
  case Nil
  then show ?case by simp
next
  case (Cons k ks)
  note ord = nevra_cmp_order [OF assms(1)]
  have k: "k \<notin> P" and d: "distinct ks" "insert k P \<inter> set ks = {}"
    and t: "no_ties lc (insert k P \<union> set ks)" and ins: "P \<union> set (k # ks) = insert k P \<union> set ks"
    using Cons.prems by auto
  note IH = Cons.IH [OF t d]
  note inv = Cons.prems(4) and run = Cons.prems(5)
  show ?case
  proof (cases "parse_nevra k")
    case (Inl e)
    then have "rnl_inv lc (insert k P) nm (del @ [k])" by (intro rnl_inv_drop [OF inv k]) simp
    then show ?thesis using IH run Inl ins by simp
  next
    case (Inr n)
    show ?thesis
    proof (cases "gm_get nm (nv_name n)")
      case None
      then show ?thesis using IH [OF rnl_inv_new [OF inv k Inr None assms(1)]] run Inr ins by simp
    next
      case (Some kn)
      obtain k' n' where kn: "gm_get nm (nv_name n) = Some (k', n')" using Some by (cases kn) auto
      have k': "k' \<in> P" "parse_nevra k' = Inr n'" "nv_name n' = nv_name n"
        using inv rnl_entriesD [OF _ kn] unfolding rnl_inv_def by auto
      have "nevra_cmp lc n' n \<noteq> 0"
        using Cons.prems(1) k' Inr k unfolding no_ties_def by fastforce
      then consider "nevra_cmp lc n' n = -1" | "nevra_cmp lc n' n = 1"
        using go_order.cmp_range [OF ord, of n' n] by auto
      then show ?thesis
      proof cases
        case 1
        then show ?thesis
          using IH [OF rnl_inv_newer [OF inv k Inr kn _ assms(1)]] run Inr kn ins by simp
      next
        case 2
        then have "nevra_cmp lc n n' \<le> 0" using go_order.cmp_anti [OF ord, of n n'] by simp
        then have "rnl_inv lc (insert k P) nm (del @ [k])"
          using kn Inr by (intro rnl_inv_drop [OF inv k]) auto
        then show ?thesis using 2 IH run Inr kn ins by simp
      qed
    qed
  qed
qed

text \<open>A key is the newest of its name among \<open>K\<close>.\<close>

definition newest :: "(evr \<Rightarrow> evr \<Rightarrow> int) \<Rightarrow> string set \<Rightarrow> string \<Rightarrow> bool" where
  "newest lc K k \<longleftrightarrow> (\<exists>n. parse_nevra k = Inr n \<and>
     (\<forall>k'\<in>K. \<forall>n'. parse_nevra k' = Inr n' \<longrightarrow> nv_name n' = nv_name n \<longrightarrow> nevra_cmp lc n' n \<le> 0))"

lemma rnl_inv_newest:
  assumes inv: "rnl_inv lc K nm del" and ties: "no_ties lc K" and lc: "go_order lc" and k: "k \<in> K"
  shows "k \<in> set del \<longleftrightarrow> \<not> newest lc K k"
proof (cases "parse_nevra k")
  case (Inl e)
  then show ?thesis using inv k by (simp add: rnl_inv_def newest_def is_top_def)
next
  case (Inr n)
  note ord = nevra_cmp_order [OF lc]
  have parts: "rnl_entries K nm" "rnl_bound lc K nm" using inv by (auto simp: rnl_inv_def)
  obtain j m where j: "gm_get nm (nv_name n) = Some (j, m)" "nevra_cmp lc n m \<le> 0"
    using rnl_boundD [OF parts(2) k Inr] by blast
  then have jm: "j \<in> K" "parse_nevra j = Inr m" "nv_name m = nv_name n"
    using rnl_entriesD [OF parts(1)] by auto
  have "newest lc K k \<longleftrightarrow> j = k"
  proof
    assume "newest lc K k"
    then have "nevra_cmp lc m n \<le> 0" using jm Inr unfolding newest_def by auto
    then have "nevra_cmp lc m n = 0" using j(2) go_order.cmp_anti [OF ord, of m n] by simp
    then show "j = k" using ties jm k Inr unfolding no_ties_def by blast
  next
    assume "j = k"
    have "nevra_cmp lc n' n \<le> 0" if k': "k' \<in> K" "parse_nevra k' = Inr n'" "nv_name n' = nv_name n"
      for k' n'
    proof -
      obtain j2 m2 where "gm_get nm (nv_name n') = Some (j2, m2)" "nevra_cmp lc n' m2 \<le> 0"
        using rnl_boundD [OF parts(2) k'(1,2)] by blast
      then have "m2 = m" "nevra_cmp lc n' m \<le> 0" using j(1) k'(3) by auto
      then show ?thesis using \<open>j = k\<close> jm(2) Inr by simp
    qed
    then show "newest lc K k" using Inr unfolding newest_def by blast
  qed
  moreover have "k \<in> set del \<longleftrightarrow> j \<noteq> k"
    using inv k Inr j(1) by (auto simp: rnl_inv_def is_top_def)
  ultimately show ?thesis by simp
qed

section \<open>The merge of two responses\<close>

definition lists_parse :: "(string, update_list_ptr) gomap \<Rightarrow> bool" where
  "lists_parse m \<longleftrightarrow> (\<forall>(k, l) \<in> set m. list_all pkg_parses (get_available_updates l))"

definition lists_fit :: "nat \<Rightarrow> (string, update_list_ptr) gomap \<Rightarrow> (string, update_list_ptr) gomap \<Rightarrow> bool" where
  "lists_fit fuel a b \<longleftrightarrow> (\<forall>(k, l) \<in> set a. \<forall>(k', l') \<in> set b.
     length (get_available_updates l) + length (get_available_updates l') \<le> fuel)"

text \<open>What the merged map holds under a key before the older packages are removed.\<close>

definition merged_entry :: "(evr \<Rightarrow> evr \<Rightarrow> int) \<Rightarrow> nat \<Rightarrow> update_list_ptr option \<Rightarrow> update_list_ptr option
    \<Rightarrow> update_list_ptr option" where
  "merged_entry lc fuel a b =
     (case a of None \<Rightarrow> b
      | Some la \<Rightarrow> (case b of None \<Rightarrow> Some la | Some lb \<Rightarrow> merge_updates lc fuel la lb))"

lemma merge_updates_total:
  assumes "length (get_available_updates la) + length (get_available_updates lb) \<le> fuel"
    and "list_all pkg_parses (get_available_updates la)" "list_all pkg_parses (get_available_updates lb)"
  shows "\<exists>r. merge_updates lc fuel la lb = Some r"
  using merge_loop_total [OF assms] unfolding merge_updates_def by auto

lemma merge_entries_spec:
  assumes "wf_gomap m" "wf_gomap b"
    and "\<And>k la lb. gm_get m k = Some la \<Longrightarrow> (k, lb) \<in> set b \<Longrightarrow> \<exists>r. merge_updates lc fuel la lb = Some r"
  shows "\<exists>m'. merge_entries lc fuel b m = Some m' \<and> wf_gomap m' \<and>
    (\<forall>k. gm_get m' k = merged_entry lc fuel (gm_get m k) (gm_get b k))"
  using assms
proof (induction b arbitrary: m)
  case Nil
  then show ?case by (auto simp: merged_entry_def split: option.splits)
next
  case (Cons p b)
  obtain k lb where p: "p = (k, lb)" by (cases p)
  have nk: "gm_get b k = None" using Cons.prems(2) p by (simp add: map_of_eq_None_iff)
  have step: "\<exists>m'. merge_entries lc fuel b (gm_put k l m) = Some m' \<and> wf_gomap m' \<and>
      (\<forall>j. gm_get m' j = merged_entry lc fuel (gm_get (gm_put k l m) j) (gm_get b j))" for l
  proof (rule Cons.IH)
    show "\<exists>r. merge_updates lc fuel la lb' = Some r"
      if "gm_get (gm_put k l m) j = Some la" "(j, lb') \<in> set b" for j la lb'
      using that Cons.prems(2,3) p by (auto simp: gomap image_iff split: if_splits)
  qed (use Cons.prems p in auto)
  have put: "merged_entry lc fuel (gm_get (gm_put k l m) j) (gm_get b j)
      = merged_entry lc fuel (gm_get m j) (gm_get (p # b) j)"
    if "Some l = merged_entry lc fuel (gm_get m k) (Some lb)" for l j
    using that nk p by (auto simp: gomap merged_entry_def split: option.splits)
  show ?case
  proof (cases "gm_get m k")
    case None
    then have "merge_entries lc fuel (p # b) m = merge_entries lc fuel b (gm_put k lb m)"
      using p by simp
    then show ?thesis using step [of lb] put [of lb] None by (simp add: merged_entry_def)
  next
    case (Some la)
    then obtain r where r: "merge_updates lc fuel la lb = Some r"
      using Cons.prems(3) [OF Some] p by auto
    then have "merge_entries lc fuel (p # b) m = merge_entries lc fuel b (gm_put k r m)"
      using p Some by simp
    moreover have "Some r = merged_entry lc fuel (gm_get m k) (Some lb)"
      using Some r by (simp add: merged_entry_def)
    ultimately show ?thesis using step [of r] put [of r] by simp
  qed
qed

lemma merge_entries_hang:
  assumes "wf_gomap b" "gm_get m k = Some la" "(k, lb) \<in> set b" "merge_updates lc fuel la lb = None"
  shows "merge_entries lc fuel b m = None"
  using assms
proof (induction b arbitrary: m)
  case Nil
  then show ?case by simp
next
  case (Cons p b)
  obtain j l where p: "p = (j, l)" by (cases p)
  show ?case
  proof (cases "j = k")
    case True
    then have "l = lb" using Cons.prems(1,3) p by (auto simp: image_iff)
    then show ?thesis using Cons.prems p True by simp
  next
    case False
    then have "merge_entries lc fuel b (gm_put j l' m) = None" for l'
      using Cons.prems p by (intro Cons.IH) (auto simp: gomap)
    then show ?thesis using p by (simp split: option.splits)
  qed
qed

lemma dom_merged_entry:
  "(merged_entry lc fuel a b \<noteq> None) \<Longrightarrow> a \<noteq> None \<or> b \<noteq> None"
  by (auto simp: merged_entry_def)

lemma remove_non_latest_get:
  assumes lc: "go_order lc" and m: "ur_update_list r = Some m" "wf_gomap m"
    and ties: "no_ties lc (fst ` set m)"
  shows "\<exists>m'. remove_non_latest lc r = r\<lparr>ur_update_list := Some m'\<rparr> \<and> wf_gomap m' \<and>
    (\<forall>k. gm_get m' k = (if newest lc (fst ` set m) k then gm_get m k else None))"
proof -
  obtain nm del where scan: "rnl_scan lc (map fst m) [] [] = (nm, del)" by (cases "rnl_scan lc (map fst m) [] []")
  have inv: "rnl_inv lc (fst ` set m) nm del"
    using rnl_scan_inv [OF lc, of "{}" "map fst m" "[]" "[]"] rnl_inv_start ties m(2) scan by simp
  have "gm_get (gm_del_all del m) k = (if newest lc (fst ` set m) k then gm_get m k else None)" for k
  proof (cases "k \<in> fst ` set m")
    case True
    then show ?thesis using rnl_inv_newest [OF inv ties lc True] by (simp add: gomap)
  next
    case False
    then have "gm_get m k = None" by (simp add: map_of_eq_None_iff)
    then show ?thesis by (simp add: gomap)
  qed
  then show ?thesis
    using m scan by (auto simp: remove_non_latest_def get_update_list_def update_entries_def)
qed

section \<open>Properties of the merge\<close>

text \<open>C32.  Two sorted lists of well-formed updates merge, in at most one turn of the loop per
  update, into one sorted list with the updates of the first list and those of the
  second that the first does not hold already; on a tie the first list's entry (and
  so its installability) is kept.\<close>

theorem merge_updates_sorted:
  assumes "go_order lc"
    and "length (get_available_updates la) + length (get_available_updates lb) \<le> fuel"
    and "list_all pkg_parses (get_available_updates la)" "list_all pkg_parses (get_available_updates lb)"
    and "sorted_updates lc (get_available_updates la)" "sorted_updates lc (get_available_updates lb)"
  shows "\<exists>r. merge_updates lc fuel la lb = Some (Some (Some r)) \<and> sorted_updates lc r
    \<and> set r = merge_spec lc (get_available_updates la) (get_available_updates lb)"
  using merge_loop_sorted [OF assms] unfolding merge_updates_def by auto

text \<open>The turns of the loop: which rests of the two lists it comes to compare.\<close>

inductive merge_reaches :: "(evr \<Rightarrow> evr \<Rightarrow> int) \<Rightarrow> avail_update list \<Rightarrow> avail_update list \<Rightarrow> avail_update list
    \<Rightarrow> avail_update list \<Rightarrow> bool" for lc where
  here: "merge_reaches lc us vs us vs"
| skip_a: "pkg_parses u \<Longrightarrow> pkg_parses v \<Longrightarrow> merge_cmp lc u v < 0 \<Longrightarrow> merge_reaches lc us (v # vs) xs ys
     \<Longrightarrow> merge_reaches lc (u # us) (v # vs) xs ys"
| skip_b: "pkg_parses u \<Longrightarrow> pkg_parses v \<Longrightarrow> merge_cmp lc u v > 0 \<Longrightarrow> merge_reaches lc (u # us) vs xs ys
     \<Longrightarrow> merge_reaches lc (u # us) (v # vs) xs ys"
| skip_both: "pkg_parses u \<Longrightarrow> pkg_parses v \<Longrightarrow> merge_cmp lc u v = 0 \<Longrightarrow> merge_reaches lc us vs xs ys
     \<Longrightarrow> merge_reaches lc (u # us) (v # vs) xs ys"

definition stuck_at :: "avail_update list \<Rightarrow> avail_update list \<Rightarrow> bool" where
  "stuck_at xs ys \<longleftrightarrow> xs \<noteq> [] \<and> ys \<noteq> [] \<and> (\<not> pkg_parses (hd xs) \<or> \<not> pkg_parses (hd ys))"

lemma reached_stuck:
  "merge_reaches lc us vs xs ys \<Longrightarrow> stuck_at xs ys \<Longrightarrow> merge_loop lc fuel us vs = None"
proof (induction arbitrary: fuel rule: merge_reaches.induct)
  case (here us vs)
  then show ?case by (cases us; cases vs) (auto simp: stuck_at_def intro: merge_loop_stuck)
next
  case (skip_a u v us vs xs ys)
  then show ?case by (cases fuel) (simp_all add: merge_loop_step del: merge_loop.simps(4))
next
  case (skip_b u v us vs xs ys)
  then show ?case by (cases fuel) (simp_all add: merge_loop_step del: merge_loop.simps(4))
next
  case (skip_both u v us vs xs ys)
  then show ?case by (cases fuel) (simp_all add: merge_loop_step del: merge_loop.simps(4))
qed

lemma unstuck_ends:
  assumes "length us + length vs \<le> fuel" "\<And>xs ys. merge_reaches lc us vs xs ys \<Longrightarrow> \<not> stuck_at xs ys"
  shows "merge_loop lc fuel us vs \<noteq> None"
  using assms
proof (induction fuel arbitrary: us vs)
  case 0
  then show ?case by simp
next
  case (Suc fuel)
  show ?case
  proof (cases "us = [] \<or> vs = []")
    case True
    then show ?thesis by (cases us) auto
  next
    case False
    then obtain u us' v vs' where us: "us = u # us'" and vs: "vs = v # vs'" by (metis neq_Nil_conv)
    have p: "pkg_parses u" "pkg_parses v" using Suc.prems(2) [OF here] us vs by (auto simp: stuck_at_def)
    consider "merge_cmp lc u v < 0" | "merge_cmp lc u v > 0" | "merge_cmp lc u v = 0" by linarith
    then show ?thesis
    proof cases
      case 1
      have "merge_loop lc fuel us' vs \<noteq> None"
        using Suc.prems us vs by (intro Suc.IH) (auto intro: skip_a [OF p 1])
      then show ?thesis using 1 us vs by (simp add: merge_loop_step [OF p] del: merge_loop.simps(4))
    next
      case 2
      have "merge_loop lc fuel us vs' \<noteq> None"
        using Suc.prems us vs by (intro Suc.IH) (auto intro: skip_b [OF p 2])
      then show ?thesis using 2 us vs by (simp add: merge_loop_step [OF p] del: merge_loop.simps(4))
    next
      case 3
      have "merge_loop lc fuel us' vs' \<noteq> None"
        using Suc.prems us vs by (intro Suc.IH) (auto intro: skip_both [OF p 3])
      then show ?thesis using 3 us vs by (simp add: merge_loop_step [OF p] del: merge_loop.simps(4))
    qed
  qed
qed

text \<open>C35.  The merge returns for no number of turns exactly if its loop comes to compare, while both lists
  still have elements, an update whose package does not parse as a NEVRA: \<open>continue\<close> leaves both indices where they
  are.  Otherwise it returns within as many turns as there are updates.\<close>

theorem merge_updates_hangs:
  "((\<forall>fuel. merge_updates lc fuel la lb = None)
      \<longleftrightarrow> (\<exists>xs ys. merge_reaches lc (get_available_updates la) (get_available_updates lb) xs ys \<and> stuck_at xs ys))
   \<and> (merge_updates lc (length (get_available_updates la) + length (get_available_updates lb)) la lb = None
      \<longleftrightarrow> (\<exists>xs ys. merge_reaches lc (get_available_updates la) (get_available_updates lb) xs ys \<and> stuck_at xs ys))"
  unfolding merge_updates_def option.map_disc_iff using reached_stuck unstuck_ends by (metis order_refl)

text \<open>C33.  Removing the packages that are not the latest keeps, of every package name, exactly
  the newest key, and drops keys that are no NEVRA at all; the values are untouched.\<close>

theorem remove_non_latest_newest:
  assumes "go_order lc" "ur_update_list r = Some m" "wf_gomap m" "no_ties lc (fst ` set m)"
  shows "gm_get (update_entries (Some (remove_non_latest lc r))) k
    = (if newest lc (fst ` set m) k then gm_get m k else None)"
  using remove_non_latest_get [OF assms] by (auto simp: update_entries_def get_update_list_def)

text \<open>The three spellings of the next property.\<close>

lemma parse_foo:
  "parse_nevra ''foo-0:1-1.x'' =
     Inr \<lparr>nv_name = ''foo'', nv_epoch = 0, nv_version = ''1'', nv_release = ''1'', nv_arch = ''x''\<rparr>"
  "parse_nevra ''foo-1-1.x'' =
     Inr \<lparr>nv_name = ''foo'', nv_epoch = 0, nv_version = ''1'', nv_release = ''1'', nv_arch = ''x''\<rparr>"
  "parse_nevra ''foo-0:2-1.x'' =
     Inr \<lparr>nv_name = ''foo'', nv_epoch = 0, nv_version = ''2'', nv_release = ''1'', nv_arch = ''x''\<rparr>"
  by code_simp+

lemma show_int_0: "show_int 0 = ''0''"
  by code_simp

text \<open>With a tie the outcome depends on the iteration order of the Go map: of the same three
  keys (a package with and without its zero epoch, and a newer release) one order
  deletes both old spellings and another keeps one of them.\<close>

theorem remove_non_latest_tie_order:
  assumes "go_order lc" "lc (''0'', ''1'', ''1'') (''0'', ''2'', ''1'') = -1"
  shows "snd (rnl_scan lc [''foo-0:2-1.x'', ''foo-0:1-1.x'', ''foo-1-1.x''] [] [])
      = [''foo-0:1-1.x'', ''foo-1-1.x'']
    \<and> snd (rnl_scan lc [''foo-0:1-1.x'', ''foo-1-1.x'', ''foo-0:2-1.x''] [] []) = [''foo-0:1-1.x'']"
proof -
  have swap: "lc (''0'', ''2'', ''1'') (''0'', ''1'', ''1'') = 1"
    using go_order.cmp_anti [OF assms(1), of "(''0'', ''2'', ''1'')" "(''0'', ''1'', ''1'')"] assms(2)
    by simp
  have self: "lc x x = 0" for x by (rule go_order.cmp_self [OF assms(1)])
  show ?thesis
    by (simp add: parse_foo show_int_0 nevra_cmp_def evra_cmp_def assms(2) swap self)
qed

theorem remove_non_latest_tie_order_witness:
  "snd (rnl_scan text_label_compare [''foo-0:1-1.x'', ''foo-1-1.x'', ''foo-0:2-1.x''] [] [])
     = [''foo-0:1-1.x'']"
proof -
  have "text_label_compare (''0'', ''1'', ''1'') (''0'', ''2'', ''1'') = -1" by code_simp
  from remove_non_latest_tie_order [OF text_label.go_order_axioms this] show ?thesis by blast
qed

text \<open>C10.  The merge of two responses holds, for each package that is the newest of its name in
  either, the merge of both update lists, or the one there is.\<close>

theorem merge_responses_spec:
  assumes "go_order lc" "ur_update_list ra = Some a" "ur_update_list rb = Some b"
    and "wf_gomap a" "wf_gomap b" "lists_parse a" "lists_parse b" "lists_fit fuel a b"
    and "no_ties lc (fst ` set a \<union> fst ` set b)"
  shows "\<exists>r. merge_responses lc fuel (Some ra) (Some rb) = Some (Some r) \<and>
    (\<forall>k. gm_get (update_entries (Some r)) k =
      (if newest lc (fst ` set a \<union> fst ` set b) k
       then merged_entry lc fuel (gm_get a k) (gm_get b k) else None))"
proof -
  have total: "\<exists>r. merge_updates lc fuel la lb = Some r" if "gm_get a k = Some la" "(k, lb) \<in> set b" for k la lb
    using that assms(6-8) map_of_SomeD [OF that(1)]
    by (intro merge_updates_total) (auto simp: lists_parse_def lists_fit_def)
  have "\<exists>m. merge_entries lc fuel b a = Some m \<and> wf_gomap m \<and>
      (\<forall>k. gm_get m k = merged_entry lc fuel (gm_get a k) (gm_get b k))"
    by (rule merge_entries_spec [OF assms(4,5) total])
  then obtain m where m: "merge_entries lc fuel b a = Some m" "wf_gomap m"
    "\<And>k. gm_get m k = merged_entry lc fuel (gm_get a k) (gm_get b k)"
    by blast
  have keys: "fst ` set m = fst ` set a \<union> fst ` set b"
  proof -
    have "k \<in> fst ` set m \<longleftrightarrow> k \<in> fst ` set a \<or> k \<in> fst ` set b" for k
    proof -
      have "merged_entry lc fuel (gm_get a k) (gm_get b k) \<noteq> None
          \<longleftrightarrow> gm_get a k \<noteq> None \<or> gm_get b k \<noteq> None"
      proof (cases "gm_get a k")
        case None
        then show ?thesis by (simp add: merged_entry_def)
      next
        case (Some la)
        show ?thesis
        proof (cases "gm_get b k")
          case None
          with Some show ?thesis by (simp add: merged_entry_def)
        next
          case (Some lb)
          then obtain r where "merge_updates lc fuel la lb = Some r"
            using total [OF \<open>gm_get a k = Some la\<close> map_of_SomeD] by blast
          then show ?thesis using \<open>gm_get a k = Some la\<close> Some by (simp add: merged_entry_def)
        qed
      qed
      then show ?thesis using m(3) [of k] by (metis gm_has_mem)
    qed
    then show ?thesis by blast
  qed
  have ul: "ur_update_list (ra\<lparr>ur_update_list := Some m\<rparr>) = Some m" by simp
  obtain m' where m': "remove_non_latest lc (ra\<lparr>ur_update_list := Some m\<rparr>)
        = ra\<lparr>ur_update_list := Some m, ur_update_list := Some m'\<rparr>"
    "\<And>k. gm_get m' k = (if newest lc (fst ` set m) k then gm_get m k else None)"
    using remove_non_latest_get [OF assms(1) ul m(2)] assms(9) keys by auto
  then show ?thesis
    using assms(2,3) m keys by (simp add: merge_responses_def get_update_list_def update_entries_def)
qed

section \<open>Witnesses\<close>

definition pkg_update :: "string \<Rightarrow> avail_update" where
  "pkg_update p = \<lparr>up_repository = None, up_releasever = None, up_basearch = None, up_erratum = None,
     up_package = Some p, up_package_name = None, up_evra = None, up_status = INSTALLABLE\<rparr>"

definition response_of :: "(string, update_list_ptr) gomap \<Rightarrow> updates_response" where
  "response_of m = \<lparr>ur_update_list = Some m, ur_repository_list = None, ur_modules_list = None,
     ur_releasever = None, ur_basearch = None, ur_last_change = None, ur_build_pkgcache = None\<rparr>"

lemma response_of_list [simp]: "ur_update_list (response_of m) = Some m"
  by (simp add: response_of_def)

lemma cmp_foo:
  "nevra_cmp text_label_compare
     \<lparr>nv_name = ''foo'', nv_epoch = 0, nv_version = ''1'', nv_release = ''1'', nv_arch = ''x''\<rparr>
     \<lparr>nv_name = ''foo'', nv_epoch = 0, nv_version = ''2'', nv_release = ''1'', nv_arch = ''x''\<rparr> = -1"
  "nevra_cmp text_label_compare
     \<lparr>nv_name = ''foo'', nv_epoch = 0, nv_version = ''2'', nv_release = ''1'', nv_arch = ''x''\<rparr>
     \<lparr>nv_name = ''foo'', nv_epoch = 0, nv_version = ''1'', nv_release = ''1'', nv_arch = ''x''\<rparr> = 1"
  by code_simp+

lemma no_ties_foo: "no_ties text_label_compare {''foo-0:1-1.x'', ''foo-0:2-1.x''}"
  by (simp add: no_ties_def parse_foo cmp_foo)

lemma not_newest_foo: "\<not> newest text_label_compare {''foo-0:1-1.x'', ''foo-0:2-1.x''} ''foo-0:1-1.x''"
  by (simp add: newest_def parse_foo cmp_foo)

theorem merge_updates_sorted_witness:
  "\<exists>r. merge_updates text_label_compare 2 (Some (Some [pkg_update ''foo-0:1-1.x'']))
         (Some (Some [pkg_update ''foo-0:2-1.x''])) = Some (Some (Some r))
     \<and> sorted_updates text_label_compare r
     \<and> set r = {pkg_update ''foo-0:1-1.x'', pkg_update ''foo-0:2-1.x''}"
proof -
  let ?a = "Some (Some [pkg_update ''foo-0:1-1.x''])" and ?b = "Some (Some [pkg_update ''foo-0:2-1.x''])"
  have h: "length (get_available_updates ?a) + length (get_available_updates ?b) \<le> 2"
    "list_all pkg_parses (get_available_updates ?a)" "list_all pkg_parses (get_available_updates ?b)"
    "sorted_updates text_label_compare (get_available_updates ?a)"
    "sorted_updates text_label_compare (get_available_updates ?b)"
    by code_simp+
  have "merge_cmp text_label_compare (pkg_update ''foo-0:1-1.x'') (pkg_update ''foo-0:2-1.x'') \<noteq> 0"
    by code_simp
  then have "merge_spec text_label_compare (get_available_updates ?a) (get_available_updates ?b)
      = {pkg_update ''foo-0:1-1.x'', pkg_update ''foo-0:2-1.x''}"
    by (auto simp: merge_spec_def get_available_updates_def)
  with merge_updates_sorted [OF text_label.go_order_axioms h] show ?thesis by simp
qed

text \<open>The second package of the second list does not parse, and is compared on the second turn.\<close>

theorem merge_updates_hangs_witness:
  "\<forall>fuel. merge_updates text_label_compare fuel (Some (Some [pkg_update ''foo-0:2-1.x'']))
     (Some (Some [pkg_update ''foo-0:1-1.x'', pkg_update ''foo''])) = None"
proof -
  have p: "pkg_parses (pkg_update ''foo-0:2-1.x'')" "pkg_parses (pkg_update ''foo-0:1-1.x'')"
    "merge_cmp text_label_compare (pkg_update ''foo-0:2-1.x'') (pkg_update ''foo-0:1-1.x'') > 0" by code_simp+
  have "stuck_at [pkg_update ''foo-0:2-1.x''] [pkg_update ''foo'']" by code_simp
  then show ?thesis
    using merge_updates_hangs [of text_label_compare "Some (Some [pkg_update ''foo-0:2-1.x''])"
        "Some (Some [pkg_update ''foo-0:1-1.x'', pkg_update ''foo''])"]
      merge_reaches.skip_b [OF p merge_reaches.here, of "[]" "[pkg_update ''foo'']"]
    by (simp add: get_available_updates_def) blast
qed

theorem remove_non_latest_newest_witness:
  "gm_get (update_entries (Some (remove_non_latest text_label_compare
     (response_of [(''foo-0:1-1.x'', None), (''foo-0:2-1.x'', Some None)])))) ''foo-0:1-1.x'' = None"
  using remove_non_latest_newest [OF text_label.go_order_axioms response_of_list,
      of "[(''foo-0:1-1.x'', None), (''foo-0:2-1.x'', Some None)]" "''foo-0:1-1.x''"]
    no_ties_foo not_newest_foo
  by simp

theorem merge_responses_spec_witness:
  "\<exists>r. merge_responses text_label_compare 0 (Some (response_of [(''foo-0:1-1.x'', None)]))
         (Some (response_of [(''foo-0:2-1.x'', Some None)])) = Some (Some r)
     \<and> gm_get (update_entries (Some r)) ''foo-0:1-1.x'' = None"
proof -
  have "lists_parse [(''foo-0:1-1.x'', None)]" "lists_parse [(''foo-0:2-1.x'', Some None)]"
    "lists_fit 0 [(''foo-0:1-1.x'', None)] [(''foo-0:2-1.x'', Some None)]"
    by (simp_all add: lists_parse_def lists_fit_def get_available_updates_def)
  from merge_responses_spec [OF text_label.go_order_axioms response_of_list response_of_list _ _ this]
  obtain r where "merge_responses text_label_compare 0 (Some (response_of [(''foo-0:1-1.x'', None)]))
      (Some (response_of [(''foo-0:2-1.x'', Some None)])) = Some (Some r)"
    and "gm_get (update_entries (Some r)) ''foo-0:1-1.x''
      = (if newest text_label_compare {''foo-0:1-1.x'', ''foo-0:2-1.x''} ''foo-0:1-1.x''
         then merged_entry text_label_compare 0 (gm_get [(''foo-0:1-1.x'', None)] ''foo-0:1-1.x'')
           (gm_get [(''foo-0:2-1.x'', Some None)] ''foo-0:1-1.x'') else None)"
    using no_ties_foo by (auto simp: insert_commute)
  then show ?thesis using not_newest_foo by auto
qed

end
