(* ===== verification/VmaasCache.thy ===== *)
theory VmaasCache
  imports Vmaas Models
begin

text \<open>
  The cache of VMaaS responses (\<open>evaluator/vmaas_cache.go\<close>).  The two-queue cache is a
  third-party package: its operations are a parameter, and \<open>tq_ok\<close> is its documented
  behaviour as far as the program relies on it.  The evaluator copies every response on
  its way in and out, so that responses are plain values here.  The time stamp of the last
  VMaaS export is read from the database at every tick and is an argument.
\<close>

record 'q tq_ops =
  tq_new :: "int \<Rightarrow> 'q option"
  tq_get :: "'q \<Rightarrow> string \<Rightarrow> updates_response option \<times> 'q"
  tq_add :: "'q \<Rightarrow> string \<Rightarrow> updates_response \<Rightarrow> 'q"
  tq_purge :: "'q \<Rightarrow> 'q"

text \<open>A cache answers only what was put under that key since it was created or purged.
  \<open>tq_holds\<close>, an observer of the contents, states it.\<close>

definition tq_ok :: "'q tq_ops \<Rightarrow> ('q \<Rightarrow> string \<Rightarrow> updates_response \<Rightarrow> bool) \<Rightarrow> bool" where
  "tq_ok ops holds \<longleftrightarrow>
     (\<forall>n q k r. tq_new ops n = Some q \<longrightarrow> \<not> holds q k r)
   \<and> (\<forall>q k r. fst (tq_get ops q k) = Some r \<longrightarrow> holds q k r)
   \<and> (\<forall>q k k' r. holds (snd (tq_get ops q k)) k' r \<longrightarrow> holds q k' r)
   \<and> (\<forall>q k v k' r. holds (tq_add ops q k v) k' r \<longrightarrow> (if k' = k then r = v else holds q k' r))
   \<and> (\<forall>q k r. \<not> holds (tq_purge ops q) k r)"

record 'q vmaas_cache =
  vc_enabled :: bool
  vc_size :: int
  vc_current_size :: int
  vc_validity :: "timestamp option"
  vc_data :: "'q option"
  vc_gauge :: int

text \<open>A bad size makes the constructor panic.\<close>

definition new_vmaas_cache :: "'q tq_ops \<Rightarrow> bool \<Rightarrow> int \<Rightarrow> timestamp option \<Rightarrow> 'q vmaas_cache option" where
  "new_vmaas_cache ops enabled sz last_sync =
     (if enabled
      then (case tq_new ops sz of None \<Rightarrow> None
            | Some q \<Rightarrow> Some \<lparr>vc_enabled = enabled, vc_size = sz, vc_current_size = 0, vc_validity = last_sync,
                             vc_data = Some q, vc_gauge = 0\<rparr>)
      else Some \<lparr>vc_enabled = enabled, vc_size = sz, vc_current_size = 0, vc_validity = last_sync,
                 vc_data = None, vc_gauge = 0\<rparr>)"

definition vmaas_cache_get :: "'q tq_ops \<Rightarrow> 'q vmaas_cache \<Rightarrow> string option
    \<Rightarrow> updates_response option \<times> 'q vmaas_cache" where
  "vmaas_cache_get ops c checksum =
     (case (vc_enabled c, checksum, vc_data c) of
        (True, Some k, Some q) \<Rightarrow> (let (v, q) = tq_get ops q k in (v, c\<lparr>vc_data := Some q\<rparr>))
      | _ \<Rightarrow> (None, c))"

definition vmaas_cache_add :: "'q tq_ops \<Rightarrow> string option \<Rightarrow> updates_response \<Rightarrow> 'q vmaas_cache
    \<Rightarrow> 'q vmaas_cache" where
  "vmaas_cache_add ops checksum response c =
     (case (vc_enabled c, checksum, vc_data c) of
        (True, Some k, Some q) \<Rightarrow>
          (let c = c\<lparr>vc_data := Some (tq_add ops q k response)\<rparr>
           in if vc_current_size c \<le> vc_size c
              then c\<lparr>vc_current_size := vc_current_size c + 1, vc_gauge := vc_gauge c + 1\<rparr> else c)
      | _ \<Rightarrow> c)"

definition vmaas_cache_reset :: "'q tq_ops \<Rightarrow> timestamp option \<Rightarrow> 'q vmaas_cache \<Rightarrow> 'q vmaas_cache" where
  "vmaas_cache_reset ops ts c =
     (if vc_enabled c
      then c\<lparr>vc_data := map_option (tq_purge ops) (vc_data c), vc_validity := ts, vc_gauge := 0\<rparr> else c)"

text \<open>One tick of \<open>CheckValidity\<close>; the loop is one such step per tick of the clock.\<close>

definition validity_tick :: "'q tq_ops \<Rightarrow> timestamp option \<Rightarrow> 'q vmaas_cache \<Rightarrow> 'q vmaas_cache" where
  "validity_tick ops last_modified c =
     (case (last_modified, vc_validity c) of
        (Some m, Some v) \<Rightarrow> if v < m then vmaas_cache_reset ops last_modified c else c
      | _ \<Rightarrow> vmaas_cache_reset ops last_modified c)"

fun check_validity :: "'q tq_ops \<Rightarrow> timestamp option list \<Rightarrow> 'q vmaas_cache \<Rightarrow> 'q vmaas_cache" where
  "check_validity ops [] c = c"
| "check_validity ops (t # ts) c = check_validity ops ts (validity_tick ops t c)"

section \<open>The cache over time\<close>

text \<open>A history lists, newest first, what happened to the cache.\<close>

datatype vc_event =
    Looked "string option"
  | Stored "string option" updates_response
  | Ticked "timestamp option"

inductive vc_run :: "'q tq_ops \<Rightarrow> int \<Rightarrow> timestamp option \<Rightarrow> vc_event list \<Rightarrow> 'q vmaas_cache \<Rightarrow> bool"
  for ops sz start where
  created: "new_vmaas_cache ops True sz start = Some c \<Longrightarrow> vc_run ops sz start [] c"
| looked: "vc_run ops sz start h c \<Longrightarrow> vc_run ops sz start (Looked k # h) (snd (vmaas_cache_get ops c k))"
| stored: "vc_run ops sz start h c \<Longrightarrow> vc_run ops sz start (Stored k r # h) (vmaas_cache_add ops k r c)"
| ticked: "vc_run ops sz start h c \<Longrightarrow> vc_run ops sz start (Ticked t # h) (validity_tick ops t c)"

text \<open>What the history says: the export the contents belong to, the last response stored for a key
  since that export became known, and how many were stored ever.\<close>

fun known_export :: "timestamp option \<Rightarrow> vc_event list \<Rightarrow> timestamp option" where
  "known_export start [] = start"
| "known_export start (Ticked t # h) =
     (case (t, known_export start h) of (Some m, Some v) \<Rightarrow> Some (max v m) | _ \<Rightarrow> t)"
| "known_export start (_ # h) = known_export start h"

definition resets :: "timestamp option \<Rightarrow> timestamp option \<Rightarrow> bool" where
  "resets t v = (case (t, v) of (Some m, Some v) \<Rightarrow> v < m | _ \<Rightarrow> True)"

fun last_stored :: "timestamp option \<Rightarrow> vc_event list \<Rightarrow> string \<Rightarrow> updates_response option" where
  "last_stored start [] k = None"
| "last_stored start (Stored j r # h) k = (if j = Some k then Some r else last_stored start h k)"
| "last_stored start (Ticked t # h) k = (if resets t (known_export start h) then None else last_stored start h k)"
| "last_stored start (Looked j # h) k = last_stored start h k"

fun stored_count :: "vc_event list \<Rightarrow> int" where
  "stored_count [] = 0"
| "stored_count (Stored (Some k) r # h) = stored_count h + 1"
| "stored_count (_ # h) = stored_count h"

definition vc_inv :: "('q \<Rightarrow> string \<Rightarrow> updates_response \<Rightarrow> bool) \<Rightarrow> int \<Rightarrow> timestamp option \<Rightarrow> vc_event list
    \<Rightarrow> 'q vmaas_cache \<Rightarrow> bool" where
  "vc_inv holds sz start h c \<longleftrightarrow> vc_enabled c \<and> vc_size c = sz \<and> vc_validity c = known_export start h
     \<and> (\<exists>q. vc_data c = Some q \<and> (\<forall>k r. holds q k r \<longrightarrow> last_stored start h k = Some r))
     \<and> vc_current_size c = min (max 0 (sz + 1)) (stored_count h) \<and> 0 \<le> stored_count h"

lemma tq_okD:
  assumes "tq_ok ops holds"
  shows "tq_new ops n = Some q \<Longrightarrow> \<not> holds q k r"
    and "fst (tq_get ops q k) = Some r \<Longrightarrow> holds q k r"
    and "holds (snd (tq_get ops q k)) k' r \<Longrightarrow> holds q k' r"
    and "holds (tq_add ops q k v) k' r \<Longrightarrow> if k' = k then r = v else holds q k' r"
    and "\<not> holds (tq_purge ops q) k r"
  using assms [unfolded tq_ok_def, THEN conjunct1]
    assms [unfolded tq_ok_def, THEN conjunct2, THEN conjunct1]
    assms [unfolded tq_ok_def, THEN conjunct2, THEN conjunct2, THEN conjunct1]
    assms [unfolded tq_ok_def, THEN conjunct2, THEN conjunct2, THEN conjunct2, THEN conjunct1]
    assms [unfolded tq_ok_def, THEN conjunct2, THEN conjunct2, THEN conjunct2, THEN conjunct2]
  by blast+

lemma tick_resets: "validity_tick ops t c = (if resets t (vc_validity c) then vmaas_cache_reset ops t c else c)"
  by (simp add: validity_tick_def resets_def split: option.splits)

lemma vc_run_inv:
  assumes "tq_ok ops holds" "vc_run ops sz start h c"
  shows "vc_inv holds sz start h c"
  using assms(2)
proof (induction rule: vc_run.induct)
  case (created c)
  then obtain q where q: "tq_new ops sz = Some q" "c = \<lparr>vc_enabled = True, vc_size = sz, vc_current_size = 0,
      vc_validity = start, vc_data = Some q, vc_gauge = 0\<rparr>"
    by (auto simp: new_vmaas_cache_def split: option.splits)
  have "\<forall>k r. \<not> holds q k r" using tq_okD(1) [OF assms(1) q(1)] by blast
  then show ?case using q(2) by (simp add: vc_inv_def)
next
  case (looked h c k)
  then obtain q where q: "vc_data c = Some q" "\<forall>k r. holds q k r \<longrightarrow> last_stored start h k = Some r"
    by (auto simp: vc_inv_def)
  show ?case
  proof (cases k)
    case None
    then show ?thesis using looked.IH by (simp add: vmaas_cache_get_def vc_inv_def split: bool.splits)
  next
    case (Some key)
    have "\<forall>k' r. holds (snd (tq_get ops q key)) k' r \<longrightarrow> last_stored start h k' = Some r"
      using tq_okD(3) [OF assms(1)] q(2) by blast
    then show ?thesis using looked.IH q(1) Some
      by (simp add: vmaas_cache_get_def vc_inv_def case_prod_unfold Let_def)
  qed
next
  case (stored h c k r)
  then obtain q where q: "vc_data c = Some q" "\<forall>k r. holds q k r \<longrightarrow> last_stored start h k = Some r"
    by (auto simp: vc_inv_def)
  show ?case
  proof (cases k)
    case None
    then show ?thesis using stored.IH by (simp add: vmaas_cache_add_def vc_inv_def split: bool.splits)
  next
    case (Some key)
    have "\<forall>k' r'. holds (tq_add ops q key r) k' r' \<longrightarrow> (if k' = key then r' = r else holds q k' r')"
      using tq_okD(4) [OF assms(1)] by blast
    then have "\<forall>k' r'. holds (tq_add ops q key r) k' r' \<longrightarrow> last_stored start (Stored (Some key) r # h) k' = Some r'"
      using q(2) by (auto split: if_splits)
    then show ?thesis using stored.IH q(1) Some
      by (auto simp: vmaas_cache_add_def vc_inv_def Let_def min_def max_def)
  qed
next
  case (ticked h c t)
  have holds: "\<And>q k r. \<not> holds (tq_purge ops q) k r" by (rule tq_okD(5) [OF assms(1)])
  show ?case using ticked.IH holds
    by (auto simp: tick_resets vmaas_cache_reset_def vc_inv_def resets_def max_def split: option.splits)
qed

section \<open>Property\<close>

text \<open>Whatever was looked up, stored and reset, a hit is the last response stored for that
  checksum since the newest known VMaaS export, and right after a tick that learns of a newer
  export, or finds none at all, every lookup misses.\<close>

theorem vmaas_cache_fresh:
  assumes "tq_ok ops holds" "vc_run ops sz start h c"
  shows "fst (vmaas_cache_get ops c (Some k)) \<in> {None, last_stored start h k}
     \<and> (resets t (known_export start h) \<longrightarrow> fst (vmaas_cache_get ops (validity_tick ops t c) j) = None)"
proof -
  obtain q where q: "vc_data c = Some q" "\<forall>k r. holds q k r \<longrightarrow> last_stored start h k = Some r" "vc_enabled c"
    "vc_validity c = known_export start h"
    using vc_run_inv [OF assms] by (auto simp: vc_inv_def)
  have hit: "\<And>q k r. fst (tq_get ops q k) = Some r \<Longrightarrow> holds q k r" by (rule tq_okD(2) [OF assms(1)])
  have purged: "fst (tq_get ops (tq_purge ops q) j) = None" for j
    using tq_okD(5) [OF assms(1)] hit [of "tq_purge ops q" j] by (cases "fst (tq_get ops (tq_purge ops q) j)") auto
  have "fst (vmaas_cache_get ops c (Some k)) \<in> {None, last_stored start h k}"
  proof (cases "fst (tq_get ops q k)")
    case (Some r)
    then have "last_stored start h k = Some r" using hit q(2) by blast
    then show ?thesis using q(1,3) Some by (simp add: vmaas_cache_get_def case_prod_unfold)
  qed (use q(1,3) in \<open>simp add: vmaas_cache_get_def case_prod_unfold\<close>)
  moreover have "resets t (known_export start h) \<Longrightarrow> fst (vmaas_cache_get ops (validity_tick ops t c) j) = None"
    using q purged by (simp add: tick_resets vmaas_cache_reset_def vmaas_cache_get_def case_prod_unfold split: option.splits)
  ultimately show ?thesis by blast
qed

text \<open>An association list as an instance of the contract.\<close>

definition alist_ops :: "(string, updates_response) gomap tq_ops" where
  "alist_ops = \<lparr>tq_new = (\<lambda>n. if n \<le> 0 then None else Some []), tq_get = (\<lambda>q k. (gm_get q k, q)),
     tq_add = (\<lambda>q k v. gm_put k v q), tq_purge = (\<lambda>q. [])\<rparr>"

lemma alist_ok: "tq_ok alist_ops (\<lambda>q k r. gm_get q k = Some r)"
  by (simp add: tq_ok_def alist_ops_def gomap)

definition empty_response :: updates_response where
  "empty_response = \<lparr>ur_update_list = None, ur_repository_list = None, ur_modules_list = None,
     ur_releasever = None, ur_basearch = None, ur_last_change = None, ur_build_pkgcache = None\<rparr>"

theorem vmaas_cache_fresh_witness:
  "\<exists>c. vc_run alist_ops 10 (Some 5) [Stored (Some ''k'') empty_response] c
     \<and> fst (vmaas_cache_get alist_ops c (Some ''k'')) = Some empty_response
     \<and> fst (vmaas_cache_get alist_ops (validity_tick alist_ops (Some 6) c) (Some ''k'')) = None"
proof -
  obtain c where c: "new_vmaas_cache alist_ops True 10 (Some 5) = Some c"
    by (simp add: new_vmaas_cache_def alist_ops_def)
  let ?c = "vmaas_cache_add alist_ops (Some ''k'') empty_response c"
  have run: "vc_run alist_ops 10 (Some 5) [Stored (Some ''k'') empty_response] ?c"
    by (rule vc_run.stored [OF vc_run.created [OF c]])
  have "fst (vmaas_cache_get alist_ops (validity_tick alist_ops (Some 6) ?c) (Some ''k'')) = None"
    using vmaas_cache_fresh [OF alist_ok run, of "''k''" "Some 6" "Some ''k''"] by (simp add: resets_def)
  moreover have "fst (vmaas_cache_get alist_ops ?c (Some ''k'')) = Some empty_response"
    using c by (auto simp: new_vmaas_cache_def alist_ops_def vmaas_cache_add_def vmaas_cache_get_def gomap)
  ultimately show ?thesis using run by blast
qed

end
