(* ===== verification/GoErrors.thy ===== *)
theory GoErrors
  imports GoStrings
begin

text \<open>
  Go errors as the program builds them (\<open>base/errors.go\<close> and \<open>pkg/errors\<close>): sentinel values,
  errors of other packages (\<open>Leaf\<close>), \<open>errors.Join\<close> and \<open>errors.Wrap\<close>; \<open>error_is\<close> is
  \<open>errors.Is\<close> against a sentinel.  A nil error is \<open>None\<close>.
\<close>

datatype sentinel =
    ErrDatabase | ErrKafka | ErrBadRequest | ErrNotFound | ErrFatal | ErrVmaasBadRequest
  | ErrNoPackages | ErrReporter | ErrHostType | ErrBadPackages | ErrNoAccountProvided | ErrKafkaSend
  | ErrProcessUpload | ErrCandlepin | ErrTemplateNotFound

datatype 'e go_error =
    Leaf 'e
  | Sentinel sentinel
  | Joined "'e go_error list"
  | Wrapped string "'e go_error"

fun error_is :: "'e go_error \<Rightarrow> sentinel \<Rightarrow> bool" where
  "error_is (Leaf e) t = False"
| "error_is (Sentinel s) t = (s = t)"
| "error_is (Joined es) t = (\<exists>e\<in>set es. error_is e t)"
| "error_is (Wrapped m e) t = error_is e t"

text \<open>\<open>errors.Join\<close> drops nil errors and is nil when none is left.\<close>

definition join_errors :: "'e go_error option list \<Rightarrow> 'e go_error option" where
  "join_errors es = (let es = concat (map (\<lambda>e. case e of None \<Rightarrow> [] | Some e \<Rightarrow> [e]) es)
     in if es = [] then None else Some (Joined es))"

definition wrap_error :: "'e go_error option \<Rightarrow> string \<Rightarrow> 'e go_error option" where
  "wrap_error err message = map_option (Wrapped message) err"

definition wrap_errors :: "'e go_error option \<Rightarrow> string \<Rightarrow> sentinel list \<Rightarrow> 'e go_error option" where
  "wrap_errors err message errs =
     (case err of
        None \<Rightarrow> None
      | Some e \<Rightarrow>
          (let errs_joined = join_errors (map (\<lambda>s. Some (Sentinel s)) errs);
               err = join_errors [errs_joined, Some e]
           in wrap_error err message))"

definition wrap_fatal_error :: "'e go_error option \<Rightarrow> string \<Rightarrow> 'e go_error option" where
  "wrap_fatal_error err message = wrap_errors err message []"

definition wrap_fatal_db_error :: "'e go_error option \<Rightarrow> string \<Rightarrow> 'e go_error option" where
  "wrap_fatal_db_error err message = wrap_errors err message [ErrFatal, ErrDatabase]"

definition wrap_fatal_kafka_error :: "'e go_error option \<Rightarrow> string \<Rightarrow> 'e go_error option" where
  "wrap_fatal_kafka_error err message = wrap_errors err message [ErrFatal, ErrKafka]"

definition is_err :: "'e go_error option \<Rightarrow> sentinel \<Rightarrow> bool" where
  "is_err err t = (case err of None \<Rightarrow> False | Some e \<Rightarrow> error_is e t)"

section \<open>Laws\<close>

lemma is_err_None [simp]: "\<not> is_err None t"
  by (simp add: is_err_def)

lemma is_err_Some [simp]: "is_err (Some e) t = error_is e t"
  by (simp add: is_err_def)

lemma wrap_error_is [simp]: "is_err (wrap_error err m) t = is_err err t"
  by (cases err) (simp_all add: wrap_error_def)

lemma wrap_error_None [simp]: "(wrap_error err m = None) = (err = None)" "wrap_error None m = None"
  by (simp_all add: wrap_error_def)

lemma wrap_errors_None [simp]: "(wrap_errors err m es = None) = (err = None)"
  by (cases err) (simp_all add: wrap_errors_def wrap_error_def join_errors_def Let_def)

lemma wrap_errors_is:
  "is_err (wrap_errors (Some e) m es) t = (t \<in> set es \<or> error_is e t)"
  by (auto simp: wrap_errors_def join_errors_def wrap_error_def Let_def)

text \<open>A wrapped error is fatal when a database or a Kafka wrapper added the mark or the wrapped
  error carried it; the wrapper called \<open>WrapFatalError\<close> adds no mark at all, and none of them
  turns a nil error into an error.\<close>

theorem fatal_wrappers:
  "is_err (wrap_fatal_db_error (Some e) m) ErrFatal \<and> is_err (wrap_fatal_db_error (Some e) m) ErrDatabase
   \<and> is_err (wrap_fatal_kafka_error (Some e) m) ErrFatal \<and> is_err (wrap_fatal_kafka_error (Some e) m) ErrKafka
   \<and> is_err (wrap_fatal_error (Some e) m) t = error_is e t
   \<and> wrap_fatal_error (None :: 'e go_error option) m = None
   \<and> wrap_fatal_db_error (None :: 'e go_error option) m = None
   \<and> wrap_fatal_kafka_error (None :: 'e go_error option) m = None"
  by (simp add: wrap_fatal_db_error_def wrap_fatal_kafka_error_def wrap_fatal_error_def wrap_errors_is)

end
