(* ===== verification/Retry.thy ===== *)
theory Retry
  imports GoErrors
begin

text \<open>
  Retried calls: \<open>base/utils/http.go\<close>, the JSON client of \<open>base/api/client.go\<close>, the retrying
  message handler of \<open>base/mqueue/mqueue.go\<close> and the consumer loop of
  \<open>mqueue_impl_gokafka.go\<close>.  The backoff package decides how often \<open>backoff.Continue\<close>
  answers true; that number is the argument \<open>budget\<close>.  A call is a function on an explicit
  state, so that it may answer differently at each attempt.  Both retry loops are
  instances of the locale \<open>retry_loop\<close>.
\<close>

section \<open>HTTP responses\<close>

text \<open>Of a response only the status code matters here; nil is \<open>None\<close>.\<close>

type_synonym response = "int option"

definition try_get_status_code :: "response \<Rightarrow> int" where
  "try_get_status_code resp = (case resp of None \<Rightarrow> 0 | Some code \<Rightarrow> code)"

fun status_code_in :: "int \<Rightarrow> int list \<Rightarrow> bool" where
  "status_code_in code [] = False"
| "status_code_in code (c # cs) = (if c = code then True else status_code_in code cs)"

definition status_code_found :: "response \<Rightarrow> int list \<Rightarrow> bool" where
  "status_code_found resp codes =
     (case resp of None \<Rightarrow> False | Some code \<Rightarrow> status_code_in code codes)"

definition try_get_response_details :: "response \<Rightarrow> string" where
  "try_get_response_details resp =
     (case resp of None \<Rightarrow> [] | Some code \<Rightarrow> '', status code: '' @ show_int code)"

section \<open>The JSON client\<close>

datatype http_error =
    DumpFailed
  | TransportFailed
  | Non2xx int
  | EncodeFailed
  | BadRequestUrl
  | BadBody
  | RetriesExhausted nat
  | NoHeader
  | NoClient

record 'a transport =
  tr_dump_request :: bool
  tr_do :: "response \<times> bool"
  tr_dump_response :: bool
  tr_decode :: "'a option option"

text \<open>\<open>CallAPI\<close>: \<open>tr_do\<close> is what \<open>client.Do\<close> gives (a response, and whether it succeeded), the dump
  fields whether \<open>httputil\<close> could print the messages.  A client that succeeds returns a response.\<close>

definition call_api :: "'a transport \<Rightarrow> bool \<Rightarrow> response \<times> http_error go_error option" where
  "call_api t debug_enabled =
     (if debug_enabled \<and> \<not> tr_dump_request t then (None, Some (Leaf DumpFailed))
      else (let (resp, ok) = tr_do t
            in if \<not> ok then (resp, Some (Leaf TransportFailed))
               else if try_get_status_code resp < 200 \<or> try_get_status_code resp > 299
               then (resp, Some (Leaf (Non2xx (try_get_status_code resp))))
               else if debug_enabled \<and> \<not> tr_dump_response t then (resp, Some (Leaf DumpFailed))
               else (resp, None)))"

text \<open>\<open>Client.Request\<close>: \<open>encodes\<close> and \<open>valid_url\<close> say whether the request can be built.  Decoding
  gives \<open>None\<close> on an error, \<open>Some None\<close> on an empty body (the output is left as it was).\<close>

definition client_request :: "bool \<Rightarrow> bool \<Rightarrow> bool \<Rightarrow> 'a transport \<Rightarrow> 'a
    \<Rightarrow> 'a \<times> response \<times> http_error go_error option" where
  "client_request encodes valid_url debug t out =
     (if \<not> encodes then (out, None, Some (Wrapped ''JSON encoding failed'' (Leaf EncodeFailed)))
      else if \<not> valid_url then (out, None, Some (Wrapped ''Request failed'' (Leaf BadRequestUrl)))
      else (let (resp, err) = call_api t debug
            in (case err of
                  Some e \<Rightarrow> (out, resp, Some (Wrapped ''Request failed'' e))
                | None \<Rightarrow>
                    (case tr_decode t of
                       Some (Some v) \<Rightarrow> (v, resp, None)
                     | Some None \<Rightarrow> (out, resp, None)
                     | None \<Rightarrow> (out, resp, Some (Wrapped ''Response body reading failed'' (Leaf BadBody)))))))"

section \<open>Retrying an HTTP call\<close>

type_synonym 'a http_outcome = "'a \<times> response \<times> http_error go_error option"

fun http_call_retry :: "('s \<Rightarrow> 'a http_outcome \<times> 's) \<Rightarrow> int list \<Rightarrow> nat \<Rightarrow> nat \<Rightarrow> 's
    \<Rightarrow> (http_error go_error + 'a) \<times> 's" where
  "http_call_retry f codes 0 attempt s = (Inl (Leaf (RetriesExhausted attempt)), s)"
| "http_call_retry f codes (Suc budget) attempt s =
     (let ((out, resp, err), s) = f s
      in if status_code_found resp codes then http_call_retry f codes budget (Suc attempt) s
         else (case err of
                 None \<Rightarrow> (Inr out, s)
               | Some e \<Rightarrow>
                   if length codes = 0 then http_call_retry f codes budget (Suc attempt) s
                   else (Inl (Wrapped (''HTTP call failed'' @ try_get_response_details resp) e), s)))"

section \<open>Retrying a message handler\<close>

text \<open>\<open>MakeRetryingHandler\<close>: an error that is not fatal is swallowed; \<open>last\<close> is the variable \<open>err\<close>.\<close>

fun retrying_handler :: "('s \<Rightarrow> 'e go_error option \<times> 's) \<Rightarrow> nat \<Rightarrow> 'e go_error option \<Rightarrow> 's
    \<Rightarrow> 'e go_error option \<times> 's" where
  "retrying_handler handler 0 err s = ((if err \<noteq> None \<and> is_err err ErrFatal then err else None), s)"
| "retrying_handler handler (Suc budget) err s =
     (let (err, s) = handler s
      in if err = None \<or> \<not> is_err err ErrFatal then (None, s)
         else retrying_handler handler budget err s)"

section \<open>Consuming messages\<close>

datatype 'm fetch = Fetched 'm | Closed | FetchFailed
datatype commit = CommitDone | CommitCanceled | CommitFailed
datatype reader_end = Waiting | Stopped | Panicked

text \<open>One round per element of the list: what \<open>FetchMessage\<close> gives and what \<open>CommitMessages\<close> would
  answer.  The result says how the loop ended (\<open>Waiting\<close> when the input is used up), the
  state of the handler and the messages committed.\<close>

fun handle_messages :: "('m \<Rightarrow> 's \<Rightarrow> 'e go_error option \<times> 's) \<Rightarrow> ('m fetch \<times> commit) list \<Rightarrow> 's
    \<Rightarrow> reader_end \<times> 's \<times> 'm list" where
  "handle_messages handler [] s = (Waiting, s, [])"
| "handle_messages handler ((fetch, commit) # rounds) s =
     (case fetch of
        Closed \<Rightarrow> (Stopped, s, [])
      | FetchFailed \<Rightarrow> (Panicked, s, [])
      | Fetched m \<Rightarrow>
          (case handler m s of
             (Some e, s) \<Rightarrow> (Panicked, s, [])
           | (None, s) \<Rightarrow>
               (case commit of
                  CommitCanceled \<Rightarrow> (Stopped, s, [])
                | CommitFailed \<Rightarrow> (Panicked, s, [])
                | CommitDone \<Rightarrow>
                    (let (e, s, committed) = handle_messages handler rounds s in (e, s, m # committed)))))"

section \<open>The shape of both loops\<close>

text \<open>The outcome of the \<open>n\<close>-th call, and the state before it.\<close>

primrec call_state :: "('s \<Rightarrow> 'o \<times> 's) \<Rightarrow> 's \<Rightarrow> nat \<Rightarrow> 's" where
  "call_state f s 0 = s"
| "call_state f s (Suc n) = snd (f (call_state f s n))"

definition call_outcome :: "('s \<Rightarrow> 'o \<times> 's) \<Rightarrow> 's \<Rightarrow> nat \<Rightarrow> 'o" where
  "call_outcome f s n = fst (f (call_state f s n))"

lemma call_state_shift: "call_state f (snd (f s)) n = call_state f s (Suc n)"
  by (induction n) simp_all

lemma call_outcome_shift: "call_outcome f (snd (f s)) n = call_outcome f s (Suc n)"
  by (simp add: call_outcome_def call_state_shift)

locale retry_loop =
  fixes attempt :: "'s \<Rightarrow> 'o \<times> 's" and decide :: "'o \<Rightarrow> 'r option"
    and loop :: "nat \<Rightarrow> 'm \<Rightarrow> 's \<Rightarrow> 'r \<times> 's" and remember :: "'m \<Rightarrow> 'o \<Rightarrow> 'm" and give_up :: "'m \<Rightarrow> 'r"
  assumes loop_0: "loop 0 m s = (give_up m, s)"
    and loop_Suc: "loop (Suc n) m s =
      (case decide (fst (attempt s)) of Some r \<Rightarrow> (r, snd (attempt s))
       | None \<Rightarrow> loop n (remember m (fst (attempt s))) (snd (attempt s)))"
begin

lemma decided:
  assumes "k < n" "\<forall>i<k. decide (call_outcome attempt s i) = None"
    and "decide (call_outcome attempt s k) = Some r"
  shows "loop n m s = (r, call_state attempt s (Suc k))"
  using assms
proof (induction n arbitrary: k m s)
  case (Suc n)
  show ?case
  proof (cases k)
    case 0
    then show ?thesis using Suc.prems by (simp add: loop_Suc call_outcome_def)
  next
    case (Suc j)
    let ?s = "snd (attempt s)"
    have first: "decide (fst (attempt s)) = None"
      using Suc.prems(2) Suc by (force simp: call_outcome_def)
    have "\<forall>i<j. decide (call_outcome attempt ?s i) = None"
      using Suc.prems(2) Suc by (simp add: call_outcome_shift)
    moreover have "decide (call_outcome attempt ?s j) = Some r"
      using Suc.prems(3) Suc by (simp add: call_outcome_shift)
    ultimately have "loop n (remember m (fst (attempt s))) ?s = (r, call_state attempt ?s (Suc j))"
      using Suc.IH Suc.prems(1) Suc by simp
    then show ?thesis using first Suc by (simp add: loop_Suc call_state_shift del: call_state.simps)
  qed
qed simp

lemma exhausted:
  assumes "\<forall>i<n. decide (call_outcome attempt s i) = None"
  shows "loop n m s = (give_up (foldl remember m (map (call_outcome attempt s) [0..<n])), call_state attempt s n)"
  using assms
proof (induction n arbitrary: m s)
  case 0
  then show ?case by (simp add: loop_0)
next
  case (Suc n)
  let ?s = "snd (attempt s)" and ?o = "fst (attempt s)"
  have first: "decide ?o = None" using Suc.prems by (force simp: call_outcome_def)
  have "\<forall>i<n. decide (call_outcome attempt ?s i) = None"
    using Suc.prems by (simp add: call_outcome_shift)
  then have "loop n (remember m ?o) ?s =
      (give_up (foldl remember (remember m ?o) (map (call_outcome attempt ?s) [0..<n])), call_state attempt ?s n)"
    by (rule Suc.IH)
  moreover have "map (call_outcome attempt s) [0..<Suc n] = ?o # map (call_outcome attempt ?s) [0..<n]"
    by (simp add: upt_rec [of 0 "Suc n"] map_Suc_upt [symmetric] call_outcome_shift comp_def
        call_outcome_def [of attempt s 0] del: upt_Suc)
  ultimately show ?case using first by (simp add: loop_Suc call_state_shift del: upt_Suc call_state.simps)
qed

end

text \<open>What the code makes of one HTTP outcome: \<open>None\<close> is another try.\<close>

definition http_decision :: "int list \<Rightarrow> 'a http_outcome \<Rightarrow> (http_error go_error + 'a) option" where
  "http_decision codes outcome = (case outcome of (out, resp, err) \<Rightarrow>
     if status_code_found resp codes then None
     else (case err of None \<Rightarrow> Some (Inr out)
           | Some e \<Rightarrow> if codes = [] then None
               else Some (Inl (Wrapped (''HTTP call failed'' @ try_get_response_details resp) e))))"

interpretation http: retry_loop f "http_decision codes" "http_call_retry f codes" "\<lambda>attempt _. Suc attempt"
  "\<lambda>attempt. Inl (Leaf (RetriesExhausted attempt))"
  for f :: "'s \<Rightarrow> 'a http_outcome \<times> 's" and codes
  by unfold_locales (auto simp: http_decision_def split: prod.splits option.splits)

definition handler_decision :: "'e go_error option \<Rightarrow> 'e go_error option option" where
  "handler_decision err = (if is_err err ErrFatal then None else Some None)"

interpretation handling: retry_loop handler handler_decision "retrying_handler handler" "\<lambda>_ err. err"
  "\<lambda>err. if is_err err ErrFatal then err else None"
  for handler :: "'s \<Rightarrow> 'e go_error option \<times> 's"
  by unfold_locales (auto simp: handler_decision_def split: prod.splits)

lemma foldl_Suc: "foldl (\<lambda>k _. Suc k) n xs = n + length xs"
  by (induction xs arbitrary: n) auto

lemma foldl_last: "foldl (\<lambda>_ x. x) y xs = (if xs = [] then y else last xs)"
  by (induction xs arbitrary: y) auto

lemma handle_messages_committed:
  "handle_messages handler rounds s = (e, s', committed) \<Longrightarrow>
   \<exists>rest. map fst rounds = map Fetched committed @ rest
     \<and> (\<forall>i<length committed. fst (handler (committed ! i) (foldl (\<lambda>s m. snd (handler m s)) s (take i committed))) = None)"
proof (induction handler rounds s arbitrary: e s' committed rule: handle_messages.induct)
  case (2 handler fetch commit rounds s)
  show ?case
  proof (cases "committed = []")
    case False
    then obtain m s1 d where f: "fetch = Fetched m" and h: "handler m s = (None, s1)" and c: "commit = CommitDone"
      and r: "handle_messages handler rounds s1 = (e, s', d)" and d: "committed = m # d"
      using 2(2) by (auto split: fetch.splits option.splits commit.splits prod.splits)
    obtain rest where rest: "map fst rounds = map Fetched d @ rest"
      and all: "\<forall>i<length d. fst (handler (d ! i) (foldl (\<lambda>s m. snd (handler m s)) s1 (take i d))) = None"
      using 2(1) [OF f h [symmetric] refl c r] by blast
    have "fst (handler (committed ! i) (foldl (\<lambda>s m. snd (handler m s)) s (take i committed))) = None" if "i < length committed" for i
      using that all h d by (cases i) auto
    then show ?thesis using rest d f by auto
  qed simp
qed simp

section \<open>Properties\<close>

text \<open>A retried HTTP call is decided by the first attempt whose status code is not one of the
  codes to retry and that succeeded or, when there are such codes, failed; with no such
  attempt inside the budget it fails after exactly that many calls.\<close>

theorem http_call_retry_first_decision:
  assumes "n \<le> budget"
    and "\<forall>i<n. http_decision codes (call_outcome f s i) = None"
  shows "(case http_decision codes (call_outcome f s n) of
            Some r \<Rightarrow> n < budget \<longrightarrow> http_call_retry f codes budget 0 s = (r, call_state f s (Suc n))
          | None \<Rightarrow> True)
       \<and> (n = budget \<longrightarrow>
            http_call_retry f codes budget 0 s = (Inl (Leaf (RetriesExhausted n)), call_state f s n))"
  using http.decided [OF _ assms(2), of budget] http.exhausted [of budget codes f s 0] assms
  by (auto simp: foldl_Suc split: option.splits)

text \<open>One unavailable answer, then a result.\<close>

definition flaky_call :: "nat \<Rightarrow> int http_outcome \<times> nat" where
  "flaky_call k = (if k = 0 then ((0, Some 503, Some (Leaf (Non2xx 503))), 1) else ((42, Some 200, None), Suc k))"

theorem http_call_retry_first_decision_witness:
  "http_call_retry flaky_call [503] 8 0 0 = (Inr 42, 2)"
proof -
  have "\<forall>i<1. http_decision [503] (call_outcome flaky_call 0 i) = None"
    by (simp add: http_decision_def call_outcome_def flaky_call_def status_code_found_def)
  from http_call_retry_first_decision [OF _ this, of 8]
  show ?thesis by (simp add: http_decision_def call_outcome_def flaky_call_def status_code_found_def numeral_2_eq_2)
qed

text \<open>A handler is called again only after a fatal error; its message counts as handled unless
  every one of the attempts was fatal, so an error without the fatal mark drops the message
  silently.\<close>

theorem retrying_handler_fatal_only:
  assumes "0 < budget"
  shows "(fst (retrying_handler handler budget None s) \<noteq> None) =
           (\<forall>i<budget. is_err (call_outcome handler s i) ErrFatal)
       \<and> (\<not> is_err (call_outcome handler s 0) ErrFatal \<longrightarrow>
           retrying_handler handler budget None s = (None, snd (handler s)))"
proof (cases "\<forall>i<budget. is_err (call_outcome handler s i) ErrFatal")
  case True
  then have *: "\<forall>i<budget. handler_decision (call_outcome handler s i) = None" by (simp add: handler_decision_def)
  have "retrying_handler handler budget None s = (call_outcome handler s (budget - 1), call_state handler s budget)"
    using handling.exhausted [OF *, of None] True assms
    by (simp add: foldl_last last_map)
  then show ?thesis using True assms by (auto simp: is_err_def split: option.splits)
next
  case False
  define k where "k = (LEAST i. \<not> is_err (call_outcome handler s i) ErrFatal)"
  have k: "\<not> is_err (call_outcome handler s k) ErrFatal" "\<forall>i<k. is_err (call_outcome handler s i) ErrFatal" "k < budget"
  proof -
    obtain i where i: "i < budget" "\<not> is_err (call_outcome handler s i) ErrFatal" using False by blast
    show "\<not> is_err (call_outcome handler s k) ErrFatal" unfolding k_def by (rule LeastI [of _ i]) (rule i(2))
    show "\<forall>i<k. is_err (call_outcome handler s i) ErrFatal" using not_less_Least k_def by blast
    show "k < budget" using Least_le [of _ i] i unfolding k_def by (meson le_less_trans)
  qed
  then have "retrying_handler handler budget None s = (None, call_state handler s (Suc k))"
    using handling.decided [of k budget handler s None None] by (simp add: handler_decision_def del: call_state.simps)
  moreover have "\<not> is_err (call_outcome handler s 0) ErrFatal \<Longrightarrow> k = 0"
    using k(2) by blast
  ultimately show ?thesis using False by auto
qed

theorem retrying_handler_fatal_only_witness:
  "fst (retrying_handler (\<lambda>k. (if k < (2::nat) then Some (Sentinel ErrFatal) else Some (Leaf (7::int)), Suc k)) 6 None 0) = None
   \<and> fst (retrying_handler (\<lambda>k. (Some (Sentinel ErrFatal :: int go_error), Suc k)) 2 None (0::nat)) \<noteq> None"
proof -
  let ?h = "\<lambda>k::nat. (if k < 2 then Some (Sentinel ErrFatal) else Some (Leaf (7::int)), Suc k)"
  have "\<not> is_err (call_outcome ?h 0 2) ErrFatal" by (simp add: call_outcome_def numeral_2_eq_2)
  then have "\<not> (\<forall>i<6. is_err (call_outcome ?h 0 i) ErrFatal)" by force
  then have 1: "fst (retrying_handler ?h 6 None 0) = None"
    using retrying_handler_fatal_only [of 6 ?h 0] by auto
  have "\<forall>i<2. is_err (call_outcome (\<lambda>k. (Some (Sentinel ErrFatal :: int go_error), Suc k)) (0::nat) i) ErrFatal"
    by (simp add: call_outcome_def)
  then have "fst (retrying_handler (\<lambda>k. (Some (Sentinel ErrFatal :: int go_error), Suc k)) 2 None (0::nat)) \<noteq> None"
    using retrying_handler_fatal_only [of 2 "\<lambda>k. (Some (Sentinel ErrFatal :: int go_error), Suc k)" 0] by simp
  with 1 show ?thesis by blast
qed

text \<open>The consumer commits messages in the order they were fetched, each of them after its
  handler succeeded on the state the earlier ones left, and none after the first that failed.\<close>

theorem committed_messages_were_handled:
  assumes "handle_messages handler rounds s = (e, s', committed)"
  shows "\<exists>rest. map fst rounds = map Fetched committed @ rest
     \<and> (\<forall>i<length committed. fst (handler (committed ! i) (foldl (\<lambda>s m. snd (handler m s)) s (take i committed))) = None)"
  using handle_messages_committed [OF assms] .

theorem committed_messages_were_handled_witness:
  "\<exists>rest. map fst [(Fetched (1::int), CommitDone), (Fetched 2, CommitDone), (Fetched 3, CommitFailed)]
     = map Fetched [1, 2] @ rest"
proof -
  let ?h = "\<lambda>(m::int) (s::int). (None :: int go_error option, s + m)"
  have "handle_messages ?h [(Fetched 1, CommitDone), (Fetched 2, CommitDone), (Fetched 3, CommitFailed)] 0
      = (Panicked, 6, [1, 2])" by simp
  from committed_messages_were_handled [OF this] show ?thesis by blast
qed

end
