(* ===== verification/UpdatesData.thy ===== *)
theory UpdatesData
  imports VmaasMerge VmaasCache Retry EvalStore
begin

text \<open>
  Where the evaluator gets the updates of a system from (\<open>evaluator/evaluate.go\<close>,
  \<open>template_advisory.go\<close>): the updates its package manager reported, the VMaaS response
  (cached or called for), and the rules that make updates applicable only.  The environment
  holds what is third-party or outside the process: the JSON decoder, the HTTP exchange, the
  label comparison.  An outer \<open>None\<close> is a panic or a merge that does not return.
\<close>

datatype ev_error =
    StoreError eval_error
  | HttpError http_error
  | BadYumUpdates
  | NoVmaasJson
  | BadJson
  | InvalidOrg
  | SerializeError
  | KafkaWriteError

type_synonym ev_err = "ev_error go_error"

record ev_config =
  cf_bypass :: bool
  cf_advisory_analysis :: bool
  cf_package_analysis :: bool
  cf_repo_analysis :: bool
  cf_stale_eval :: bool
  cf_lazy_save :: bool
  cf_optimistic :: bool
  cf_yum_eval :: bool
  cf_template_eval :: bool
  cf_instant_notifications :: bool
  cf_inventory_views :: bool
  cf_advisory_updates :: bool
  cf_payload_tracker :: bool
  cf_debug :: bool

record ('q, 'n) fetch_env =
  fe_compare :: "evr \<Rightarrow> evr \<Rightarrow> int"
  fe_fuel :: nat
  fe_cache :: "'q tq_ops"
  fe_parse_response :: "string \<Rightarrow> updates_response option"
  fe_parse_request :: "string \<Rightarrow> updates_request option"
  fe_exchange :: "updates_request \<Rightarrow> 'n \<Rightarrow> updates_response transport \<times> 'n"
  fe_error_text :: "http_error go_error \<Rightarrow> string"
  fe_text :: "ev_err \<Rightarrow> string"
  fe_retries :: nat

section \<open>Updates reported by the system\<close>

fun yum_updates :: "avail_update list \<Rightarrow> avail_update list" where
  "yum_updates [] = []"
| "yum_updates (u # us) =
     (case parse_nevra (get_package u) of
        Inl _ \<Rightarrow> yum_updates us
      | Inr n \<Rightarrow> \<lparr>up_repository = up_repository u, up_releasever = up_releasever u, up_basearch = up_basearch u,
                  up_erratum = up_erratum u, up_package = up_package u, up_package_name = Some (nv_name n),
                  up_evra = Some (evra_string_e n True), up_status = 0\<rparr> # yum_updates us)"

definition try_get_yum_updates :: "('q, 'n) fetch_env \<Rightarrow> system_platform option \<Rightarrow> ev_err + updates_response option" where
  "try_get_yum_updates env system =
     (case system of
        None \<Rightarrow> Inr None
      | Some s \<Rightarrow>
          if length (si_yum_updates (pl_inventory s)) = 0 then Inr None
          else (case fe_parse_response env (si_yum_updates (pl_inventory s)) of
                  None \<Rightarrow> Inl (Wrapped ''unable to unmarshall yum updates'' (Leaf BadYumUpdates))
                | Some resp \<Rightarrow>
                    (let updates_map = update_entries (Some resp)
                     in if length updates_map = 0 then Inr None
                        else Inr (Some (resp\<lparr>ur_update_list := Some (map (\<lambda>(k, v).
                                (k, Some (Some (yum_updates (get_available_updates v))))) updates_map)\<rparr>)))))"

section \<open>Updates from VMaaS\<close>

definition parse_vmaas_json :: "('q, 'n) fetch_env \<Rightarrow> system_inventory option \<Rightarrow> ev_err + updates_request" where
  "parse_vmaas_json env sys_inv =
     (case sys_inv of
        None \<Rightarrow> Inl (Leaf NoVmaasJson)
      | Some i \<Rightarrow>
          (case si_vmaas_json i of
             None \<Rightarrow> Inl (Leaf NoVmaasJson)
           | Some json \<Rightarrow> (case fe_parse_request env json of None \<Rightarrow> Inl (Leaf BadJson) | Some r \<Rightarrow> Inr r)))"

definition try_get_vmaas_request :: "('q, 'n) fetch_env \<Rightarrow> system_platform option \<Rightarrow> ev_err + updates_request option" where
  "try_get_vmaas_request env system =
     (case system of
        None \<Rightarrow> Inr None
      | Some s \<Rightarrow>
          if si_vmaas_json (pl_inventory s) = None then Inr None
          else (case parse_vmaas_json env (Some (zero_inventory\<lparr>si_inventory_id := si_inventory_id (pl_inventory s),
                          si_vmaas_json := si_vmaas_json (pl_inventory s)\<rparr>)) of
                  Inl e \<Rightarrow> Inl (Wrapped ''Unable to parse system vmaas json'' e)
                | Inr req \<Rightarrow>
                    if length (rq_package_list req) = 0 then Inr None
                    else if length (rq_repository_list req) = 0 then Inr None
                    else Inr (Some req)))"

definition vmaas_call_func :: "('q, 'n) fetch_env \<Rightarrow> bool \<Rightarrow> updates_request \<Rightarrow> 'n
    \<Rightarrow> updates_response http_outcome \<times> 'n" where
  "vmaas_call_func env debug request net =
     (let (t, net) = fe_exchange env request net;
          (data, resp, err) = client_request True True debug t empty_response;
          status_code = try_get_status_code resp;
          err = (case err of
                   Some e \<Rightarrow> if status_code = 400
                             then Some (Wrapped (fe_error_text env e) (Sentinel ErrVmaasBadRequest)) else Some e
                 | None \<Rightarrow> None)
      in ((data, resp, err), net))"

definition call_vmaas :: "('q, 'n) fetch_env \<Rightarrow> bool \<Rightarrow> updates_request \<Rightarrow> 'n
    \<Rightarrow> (ev_err + updates_response) \<times> 'n" where
  "call_vmaas env debug request net =
     (case http_call_retry (vmaas_call_func env debug request) [503] (fe_retries env) 0 net of
        (Inl e, net) \<Rightarrow> (Inl (Wrapped ''vmaas /v3/updates API call failed'' (map_go_error HttpError e)), net)
      | (Inr data, net) \<Rightarrow> (Inr data, net))"

record ('q, 'n) fetch_state =
  fs_cache :: "'q vmaas_cache"
  fs_net :: 'n

definition get_vmaas_updates :: "ev_config \<Rightarrow> ('q, 'n) fetch_env \<Rightarrow> system_platform \<Rightarrow> ('q, 'n) fetch_state
    \<Rightarrow> (ev_err + updates_response option) \<times> ('q, 'n) fetch_state" where
  "get_vmaas_updates cf env system st =
     (let checksum = si_json_checksum (pl_inventory system);
          (data, c) = vmaas_cache_get (fe_cache env) (fs_cache st) checksum;
          st = st\<lparr>fs_cache := c\<rparr>
      in (case data of
            Some d \<Rightarrow> (Inr (Some d), st)
          | None \<Rightarrow>
              (case try_get_vmaas_request env (Some system) of
                 Inl e \<Rightarrow> (Inl (Wrapped ''unable to get vmaas request'' e), st)
               | Inr None \<Rightarrow> (Inr None, st)
               | Inr (Some req) \<Rightarrow>
                   (let third = sp_third_party (pl_patch system);
                        req = req\<lparr>rq_third_party := Some third,
                                  rq_optimistic_updates := Some (third \<or> cf_optimistic cf),
                                  rq_epoch_required := Some True\<rparr>;
                        (res, net) = call_vmaas env (cf_debug cf) req (fs_net st);
                        st = st\<lparr>fs_net := net\<rparr>
                    in (case res of
                          Inl e \<Rightarrow> (Inl (Wrapped ''vmaas API call failed'' e), st)
                        | Inr d \<Rightarrow>
                            (if vc_enabled (fs_cache st)
                             then (Inr (Some d), st\<lparr>fs_cache := vmaas_cache_add (fe_cache env) checksum d (fs_cache st)\<rparr>)
                             else (Inr (Some d), st)))))))"

section \<open>Templates\<close>

definition use_template_advisory_eval :: "ev_config \<Rightarrow> system_platform \<Rightarrow> bool" where
  "use_template_advisory_eval cf system \<longleftrightarrow> cf_template_eval cf \<and> sp_template_id (pl_patch system) \<noteq> None
     \<and> \<not> si_satellite_managed (pl_inventory system)"

definition load_template_advisory_errata :: "faults \<Rightarrow> template_advisory list \<Rightarrow> int \<Rightarrow> int
    \<Rightarrow> eval_error + string list" where
  "load_template_advisory_errata faults rows account template_id =
     (if faults TemplateErrata then Inl (DbError TemplateErrata)
      else Inr (map (\<lambda>ta. am_name (ta_advisory ta))
        (filter (\<lambda>ta. ta_template_id ta = template_id \<and> ta_account ta = account) rows)))"

definition template_status :: "string list \<Rightarrow> avail_update \<Rightarrow> avail_update" where
  "template_status errata u =
     (if length (get_erratum u) = 0 then u
      else if get_erratum u \<in> set errata then set_installability INSTALLABLE u
      else set_installability APPLICABLE u)"

definition apply_template_advisory_installability :: "string list \<Rightarrow> updates_response option
    \<Rightarrow> updates_response option" where
  "apply_template_advisory_installability errata vmaas_data =
     (case vmaas_data of
        None \<Rightarrow> None
      | Some r \<Rightarrow> Some (r\<lparr>ur_update_list := map_option (map (\<lambda>(k, updates).
          (k, case updates of None \<Rightarrow> None | Some None \<Rightarrow> Some None
              | Some (Some us) \<Rightarrow> Some (Some (map (template_status errata) us))))) (ur_update_list r)\<rparr>))"

definition get_template_advisory_updates_data :: "ev_config \<Rightarrow> ('q, 'n) fetch_env \<Rightarrow> faults
    \<Rightarrow> template_advisory list \<Rightarrow> system_platform \<Rightarrow> ('q, 'n) fetch_state
    \<Rightarrow> (ev_err + updates_response option) \<times> ('q, 'n) fetch_state" where
  "get_template_advisory_updates_data cf env faults rows system st =
     (let (res, st) = get_vmaas_updates cf env system st
      in (case res of
            Inl e \<Rightarrow>
              (if error_is e ErrVmaasBadRequest then (Inr None, st)
               else (Inl (Wrapped ''getting vmaas updates for template-advisory evaluation'' e), st))
          | Inr None \<Rightarrow> (Inr None, st)
          | Inr (Some d) \<Rightarrow>
              (case load_template_advisory_errata faults rows (si_account (pl_inventory system))
                      (the (sp_template_id (pl_patch system))) of
                 Inl e \<Rightarrow> (Inl (Wrapped ''loading template advisories'' (Leaf (StoreError e))), st)
               | Inr errata \<Rightarrow> (Inr (apply_template_advisory_installability errata (Some d)), st))))"

section \<open>The updates of a system\<close>

text \<open>The loop \<open>(*list[nevra]).SetUpdatesInstallability(APPLICABLE)\<close>: a nil entry panics.\<close>

definition force_applicable :: "updates_response option \<Rightarrow> updates_response option option" where
  "force_applicable r =
     (if None \<in> snd ` set (update_entries r) then None
      else Some (case r of None \<Rightarrow> None
        | Some d \<Rightarrow> Some (d\<lparr>ur_update_list := map_option (map (\<lambda>(k, l).
            (k, set_updates_installability APPLICABLE l))) (ur_update_list d)\<rparr>)))"

definition yum_part :: "ev_config \<Rightarrow> ('q, 'n) fetch_env \<Rightarrow> system_platform \<Rightarrow> updates_response option" where
  "yum_part cf env system =
     (if cf_yum_eval cf
      then (case try_get_yum_updates env (Some system) of Inl _ \<Rightarrow> None | Inr yum \<Rightarrow> yum)
      else None)"

definition get_updates_data :: "ev_config \<Rightarrow> ('q, 'n) fetch_env \<Rightarrow> faults \<Rightarrow> template_advisory list
    \<Rightarrow> system_platform \<Rightarrow> ('q, 'n) fetch_state
    \<Rightarrow> ((ev_err + updates_response option) \<times> ('q, 'n) fetch_state) option" where
  "get_updates_data cf env faults rows system st =
     (if use_template_advisory_eval cf system
      then Some (get_template_advisory_updates_data cf env faults rows system st)
      else
        (let yum = yum_part cf env system;
             (res, st) = get_vmaas_updates cf env system st;
             bad = (case res of Inl e \<Rightarrow> error_is e ErrVmaasBadRequest | Inr _ \<Rightarrow> False);
             data = (case res of Inl _ \<Rightarrow> None | Inr d \<Rightarrow> d)
         in if bad then Some (Inr None, st)
            else if yum = None \<and> isl res
            then Some (Inl (Wrapped (fe_text env (projl res)) (projl res)), st)
            else
              (case (if si_satellite_managed (pl_inventory system) \<or> sp_template_id (pl_patch system) \<noteq> None
                     then force_applicable data else Some data) of
                 None \<Rightarrow> None
               | Some data \<Rightarrow>
                   (case merge_responses (fe_compare env) (fe_fuel env) yum data of
                      None \<Rightarrow> None
                    | Some merged \<Rightarrow>
                        (case (if si_bootc (pl_inventory system) \<and> merged \<noteq> None
                               then force_applicable merged else Some merged) of
                           None \<Rightarrow> None
                         | Some merged \<Rightarrow> Some (Inr merged, st))))))"

end
