(* ===== verification/KafkaEvents.thy ===== *)
theory KafkaEvents
  imports GoErrors Models "HOL-Library.Multiset" "HOL-Library.Monad_Syntax"
begin

text \<open>
  The events the program writes to Kafka (\<open>base/mqueue\<close>): evaluation requests in batches
  (\<open>platform_event.go\<close>), payload tracker events and advisory update events.  The JSON encoder
  and the Kafka writer are third-party code: \<open>enc\<close> gives the encoded value (\<open>None\<close> on an
  error), a \<open>writer\<close> gets a batch of messages and an explicit state of the topic.  A panic is
  an outer \<open>None\<close>.
\<close>

datatype mq_error = SerializeFailed | WriteFailed

record kafka_message =
  km_key :: string
  km_value :: string
  km_headers :: "(string \<times> string) list"

type_synonym 'w writer = "kafka_message list \<Rightarrow> 'w \<Rightarrow> mq_error go_error option \<times> 'w"

text \<open>The topic as a list of messages, and a writer that never fails.\<close>

definition append_writer :: "kafka_message list writer" where
  "append_writer msgs topic = (None, topic @ msgs)"

definition message_from_json :: "('v \<Rightarrow> string option) \<Rightarrow> string \<Rightarrow> 'v \<Rightarrow> (string \<times> string) list
    \<Rightarrow> mq_error + kafka_message" where
  "message_from_json enc k v h =
     (case enc v of None \<Rightarrow> Inl SerializeFailed
      | Some b \<Rightarrow> Inr \<lparr>km_key = k, km_value = b, km_headers = h\<rparr>)"

section \<open>Evaluation requests\<close>

record platform_event =
  pe_id :: uuid
  pe_type :: "string option"
  pe_timestamp :: "timestamp option"
  pe_account :: int
  pe_org :: "string option"
  pe_identity :: "string option"
  pe_url :: "string option"
  pe_systems :: "uuid list option"
  pe_requests :: "string list"
  pe_skip_notifications :: bool

record eval_data =
  ed_inventory :: uuid
  ed_account :: int
  ed_request :: string
  ed_org :: "string option"

definition pe_get_org :: "platform_event \<Rightarrow> string" where
  "pe_get_org event = (case pe_org event of None \<Rightarrow> [] | Some s \<Rightarrow> s)"

definition pe_get_url :: "platform_event \<Rightarrow> string" where
  "pe_get_url event = (case pe_url event of None \<Rightarrow> [] | Some s \<Rightarrow> s)"

definition create_event_message :: "('v \<Rightarrow> string option) \<Rightarrow> 'v \<Rightarrow> mq_error go_error + kafka_message" where
  "create_event_message enc event =
     (case enc event of
        None \<Rightarrow> Inl (Wrapped ''Serializing event'' (Leaf SerializeFailed))
      | Some b \<Rightarrow> Inr \<lparr>km_key = [], km_value = b, km_headers = []\<rparr>)"

fun create_messages :: "('v \<Rightarrow> string option) \<Rightarrow> 'v list \<Rightarrow> mq_error go_error + kafka_message list" where
  "create_messages enc [] = Inr []"
| "create_messages enc (ev # evs) =
     (case create_event_message enc ev of
        Inl e \<Rightarrow> Inl e
      | Inr m \<Rightarrow> (case create_messages enc evs of Inl e \<Rightarrow> Inl e | Inr ms \<Rightarrow> Inr (m # ms)))"

definition write_platform_events :: "(platform_event \<Rightarrow> string option) \<Rightarrow> 'w writer \<Rightarrow> platform_event list \<Rightarrow> 'w
    \<Rightarrow> mq_error go_error option \<times> 'w" where
  "write_platform_events enc w events s =
     (case create_messages enc events of Inl e \<Rightarrow> (Some e, s) | Inr msgs \<Rightarrow> w msgs s)"

text \<open>The capacity of the event list.  A division by zero panics.\<close>

fun sum_batches :: "(int \<times> uuid list) list \<Rightarrow> int \<Rightarrow> int \<Rightarrow> int option" where
  "sum_batches [] sz batches = Some batches"
| "sum_batches ((acc, ev) # grouped) sz batches = do {
     n \<leftarrow> go_div (wrap64 (int (length ev) + sz - 1)) sz;
     sum_batches grouped sz (wrap64 (batches + n)) }"

definition batch_count :: "int \<Rightarrow> (int \<times> uuid list) list \<Rightarrow> int \<Rightarrow> int option" where
  "batch_count default_size grouped sz = sum_batches grouped (if sz \<le> 0 then default_size else sz) 0"

definition gm_list :: "(int, 'v list) gomap \<Rightarrow> int \<Rightarrow> 'v list" where
  "gm_list m k = (case gm_get m k of None \<Rightarrow> [] | Some vs \<Rightarrow> vs)"

fun group_evals :: "eval_data list \<Rightarrow> (int, uuid list) gomap \<Rightarrow> (int, string list) gomap
    \<Rightarrow> (int, string option) gomap
    \<Rightarrow> (int, uuid list) gomap \<times> (int, string list) gomap \<times> (int, string option) gomap" where
  "group_evals [] invs reqs orgs = (invs, reqs, orgs)"
| "group_evals (e # es) invs reqs orgs =
     group_evals es
       (gm_put (ed_account e) (gm_list invs (ed_account e) @ [ed_inventory e]) invs)
       (gm_put (ed_account e) (gm_list reqs (ed_account e) @ [ed_request e]) reqs)
       (if gm_has orgs (ed_account e) then orgs else gm_put (ed_account e) (ed_org e) orgs)"

definition get_account_eval_data :: "int \<Rightarrow> eval_data list \<Rightarrow> int
    \<Rightarrow> (int \<times> (int, uuid list) gomap \<times> (int, string list) gomap \<times> (int, string option) gomap) option" where
  "get_account_eval_data default_size evals sz = do {
     let (invs, reqs, orgs) = group_evals evals [] [] [];
     n \<leftarrow> batch_count default_size invs sz;
     Some (n, invs, reqs, orgs) }"

text \<open>\<open>xs[start:end]\<close>; out of range it panics.\<close>

definition go_slice :: "'a list \<Rightarrow> int \<Rightarrow> int \<Rightarrow> 'a list option" where
  "go_slice xs a b = (if 0 \<le> a \<and> a \<le> b \<and> b \<le> int (length xs)
     then Some (take (nat (b - a)) (drop (nat a) xs)) else None)"

definition batch_event :: "timestamp \<Rightarrow> int \<Rightarrow> uuid list \<Rightarrow> string list \<Rightarrow> string option \<Rightarrow> bool \<Rightarrow> platform_event" where
  "batch_event now acc systems requests org skip =
     \<lparr>pe_id = nil_uuid, pe_type = None, pe_timestamp = Some now, pe_account = acc, pe_org = org,
      pe_identity = None, pe_url = None, pe_systems = Some systems, pe_requests = requests,
      pe_skip_notifications = skip\<rparr>"

text \<open>The inner loop.  \<open>end \<le> start\<close> is only possible with a size that is not positive: a negative
  one makes the slice panic, and on 0 the division above already has.\<close>

function batch_loop :: "timestamp \<Rightarrow> bool \<Rightarrow> int \<Rightarrow> int \<Rightarrow> uuid list \<Rightarrow> string list \<Rightarrow> string option \<Rightarrow> int
    \<Rightarrow> platform_event list option" where
  "batch_loop now skip sz acc invs reqs org start =
     (if start < int (length invs)
      then (let end' = (if start + sz > int (length invs) then int (length invs) else start + sz)
            in if end' \<le> start then None
               else do {
                 systems \<leftarrow> go_slice invs start end';
                 requests \<leftarrow> go_slice reqs start end';
                 rest \<leftarrow> batch_loop now skip sz acc invs reqs org (start + sz);
                 Some (batch_event now acc systems requests org skip # rest) })
      else Some [])"
  by pat_completeness auto
termination
  by (relation "measure (\<lambda>(now, skip, sz, acc, invs, reqs, org, start). nat (int (length invs) - start))")
    (auto simp: Let_def split: if_splits)

declare batch_loop.simps [simp del]

fun account_loop :: "timestamp \<Rightarrow> bool \<Rightarrow> int \<Rightarrow> (int, string list) gomap \<Rightarrow> (int, string option) gomap
    \<Rightarrow> (int \<times> uuid list) list \<Rightarrow> platform_event list option" where
  "account_loop now skip sz reqs orgs [] = Some []"
| "account_loop now skip sz reqs orgs ((acc, invs) # groups) = do {
     evs \<leftarrow> batch_loop now skip sz acc invs (gm_list reqs acc)
              (case gm_get orgs acc of None \<Rightarrow> None | Some org \<Rightarrow> org) 0;
     rest \<leftarrow> account_loop now skip sz reqs orgs groups;
     Some (evs @ rest) }"

text \<open>\<open>shuffle\<close> is the order in which the runtime ranges over the map of accounts.  A negative
  capacity panics.\<close>

definition eval_batches :: "int \<Rightarrow> timestamp \<Rightarrow> ((int \<times> uuid list) list \<Rightarrow> (int \<times> uuid list) list)
    \<Rightarrow> eval_data list \<Rightarrow> int \<Rightarrow> bool \<Rightarrow> platform_event list option" where
  "eval_batches default_size now shuffle evals sz skip = do {
     let sz = (if sz \<le> 0 then default_size else sz);
     (batches, acc_invs, reqs, orgs) \<leftarrow> get_account_eval_data default_size evals sz;
     if batches < 0 then None else account_loop now skip sz reqs orgs (shuffle acc_invs) }"

definition write_eval_events :: "int \<Rightarrow> timestamp \<Rightarrow> ((int \<times> uuid list) list \<Rightarrow> (int \<times> uuid list) list)
    \<Rightarrow> (platform_event \<Rightarrow> string option) \<Rightarrow> 'w writer \<Rightarrow> eval_data list \<Rightarrow> int \<Rightarrow> bool \<Rightarrow> 'w
    \<Rightarrow> (mq_error go_error option \<times> 'w) option" where
  "write_eval_events default_size now shuffle enc w evals sz skip s = do {
     events \<leftarrow> eval_batches default_size now shuffle evals sz skip;
     Some (write_platform_events enc w events s) }"

definition eval_write_events :: "int \<Rightarrow> timestamp \<Rightarrow> ((int \<times> uuid list) list \<Rightarrow> (int \<times> uuid list) list)
    \<Rightarrow> (platform_event \<Rightarrow> string option) \<Rightarrow> 'w writer \<Rightarrow> eval_data list \<Rightarrow> 'w
    \<Rightarrow> (mq_error go_error option \<times> 'w) option" where
  "eval_write_events default_size now shuffle enc w evals s =
     write_eval_events default_size now shuffle enc w evals default_size False s"

definition eval_write_events_skip :: "int \<Rightarrow> timestamp \<Rightarrow> ((int \<times> uuid list) list \<Rightarrow> (int \<times> uuid list) list)
    \<Rightarrow> (platform_event \<Rightarrow> string option) \<Rightarrow> 'w writer \<Rightarrow> eval_data list \<Rightarrow> int \<Rightarrow> 'w
    \<Rightarrow> (mq_error go_error option \<times> 'w) option" where
  "eval_write_events_skip default_size now shuffle enc w evals batch_size s =
     write_eval_events default_size now shuffle enc w evals batch_size True s"

section \<open>Payload tracker\<close>

record tracker_event =
  te_service :: string
  te_org :: "string option"
  te_request :: "string option"
  te_inventory :: uuid
  te_status :: string
  te_status_msg :: string
  te_date :: "timestamp option"

definition write_tracker_message :: "(tracker_event \<Rightarrow> string option) \<Rightarrow> 'w writer \<Rightarrow> tracker_event \<Rightarrow> 'w
    \<Rightarrow> mq_error go_error option \<times> 'w" where
  "write_tracker_message enc w event s =
     (case create_event_message enc event of Inl e \<Rightarrow> (Some e, s) | Inr m \<Rightarrow> w [m] s)"

definition write_tracker_event :: "timestamp \<Rightarrow> (tracker_event \<Rightarrow> string option) \<Rightarrow> 'w writer \<Rightarrow> tracker_event
    \<Rightarrow> 'w \<Rightarrow> mq_error go_error option \<times> 'w" where
  "write_tracker_event now enc w event s =
     (if te_request event \<noteq> None \<and> te_org event \<noteq> None
      then write_tracker_message enc w (event\<lparr>te_service := ''patchman'', te_date := Some now\<rparr>) s
      else (None, s))"

fun tracker_loop :: "timestamp \<Rightarrow> (tracker_event \<Rightarrow> string option) \<Rightarrow> 'w writer \<Rightarrow> tracker_event list
    \<Rightarrow> mq_error go_error option \<Rightarrow> 'w \<Rightarrow> mq_error go_error option \<times> 'w" where
  "tracker_loop now enc w [] err s = (err, s)"
| "tracker_loop now enc w (e # es) err s =
     (let (err, s) = write_tracker_event now enc w e s in tracker_loop now enc w es err s)"

definition write_tracker_events :: "bool \<Rightarrow> timestamp \<Rightarrow> (tracker_event \<Rightarrow> string option) \<Rightarrow> 'w writer
    \<Rightarrow> tracker_event list \<Rightarrow> 'w \<Rightarrow> mq_error go_error option \<times> 'w" where
  "write_tracker_events enabled now enc w events s =
     (if \<not> enabled then (None, s) else tracker_loop now enc w events None s)"

definition write_one_tracker_event :: "bool \<Rightarrow> timestamp \<Rightarrow> (tracker_event \<Rightarrow> string option) \<Rightarrow> 'w writer
    \<Rightarrow> tracker_event \<Rightarrow> 'w \<Rightarrow> mq_error go_error option \<times> 'w" where
  "write_one_tracker_event enabled now enc w event s =
     (if \<not> enabled then (None, s) else write_tracker_event now enc w event s)"

section \<open>Advisory updates\<close>

record advisory_update_event =
  au_account :: int
  au_workspace :: uuid
  au_advisories :: "int list"
  au_produced :: timestamp

definition write_advisory_update_events :: "(advisory_update_event \<Rightarrow> string option) \<Rightarrow> 'w writer
    \<Rightarrow> advisory_update_event list \<Rightarrow> 'w \<Rightarrow> mq_error go_error option \<times> 'w" where
  "write_advisory_update_events enc w events s =
     (case create_messages enc events of Inl e \<Rightarrow> (Some e, s) | Inr msgs \<Rightarrow> w msgs s)"

end
