(* ===== verification/Publishing.thy ===== *)
theory Publishing
  imports UpdatesData Advisories KafkaEvents
begin

text \<open>
  What an evaluation publishes: the notification of \<open>base/notification\<close>, the inventory views event
  of \<open>base/inventory_views\<close>, advisory updates and the remediations state
  (\<open>evaluator/notifications.go\<close>, \<open>inventory_views.go\<close>, \<open>advisory_update.go\<close>, \<open>remediations.go\<close>).
  Publishers that are not configured are \<open>None\<close>.  Some of these steps run statements in the
  transaction of the evaluation: an error there aborts the transaction, and every later
  statement in it fails (\<open>tx\<close>).
\<close>

section \<open>Transactions\<close>

record tx =
  tx_db :: eval_db
  tx_aborted :: bool

definition tx_statement :: "faults \<Rightarrow> db_site \<Rightarrow> tx \<Rightarrow> bool \<times> tx" where
  "tx_statement faults site t =
     (if tx_aborted t \<or> faults site then (False, t\<lparr>tx_aborted := True\<rparr>) else (True, t))"

record template_base =
  tb_id :: int
  tb_account :: int
  tb_uuid :: string
  tb_name :: string

record account_row =
  ac_org :: string
  ac_valid_packages :: bool
  ac_valid_advisories :: bool

record side_db =
  sd_system_repo :: "(int \<times> int \<times> int) list"
  sd_repo :: "(int \<times> bool) list"
  sd_template_advisories :: "template_advisory list"
  sd_templates :: "template_base list"
  sd_advisory_types :: "(int \<times> string) list"
  sd_accounts :: "account_row list"

section \<open>Notifications\<close>

record system_tag =
  tag_key :: string
  tag_namespace :: string
  tag_value :: string

record notif_context =
  nc_inventory :: uuid
  nc_display_name :: string
  nc_host_url :: string
  nc_tags :: "system_tag list"

record notif_advisory =
  na_id :: int
  na_name :: string
  na_type :: string
  na_synopsis :: string

text \<open>The metadata of an event are always empty, so an event is its payload.\<close>

record notification =
  nt_version :: string
  nt_bundle :: string
  nt_application :: string
  nt_event_type :: string
  nt_timestamp :: string
  nt_context :: "notif_context option"
  nt_events :: "notif_advisory list"
  nt_recipients :: "string list"
  nt_org :: string

definition make_account_notification :: "(timestamp \<Rightarrow> string) \<Rightarrow> timestamp \<Rightarrow> string \<Rightarrow> string
    \<Rightarrow> notif_advisory list \<Rightarrow> ev_err + notification" where
  "make_account_notification fmt_time now org event_type events =
     (if org = [] \<or> org = ''null'' then Inl (Leaf InvalidOrg)
      else Inr \<lparr>nt_version = ''v1.1.0'', nt_bundle = ''rhel'', nt_application = ''patch'', nt_event_type = event_type,
             nt_timestamp = fmt_time now, nt_context = None, nt_events = events, nt_recipients = [], nt_org = org\<rparr>)"

definition make_notification :: "(timestamp \<Rightarrow> string) \<Rightarrow> timestamp \<Rightarrow> string \<Rightarrow> system_inventory \<Rightarrow> system_tag list
    \<Rightarrow> string \<Rightarrow> string \<Rightarrow> notif_advisory list \<Rightarrow> ev_err + notification" where
  "make_notification fmt_time now hostname sys_inv tags org event_type events =
     (if org = [] \<or> org = ''null'' then Inl (Leaf InvalidOrg)
      else Inr \<lparr>nt_version = ''v1.1.0'', nt_bundle = ''rhel'', nt_application = ''patch'', nt_event_type = event_type,
             nt_timestamp = fmt_time now,
             nt_context = Some \<lparr>nc_inventory = si_inventory_id sys_inv, nc_display_name = si_display_name sys_inv,
               nc_host_url = ''https://'' @ hostname @ ''/insights/inventory/'' @ si_inventory_id sys_inv,
               nc_tags = tags\<rparr>,
             nt_events = events, nt_recipients = [], nt_org = org\<rparr>)"

section \<open>Inventory views\<close>

record views_data =
  vd_applicable_rhsa :: int
  vd_applicable_rhba :: int
  vd_applicable_rhea :: int
  vd_applicable_other :: int
  vd_installable_rhsa :: int
  vd_installable_rhba :: int
  vd_installable_rhea :: int
  vd_installable_other :: int
  vd_packages_installed :: int
  vd_packages_installable :: int
  vd_packages_applicable :: int
  vd_template_name :: "string option"
  vd_template_uuid :: "string option"

record views_host =
  vh_id :: uuid
  vh_data :: views_data

record views_event =
  ve_org :: string
  ve_timestamp :: string
  ve_hosts :: "views_host list"

fun template_map :: "template_base list \<Rightarrow> (int, template_base) gomap \<Rightarrow> (int, template_base) gomap" where
  "template_map [] m = m"
| "template_map (t # ts) m = template_map ts (gm_put (tb_id t) t m)"

definition find_systems_templates :: "faults \<Rightarrow> side_db \<Rightarrow> system_platform list \<Rightarrow> tx
    \<Rightarrow> (eval_error + (int, template_base) gomap) \<times> tx" where
  "find_systems_templates faults sd systems t =
     (case systems of
        [] \<Rightarrow> (Inr [], t)
      | first # _ \<Rightarrow>
          (let ids = concat (map (\<lambda>s. case sp_template_id (pl_patch s) of None \<Rightarrow> [] | Some i \<Rightarrow> [i]) systems)
           in if length ids = 0 then (Inr [], t)
              else (let (ok, t) = tx_statement faults TemplatesLoad t
                    in if \<not> ok then (Inl (DbError TemplatesLoad), t)
                       else (Inr (template_map (filter (\<lambda>b. tb_account b = si_account (pl_inventory first)
                               \<and> tb_id b \<in> set ids) (sd_templates sd)) []), t))))"

definition make_views_host :: "(int, template_base) gomap \<Rightarrow> system_platform \<Rightarrow> views_host" where
  "make_views_host templates s =
     (let p = pl_patch s;
          template = (case sp_template_id p of None \<Rightarrow> None | Some i \<Rightarrow> gm_get templates i)
      in \<lparr>vh_id = si_inventory_id (pl_inventory s),
          vh_data = \<lparr>vd_applicable_rhsa = sp_applicable_sec p, vd_applicable_rhba = sp_applicable_bug p,
            vd_applicable_rhea = sp_applicable_enh p,
            vd_applicable_other = wrap64 (sp_applicable p - sp_applicable_sec p - sp_applicable_bug p - sp_applicable_enh p),
            vd_installable_rhsa = sp_installable_sec p, vd_installable_rhba = sp_installable_bug p,
            vd_installable_rhea = sp_installable_enh p,
            vd_installable_other = wrap64 (sp_installable p - sp_installable_sec p - sp_installable_bug p
              - sp_installable_enh p),
            vd_packages_installed = sp_packages_installed p, vd_packages_installable = sp_packages_installable p,
            vd_packages_applicable = sp_packages_applicable p,
            vd_template_name = map_option tb_name template, vd_template_uuid = map_option tb_uuid template\<rparr>\<rparr>)"

definition make_views_hosts :: "system_platform list \<Rightarrow> (int, template_base) gomap \<Rightarrow> views_host list" where
  "make_views_hosts systems templates = map (make_views_host templates) systems"

definition make_views_event :: "(timestamp \<Rightarrow> string) \<Rightarrow> timestamp \<Rightarrow> faults \<Rightarrow> side_db \<Rightarrow> string
    \<Rightarrow> system_platform list \<Rightarrow> tx \<Rightarrow> (eval_error + views_event) \<times> tx" where
  "make_views_event fmt_time now faults sd org systems t =
     (case find_systems_templates faults sd systems t of
        (Inl e, t) \<Rightarrow> (Inl e, t)
      | (Inr templates, t) \<Rightarrow>
          (Inr \<lparr>ve_org = org, ve_timestamp = fmt_time now, ve_hosts = make_views_hosts systems templates\<rparr>, t))"

section \<open>Publishers\<close>

record 'w publishers =
  pb_remediations :: "'w writer option"
  pb_notifications :: "'w writer option"
  pb_views :: "'w writer option"
  pb_advisory_update :: "'w writer option"
  pb_tracker :: "'w writer"
  pb_enc_remediations :: "uuid \<times> string list \<Rightarrow> string option"
  pb_enc_notification :: "notification \<Rightarrow> string option"
  pb_enc_views :: "views_event \<Rightarrow> string option"
  pb_enc_advisory_update :: "advisory_update_event \<Rightarrow> string option"
  pb_enc_tracker :: "tracker_event \<Rightarrow> string option"
  pb_parse_tags :: "string \<Rightarrow> system_tag list option"
  pb_hostname :: string
  pb_format_time :: "timestamp \<Rightarrow> string"
  pb_now :: timestamp

definition mq_leaf :: "mq_error \<Rightarrow> ev_error" where
  "mq_leaf e = (case e of SerializeFailed \<Rightarrow> SerializeError | WriteFailed \<Rightarrow> KafkaWriteError)"

definition write_message :: "'w writer \<Rightarrow> kafka_message \<Rightarrow> 'w \<Rightarrow> ev_err option \<times> 'w" where
  "write_message w m s = (let (e, s) = w [m] s in (map_option (map_go_error mq_leaf) e, s))"

definition publish_inventory_views :: "'w publishers \<Rightarrow> faults \<Rightarrow> side_db \<Rightarrow> system_platform list \<Rightarrow> platform_event
    \<Rightarrow> tx \<Rightarrow> 'w \<Rightarrow> ev_err option \<times> tx \<times> 'w" where
  "publish_inventory_views pb faults sd systems origin t out =
     (case pb_views pb of
        None \<Rightarrow> (None, t, out)
      | Some w \<Rightarrow>
          (let org = pe_get_org origin;
               request_id = (case pe_requests origin of r # _ \<Rightarrow> r | [] \<Rightarrow> ''patch-'' @ show_int (pb_now pb))
           in (case make_views_event (pb_format_time pb) (pb_now pb) faults sd org systems t of
                 (Inl e, t) \<Rightarrow> (Some (Wrapped ''creating inventory views event failed'' (Leaf (StoreError e))), t, out)
               | (Inr ev, t) \<Rightarrow>
                   (case message_from_json (pb_enc_views pb) org ev [(''application'', ''patch''), (''request_id'', request_id)] of
                      Inl e \<Rightarrow> (Some (Wrapped ''creating inventory views message failed'' (Leaf SerializeError)), t, out)
                    | Inr m \<Rightarrow>
                        (let (e, out) = write_message w m out
                         in (wrap_error e ''writing message to inventory views publisher failed'', t, out))))))"

text \<open>\<open>getUnnotifiedAdvisories\<close>: the rows of the account not yet notified that some system can
  install, among the advisories of the system, by name.\<close>

definition get_unnotified_advisories :: "faults \<Rightarrow> side_db \<Rightarrow> int \<Rightarrow> system_advisory_map option \<Rightarrow> tx
    \<Rightarrow> (ev_err + notif_advisory list) \<times> tx" where
  "get_unnotified_advisories faults sd account new_advs t =
     (let ids = map (\<lambda>(n, a). sa_advisory_id a) (case new_advs of None \<Rightarrow> [] | Some m \<Rightarrow> m);
          (ok, t) = tx_statement faults UnnotifiedLoad t
      in if \<not> ok then (Inl (Wrapped ''querying unnotified advisories from DB failed''
                             (Leaf (StoreError (DbError UnnotifiedLoad)))), t)
         else (Inr (sort_key na_name (concat (map (\<lambda>((acc, adv), row).
             if acc = account \<and> adv \<in> set ids \<and> aad_notified row = None \<and> aad_installable row > 0
             then (case metadata_by_id (tx_db t) adv of
                     None \<Rightarrow> []
                   | Some am \<Rightarrow>
                       (case map_of (sd_advisory_types sd) (am_type_id am) of
                          None \<Rightarrow> []
                        | Some name \<Rightarrow> [\<lparr>na_id = am_id am, na_name = am_name am, na_type = name,
                                         na_synopsis = am_synopsis am\<rparr>]))
             else []) (t_account_data (tx_db t))))), t))"

definition get_system_tags :: "'w publishers \<Rightarrow> faults \<Rightarrow> system_platform option \<Rightarrow> tx
    \<Rightarrow> (ev_err + system_tag list) \<times> tx" where
  "get_system_tags pb faults system t =
     (case system of
        None \<Rightarrow> (Inr [], t)
      | Some s \<Rightarrow>
          (let (ok, t) = tx_statement faults TagsLoad t
           in if \<not> ok then (Inl (Wrapped ''system tags query failed'' (Leaf (StoreError (DbError TagsLoad)))), t)
              else (let json = (case gm_get (t_inventory (tx_db t)) (si_account (pl_inventory s), si_id (pl_inventory s)) of
                                  None \<Rightarrow> [] | Some i \<Rightarrow> si_tags i)
                    in (case pb_parse_tags pb json of
                          None \<Rightarrow> (Inl (Wrapped ''system tags unmarshal failed'' (Leaf BadJson)), t)
                        | Some tags \<Rightarrow> (Inr tags, t)))))"

definition mark_advisories_notified :: "'w publishers \<Rightarrow> faults \<Rightarrow> int \<Rightarrow> int list \<Rightarrow> tx \<Rightarrow> ev_err option \<times> tx" where
  "mark_advisories_notified pb faults account ids t =
     (if length ids = 0 then (None, t)
      else (let (ok, t) = tx_statement faults MarkNotified t
            in if \<not> ok then (Some (Wrapped ''updating notified column failed'' (Leaf (StoreError (DbError MarkNotified)))), t)
               else (None, t\<lparr>tx_db := (tx_db t)\<lparr>t_account_data := map (\<lambda>((acc, adv), row).
                      ((acc, adv), if acc = account \<and> adv \<in> set ids then row\<lparr>aad_notified := Some (pb_now pb)\<rparr> else row))
                      (t_account_data (tx_db t))\<rparr>\<rparr>)))"

definition publish_new_advisories :: "'w publishers \<Rightarrow> faults \<Rightarrow> side_db \<Rightarrow> system_platform \<Rightarrow> string
    \<Rightarrow> system_advisory_map option \<Rightarrow> bool \<Rightarrow> tx \<Rightarrow> 'w \<Rightarrow> ev_err option \<times> tx \<times> 'w" where
  "publish_new_advisories pb faults sd system org new_advs skip_publish t out =
     (let account = si_account (pl_inventory system) in
      case get_unnotified_advisories faults sd account new_advs t of
        (Inl e, t) \<Rightarrow> (Some (Wrapped ''getting unnotified advisories failed'' e), t, out)
      | (Inr advisories, t) \<Rightarrow>
          (let ids = map na_id advisories in
           if length advisories = 0 then (None, t, out)
           else if skip_publish
           then (let (e, t) = mark_advisories_notified pb faults account ids t in (e, t, out))
           else (case pb_notifications pb of
                   None \<Rightarrow> (None, t, out)
                 | Some w \<Rightarrow>
                     (case get_system_tags pb faults (Some system) t of
                        (Inl e, t) \<Rightarrow> (Some (Wrapped ''getting system tags failed'' e), t, out)
                      | (Inr tags, t) \<Rightarrow>
                          (case make_notification (pb_format_time pb) (pb_now pb) (pb_hostname pb)
                                  (pl_inventory system) tags org ''new-advisory'' advisories of
                             Inl e \<Rightarrow> (Some (Wrapped ''creating notification failed'' e), t, out)
                           | Inr notif \<Rightarrow>
                               (case message_from_json (pb_enc_notification pb)
                                       (get_inventory_id (Some system)) notif [] of
                                  Inl e \<Rightarrow> (Some (Wrapped ''creating message from notification failed''
                                                  (Leaf SerializeError)), t, out)
                                | Inr m \<Rightarrow>
                                    (case write_message w m out of
                                       (Some e, out) \<Rightarrow>
                                         (Some (Wrapped ''writing message to notifications publisher failed'' e), t, out)
                                     | (None, out) \<Rightarrow>
                                         (let (e, t) = mark_advisories_notified pb faults account ids t
                                          in (e, t, out)))))))))"

definition create_advisory_update_event :: "'w publishers \<Rightarrow> system_platform \<Rightarrow> int list \<Rightarrow> advisory_update_event" where
  "create_advisory_update_event pb system ids =
     \<lparr>au_account = si_account (pl_inventory system),
      au_workspace = (case si_workspace_id (pl_inventory system) of None \<Rightarrow> nil_uuid | Some w \<Rightarrow> w),
      au_advisories = ids, au_produced = pb_now pb\<rparr>"

definition publish_advisory_updates :: "'w publishers \<Rightarrow> system_platform \<Rightarrow> ext_advisory_map option \<Rightarrow> 'w
    \<Rightarrow> ev_err option \<times> 'w" where
  "publish_advisory_updates pb system advisories out =
     (let ext = (case advisories of None \<Rightarrow> [] | Some m \<Rightarrow> m) in
      case pb_advisory_update pb of
        None \<Rightarrow> (None, out)
      | Some w \<Rightarrow>
          if length ext = 0 then (None, out)
          else (let ids = get_changed_advisory_ids ext
                in if length ids = 0 then (None, out)
                   else (let (e, out) = write_advisory_update_events (pb_enc_advisory_update pb) w
                               [create_advisory_update_event pb system ids] out
                         in (wrap_error (map_option (map_go_error mq_leaf) e) ''writing advisory update events'', out))))"

definition publish_remediations_state :: "'w publishers \<Rightarrow> system_platform option \<Rightarrow> updates_response option \<Rightarrow> 'w
    \<Rightarrow> ev_err option \<times> 'w" where
  "publish_remediations_state pb system response out =
     (case pb_remediations pb of
        None \<Rightarrow> (None, out)
      | Some w \<Rightarrow>
          (case (response, system) of
             (Some r, Some s) \<Rightarrow>
               (case message_from_json (pb_enc_remediations pb) (get_inventory_id system)
                       (create_remediations_state (get_inventory_id system) response) [] of
                  Inl e \<Rightarrow> (Some (Wrapped ''formatting message'' (Leaf SerializeError)), out)
                | Inr m \<Rightarrow> (let (e, out) = write_message w m out in (wrap_fatal_kafka_error e ''write message'', out)))
           | _ \<Rightarrow> (None, out)))"

end
