(* ===== verification/Evaluate.thy ===== *)
theory Evaluate
  imports Packages Publishing
begin

text \<open>
  The evaluation of a system (\<open>evaluator/evaluate.go\<close>): loading it, getting its updates, storing
  the result in one transaction, publishing, and the handler of evaluation messages.  The
  state holds the caches, the tables, the network and the topics; an outer \<open>None\<close> is a panic
  (or a merge that never returns).  The lazily saved rows are committed on their own; the
  rest of the tables changes only when the transaction commits.
\<close>

record ('i, 's, 'q, 'n, 'w) ev_env =
  ee_config :: ev_config
  ee_cache :: "('i, 's) cache_env"
  ee_fetch :: "('q, 'n) fetch_env"
  ee_pub :: "'w publishers"

record ('i, 's, 'q, 'n, 'w) ev_state =
  es_pkgs :: "('i, 's) pkg_state"
  es_db :: eval_db
  es_side :: side_db
  es_fetch :: "('q, 'n) fetch_state"
  es_out :: 'w

section \<open>Loading the system\<close>

text \<open>\<open>Find\<close> leaves the zero system when there is no row.\<close>

definition load_system_data :: "faults \<Rightarrow> eval_db \<Rightarrow> int \<Rightarrow> uuid \<Rightarrow> eval_error + system_platform" where
  "load_system_data faults db account inventory_id =
     (if faults LoadSystem then Inl (DbError LoadSystem)
      else (case find (\<lambda>((acc, i), si). acc = account \<and> si_inventory_id si = inventory_id
                    \<and> gm_has (t_patch db) (acc, i)) (t_inventory db) of
              None \<Rightarrow> Inr \<lparr>pl_inventory = zero_inventory, pl_patch = zero_patch\<rparr>
            | Some ((acc, i), si) \<Rightarrow> Inr \<lparr>pl_inventory = si, pl_patch = the (gm_get (t_patch db) (acc, i))\<rparr>))"

definition try_get_system :: "ev_config \<Rightarrow> faults \<Rightarrow> eval_db \<Rightarrow> int \<Rightarrow> uuid \<Rightarrow> timestamp option
    \<Rightarrow> ev_err + system_platform option" where
  "try_get_system cf faults db account inventory_id requested =
     (case load_system_data faults db account inventory_id of
        Inl e \<Rightarrow> Inl (the (wrap_fatal_db_error (Some (Leaf (StoreError e))) ''error loading system from DB''))
      | Inr system \<Rightarrow>
          if si_id (pl_inventory system) = 0 then Inr None
          else if si_stale (pl_inventory system) \<and> \<not> cf_stale_eval cf then Inr None
          else (case (requested, sp_last_evaluation (pl_patch system)) of
                  (Some r, Some l) \<Rightarrow> if r < l then Inr None else Inr (Some system)
                | _ \<Rightarrow> Inr (Some system)))"

definition analyze_repos :: "ev_config \<Rightarrow> faults \<Rightarrow> side_db \<Rightarrow> system_platform \<Rightarrow> eval_error + bool" where
  "analyze_repos cf faults sd system =
     (if \<not> cf_repo_analysis cf then Inr False
      else if faults ThirdPartyCount then Inl (DbError ThirdPartyCount)
      else Inr (length (filter (\<lambda>((acc, sys, repo), (i, third)). repo = i \<and> acc = si_account (pl_inventory system)
                  \<and> sys = si_id (pl_inventory system) \<and> third)
                (List.product (sd_system_repo sd) (sd_repo sd))) > 0))"

section \<open>The row of the system\<close>

record adv_counts =
  ct_total :: int
  ct_enh :: int
  ct_bug :: int
  ct_sec :: int

definition zero_counts :: adv_counts where
  "zero_counts = \<lparr>ct_total = 0, ct_enh = 0, ct_bug = 0, ct_sec = 0\<rparr>"

definition increment_type_counts :: "advisory_metadata \<Rightarrow> adv_counts \<Rightarrow> adv_counts" where
  "increment_type_counts am c =
     (if am_type_id am = 1 then c\<lparr>ct_enh := ct_enh c + 1\<rparr>
      else if am_type_id am = 2 then c\<lparr>ct_bug := ct_bug c + 1\<rparr>
      else if am_type_id am = 3 then c\<lparr>ct_sec := ct_sec c + 1\<rparr>
      else c)"

definition count_one :: "system_advisory \<Rightarrow> adv_counts \<Rightarrow> adv_counts" where
  "count_one sa c = (let c = increment_type_counts (sa_advisory sa) c in c\<lparr>ct_total := ct_total c + 1\<rparr>)"

fun count_advisories :: "system_advisory list \<Rightarrow> adv_counts \<Rightarrow> adv_counts \<Rightarrow> adv_counts \<times> adv_counts" where
  "count_advisories [] installable applicable = (installable, applicable)"
| "count_advisories (sa # sas) installable applicable =
     count_advisories sas (if sa_status sa = INSTALLABLE then count_one sa installable else installable)
       (count_one sa applicable)"

definition patched_row :: "ev_config \<Rightarrow> timestamp \<Rightarrow> adv_counts \<Rightarrow> adv_counts \<Rightarrow> pkg_counts \<Rightarrow> system_patch
    \<Rightarrow> system_patch" where
  "patched_row cf now inst appl cnt p =
     (let p = p\<lparr>sp_last_evaluation := Some now\<rparr>;
          p = (if cf_advisory_analysis cf
               then p\<lparr>sp_installable := ct_total inst, sp_installable_enh := ct_enh inst,
                      sp_installable_bug := ct_bug inst, sp_installable_sec := ct_sec inst,
                      sp_applicable := ct_total appl, sp_applicable_enh := ct_enh appl,
                      sp_applicable_bug := ct_bug appl, sp_applicable_sec := ct_sec appl\<rparr> else p)
      in (if cf_package_analysis cf
          then p\<lparr>sp_packages_installed := cnt_installed cnt, sp_packages_installable := cnt_installable cnt,
                 sp_packages_applicable := cnt_applicable cnt\<rparr> else p))"

text \<open>The update of the row also writes \<open>third_party\<close>, which the loaded system already carries.\<close>

definition update_system_platform :: "ev_config \<Rightarrow> timestamp \<Rightarrow> faults \<Rightarrow> eval_db \<Rightarrow> system_platform
    \<Rightarrow> system_advisory_map option \<Rightarrow> pkg_counts \<Rightarrow> ev_error + eval_db \<times> system_platform" where
  "update_system_platform cf now faults db system advisories cnt =
     (if cf_advisory_analysis cf \<and> advisories = None then Inl (StoreError InvalidArgs)
      else
        (let (inst, appl) = count_advisories (map snd (case advisories of None \<Rightarrow> [] | Some m \<Rightarrow> m)) zero_counts zero_counts;
             key = (si_account (pl_inventory system), si_id (pl_inventory system))
         in if faults UpdatePatch then Inl (StoreError (DbError UpdatePatch))
            else Inr ((case gm_get (t_patch db) key of
                         None \<Rightarrow> db
                       | Some row \<Rightarrow>
                           (let row = patched_row cf now inst appl cnt row;
                                row = (if cf_repo_analysis cf
                                       then row\<lparr>sp_third_party := sp_third_party (pl_patch system)\<rparr> else row)
                            in db\<lparr>t_patch := gm_put key row (t_patch db)\<rparr>)),
                      system\<lparr>pl_patch := patched_row cf now inst appl cnt (pl_patch system)\<rparr>)))"

section \<open>Storing\<close>

definition commit_with_observe :: "faults \<Rightarrow> eval_db \<Rightarrow> tx \<Rightarrow> eval_error option \<times> eval_db" where
  "commit_with_observe faults before t =
     (if tx_aborted t \<or> faults CommitTx then (Some (DbError CommitTx), before) else (None, tx_db t))"

text \<open>The statements of the transaction up to the row of the system.\<close>

definition store_statements :: "ev_config \<Rightarrow> timestamp \<Rightarrow> faults \<Rightarrow> eval_db \<Rightarrow> system_platform
    \<Rightarrow> ext_advisory_map option \<Rightarrow> named_package_map \<Rightarrow> pkg_counts
    \<Rightarrow> ev_err + eval_db \<times> system_platform \<times> system_advisory_map option" where
  "store_statements cf now faults db system advisories packages cnt =
     (case store_advisory_data (cf_advisory_analysis cf) faults db system
             (case advisories of None \<Rightarrow> [] | Some m \<Rightarrow> m) of
        Inl e \<Rightarrow> Inl (Wrapped ''Unable to store advisory data'' (Leaf (StoreError e)))
      | Inr (new_rows, db) \<Rightarrow>
          (case update_system_packages (cf_package_analysis cf) faults db system packages of
             Inl e \<Rightarrow> Inl (Wrapped ''Unable to update system packages'' (Leaf (StoreError e)))
           | Inr db \<Rightarrow>
               (case update_system_platform cf now faults db system new_rows cnt of
                  Inl e \<Rightarrow> Inl (Wrapped ''Unable to update system'' (Leaf e))
                | Inr (db, system) \<Rightarrow> Inr (db, system, new_rows))))"

text \<open>The messages of one evaluation; their errors are only logged.\<close>

definition publish_results :: "('i, 's, 'q, 'n, 'w) ev_env \<Rightarrow> faults \<Rightarrow> side_db \<Rightarrow> system_platform
    \<Rightarrow> platform_event \<Rightarrow> ext_advisory_map option \<Rightarrow> system_advisory_map option \<Rightarrow> tx \<Rightarrow> 'w \<Rightarrow> tx \<times> 'w" where
  "publish_results env faults sd system event advisories new_rows t out =
     (let cf = ee_config env; pb = ee_pub env;
          (_, t, out) = (if cf_inventory_views cf
             then publish_inventory_views pb faults sd [system] event t out else (None, t, out));
          (_, t, out) = (if pe_skip_notifications event \<or> cf_instant_notifications cf
             then publish_new_advisories pb faults sd system (pe_get_org event) new_rows
                    (pe_skip_notifications event) t out
             else (None, t, out));
          (_, out) = (if cf_advisory_updates cf
             then publish_advisory_updates pb system advisories out else (None, out))
      in (t, out))"

definition evaluate_and_store :: "('i, 's, 'q, 'n, 'w) ev_env \<Rightarrow> faults \<Rightarrow> system_platform
    \<Rightarrow> updates_response option \<Rightarrow> platform_event \<Rightarrow> ('i, 's, 'q, 'n, 'w) ev_state
    \<Rightarrow> (ev_err option \<times> ('i, 's, 'q, 'n, 'w) ev_state) option" where
  "evaluate_and_store env faults system vmaas_data event st =
     (let cf = ee_config env; pb = ee_pub env; sd = es_side st;
          (adv, db) = lazy_save_and_load_advisories (cf_advisory_analysis cf) faults (es_db st) system vmaas_data;
          st = st\<lparr>es_db := db\<rparr>
      in (case adv of
            Inl e \<Rightarrow> Some (Some (Wrapped ''Advisory loading failed'' (Leaf (StoreError e))), st)
          | Inr advisories \<Rightarrow>
              (case lazy_save_and_load_packages (cf_package_analysis cf) (cf_lazy_save cf) (ee_cache env) faults
                      (es_db st) system vmaas_data (es_pkgs st) of
                 None \<Rightarrow> None
               | Some (Inl e, ps) \<Rightarrow>
                   Some (Some (Wrapped ''Package loading failed'' (Leaf (StoreError e))), st\<lparr>es_pkgs := ps\<rparr>)
               | Some (Inr (packages, cnt), ps) \<Rightarrow>
                   (let st = st\<lparr>es_pkgs := ps\<rparr> in
                    case store_statements cf (pb_now pb) faults (es_db st) system advisories packages cnt of
                      Inl e \<Rightarrow> Some (Some e, st)
                    | Inr (db, system, new_rows) \<Rightarrow>
                        (let (t, out) = publish_results env faults sd system event advisories new_rows
                                \<lparr>tx_db = db, tx_aborted = False\<rparr> (es_out st);
                             st = st\<lparr>es_out := out\<rparr>;
                             (err, db) = commit_with_observe faults (es_db st) t
                         in (case err of
                               Some e \<Rightarrow> Some (wrap_fatal_db_error (Some (Leaf (StoreError e))) ''database commit failed'', st)
                             | None \<Rightarrow> Some (None, st\<lparr>es_db := db\<rparr>)))))))"

definition evaluate_with_vmaas :: "('i, 's, 'q, 'n, 'w) ev_env \<Rightarrow> faults \<Rightarrow> updates_response option
    \<Rightarrow> system_platform \<Rightarrow> platform_event \<Rightarrow> ('i, 's, 'q, 'n, 'w) ev_state
    \<Rightarrow> ((ev_err + updates_response option) \<times> ('i, 's, 'q, 'n, 'w) ev_state) option" where
  "evaluate_with_vmaas env faults updates_data system event st =
     (case evaluate_and_store env faults system updates_data event st of
        None \<Rightarrow> None
      | Some (Some e, st) \<Rightarrow> Some (Inl (Wrapped ''Unable to evaluate and store results'' e), st)
      | Some (None, st) \<Rightarrow> Some (Inr updates_data, st))"

section \<open>Evaluating\<close>

definition evaluate_in_database :: "('i, 's, 'q, 'n, 'w) ev_env \<Rightarrow> faults \<Rightarrow> platform_event \<Rightarrow> uuid
    \<Rightarrow> ('i, 's, 'q, 'n, 'w) ev_state
    \<Rightarrow> ((ev_err + (system_platform \<times> updates_response) option) \<times> ('i, 's, 'q, 'n, 'w) ev_state) option" where
  "evaluate_in_database env faults event inventory_id st =
     (let cf = ee_config env in
      case try_get_system cf faults (es_db st) (pe_account event) inventory_id (pe_timestamp event) of
        Inl e \<Rightarrow> Some (Inl (Wrapped ''unable to get system'' e), st)
      | Inr None \<Rightarrow> Some (Inr None, st)
      | Inr (Some system) \<Rightarrow>
          (case analyze_repos cf faults (es_side st) system of
             Inl e \<Rightarrow> Some (Inl (Wrapped ''repo analysis failed'' (Leaf (StoreError e))), st)
           | Inr third_party \<Rightarrow>
               (let system = system\<lparr>pl_patch := (pl_patch system)\<lparr>sp_third_party := third_party\<rparr>\<rparr> in
                case get_updates_data cf (ee_fetch env) faults (sd_template_advisories (es_side st)) system (es_fetch st) of
                  None \<Rightarrow> None
                | Some (Inl e, fs) \<Rightarrow> Some (Inl (Wrapped ''unable to get updates data'' e), st\<lparr>es_fetch := fs\<rparr>)
                | Some (Inr None, fs) \<Rightarrow> Some (Inr None, st\<lparr>es_fetch := fs\<rparr>)
                | Some (Inr (Some updates), fs) \<Rightarrow>
                    (case evaluate_with_vmaas env faults (Some updates) system event (st\<lparr>es_fetch := fs\<rparr>) of
                       None \<Rightarrow> None
                     | Some (Inl e, st) \<Rightarrow> Some (Inl (Wrapped ''evaluation with vmaas failed'' e), st)
                     | Some (Inr vmaas_data, st) \<Rightarrow>
                         Some (Inr (map_option (\<lambda>r. (system, r)) vmaas_data), st)))))"

definition evaluate :: "('i, 's, 'q, 'n, 'w) ev_env \<Rightarrow> faults \<Rightarrow> platform_event \<Rightarrow> uuid
    \<Rightarrow> ('i, 's, 'q, 'n, 'w) ev_state \<Rightarrow> (ev_err option \<times> ('i, 's, 'q, 'n, 'w) ev_state) option" where
  "evaluate env faults event inventory_id st =
     (if cf_bypass (ee_config env) then Some (None, st)
      else (case evaluate_in_database env faults event inventory_id st of
              None \<Rightarrow> None
            | Some (Inl e, st) \<Rightarrow> Some (Some (Wrapped ''unable to evaluate in database'' e), st)
            | Some (Inr res, st) \<Rightarrow>
                (let (err, out) = publish_remediations_state (ee_pub env) (map_option fst res) (map_option snd res) (es_out st)
                 in Some (wrap_error err ''remediations publish failed'', st\<lparr>es_out := out\<rparr>))))"

text \<open>\<open>runEvaluate\<close> waits for the goroutine it starts, so that it runs one evaluation after the other.\<close>

definition run_evaluate :: "('i, 's, 'q, 'n, 'w) ev_env \<Rightarrow> faults \<Rightarrow> platform_event \<Rightarrow> uuid \<Rightarrow> tracker_event
    \<Rightarrow> ('i, 's, 'q, 'n, 'w) ev_state \<Rightarrow> ((tracker_event \<times> ev_err option) \<times> ('i, 's, 'q, 'n, 'w) ev_state) option" where
  "run_evaluate env faults event inventory_id pt st =
     (case evaluate env faults event inventory_id st of
        None \<Rightarrow> None
      | Some (err, st) \<Rightarrow>
          Some ((if err = None then pt else pt\<lparr>te_status := ''error''\<rparr>, err), st))"

section \<open>The handler\<close>

definition invalidate_caches :: "faults \<Rightarrow> string \<Rightarrow> side_db \<Rightarrow> eval_error option \<times> side_db" where
  "invalidate_caches faults org sd =
     (if faults InvalidateCaches then (Some (DbError InvalidateCaches), sd)
      else (None, sd\<lparr>sd_accounts := map (\<lambda>a.
              if ac_org a = org \<and> (ac_valid_packages a \<or> ac_valid_advisories a)
              then a\<lparr>ac_valid_packages := False, ac_valid_advisories := False\<rparr> else a) (sd_accounts sd)\<rparr>))"

text \<open>The loop over the systems of a bulk message; \<open>ids\<close> and \<open>reqs\<close> are what is left of the two
  lists, \<open>pt\<close> and \<open>err\<close> the variables of the code.\<close>

fun eval_loop :: "('i, 's, 'q, 'n, 'w) ev_env \<Rightarrow> faults \<Rightarrow> platform_event \<Rightarrow> uuid list \<Rightarrow> string list \<Rightarrow> tracker_event
    \<Rightarrow> ev_err option \<Rightarrow> tracker_event list \<Rightarrow> ('i, 's, 'q, 'n, 'w) ev_state
    \<Rightarrow> ((ev_err option \<times> tracker_event list) \<times> ('i, 's, 'q, 'n, 'w) ev_state) option" where
  "eval_loop env faults event [] reqs pt err pts st = Some ((err, pts), st)"
| "eval_loop env faults event (i # ids) reqs pt err pts st =
     (let pt = pt\<lparr>te_inventory := i\<rparr>;
          pt = (case reqs of [] \<Rightarrow> pt | r # _ \<Rightarrow> pt\<lparr>te_request := Some r\<rparr>)
      in (case run_evaluate env faults event i pt st of
            None \<Rightarrow> None
          | Some ((pt, err), st) \<Rightarrow> eval_loop env faults event ids (tl reqs) pt err (pts @ [pt]) st))"

definition evaluate_handler :: "('i, 's, 'q, 'n, 'w) ev_env \<Rightarrow> string \<Rightarrow> (string \<Rightarrow> platform_event option) \<Rightarrow> faults
    \<Rightarrow> kafka_message \<Rightarrow> ('i, 's, 'q, 'n, 'w) ev_state
    \<Rightarrow> (ev_err option \<times> ('i, 's, 'q, 'n, 'w) ev_state) option" where
  "evaluate_handler env eval_label decode faults m st =
     (case decode (km_value m) of
        None \<Rightarrow> Some (None, st)
      | Some event \<Rightarrow>
          (let pt = \<lparr>te_service = [], te_org = pe_org event, te_request = None, te_inventory = nil_uuid,
                     te_status = ''success'', te_status_msg = ''advisories evaluation'', te_date = None\<rparr>;
               run = (case pe_systems event of
                        Some ids \<Rightarrow> eval_loop env faults event ids (pe_requests event) pt None [] st
                      | None \<Rightarrow> (case run_evaluate env faults event (pe_id event) pt st of
                                   None \<Rightarrow> None
                                 | Some ((pt, err), st) \<Rightarrow> Some ((err, [pt]), st)))
           in (case run of
                 None \<Rightarrow> None
               | Some ((err, pts), st) \<Rightarrow>
                   (let (_, sd) = invalidate_caches faults (pe_get_org event) (es_side st);
                        (_, out) = (if eval_label = ''upload''
                            then write_tracker_events (cf_payload_tracker (ee_config env)) (pb_now (ee_pub env))
                                   (pb_enc_tracker (ee_pub env)) (pb_tracker (ee_pub env)) pts (es_out st)
                            else (None, es_out st))
                    in Some (err, st\<lparr>es_side := sd, es_out := out\<rparr>)))))"

end
