(* ===== verification/AdvisoryLaws.thy ===== *)
theory AdvisoryLaws
  imports Advisories "HOL-Library.Multiset"
begin

text \<open>
  The laws of the advisory evaluation: what \<open>getReportedAdvisories\<close> reports, how
  \<open>evaluateChanges\<close> classifies, that the stored rows end up equal to the reported
  statuses, and what reaches \<open>advisory_account_data\<close>.
\<close>

section \<open>Reported advisories\<close>

definition response_updates :: "updates_response option \<Rightarrow> avail_update list" where
  "response_updates r = concat (map (\<lambda>(k, l). get_available_updates l) (update_entries r))"

text \<open>The status an advisory is reported with: installable as soon as one update that
  carries it is, otherwise the status of the last one.\<close>

definition advisory_status :: "avail_update list \<Rightarrow> string \<Rightarrow> int option" where
  "advisory_status us name =
     (let mine = filter (\<lambda>u. get_erratum u = name) us
      in if name = [] \<or> mine = [] then None
         else if INSTALLABLE \<in> up_status ` set mine then Some INSTALLABLE
         else Some (up_status (last mine)))"

lemma report_step_append: "report_step (us @ vs) m = report_step vs (report_step us m)"
  by (induction us arbitrary: m) (auto simp: Let_def)

lemma report_entries_concat:
  "report_entries es m = report_step (concat (map (\<lambda>(k, l). get_available_updates l) es)) m"
  by (induction es m rule: report_entries.induct) (auto simp: report_step_append)

lemma report_step_wf [simp]: "wf_gomap m \<Longrightarrow> wf_gomap (report_step us m)"
  by (induction us arbitrary: m) (auto simp: Let_def)

lemma get_reported_advisories_wf [simp]: "wf_gomap (get_reported_advisories r)"
  by (simp add: get_reported_advisories_def report_entries_concat)

lemma report_step_get:
  "gm_get (report_step us m) name =
     (let mine = filter (\<lambda>u. get_erratum u = name) us
      in if name = [] \<or> mine = [] \<or> gm_get m name = Some INSTALLABLE then gm_get m name
         else if INSTALLABLE \<in> up_status ` set mine then Some INSTALLABLE
         else Some (up_status (last mine)))"
proof (induction us arbitrary: m)
  case Nil
  then show ?case by simp
next
  case (Cons u us)
  show ?case
  proof (cases "get_erratum u = name \<and> name \<noteq> []")
    case True
    then show ?thesis using Cons by (cases "filter (\<lambda>u. get_erratum u = name) us") (auto simp: Let_def gomap)
  next
    case False
    then show ?thesis using Cons by (auto simp: Let_def gomap)
  qed
qed

lemma get_reported_get: "gm_get (get_reported_advisories r) name = advisory_status (response_updates r) name"
  unfolding get_reported_advisories_def report_entries_concat report_step_get
    advisory_status_def response_updates_def by (simp add: Let_def)

text \<open>With the two statuses the program knows, the order of the updates, and so the
  order in which the runtime ranges over the update list, makes no difference.\<close>

definition known_statuses :: "avail_update list \<Rightarrow> bool" where
  "known_statuses us \<longleftrightarrow> (\<forall>u\<in>set us. up_status u = INSTALLABLE \<or> up_status u = APPLICABLE)"

lemma advisory_status_alt:
  assumes "known_statuses us"
  shows "advisory_status us name =
     (let mine = filter (\<lambda>u. get_erratum u = name) us
      in if name = [] \<or> mine = [] then None
         else if INSTALLABLE \<in> up_status ` set mine then Some INSTALLABLE
         else Some APPLICABLE)"
proof -
  have "up_status (last mine) = APPLICABLE"
    if m: "mine = filter (\<lambda>u. get_erratum u = name) us" "mine \<noteq> []" "INSTALLABLE \<notin> up_status ` set mine" for mine
  proof -
    have "last mine \<in> set mine" using m(2) by (rule last_in_set)
    then have "last mine \<in> set us" "up_status (last mine) \<noteq> INSTALLABLE"
      using m(1,3) by (auto intro: rev_image_eqI)
    then show ?thesis using assms by (auto simp: known_statuses_def)
  qed
  then show ?thesis by (simp add: advisory_status_def Let_def)
qed

lemma advisory_status_set:
  assumes "known_statuses us" "known_statuses vs" "set us = set vs"
  shows "advisory_status us name = advisory_status vs name"
proof -
  have S: "set (filter (\<lambda>u. get_erratum u = name) us) = set (filter (\<lambda>u. get_erratum u = name) vs)"
    using assms(3) by simp
  have E: "(filter (\<lambda>u. get_erratum u = name) us = []) = (filter (\<lambda>u. get_erratum u = name) vs = [])"
    using arg_cong [OF S, of "\<lambda>s. s = {}"] by (simp only: set_empty)
  show ?thesis
    unfolding advisory_status_alt [OF assms(1)] advisory_status_alt [OF assms(2)] Let_def S E by (rule refl)
qed

section \<open>Classification of changes\<close>

text \<open>The change of one advisory, from its metadata id, its reported status and its stored row.\<close>

fun change_for :: "int option \<Rightarrow> int option \<Rightarrow> system_advisory option \<Rightarrow> ext_advisory option" where
  "change_for i None None = None"
| "change_for i None (Some row) = Some \<lparr>ea_change = Remove, ea_row = row\<rparr>"
| "change_for i (Some s) (Some row) =
     Some (if s = sa_status row then \<lparr>ea_change = Keep, ea_row = row\<rparr>
           else \<lparr>ea_change = Update, ea_row = row\<lparr>sa_status := s\<rparr>\<rparr>)"
| "change_for None (Some s) None = None"
| "change_for (Some i) (Some s) None =
     Some \<lparr>ea_change = Add, ea_row = (new_row s)\<lparr>sa_advisory_id := i\<rparr>\<rparr>"

lemma eval_reported_missing:
  "snd (eval_reported rs stored ext missing) = missing @ filter (\<lambda>n. \<not> gm_has stored n) (map fst rs)"
  by (induction rs stored ext missing rule: eval_reported.induct) (auto split: option.splits)

lemma eval_reported_wf: "wf_gomap ext \<Longrightarrow> wf_gomap (fst (eval_reported rs stored ext missing))"
  by (induction rs stored ext missing rule: eval_reported.induct) (auto split: option.splits)

lemma eval_reported_get:
  "wf_gomap rs \<Longrightarrow>
   gm_get (fst (eval_reported rs stored ext missing)) n =
     (case gm_get rs n of None \<Rightarrow> gm_get ext n
      | Some s \<Rightarrow> (case gm_get stored n of None \<Rightarrow> Some \<lparr>ea_change = Add, ea_row = new_row s\<rparr>
                  | Some row \<Rightarrow> change_for None (Some s) (Some row)))"
proof (induction rs stored ext missing rule: eval_reported.induct)
  case (2 name status rs stored ext missing)
  have "gm_get rs name = None" using "2.prems" by (simp add: map_of_eq_None_iff)
  then show ?case using 2 by (cases "n = name") (auto simp: gomap split: option.splits)
qed simp

lemma set_missing_ids_fails:
  "(\<exists>n\<in>set names. gm_get ids n = None) \<longleftrightarrow> set_missing_ids ids names ext = Inl NotLazySaved"
  by (induction ids names ext rule: set_missing_ids.induct) (auto split: option.splits)

lemma set_missing_ids_ok:
  assumes "\<forall>n\<in>set names. gm_get ids n \<noteq> None" "distinct names" "\<forall>n\<in>set names. gm_get ext n \<noteq> None"
  obtains ext' where "set_missing_ids ids names ext = Inr ext'"
    "wf_gomap ext \<Longrightarrow> wf_gomap ext'"
    "\<And>n. gm_get ext' n = (if n \<in> set names
        then map_option (\<lambda>e. e\<lparr>ea_row := (ea_row e)\<lparr>sa_advisory_id := the (gm_get ids n)\<rparr>\<rparr>) (gm_get ext n)
        else gm_get ext n)"
  using assms
proof (induction names arbitrary: ext thesis)
  case Nil
  then show ?case by simp
next
  case (Cons name names)
  obtain i where i: "gm_get ids name = Some i" using Cons.prems by auto
  obtain e where e: "gm_get ext name = Some e" using Cons.prems by auto
  let ?ext = "gm_put name (e\<lparr>ea_row := (ea_row e)\<lparr>sa_advisory_id := i\<rparr>\<rparr>) ext"
  have "\<forall>n\<in>set names. gm_get ?ext n \<noteq> None" using Cons.prems by (auto simp: gomap)
  then obtain ext' where ext': "set_missing_ids ids names ?ext = Inr ext'"
    "wf_gomap ?ext \<Longrightarrow> wf_gomap ext'"
    "\<And>n. gm_get ext' n = (if n \<in> set names
        then map_option (\<lambda>e. e\<lparr>ea_row := (ea_row e)\<lparr>sa_advisory_id := the (gm_get ids n)\<rparr>\<rparr>) (gm_get ?ext n)
        else gm_get ?ext n)"
    using Cons.IH [of ?ext] Cons.prems by auto
  show ?case
  proof (rule Cons.prems(1))
    show "set_missing_ids ids (name # names) ext = Inr ext'" using i e ext' by simp
    show "wf_gomap ext'" if "wf_gomap ext" using ext'(2) that by simp
    show "gm_get ext' n = (if n \<in> set (name # names)
        then map_option (\<lambda>e. e\<lparr>ea_row := (ea_row e)\<lparr>sa_advisory_id := the (gm_get ids n)\<rparr>\<rparr>) (gm_get ext n)
        else gm_get ext n)" for n
      using Cons.prems(3) i e ext'(3) [of n] by (auto simp: gomap)
  qed
qed

lemma eval_removed_wf: "wf_gomap ext \<Longrightarrow> wf_gomap (eval_removed stored reported ext)"
  by (induction stored reported ext rule: eval_removed.induct) auto

lemma eval_removed_get:
  "wf_gomap stored \<Longrightarrow>
   gm_get (eval_removed stored reported ext) n =
     (case gm_get stored n of
        Some row \<Rightarrow> if gm_has reported n then gm_get ext n else Some \<lparr>ea_change = Remove, ea_row = row\<rparr>
      | None \<Rightarrow> gm_get ext n)"
proof (induction stored reported ext rule: eval_removed.induct)
  case (2 name row rs reported ext)
  have "gm_get rs name = None" using "2.prems" by (simp add: map_of_eq_None_iff)
  then show ?case using 2 by (cases "n = name") (auto simp: gomap split: option.splits)
qed simp

lemma ids_of_rows_get:
  "distinct (map am_name as) \<Longrightarrow>
   gm_get (ids_of_rows as m) n =
     (case find (\<lambda>a. am_name a = n) as of None \<Rightarrow> gm_get m n | Some a \<Rightarrow> Some (am_id a))"
proof (induction as m rule: ids_of_rows.induct)
  case (2 a as m)
  have "am_name a = n \<Longrightarrow> find (\<lambda>a. am_name a = n) as = None"
    using "2.prems" by (auto simp: find_None_iff image_iff)
  then show ?case using 2 by (auto simp: gomap split: option.splits)
qed simp

lemma ids_of_rows_wf: "wf_gomap m \<Longrightarrow> wf_gomap (ids_of_rows as m)"
  by (induction as m rule: ids_of_rows.induct) auto

lemma find_filter: "(\<And>x. P x \<Longrightarrow> Q x) \<Longrightarrow> find P (filter Q xs) = find P xs"
  by (induction xs) auto

lemma get_advisory_metadata_ids_get:
  assumes "wf_db db" "\<not> faults site"
  obtains ids where "get_advisory_metadata_ids faults site db names = Inr ids"
    "\<And>n. gm_get ids n = (if n \<in> set names then map_option am_id (lookup_metadata db n) else None)"
    "wf_gomap ids"
proof
  show "wf_gomap (ids_of_rows (filter (\<lambda>m. am_name m \<in> set names) (t_metadata db)) [])"
    by (simp add: ids_of_rows_wf)
  let ?ids = "ids_of_rows (filter (\<lambda>m. am_name m \<in> set names) (t_metadata db)) []"
  show "get_advisory_metadata_ids faults site db names = Inr ?ids"
    using assms(2) by (simp add: get_advisory_metadata_ids_def)
  fix n
  have d: "distinct (map am_name (filter (\<lambda>m. am_name m \<in> set names) (t_metadata db)))"
    using assms(1) by (simp add: wf_db_def distinct_map_filter)
  show "gm_get ?ids n = (if n \<in> set names then map_option am_id (lookup_metadata db n) else None)"
  proof (cases "n \<in> set names")
    case True
    then have "find (\<lambda>a. am_name a = n) (filter (\<lambda>m. am_name m \<in> set names) (t_metadata db)) = lookup_metadata db n"
      unfolding lookup_metadata_def by (intro find_filter) auto
    then show ?thesis using True by (simp add: ids_of_rows_get [OF d] split: option.splits)
  next
    case False
    then have "find (\<lambda>a. am_name a = n) (filter (\<lambda>m. am_name m \<in> set names) (t_metadata db)) = None"
      by (auto simp: find_None_iff)
    then show ?thesis using False by (simp add: ids_of_rows_get [OF d])
  qed
qed

definition reported_changes :: "eval_db \<Rightarrow> updates_response option \<Rightarrow> system_advisory_map \<Rightarrow> string \<Rightarrow> ext_advisory option" where
  "reported_changes db r stored n =
     change_for (map_option am_id (lookup_metadata db n)) (advisory_status (response_updates r) n) (gm_get stored n)"

text \<open>The names that make the evaluation fail: reported, not stored for the system and
  without a metadata row.\<close>

definition unsaved_names :: "eval_db \<Rightarrow> updates_response option \<Rightarrow> system_advisory_map \<Rightarrow> string set" where
  "unsaved_names db r stored =
     {n. gm_has (get_reported_advisories r) n \<and> \<not> gm_has stored n \<and> lookup_metadata db n = None}"

lemma evaluate_changes_result:
  assumes "wf_db db" "wf_gomap stored" "\<not> faults ChangedNamesLookup"
  shows "if unsaved_names db r stored \<noteq> {} then evaluate_changes faults db r stored = Inl NotLazySaved
    else (\<exists>ext. evaluate_changes faults db r stored = Inr ext \<and> wf_gomap ext
        \<and> (\<forall>n. gm_get ext n = reported_changes db r stored n))"
proof -
  let ?rep = "get_reported_advisories r"
  let ?new = "filter (\<lambda>n. \<not> gm_has stored n) (map fst ?rep)"
  obtain ext missing where ev: "eval_reported ?rep stored [] [] = (ext, missing)" by fastforce
  have missing: "missing = ?new" using eval_reported_missing [of ?rep stored "[]" "[]"] ev by simp
  have wf: "wf_gomap ext" using eval_reported_wf [of "[]" ?rep stored "[]"] ev by simp
  have get: "gm_get ext n = (case gm_get ?rep n of None \<Rightarrow> None
      | Some s \<Rightarrow> (case gm_get stored n of None \<Rightarrow> Some \<lparr>ea_change = Add, ea_row = new_row s\<rparr>
                  | Some row \<Rightarrow> change_for None (Some s) (Some row)))" for n
    using eval_reported_get [of ?rep stored "[]" "[]" n] ev by (simp split: option.splits)
  obtain ids where ids: "get_advisory_metadata_ids faults ChangedNamesLookup db ?new = Inr ids"
    "\<And>n. gm_get ids n = (if n \<in> set ?new then map_option am_id (lookup_metadata db n) else None)"
    by (rule get_advisory_metadata_ids_get [where names = ?new and faults = faults and site = ChangedNamesLookup, OF assms(1) assms(3)]) blast
  have new: "n \<in> set ?new \<longleftrightarrow> gm_has ?rep n \<and> \<not> gm_has stored n" for n
    unfolding gm_has_mem by force
  have res: "evaluate_changes faults db r stored =
      (case set_missing_ids ids ?new ext of Inl e \<Rightarrow> Inl e | Inr ext' \<Rightarrow> Inr (eval_removed stored ?rep ext'))"
    unfolding evaluate_changes_def Let_def ev prod.case missing load_missing_names_ids_def ids(1) sum.case
    by (rule refl)
  show ?thesis
  proof (cases "unsaved_names db r stored = {}")
    case False
    then obtain n where n: "gm_has ?rep n \<and> \<not> gm_has stored n" "lookup_metadata db n = None"
      unfolding unsaved_names_def by blast
    have "n \<in> set ?new" using n(1) by (rule new [THEN iffD2])
    then have "\<exists>n\<in>set ?new. gm_get ids n = None" using ids(2) [of n] n(2) by (intro bexI [of _ n]) simp_all
    then have "set_missing_ids ids ?new ext = Inl NotLazySaved" by (rule set_missing_ids_fails [THEN iffD1])
    then show ?thesis using False unfolding res by (simp only: sum.case) simp
  next
    case True
    then have un: "lookup_metadata db n \<noteq> None" if "n \<in> set ?new" for n
      using new [THEN iffD1, OF that] unfolding unsaved_names_def Collect_empty_eq by meson
    have known: "\<forall>n\<in>set ?new. gm_get ids n \<noteq> None" using ids(2) un by simp
    have inext: "\<forall>n\<in>set ?new. gm_get ext n \<noteq> None"
      unfolding new Ball_def get by (auto split: option.splits)
    have dist: "distinct ?new" by simp
    obtain ext' where ext': "set_missing_ids ids ?new ext = Inr ext'" "wf_gomap ext'"
      "\<And>n. gm_get ext' n = (if n \<in> set ?new
        then map_option (\<lambda>e. e\<lparr>ea_row := (ea_row e)\<lparr>sa_advisory_id := the (gm_get ids n)\<rparr>\<rparr>) (gm_get ext n)
        else gm_get ext n)"
      by (rule set_missing_ids_ok [OF known dist inext]) (use wf in blast)
    have ch: "gm_get (eval_removed stored ?rep ext') n = reported_changes db r stored n" for n
    proof (cases "n \<in> set ?new")
      case True
      then obtain i where "lookup_metadata db n = Some i" using known ids(2) by auto
      then show ?thesis
        using True new [of n] ids(2) [of n]
        by (auto simp: eval_removed_get [OF assms(2)] ext'(3) get reported_changes_def
            get_reported_get [symmetric])
    next
      case False
      then show ?thesis
        using new [of n]
        by (auto simp: eval_removed_get [OF assms(2)] ext'(3) get reported_changes_def
            get_reported_get [symmetric] split: option.splits)
    qed
    show ?thesis using True res ext'(1,2) ch by (simp add: eval_removed_wf)
  qed
qed

section \<open>The stored rows\<close>

lemma rows_by_name_wf: "wf_gomap m \<Longrightarrow> wf_gomap (rows_by_name rs m)"
  by (induction rs m rule: rows_by_name.induct) auto

lemma rows_by_name_get:
  "distinct (map (\<lambda>r. am_name (sa_advisory r)) rs) \<Longrightarrow>
   gm_get (rows_by_name rs m) n =
     (case find (\<lambda>r. am_name (sa_advisory r) = n) rs of None \<Rightarrow> gm_get m n | Some r \<Rightarrow> Some r)"
proof (induction rs m rule: rows_by_name.induct)
  case (2 r rs m)
  have "am_name (sa_advisory r) = n \<Longrightarrow> find (\<lambda>r. am_name (sa_advisory r) = n) rs = None"
    using "2.prems" by (auto simp: find_None_iff image_iff)
  then show ?case using 2 by (auto simp: gomap split: option.splits)
qed simp

definition system_rows :: "eval_db \<Rightarrow> int \<Rightarrow> int \<Rightarrow> system_advisory list" where
  "system_rows db acc sys =
     map (\<lambda>(k, s). advisory_row db k s) (filter (\<lambda>((a, y, v), s). y = sys \<and> a = acc) (t_system_advisories db))"

lemma system_rows_mem:
  assumes "wf_db db"
  shows "r \<in> set (system_rows db acc sys) \<longleftrightarrow>
    (\<exists>v s m. gm_get (t_system_advisories db) (acc, sys, v) = Some s \<and> metadata_by_id db v = Some m
       \<and> r = \<lparr>sa_account = acc, sa_system = sys, sa_advisory_id = v, sa_advisory = m, sa_status = s\<rparr>)"
    (is "?L \<longleftrightarrow> ?R")
proof -
  have wf: "wf_gomap (t_system_advisories db)" using assms by (simp add: wf_db_def)
  have mem: "?L \<longleftrightarrow> (\<exists>v s. gm_get (t_system_advisories db) (acc, sys, v) = Some s \<and> r = advisory_row db (acc, sys, v) s)"
    unfolding gm_get_mem [OF wf] system_rows_def by (auto simp: image_iff)
  have fk: "\<exists>m. metadata_by_id db v = Some m" if "gm_get (t_system_advisories db) (acc, sys, v) = Some s" for v s
  proof -
    have "(acc, sys, v) \<in> fst ` set (t_system_advisories db)"
      using that by (metis gm_has_mem option.distinct(1))
    then have "v \<in> am_id ` set (t_metadata db)" using assms unfolding wf_db_def by fast
    then show ?thesis using metadata_by_id_Some [OF assms] by blast
  qed
  show ?thesis unfolding mem using fk by (fastforce simp: advisory_row_def)
qed

lemma system_rows_distinct:
  assumes "wf_db db"
  shows "distinct (map (\<lambda>r. am_name (sa_advisory r)) (system_rows db acc sys))"
proof -
  let ?T = "filter (\<lambda>((a, y, v), s). y = sys \<and> a = acc) (t_system_advisories db)"
  have wf: "wf_gomap (t_system_advisories db)" using assms by (simp add: wf_db_def)
  then have "distinct ?T" by (simp add: distinct_map)
  moreover have "inj_on (\<lambda>(k, s). am_name (sa_advisory (advisory_row db k s))) (set ?T)"
  proof (rule inj_onI)
    fix x y
    assume x: "x \<in> set ?T" and y: "y \<in> set ?T"
      and eq: "(\<lambda>(k, s). am_name (sa_advisory (advisory_row db k s))) x
             = (\<lambda>(k, s). am_name (sa_advisory (advisory_row db k s))) y"
    obtain v s v' s' where xy: "x = ((acc, sys, v), s)" "y = ((acc, sys, v'), s')" using x y by auto
    have "v \<in> am_id ` set (t_metadata db)" "v' \<in> am_id ` set (t_metadata db)"
      using x y assms unfolding wf_db_def xy by fastforce+
    then obtain m m' where m: "metadata_by_id db v = Some m" "metadata_by_id db v' = Some m'"
      using metadata_by_id_Some [OF assms] by (metis imageE)
    then have "am_name m = am_name m'" using eq by (simp add: xy advisory_row_def)
    then have "v = v'" using m metadata_by_id_Some [OF assms] metadata_name_inj [OF assms] by metis
    moreover have "s = s'"
    proof -
      have "((acc, sys, v), s) \<in> set (t_system_advisories db)" "((acc, sys, v), s') \<in> set (t_system_advisories db)"
        using x y \<open>v = v'\<close> unfolding xy by simp_all
      then show ?thesis using eq_key_imp_eq_value [OF wf] by metis
    qed
    ultimately show "x = y" by (simp add: xy)
  qed
  ultimately have "distinct (map (\<lambda>(k, s). am_name (sa_advisory (advisory_row db k s))) ?T)"
    by (simp add: distinct_map)
  then show ?thesis by (simp add: system_rows_def comp_def case_prod_unfold)
qed

definition stored_row :: "eval_db \<Rightarrow> int \<Rightarrow> int \<Rightarrow> string \<Rightarrow> system_advisory option" where
  "stored_row db acc sys n =
     (case lookup_metadata db n of None \<Rightarrow> None
      | Some m \<Rightarrow> map_option (\<lambda>s. \<lparr>sa_account = acc, sa_system = sys, sa_advisory_id = am_id m,
                                  sa_advisory = m, sa_status = s\<rparr>)
                   (gm_get (t_system_advisories db) (acc, sys, am_id m)))"

lemma load_system_advisories_get:
  assumes "wf_db db" "\<not> faults site"
  obtains m where "load_system_advisories faults site db acc sys = Inr m" "wf_gomap m"
    "\<And>n. gm_get m n = stored_row db acc sys n"
proof
  let ?m = "rows_by_name (system_rows db acc sys) []"
  show "load_system_advisories faults site db acc sys = Inr ?m"
    using assms(2) by (simp add: load_system_advisories_def system_rows_def)
  show "wf_gomap ?m" by (simp add: rows_by_name_wf)
  fix n
  have some: "gm_get ?m n = Some r \<longleftrightarrow> r \<in> set (system_rows db acc sys) \<and> am_name (sa_advisory r) = n" for r
    using find_Some_iff_unique [OF system_rows_distinct [OF assms(1)], of n acc sys r]
    by (cases "find (\<lambda>r. am_name (sa_advisory r) = n) (system_rows db acc sys)")
      (simp_all add: rows_by_name_get [OF system_rows_distinct [OF assms(1)]])
  have key: "(metadata_by_id db v = Some m \<and> am_name m = n) = (lookup_metadata db n = Some m \<and> am_id m = v)" for v m
    using lookup_metadata_Some [OF assms(1)] metadata_by_id_Some [OF assms(1)] by metis
  have "gm_get ?m n = Some r \<longleftrightarrow> (\<exists>v s m. gm_get (t_system_advisories db) (acc, sys, v) = Some s
      \<and> (metadata_by_id db v = Some m \<and> am_name m = n)
      \<and> r = \<lparr>sa_account = acc, sa_system = sys, sa_advisory_id = v, sa_advisory = m, sa_status = s\<rparr>)" for r
    unfolding some system_rows_mem [OF assms(1)] by auto
  then have "gm_get ?m n = Some r \<longleftrightarrow> stored_row db acc sys n = Some r" for r
    unfolding key stored_row_def by (auto split: option.splits)
  then show "gm_get ?m n = stored_row db acc sys n" by (rule option_eqI)
qed

section \<open>Updating the rows of a system\<close>

text \<open>A change map whose entries are keyed by the advisory they are about.\<close>

definition ids_match :: "eval_db \<Rightarrow> ext_advisory_map \<Rightarrow> bool" where
  "ids_match db ext \<longleftrightarrow> wf_gomap ext \<and>
     (\<forall>n e. gm_get ext n = Some e \<longrightarrow>
        (\<exists>m. lookup_metadata db n = Some m \<and> sa_advisory_id (ea_row e) = am_id m))"

lemma ids_matchD:
  "ids_match db ext \<Longrightarrow> gm_get ext n = Some e \<Longrightarrow>
   \<exists>m. lookup_metadata db n = Some m \<and> sa_advisory_id (ea_row e) = am_id m"
  by (simp add: ids_match_def)

lemma ids_match_name:
  assumes "wf_db db" "ids_match db ext" "gm_get ext n = Some e" "metadata_by_id db (sa_advisory_id (ea_row e)) = Some m"
  shows "am_name m = n"
  using assms lookup_metadata_Some [OF assms(1)] metadata_by_id_Some [OF assms(1)]
    metadata_id_inj [OF assms(1)] unfolding ids_match_def by metis

lemma ids_match_inj:
  assumes "wf_db db" "ids_match db ext"
  shows "inj_on (\<lambda>(n, a). sa_advisory_id (ea_row a)) (set ext)"
proof (rule inj_onI)
  fix x y
  assume xy: "x \<in> set ext" "y \<in> set ext"
    "(\<lambda>(n, a). sa_advisory_id (ea_row a)) x = (\<lambda>(n, a). sa_advisory_id (ea_row a)) y"
  obtain n a n' a' where e: "x = (n, a)" "y = (n', a')" by (cases x, cases y)
  have wf: "wf_gomap ext" using assms(2) by (simp add: ids_match_def)
  have g: "gm_get ext n = Some a" "gm_get ext n' = Some a'" using xy e gm_get_mem [OF wf] by auto
  obtain m where "lookup_metadata db n = Some m" "sa_advisory_id (ea_row a) = am_id m"
    using assms(2) g(1) unfolding ids_match_def by blast
  then have m: "metadata_by_id db (sa_advisory_id (ea_row a)) = Some m"
    using lookup_metadata_Some [OF assms(1)] metadata_by_id_Some [OF assms(1)] by metis
  have "am_name m = n" "am_name m = n'"
    using ids_match_name [OF assms g(1) m] ids_match_name [OF assms g(2)] m xy(3) e by auto
  then show "x = y" using g e by simp
qed

definition written :: "ext_advisory \<Rightarrow> bool" where
  "written a \<longleftrightarrow> ea_change a = Add \<or> ea_change a = Update"

definition written_row :: "system_platform \<Rightarrow> ext_advisory \<Rightarrow> system_advisory" where
  "written_row system a = \<lparr>sa_account = si_account (pl_inventory system), sa_system = si_id (pl_inventory system),
     sa_advisory_id = sa_advisory_id (ea_row a), sa_advisory = sa_advisory (ea_row a),
     sa_status = sa_status (ea_row a)\<rparr>"

lemma process_advisories_eq:
  "process_advisories system ext =
     (map (\<lambda>(n, a). sa_advisory_id (ea_row a)) (filter (\<lambda>(n, a). ea_change a = Remove) ext),
      map (\<lambda>(n, a). written_row system a) (filter (\<lambda>(n, a). written a) ext))"
  by (induction system ext rule: process_advisories.induct)
    (auto simp: written_def written_row_def Let_def split: change.splits)

text \<open>What one entry of the change map does to the row it is about.\<close>

definition row_after :: "int option \<Rightarrow> ext_advisory option \<Rightarrow> int option" where
  "row_after old e =
     (case e of None \<Rightarrow> old
      | Some a \<Rightarrow> (case ea_change a of Remove \<Rightarrow> None | Keep \<Rightarrow> old | NoChange \<Rightarrow> old
                   | _ \<Rightarrow> Some (sa_status (ea_row a))))"

definition entry_of :: "ext_advisory_map \<Rightarrow> int \<Rightarrow> ext_advisory option" where
  "entry_of ext v = map_option snd (find (\<lambda>(n, a). sa_advisory_id (ea_row a) = v) ext)"

lemma entry_of_Some:
  assumes "wf_db db" "ids_match db ext"
  shows "entry_of ext v = Some a \<longleftrightarrow> (\<exists>n. gm_get ext n = Some a \<and> sa_advisory_id (ea_row a) = v)"
proof -
  have wf: "wf_gomap ext" using assms(2) by (simp add: ids_match_def)
  have d: "distinct (map (\<lambda>(n, a). sa_advisory_id (ea_row a)) ext)"
    using wf ids_match_inj [OF assms] by (simp add: distinct_map)
  have eq: "(\<lambda>(n, a). sa_advisory_id (ea_row a) = v) = (\<lambda>x. (\<lambda>(n, a). sa_advisory_id (ea_row a)) x = v)"
    by auto
  have "entry_of ext v = Some a \<longleftrightarrow>
      (\<exists>x. find (\<lambda>x. (\<lambda>(n, a). sa_advisory_id (ea_row a)) x = v) ext = Some x \<and> snd x = a)"
    unfolding entry_of_def eq map_option_eq_Some by (rule refl)
  also have "\<dots> \<longleftrightarrow> (\<exists>n. (n, a) \<in> set ext \<and> sa_advisory_id (ea_row a) = v)"
    unfolding find_Some_iff_unique [OF d] by auto
  finally show ?thesis unfolding gm_get_mem [OF wf] .
qed

lemma distinct_map_triple: "distinct (map (\<lambda>v. (a, b, v)) xs) = distinct xs"
  by (induction xs) auto

lemma written_rows_get:
  fixes system :: system_platform
  assumes "wf_db db" "ids_match db ext"
  defines "rows \<equiv> map (\<lambda>r. ((sa_account r, sa_system r, sa_advisory_id r), sa_status r))
        (map (\<lambda>(n, a). written_row system a) (filter (\<lambda>(n, a). written a) ext))"
  shows "wf_gomap rows"
    and "gm_get rows (acc, sys, v) =
      (if acc = si_account (pl_inventory system) \<and> sys = si_id (pl_inventory system)
       then (case entry_of ext v of None \<Rightarrow> None
             | Some a \<Rightarrow> if written a then Some (sa_status (ea_row a)) else None)
       else None)"
proof -
  have wfe: "wf_gomap ext" using assms(2) by (simp add: ids_match_def)
  have inj: "inj_on (\<lambda>(n, a). sa_advisory_id (ea_row a)) (set (filter (\<lambda>(n, a). written a) ext))"
    using ids_match_inj [OF assms(1,2)] by (rule inj_on_subset) auto
  have "distinct (map (\<lambda>(n, a). sa_advisory_id (ea_row a)) (filter (\<lambda>(n, a). written a) ext))"
    using wfe inj by (simp add: distinct_map)
  moreover have "map fst rows = map (\<lambda>v. (si_account (pl_inventory system), si_id (pl_inventory system), v))
      (map (\<lambda>(n, a). sa_advisory_id (ea_row a)) (filter (\<lambda>(n, a). written a) ext))"
    by (auto simp: rows_def written_row_def)
  ultimately show wf: "wf_gomap rows"
    by (simp only: distinct_map_triple)
  have rows_eq: "rows = map (\<lambda>x. ((si_account (pl_inventory system), si_id (pl_inventory system),
        sa_advisory_id (ea_row (snd x))), sa_status (ea_row (snd x)))) (filter (\<lambda>x. written (snd x)) ext)"
    by (simp add: rows_def written_row_def case_prod_unfold comp_def)
  have "(k, s) \<in> set rows \<longleftrightarrow> (\<exists>n a. (n, a) \<in> set ext \<and> written a
      \<and> k = (si_account (pl_inventory system), si_id (pl_inventory system), sa_advisory_id (ea_row a))
      \<and> s = sa_status (ea_row a))" for k s
    unfolding rows_eq set_map set_filter image_iff by (simp add: split_paired_Ex)
  then have "gm_get rows (acc, sys, v) = Some s \<longleftrightarrow>
      acc = si_account (pl_inventory system) \<and> sys = si_id (pl_inventory system)
      \<and> (\<exists>n a. (n, a) \<in> set ext \<and> written a \<and> sa_advisory_id (ea_row a) = v \<and> s = sa_status (ea_row a))" for s
    unfolding gm_get_mem [OF wf] by (simp only: prod.inject) blast
  then have "gm_get rows (acc, sys, v) = Some s \<longleftrightarrow>
      acc = si_account (pl_inventory system) \<and> sys = si_id (pl_inventory system)
      \<and> (\<exists>a. entry_of ext v = Some a \<and> written a \<and> s = sa_status (ea_row a))" for s
    unfolding entry_of_Some [OF assms(1,2)] gm_get_mem [OF wfe] by auto
  then show "gm_get rows (acc, sys, v) =
      (if acc = si_account (pl_inventory system) \<and> sys = si_id (pl_inventory system)
       then (case entry_of ext v of None \<Rightarrow> None
             | Some a \<Rightarrow> if written a then Some (sa_status (ea_row a)) else None)
       else None)"
    by (cases "gm_get rows (acc, sys, v)"; cases "entry_of ext v") auto
qed

lemma removed_ids:
  assumes "wf_db db" "ids_match db ext"
  shows "v \<in> set (fst (process_advisories system ext)) \<longleftrightarrow>
    (\<exists>a. entry_of ext v = Some a \<and> ea_change a = Remove)"
proof -
  have wf: "wf_gomap ext" using assms(2) by (simp add: ids_match_def)
  show ?thesis
    unfolding process_advisories_eq entry_of_Some [OF assms] gm_get_mem [OF wf] by force
qed

lemma update_system_advisories_get:
  fixes system :: system_platform
  assumes "wf_db db" "ids_match db ext"
    and valid: "valid_system faults db (si_account (pl_inventory system)) (si_id (pl_inventory system))"
    and "\<not> faults DeleteOldAdvisories" "\<not> faults UpsertAdvisories"
  obtains t where "update_system_advisories faults db system ext = Inr (db\<lparr>t_system_advisories := t\<rparr>)"
    "wf_gomap t"
    "\<And>acc sys v. gm_get t (acc, sys, v) =
       (if acc = si_account (pl_inventory system) \<and> sys = si_id (pl_inventory system)
        then row_after (gm_get (t_system_advisories db) (acc, sys, v)) (entry_of ext v)
        else gm_get (t_system_advisories db) (acc, sys, v))"
proof
  let ?acc = "si_account (pl_inventory system)" and ?sys = "si_id (pl_inventory system)"
  let ?objs = "map (\<lambda>(n, a). written_row system a) (filter (\<lambda>(n, a). written a) ext)"
  let ?rows = "map (\<lambda>r. ((sa_account r, sa_system r, sa_advisory_id r), sa_status r)) ?objs"
  let ?del = "map (\<lambda>(n, a). sa_advisory_id (ea_row a)) (filter (\<lambda>(n, a). ea_change a = Remove) ext)"
  let ?old = "delete_keys (\<lambda>(a, y, v). a = ?acc \<and> y = ?sys \<and> v \<in> set ?del) (t_system_advisories db)"
  let ?t = "upsert_all (\<lambda>_ s. s) ?rows ?old"
  have pr: "process_advisories system ext = (?del, ?objs)" by (rule process_advisories_eq)
  have del: "v \<in> set ?del \<longleftrightarrow> (\<exists>a. entry_of ext v = Some a \<and> ea_change a = Remove)" for v
    using removed_ids [OF assms(1,2), of v system] unfolding pr by (simp only: fst_conv)
  have wfr: "wf_gomap ?rows" by (rule written_rows_get(1) [OF assms(1,2)])
  have t0: "delete_old_system_advisories faults db ?acc ?sys ?del = Inr (db\<lparr>t_system_advisories := ?old\<rparr>)"
    using assms(4) by (simp add: delete_old_system_advisories_def)
  have v0: "valid_system faults (db\<lparr>t_system_advisories := ?old\<rparr>) ?acc ?sys"
    using valid by (simp add: valid_system_def)
  have up: "upsert_system_advisories faults (db\<lparr>t_system_advisories := ?old\<rparr>) ?objs = Inr (db\<lparr>t_system_advisories := ?t\<rparr>)"
  proof (cases "?objs = []")
    case True
    then show ?thesis unfolding upsert_system_advisories_def True by simp
  next
    case False
    show ?thesis
      unfolding upsert_system_advisories_def bulk_upsert_def using False wfr assms(5)
      by (simp only: if_False if_True sum.case) simp
  qed
  show "update_system_advisories faults db system ext = Inr (db\<lparr>t_system_advisories := ?t\<rparr>)"
    unfolding update_system_advisories_def pr Let_def prod.case t0 sum.case using v0 up
    by (simp only: not_True_eq_False if_False)
  show "wf_gomap ?t" using assms(1) by (simp add: wf_db_def)
  fix acc sys v
  show "gm_get ?t (acc, sys, v) =
       (if acc = ?acc \<and> sys = ?sys
        then row_after (gm_get (t_system_advisories db) (acc, sys, v)) (entry_of ext v)
        else gm_get (t_system_advisories db) (acc, sys, v))"
  proof (cases "acc = ?acc \<and> sys = ?sys")
    case False
    then show ?thesis
      by (simp only: upsert_all_get [OF wfr] written_rows_get(2) [OF assms(1,2)] delete_keys_get) auto
  next
    case True
    have "gm_get ?old (acc, sys, v) = (if \<exists>a. entry_of ext v = Some a \<and> ea_change a = Remove then None
        else gm_get (t_system_advisories db) (acc, sys, v))"
      using True by (simp only: delete_keys_get prod.case del) simp
    then show ?thesis
      using True unfolding upsert_all_get [OF wfr] written_rows_get(2) [OF assms(1,2)]
      by (auto simp: row_after_def written_def split: option.splits change.splits)
  qed
qed

section \<open>Lazy saving\<close>

lemma reported_nonempty: "gm_get (get_reported_advisories r) n \<noteq> None \<Longrightarrow> n \<noteq> []"
  by (auto simp: get_reported_get advisory_status_def)

lemma get_missing_advisories_get:
  assumes "wf_db db" "\<not> faults MissingNamesLookup"
  obtains ns where "get_missing_advisories faults db (get_reported_advisories r) = Inr ns"
    "set ns = {n. gm_has (get_reported_advisories r) n \<and> lookup_metadata db n = None}"
proof -
  let ?rep = "get_reported_advisories r"
  let ?names = "filter (\<lambda>n. 0 < length n) (map fst ?rep)"
  have names: "set ?names = {n. gm_has ?rep n}"
    using reported_nonempty [of r] unfolding gm_has_mem set_filter set_map by auto
  obtain ids where ids: "get_advisory_metadata_ids faults MissingNamesLookup db ?names = Inr ids" "wf_gomap ids"
    "\<And>n. gm_get ids n = (if n \<in> set ?names then map_option am_id (lookup_metadata db n) else None)"
    by (rule get_advisory_metadata_ids_get [where names = ?names and faults = faults
        and site = MissingNamesLookup, OF assms(1) assms(2)]) blast
  have res: "get_missing_advisories faults db ?rep =
      (if length ?rep = length ids then Inr [] else Inr (filter (\<lambda>n. \<not> gm_has ids n) (map fst ?rep)))"
    unfolding get_missing_advisories_def Let_def ids(1) by simp
  have dom: "gm_has ids n \<longleftrightarrow> gm_has ?rep n \<and> lookup_metadata db n \<noteq> None" for n
    unfolding ids(3) names by auto
  show thesis
  proof (cases "length ?rep = length ids")
    case True
    have sub: "fst ` set ids \<subseteq> fst ` set ?rep" using dom unfolding gm_has_mem by blast
    have "card (fst ` set ids) = card (fst ` set ?rep)"
      using True distinct_card [OF ids(2)] distinct_card [OF get_reported_advisories_wf [of r]] by simp
    then have "fst ` set ids = fst ` set ?rep" using sub by (intro card_subset_eq) auto
    then have "{n. gm_has ?rep n \<and> lookup_metadata db n = None} = {}" using dom unfolding gm_has_mem by (simp del: not_None_eq) blast
    then show thesis using True res by (intro that [of "[]"]) simp_all
  next
    case False
    show thesis
    proof (rule that)
      show "get_missing_advisories faults db ?rep = Inr (filter (\<lambda>n. \<not> gm_has ids n) (map fst ?rep))"
        using False res by simp
      show "set (filter (\<lambda>n. \<not> gm_has ids n) (map fst ?rep)) = {n. gm_has ?rep n \<and> lookup_metadata db n = None}"
        unfolding set_filter set_map using dom unfolding gm_has_mem by blast
    qed
  qed
qed

lemma lazy_save_advisories_result:
  assumes "wf_db db" "\<not> faults MissingNamesLookup" "\<not> faults MissingNamesInsert"
  obtains ms where "lazy_save_advisories faults db r = (None, insert_metadata ms db)"
    "am_name ` set ms = {n. gm_has (get_reported_advisories r) n \<and> lookup_metadata db n = None \<and> length n < 100}"
proof -
  let ?rep = "get_reported_advisories r"
  obtain ns where ns: "get_missing_advisories faults db ?rep = Inr ns"
    "set ns = {n. gm_has ?rep n \<and> lookup_metadata db n = None}"
    by (rule get_missing_advisories_get [where faults = faults, OF assms(1,2)]) blast
  let ?rows = "map missing_advisory_row (filter (\<lambda>n. 0 < length n \<and> length n < 100) ns)"
  have names: "am_name ` set ?rows = {n. gm_has ?rep n \<and> lookup_metadata db n = None \<and> length n < 100}"
  proof -
    have "am_name (missing_advisory_row n) = n" for n by (simp add: missing_advisory_row_def Let_def)
    then have "am_name ` set ?rows = {n \<in> set ns. n \<noteq> [] \<and> length n < 100}" by (force simp: image_iff)
    moreover have "{n \<in> set ns. n \<noteq> [] \<and> length n < 100}
        = {n. gm_has ?rep n \<and> lookup_metadata db n = None \<and> length n < 100}"
      unfolding ns(2) using reported_nonempty [of r] by (intro Collect_cong) (simp del: not_None_eq, metis)
    ultimately show ?thesis by (rule trans)
  qed
  have "lazy_save_advisories faults db r = (None, insert_metadata ?rows db)"
  proof (cases "ns = []")
    case True
    then show ?thesis using ns(1) by (simp add: lazy_save_advisories_def Let_def)
  next
    case False
    then have "?rep \<noteq> []" using ns(2) by (cases ?rep) auto
    then show ?thesis
      using ns(1) False assms(3)
      by (cases "?rows = []") (auto simp: lazy_save_advisories_def store_missing_advisories_def Let_def)
  qed
  then show thesis using names that by blast
qed

lemma stored_row_lookup: "stored_row db acc sys n \<noteq> None \<Longrightarrow> lookup_metadata db n \<noteq> None"
  by (cases "lookup_metadata db n") (simp_all add: stored_row_def)

definition reported_names :: "updates_response option \<Rightarrow> string set" where
  "reported_names r = {n. gm_has (get_reported_advisories r) n}"

lemma lazy_save_and_load_result:
  assumes wf: "wf_db db" and ok: "\<And>s. \<not> faults s"
  obtains ms res where
    "lazy_save_and_load_advisories True faults db system r = (res, insert_metadata ms db)"
    "am_name ` set ms = {n \<in> reported_names r. lookup_metadata db n = None \<and> length n < 100}"
    "if \<exists>n\<in>reported_names r. lookup_metadata db n = None \<and> 100 \<le> length n then res = Inl NotLazySaved
     else (\<exists>ext. res = Inr (Some ext) \<and> wf_gomap ext
       \<and> (\<forall>n. gm_get ext n = change_for (map_option am_id (lookup_metadata (insert_metadata ms db) n))
                (advisory_status (response_updates r) n)
                (stored_row (insert_metadata ms db) (si_account (pl_inventory system)) (si_id (pl_inventory system)) n)))"
proof -
  let ?acc = "si_account (pl_inventory system)" and ?sys = "si_id (pl_inventory system)"
  obtain ms where ms: "lazy_save_advisories faults db r = (None, insert_metadata ms db)"
    "am_name ` set ms = {n \<in> reported_names r. lookup_metadata db n = None \<and> length n < 100}"
    unfolding reported_names_def mem_Collect_eq
    by (rule lazy_save_advisories_result [where faults = faults and db = db and r = r, OF wf ok ok]) blast
  let ?db = "insert_metadata ms db"
  have wf': "wf_db ?db" by (rule insert_metadata_wf [OF wf])
  obtain stored where st: "load_system_advisories faults StoredLoad ?db ?acc ?sys = Inr stored" "wf_gomap stored"
    "\<And>n. gm_get stored n = stored_row ?db ?acc ?sys n"
    by (rule load_system_advisories_get [where faults = faults and site = StoredLoad and acc = ?acc and sys = ?sys,
          OF wf' ok]) blast
  define res where "res = fst (lazy_save_and_load_advisories True faults db system r)"
  have res: "lazy_save_and_load_advisories True faults db system r = (res, ?db)"
    unfolding res_def lazy_save_and_load_advisories_def ms(1) by (simp add: st(1) split: sum.splits)
  have res': "res = (case evaluate_changes faults ?db r stored of Inl e \<Rightarrow> Inl e | Inr merged \<Rightarrow> Inr (Some merged))"
    unfolding res_def lazy_save_and_load_advisories_def ms(1) by (simp add: st(1) split: sum.splits)
  have known: "lookup_metadata ?db n = None \<longleftrightarrow> lookup_metadata db n = None \<and> \<not> (n \<in> reported_names r \<and> length n < 100)" for n
    unfolding lookup_metadata_None insert_metadata_names ms(2) by auto
  have unsaved: "unsaved_names ?db r stored = {n \<in> reported_names r. lookup_metadata db n = None \<and> 100 \<le> length n}"
  proof -
    have "n \<in> unsaved_names ?db r stored \<longleftrightarrow> n \<in> reported_names r \<and> lookup_metadata db n = None \<and> 100 \<le> length n" for n
      using known [of n] stored_row_lookup [of ?db ?acc ?sys n] unfolding unsaved_names_def reported_names_def st(3)
      by (auto simp del: not_None_eq)
    then show ?thesis by auto
  qed
  have ev: "if unsaved_names ?db r stored \<noteq> {} then evaluate_changes faults ?db r stored = Inl NotLazySaved
    else (\<exists>ext. evaluate_changes faults ?db r stored = Inr ext \<and> wf_gomap ext
        \<and> (\<forall>n. gm_get ext n = reported_changes ?db r stored n))"
    by (rule evaluate_changes_result [OF wf' st(2) ok])
  show thesis
  proof (rule that [OF res ms(2)], cases "\<exists>n\<in>reported_names r. lookup_metadata db n = None \<and> 100 \<le> length n")
    case True
    then have "unsaved_names ?db r stored \<noteq> {}" using unsaved by auto
    then have "res = Inl NotLazySaved" using ev unfolding res' by simp
    then show "if \<exists>n\<in>reported_names r. lookup_metadata db n = None \<and> 100 \<le> length n then res = Inl NotLazySaved
     else (\<exists>ext. res = Inr (Some ext) \<and> wf_gomap ext
       \<and> (\<forall>n. gm_get ext n = change_for (map_option am_id (lookup_metadata ?db n))
                (advisory_status (response_updates r) n) (stored_row ?db ?acc ?sys n)))"
      using True by simp
  next
    case False
    then have "unsaved_names ?db r stored = {}" using unsaved by auto
    then show "if \<exists>n\<in>reported_names r. lookup_metadata db n = None \<and> 100 \<le> length n then res = Inl NotLazySaved
     else (\<exists>ext. res = Inr (Some ext) \<and> wf_gomap ext
       \<and> (\<forall>n. gm_get ext n = change_for (map_option am_id (lookup_metadata ?db n))
                (advisory_status (response_updates r) n) (stored_row ?db ?acc ?sys n)))"
      using ev False unfolding res' reported_changes_def st(3) by auto
  qed
qed

section \<open>From the report to the rows\<close>

lemma stored_row_id:
  assumes "stored_row db acc sys n = Some row"
  shows "\<exists>m. lookup_metadata db n = Some m \<and> sa_advisory_id row = am_id m
     \<and> gm_get (t_system_advisories db) (acc, sys, am_id m) = Some (sa_status row)"
  using assms by (cases "lookup_metadata db n") (auto simp: stored_row_def)

lemma changes_ids_match:
  assumes "wf_gomap ext"
    "\<And>n. gm_get ext n = change_for (map_option am_id (lookup_metadata db n)) (st n) (stored_row db acc sys n)"
  shows "ids_match db ext"
  unfolding ids_match_def
proof (intro conjI allI impI)
  show "wf_gomap ext" by (rule assms(1))
  fix n e
  assume "gm_get ext n = Some e"
  then show "\<exists>m. lookup_metadata db n = Some m \<and> sa_advisory_id (ea_row e) = am_id m"
    unfolding assms(2) using stored_row_id [of db acc sys n]
    by (cases "lookup_metadata db n"; cases "st n"; cases "stored_row db acc sys n") (auto split: if_splits)
qed

lemma no_metadata_no_row:
  assumes "wf_db db" "metadata_by_id db v = None"
  shows "gm_get (t_system_advisories db) (acc, sys, v) = None"
proof (rule ccontr)
  assume "gm_get (t_system_advisories db) (acc, sys, v) \<noteq> None"
  then have "(acc, sys, v) \<in> fst ` set (t_system_advisories db)" by (simp only: gm_has_mem)
  then have "v \<in> am_id ` set (t_metadata db)" using assms(1) unfolding wf_db_def by fast
  then obtain m where "m \<in> set (t_metadata db)" "am_id m = v" by auto
  then have "metadata_by_id db v = Some m" using metadata_by_id_Some [OF assms(1)] by simp
  then show False using assms(2) by simp
qed

text \<open>The entry of a change map that is about the advisory with id \<open>v\<close>.\<close>

lemma changes_entry:
  assumes wf: "wf_db db" and wfe: "wf_gomap ext"
    and ext: "\<And>n. gm_get ext n = change_for (map_option am_id (lookup_metadata db n)) (st n) (stored_row db acc sys n)"
  shows "entry_of ext v = (case metadata_by_id db v of None \<Rightarrow> None
    | Some m \<Rightarrow> change_for (Some v) (st (am_name m))
        (map_option (\<lambda>s. \<lparr>sa_account = acc, sa_system = sys, sa_advisory_id = v, sa_advisory = m, sa_status = s\<rparr>)
          (gm_get (t_system_advisories db) (acc, sys, v))))"
proof (cases "metadata_by_id db v")
  case None
  have match: "ids_match db ext" by (rule changes_ids_match [OF wfe ext])
  have "entry_of ext v \<noteq> Some a" for a
  proof
    assume "entry_of ext v = Some a"
    then obtain n where n: "gm_get ext n = Some a" "sa_advisory_id (ea_row a) = v"
      unfolding entry_of_Some [OF wf match] by blast
    then obtain m where "lookup_metadata db n = Some m" "am_id m = v" using ids_matchD [OF match n(1)] n(2) by auto
    then have "metadata_by_id db v = Some m" using lookup_metadata_Some [OF wf] metadata_by_id_Some [OF wf] by simp
    then show False using None by simp
  qed
  then have "entry_of ext v = None" by (metis option.exhaust)
  then show ?thesis using None by simp
next
  case (Some m)
  let ?n = "am_name m"
  have lk: "lookup_metadata db ?n = Some m" and id: "am_id m = v"
    using Some lookup_metadata_Some [OF wf] metadata_by_id_Some [OF wf] by auto
  have match: "ids_match db ext" by (rule changes_ids_match [OF wfe ext])
  have entry: "entry_of ext v = gm_get ext ?n"
  proof (cases "gm_get ext ?n")
    case None
    have "entry_of ext v \<noteq> Some a" for a
      unfolding entry_of_Some [OF wf match] using ids_match_name [OF wf match _] Some None by force
    then show ?thesis using None by (metis option.exhaust)
  next
    case (Some a)
    then have "sa_advisory_id (ea_row a) = v" using ids_matchD [OF match Some] lk id by auto
    then show ?thesis using Some entry_of_Some [OF wf match] by auto
  qed
  show ?thesis unfolding entry ext using lk id Some by (simp add: stored_row_def)
qed

lemma changes_row_after:
  assumes wf: "wf_db db" and wfe: "wf_gomap ext"
    and ext: "\<And>n. gm_get ext n = change_for (map_option am_id (lookup_metadata db n)) (st n) (stored_row db acc sys n)"
  shows "row_after (gm_get (t_system_advisories db) (acc, sys, v)) (entry_of ext v)
     = (case metadata_by_id db v of None \<Rightarrow> None | Some m \<Rightarrow> st (am_name m))"
proof (cases "metadata_by_id db v")
  case None
  then show ?thesis
    using no_metadata_no_row [OF wf None] by (simp add: row_after_def changes_entry [OF wf wfe ext])
next
  case (Some m)
  then show ?thesis
    unfolding changes_entry [OF wf wfe ext]
    by (cases "st (am_name m)"; cases "gm_get (t_system_advisories db) (acc, sys, v)") (auto simp: row_after_def new_row_def)
qed

section \<open>Account caches\<close>

text \<open>The row one change contributes.\<close>

definition aad_of :: "int \<Rightarrow> ext_advisory \<Rightarrow> advisory_account_data option" where
  "aad_of acc a =
     (let v = sa_advisory_id (ea_row a); status = sa_status (ea_row a)
      in case ea_change a of
           Remove \<Rightarrow> Some (aad_row v acc (-1) (if status \<noteq> APPLICABLE then -1 else 0))
         | Add \<Rightarrow> Some (aad_row v acc (if status = INSTALLABLE then 1 else 0) 1)
         | Update \<Rightarrow> Some (aad_row v acc (if status = INSTALLABLE then 1 else 0) 1)
         | _ \<Rightarrow> None)"

lemma aad_changes_get:
  assumes "distinct (map (\<lambda>(n, a). sa_advisory_id (ea_row a)) ext)"
    "\<And>n a. (n, a) \<in> set ext \<Longrightarrow> gm_get m (sa_advisory_id (ea_row a)) = None"
  shows "gm_get (aad_changes acc ext m) v =
    (case Option.bind (entry_of ext v) (aad_of acc) of None \<Rightarrow> gm_get m v | Some r \<Rightarrow> Some r)"
  using assms
proof (induction ext arbitrary: m)
  case Nil
  then show ?case by (simp add: entry_of_def)
next
  case (Cons x as)
  obtain name a where x: "x = (name, a)" by (cases x)
  note prems = Cons.prems [unfolded x]
  let ?id = "sa_advisory_id (ea_row a)"
  define m' where "m' = (case aad_of acc a of None \<Rightarrow> m | Some r \<Rightarrow> gm_put ?id r m)"
  have free: "gm_get m ?id = None" using prems(2) [of name a] by simp
  have step: "aad_changes acc ((name, a) # as) m = aad_changes acc as m'"
    using free by (simp add: m'_def aad_of_def Let_def split: change.splits)
  have notin: "(n, b) \<in> set as \<Longrightarrow> sa_advisory_id (ea_row b) \<noteq> ?id" for n b
    using prems(1) by (force simp: image_iff)
  have m'_other: "v' \<noteq> ?id \<Longrightarrow> gm_get m' v' = gm_get m v'" for v'
    by (simp add: m'_def gomap split: option.splits)
  have hyp: "gm_get (aad_changes acc as m') v =
    (case Option.bind (entry_of as v) (aad_of acc) of None \<Rightarrow> gm_get m' v | Some r \<Rightarrow> Some r)"
  proof -
    have d: "distinct (map (\<lambda>(n, a). sa_advisory_id (ea_row a)) as)" using prems(1) by simp
    have f: "gm_get m' (sa_advisory_id (ea_row b)) = None" if "(n, b) \<in> set as" for n b
      using prems(2) [of n b] that m'_other notin by simp
    show ?thesis using Cons.IH [of m'] d f by blast
  qed
  show ?case
  proof (cases "v = ?id")
    case True
    have "find (\<lambda>(n, a). sa_advisory_id (ea_row a) = v) as = None"
      using notin True by (auto simp: find_None_iff)
    then have "entry_of as v = None" "entry_of ((name, a) # as) v = Some a"
      using True by (simp_all add: entry_of_def)
    then show ?thesis unfolding x step using hyp True free by (simp add: m'_def gomap split: option.splits)
  next
    case False
    then have "entry_of ((name, a) # as) v = entry_of as v" by (auto simp: entry_of_def)
    then show ?thesis unfolding x step using hyp m'_other [OF False] by (simp split: option.splits)
  qed
qed

lemma aad_changes_wf: "wf_gomap m \<Longrightarrow> wf_gomap (aad_changes acc ext m)"
  by (induction acc ext m rule: aad_changes.induct) (auto simp: Let_def split: change.splits)

lemma aad_of_key: "aad_of acc a = Some r \<Longrightarrow> aad_account r = acc \<and> aad_advisory_id r = sa_advisory_id (ea_row a)"
  by (auto simp: aad_of_def aad_row_def Let_def split: change.splits)

lemma distinct_map_sort_key: "distinct (map f (sort_key g xs)) = distinct (map f xs)"
  by (rule mset_eq_imp_distinct_iff) simp

lemma update_account_data_get:
  fixes system :: system_platform
  assumes "wf_db db" "ids_match db ext" "\<not> si_stale (pl_inventory system)" "\<not> faults UpsertAccountData"
  obtains t where "update_advisory_account_data faults db' system ext = Inr (db'\<lparr>t_account_data := t\<rparr>)"
    "\<And>v. gm_get t (si_account (pl_inventory system), v) =
      (case Option.bind (entry_of ext v) (aad_of (si_account (pl_inventory system))) of
         None \<Rightarrow> gm_get (t_account_data db') (si_account (pl_inventory system), v)
       | Some r \<Rightarrow> Some (add_counts (gm_get (t_account_data db') (si_account (pl_inventory system), v)) r))"
proof -
  let ?acc = "si_account (pl_inventory system)"
  let ?m = "aad_changes ?acc ext []"
  let ?cs = "calc_advisory_changes system ext"
  let ?rows = "map (\<lambda>r. ((aad_account r, aad_advisory_id r), r)) ?cs"
  have wf: "wf_gomap ext" using assms(2) by (simp add: ids_match_def)
  have d: "distinct (map (\<lambda>(n, a). sa_advisory_id (ea_row a)) ext)"
    using wf ids_match_inj [OF assms(1,2)] by (simp add: distinct_map)
  have get: "gm_get ?m v = Option.bind (entry_of ext v) (aad_of ?acc)" for v
    by (subst aad_changes_get [OF d]) (simp_all split: option.splits)
  have wfm: "wf_gomap ?m" by (rule aad_changes_wf) simp
  have key: "aad_account r = ?acc \<and> aad_advisory_id r = v" if "(v, r) \<in> set ?m" for v r
  proof -
    have "gm_get ?m v = Some r" using that wfm by simp
    then obtain a where "entry_of ext v = Some a" "aad_of ?acc a = Some r" unfolding get by (auto simp: bind_eq_Some_conv)
    then show ?thesis using aad_of_key [of ?acc a r] entry_of_Some [OF assms(1,2), of v a] by auto
  qed
  have cs: "?cs = sort_key (\<lambda>r. (aad_account r, aad_advisory_id r)) (map snd ?m)"
    using assms(3) by (simp add: calc_advisory_changes_def)
  have cs_mem: "r \<in> set ?cs \<longleftrightarrow> gm_get ?m (aad_advisory_id r) = Some r" for r
  proof -
    have "r \<in> set ?cs \<longleftrightarrow> (\<exists>v. (v, r) \<in> set ?m)" unfolding cs by (force simp: image_iff)
    then show ?thesis unfolding gm_get_mem [OF wfm] using key by metis
  qed
  have "distinct (map (\<lambda>r. (aad_account r, aad_advisory_id r)) (map snd ?m))"
  proof -
    have "map (\<lambda>r. (aad_account r, aad_advisory_id r)) (map snd ?m) = map (Pair ?acc) (map fst ?m)"
      using key by auto
    then show ?thesis using wfm by (simp only: distinct_map) (simp add: inj_on_def)
  qed
  then have "distinct (map (\<lambda>r. (aad_account r, aad_advisory_id r)) ?cs)"
    unfolding cs by (simp only: distinct_map_sort_key)
  then have wfr: "wf_gomap ?rows" by (simp add: comp_def)
  have some: "gm_get ?rows (?acc, v) = Some r \<longleftrightarrow> gm_get ?m v = Some r" for v r
  proof -
    have "gm_get ?rows (?acc, v) = Some r \<longleftrightarrow> r \<in> set ?cs \<and> aad_account r = ?acc \<and> aad_advisory_id r = v"
      unfolding gm_get_mem [OF wfr] by (auto simp: image_iff)
    then show ?thesis
      using cs_mem [of r] key [of v r] key [of "aad_advisory_id r" r] unfolding gm_get_mem [OF wfm] by auto
  qed
  have rows_get: "gm_get ?rows (?acc, v) = Option.bind (entry_of ext v) (aad_of ?acc)" for v
    unfolding get [symmetric] by (rule option_eqI) (rule some)
  show thesis
  proof (rule that)
    let ?t = "upsert_all add_counts ?rows (t_account_data db')"
    show "update_advisory_account_data faults db' system ext = Inr (db'\<lparr>t_account_data := ?t\<rparr>)"
      using assms(4) wfr by (cases "?cs = []") (simp_all add: update_advisory_account_data_def bulk_upsert_def Let_def)
    show "gm_get ?t (?acc, v) = (case Option.bind (entry_of ext v) (aad_of ?acc) of
         None \<Rightarrow> gm_get (t_account_data db') (?acc, v)
       | Some r \<Rightarrow> Some (add_counts (gm_get (t_account_data db') (?acc, v)) r))" for v
      unfolding upsert_all_get [OF wfr] rows_get by (rule refl)
  qed
qed

section \<open>The evaluation of one system\<close>

definition no_faults :: faults where
  "no_faults = (\<lambda>_. False)"

lemma no_faults_ok: "\<not> no_faults s"
  by (simp add: no_faults_def)

lemma update_account_data_frame:
  assumes "wf_db db" "ids_match db ext"
  obtains t where "update_advisory_account_data no_faults db' system ext = Inr (db'\<lparr>t_account_data := t\<rparr>)"
proof (cases "si_stale (pl_inventory system)")
  case True
  then have "update_advisory_account_data no_faults db' system ext = Inr (db'\<lparr>t_account_data := t_account_data db'\<rparr>)"
    by (simp add: update_advisory_account_data_def calc_advisory_changes_def Let_def)
  then show thesis by (rule that)
next
  case False
  show thesis by (rule update_account_data_get [OF assms False no_faults_ok]) (rule that)
qed

lemma metadata_update [simp]:
  "metadata_by_id (db\<lparr>t_system_advisories := t\<rparr>) = metadata_by_id db"
  "metadata_by_id (db\<lparr>t_account_data := t'\<rparr>) = metadata_by_id db"
  "lookup_metadata (db\<lparr>t_system_advisories := t\<rparr>) = lookup_metadata db"
  "lookup_metadata (db\<lparr>t_account_data := t'\<rparr>) = lookup_metadata db"
  "stored_row (db\<lparr>t_account_data := t'\<rparr>) = stored_row db"
  by (simp_all add: metadata_by_id_def lookup_metadata_def fun_eq_iff stored_row_def split: option.splits)

lemma store_advisory_data_result:
  fixes system :: system_platform and st :: "string \<Rightarrow> int option"
  defines "acc \<equiv> si_account (pl_inventory system)" and "sys \<equiv> si_id (pl_inventory system)"
  assumes wf: "wf_db db" and reg: "gm_has (t_inventory db) (acc, sys)" and wfe: "wf_gomap ext"
    and ext: "\<And>n. gm_get ext n = change_for (map_option am_id (lookup_metadata db n)) (st n) (stored_row db acc sys n)"
  obtains rows t t' where
    "store_advisory_data True no_faults db system ext
       = Inr (Some rows, db\<lparr>t_system_advisories := t, t_account_data := t'\<rparr>)"
    "update_advisory_account_data no_faults (db\<lparr>t_system_advisories := t\<rparr>) system ext
       = Inr (db\<lparr>t_system_advisories := t, t_account_data := t'\<rparr>)"
    "wf_db (db\<lparr>t_system_advisories := t\<rparr>)"
    "\<And>n. gm_get rows n = stored_row (db\<lparr>t_system_advisories := t\<rparr>) acc sys n"
    "\<And>a y v. gm_get t (a, y, v) = (if a = acc \<and> y = sys
       then (case metadata_by_id db v of None \<Rightarrow> None | Some m \<Rightarrow> st (am_name m))
       else gm_get (t_system_advisories db) (a, y, v))"
proof -
  have match: "ids_match db ext" by (rule changes_ids_match [OF wfe ext])
  have valid: "valid_system no_faults db (si_account (pl_inventory system)) (si_id (pl_inventory system))"
    using reg by (simp add: valid_system_def no_faults_def acc_def sys_def)
  obtain t where t: "update_system_advisories no_faults db system ext = Inr (db\<lparr>t_system_advisories := t\<rparr>)"
    "wf_gomap t"
    "\<And>a y v. gm_get t (a, y, v) = (if a = acc \<and> y = sys
        then row_after (gm_get (t_system_advisories db) (a, y, v)) (entry_of ext v)
        else gm_get (t_system_advisories db) (a, y, v))"
    unfolding acc_def sys_def
    by (rule update_system_advisories_get [OF wf match valid no_faults_ok no_faults_ok]) blast
  have rows: "gm_get t (a, y, v) = (if a = acc \<and> y = sys
       then (case metadata_by_id db v of None \<Rightarrow> None | Some m \<Rightarrow> st (am_name m))
       else gm_get (t_system_advisories db) (a, y, v))" for a y v
    unfolding t(3) using changes_row_after [OF wf wfe ext] by simp
  let ?db1 = "db\<lparr>t_system_advisories := t\<rparr>"
  have wf1: "wf_db ?db1"
  proof -
    have "v \<in> am_id ` set (t_metadata db)" if "(a, y, v) \<in> fst ` set t" for a y v
    proof -
      have "gm_get t (a, y, v) \<noteq> None" using that by (simp only: gm_has_mem)
      then consider "gm_get (t_system_advisories db) (a, y, v) \<noteq> None" | "metadata_by_id db v \<noteq> None"
        unfolding rows by (cases "a = acc \<and> y = sys"; cases "metadata_by_id db v") auto
      then show ?thesis
      proof cases
        case 1
        then have "(a, y, v) \<in> fst ` set (t_system_advisories db)" by (simp only: gm_has_mem)
        then show ?thesis using wf unfolding wf_db_def by fast
      next
        case 2
        then show ?thesis using metadata_by_id_Some [OF wf] by auto
      qed
    qed
    then have "\<forall>(a, y, v)\<in>fst ` set t. v \<in> am_id ` set (t_metadata db)" by blast
    then show ?thesis using wf t(2) unfolding wf_db_def by simp
  qed
  obtain m where m: "load_system_advisories no_faults ReloadAdvisories ?db1 acc sys = Inr m"
    "\<And>n. gm_get m n = stored_row ?db1 acc sys n"
    by (rule load_system_advisories_get [where faults = no_faults and site = ReloadAdvisories and acc = acc and sys = sys, OF wf1 no_faults_ok]) blast
  obtain t' where t': "update_advisory_account_data no_faults ?db1 system ext = Inr (?db1\<lparr>t_account_data := t'\<rparr>)"
    by (rule update_account_data_frame [where db' = ?db1 and system = system, OF wf match]) blast
  show thesis
  proof (rule that)
    show "store_advisory_data True no_faults db system ext
       = Inr (Some m, db\<lparr>t_system_advisories := t, t_account_data := t'\<rparr>)"
      using m(1) t' unfolding acc_def sys_def by (simp add: store_advisory_data_def t(1))
  qed (use t' wf1 m(2) rows in simp_all)
qed

lemma lazy_save_and_load_no_faults:
  assumes "wf_db db"
  obtains ms res where
    "lazy_save_and_load_advisories True no_faults db system r = (res, insert_metadata ms db)"
    "am_name ` set ms = {n \<in> reported_names r. lookup_metadata db n = None \<and> length n < 100}"
    "if \<exists>n\<in>reported_names r. lookup_metadata db n = None \<and> 100 \<le> length n then res = Inl NotLazySaved
     else (\<exists>ext. res = Inr (Some ext) \<and> wf_gomap ext
       \<and> (\<forall>n. gm_get ext n = change_for (map_option am_id (lookup_metadata (insert_metadata ms db) n))
                (advisory_status (response_updates r) n)
                (stored_row (insert_metadata ms db) (si_account (pl_inventory system)) (si_id (pl_inventory system)) n)))"
  by (rule lazy_save_and_load_result [where faults = no_faults and system = system and r = r,
        OF assms no_faults_ok]) blast

lemma lazy_save_and_load_ext:
  assumes wf: "wf_db db"
    and load: "lazy_save_and_load_advisories True no_faults db system r = (Inr (Some ext), db1)"
  shows "wf_db db1" "wf_gomap ext" "t_system_advisories db1 = t_system_advisories db"
    "t_account_data db1 = t_account_data db" "t_inventory db1 = t_inventory db"
    "\<And>n. gm_get ext n = change_for (map_option am_id (lookup_metadata db1 n)) (advisory_status (response_updates r) n)
       (stored_row db1 (si_account (pl_inventory system)) (si_id (pl_inventory system)) n)"
proof -
  obtain ms res where m: "lazy_save_and_load_advisories True no_faults db system r = (res, insert_metadata ms db)"
    "if \<exists>n\<in>reported_names r. lookup_metadata db n = None \<and> 100 \<le> length n then res = Inl NotLazySaved
     else (\<exists>ext. res = Inr (Some ext) \<and> wf_gomap ext
       \<and> (\<forall>n. gm_get ext n = change_for (map_option am_id (lookup_metadata (insert_metadata ms db) n))
                (advisory_status (response_updates r) n)
                (stored_row (insert_metadata ms db) (si_account (pl_inventory system)) (si_id (pl_inventory system)) n)))"
    by (rule lazy_save_and_load_no_faults [where system = system and r = r, OF wf]) blast
  have eq: "res = Inr (Some ext)" "db1 = insert_metadata ms db" using m(1) load by simp_all
  then have e: "wf_gomap ext \<and> (\<forall>n. gm_get ext n = change_for (map_option am_id (lookup_metadata db1 n))
                (advisory_status (response_updates r) n)
                (stored_row db1 (si_account (pl_inventory system)) (si_id (pl_inventory system)) n))"
  proof (cases "\<exists>n\<in>reported_names r. lookup_metadata db n = None \<and> 100 \<le> length n")
    case True
    then have "res = Inl NotLazySaved" using m(2) by (simp only: if_True)
    then show ?thesis using eq(1) by simp
  next
    case False
    then obtain x where "res = Inr (Some x)" "wf_gomap x \<and> (\<forall>n. gm_get x n
        = change_for (map_option am_id (lookup_metadata (insert_metadata ms db) n))
                (advisory_status (response_updates r) n)
                (stored_row (insert_metadata ms db) (si_account (pl_inventory system)) (si_id (pl_inventory system)) n))"
      using m(2) by (simp only: if_False) blast
    then show ?thesis using eq by simp
  qed
  show "wf_db db1" "t_system_advisories db1 = t_system_advisories db"
    "t_account_data db1 = t_account_data db" "t_inventory db1 = t_inventory db"
    using insert_metadata_wf [OF wf] by (simp_all add: eq(2))
  show "wf_gomap ext" "\<And>n. gm_get ext n = change_for (map_option am_id (lookup_metadata db1 n)) (advisory_status (response_updates r) n)
       (stored_row db1 (si_account (pl_inventory system)) (si_id (pl_inventory system)) n)"
    using e by blast+
qed

section \<open>Properties\<close>

text \<open>\<open>getReportedAdvisories\<close> reports exactly the named errata of the updates; an
  advisory is installable when some update that carries it is, and applicable otherwise,
  whatever the order in which the update map and its lists are visited.\<close>

theorem reported_advisory_status:
  assumes "known_statuses (response_updates r)" "name \<noteq> []"
  shows "gm_get (get_reported_advisories r) name =
    (let mine = {u \<in> set (response_updates r). get_erratum u = name}
     in if mine = {} then None
        else if INSTALLABLE \<in> up_status ` mine then Some INSTALLABLE else Some APPLICABLE)"
proof -
  have "(filter (\<lambda>u. get_erratum u = name) (response_updates r) = [])
      = ({u \<in> set (response_updates r). get_erratum u = name} = {})"
    by (auto simp: filter_empty_conv)
  then show ?thesis
    unfolding get_reported_get advisory_status_alt [OF assms(1)] Let_def using assms(2) by (simp only: set_filter) simp
qed

text \<open>C9.  Lazy saving and the evaluation of changes: every reported name shorter than 100
  characters that has no metadata row gets one; a longer one is never saved and makes the whole
  evaluation fail with "not lazy saved"; otherwise the change map holds, for each name,
  Keep, Update, Add or Remove according to its reported status and the system's stored row.\<close>

theorem lazy_save_and_load_spec:
  assumes "wf_db db"
    and "lazy_save_and_load_advisories True no_faults db system r = (res, db')"
  shows "wf_db db' \<and> t_system_advisories db' = t_system_advisories db
    \<and> am_name ` set (t_metadata db') = am_name ` set (t_metadata db) \<union> {n \<in> reported_names r. length n < 100}
    \<and> (if \<exists>n\<in>reported_names r. lookup_metadata db n = None \<and> 100 \<le> length n then res = Inl NotLazySaved
       else (\<exists>ext. res = Inr (Some ext) \<and> wf_gomap ext
         \<and> (\<forall>n. gm_get ext n = change_for (map_option am_id (lookup_metadata db' n))
                  (advisory_status (response_updates r) n)
                  (stored_row db' (si_account (pl_inventory system)) (si_id (pl_inventory system)) n))))"
proof -
  obtain ms res' where m: "lazy_save_and_load_advisories True no_faults db system r = (res', insert_metadata ms db)"
    "am_name ` set ms = {n \<in> reported_names r. lookup_metadata db n = None \<and> length n < 100}"
    "if \<exists>n\<in>reported_names r. lookup_metadata db n = None \<and> 100 \<le> length n then res' = Inl NotLazySaved
     else (\<exists>ext. res' = Inr (Some ext) \<and> wf_gomap ext
       \<and> (\<forall>n. gm_get ext n = change_for (map_option am_id (lookup_metadata (insert_metadata ms db) n))
                (advisory_status (response_updates r) n)
                (stored_row (insert_metadata ms db) (si_account (pl_inventory system)) (si_id (pl_inventory system)) n)))"
    by (rule lazy_save_and_load_no_faults [where system = system and r = r, OF assms(1)])
  have eq: "res' = res" "insert_metadata ms db = db'" using m(1) assms(2) by simp_all
  have "am_name ` set (t_metadata db') = am_name ` set (t_metadata db) \<union> {n \<in> reported_names r. length n < 100}"
    unfolding eq(2) [symmetric] insert_metadata_names m(2) lookup_metadata_None by auto
  moreover have "wf_db db'" "t_system_advisories db' = t_system_advisories db"
    using insert_metadata_wf [OF assms(1)] by (simp_all add: eq(2) [symmetric])
  ultimately show ?thesis using m(3) unfolding eq by blast
qed

text \<open>C2.  An evaluation brings \<open>system_advisories\<close> to what VMaaS reported: afterwards the rows
  of the system are exactly the reported advisories with their statuses, the rows of every other
  system and the integrity of the tables are untouched, and the rows returned to the caller are
  the stored ones.\<close>

theorem stored_rows_are_reported:
  assumes "wf_db db"
    and "gm_has (t_inventory db) (si_account (pl_inventory system), si_id (pl_inventory system))"
    and "lazy_save_and_load_advisories True no_faults db system r = (Inr (Some ext), db1)"
  shows "\<exists>rows db2. store_advisory_data True no_faults db1 system ext = Inr (Some rows, db2)
    \<and> (\<forall>a y v. gm_get (t_system_advisories db2) (a, y, v) =
        (if a = si_account (pl_inventory system) \<and> y = si_id (pl_inventory system)
         then (case metadata_by_id db2 v of None \<Rightarrow> None
               | Some m \<Rightarrow> advisory_status (response_updates r) (am_name m))
         else gm_get (t_system_advisories db) (a, y, v)))
    \<and> wf_db db2
    \<and> (\<forall>n. gm_get rows n = stored_row db2 (si_account (pl_inventory system)) (si_id (pl_inventory system)) n)"
proof -
  note e = lazy_save_and_load_ext [OF assms(1,3)]
  have reg: "gm_has (t_inventory db1) (si_account (pl_inventory system), si_id (pl_inventory system))"
    using assms(2) e(5) by simp
  obtain rows t t' where res: "store_advisory_data True no_faults db1 system ext
       = Inr (Some rows, db1\<lparr>t_system_advisories := t, t_account_data := t'\<rparr>)"
    and wf: "wf_db (db1\<lparr>t_system_advisories := t\<rparr>)"
    and rows: "\<And>n. gm_get rows n = stored_row (db1\<lparr>t_system_advisories := t\<rparr>)
        (si_account (pl_inventory system)) (si_id (pl_inventory system)) n"
    and get: "\<And>a y v. gm_get t (a, y, v) = (if a = si_account (pl_inventory system) \<and> y = si_id (pl_inventory system)
       then (case metadata_by_id db1 v of None \<Rightarrow> None | Some m \<Rightarrow> advisory_status (response_updates r) (am_name m))
       else gm_get (t_system_advisories db1) (a, y, v))"
    by (rule store_advisory_data_result [OF e(1) reg e(2,6)]) blast
  have "wf_db (db1\<lparr>t_system_advisories := t, t_account_data := t'\<rparr>)" using wf by (simp add: wf_db_def)
  then show ?thesis
    using res rows get e(3)
    by (intro exI [of _ rows] exI [of _ "db1\<lparr>t_system_advisories := t, t_account_data := t'\<rparr>"] conjI) simp_all
qed

text \<open>The two counts of an advisory in an account's cache, and what one row of
  \<open>system_advisories\<close> contributes to them: every row is applicable, a row with status 0 is
  installable too (\<open>refresh_advisory_caches_multi\<close> in the schema recounts them so).\<close>

definition account_counts :: "eval_db \<Rightarrow> int \<Rightarrow> int \<Rightarrow> int \<times> int" where
  "account_counts db acc v =
     (case gm_get (t_account_data db) (acc, v) of None \<Rightarrow> (0, 0)
      | Some r \<Rightarrow> (aad_installable r, aad_applicable r))"

definition row_counts :: "int option \<Rightarrow> int \<times> int" where
  "row_counts s = (if s = Some INSTALLABLE then 1 else 0, if s = None then 0 else 1)"

definition misread :: "int option \<Rightarrow> int option \<Rightarrow> bool" where
  "misread old new \<longleftrightarrow> old = Some APPLICABLE \<and> new = None \<or> old \<noteq> None \<and> new \<noteq> None \<and> old \<noteq> new"

lemma aad_delta:
  assumes "old \<in> {None, Some INSTALLABLE, Some APPLICABLE}" "new \<in> {None, Some INSTALLABLE, Some APPLICABLE}"
    and "e = change_for (Some v) new (map_option (\<lambda>s. \<lparr>sa_account = a, sa_system = y, sa_advisory_id = v,
          sa_advisory = m, sa_status = s\<rparr>) old)"
  shows "((case Option.bind e (aad_of acc) of None \<Rightarrow> 0 | Some r \<Rightarrow> aad_installable r) = fst (row_counts new) - fst (row_counts old)
     \<and> (case Option.bind e (aad_of acc) of None \<Rightarrow> 0 | Some r \<Rightarrow> aad_applicable r) = snd (row_counts new) - snd (row_counts old))
     \<longleftrightarrow> \<not> misread old new"
  using assms
  by (elim insertE emptyE) (simp_all add: aad_of_def aad_row_def row_counts_def misread_def new_row_def)

text \<open>What an evaluation without faults does to the account cache and to the rows of the system.\<close>

lemma evaluation_effect:
  assumes "wf_db db"
    and "gm_has (t_inventory db) (si_account (pl_inventory system), si_id (pl_inventory system))"
    and "\<not> si_stale (pl_inventory system)"
    and "lazy_save_and_load_advisories True no_faults db system r = (Inr (Some ext), db1)"
    and "store_advisory_data True no_faults db1 system ext = Inr (rows, db2)"
  shows "fst (account_counts db2 (si_account (pl_inventory system)) v)
           - fst (account_counts db (si_account (pl_inventory system)) v)
         = (case Option.bind (entry_of ext v) (aad_of (si_account (pl_inventory system))) of
              None \<Rightarrow> 0 | Some r \<Rightarrow> aad_installable r)"
    and "snd (account_counts db2 (si_account (pl_inventory system)) v)
           - snd (account_counts db (si_account (pl_inventory system)) v)
         = (case Option.bind (entry_of ext v) (aad_of (si_account (pl_inventory system))) of
              None \<Rightarrow> 0 | Some r \<Rightarrow> aad_applicable r)"
    and "gm_get (t_system_advisories db2) (si_account (pl_inventory system), si_id (pl_inventory system), v)
         = (case metadata_by_id db1 v of None \<Rightarrow> None
            | Some m \<Rightarrow> advisory_status (response_updates r) (am_name m))"
proof -
  let ?acc = "si_account (pl_inventory system)" and ?sys = "si_id (pl_inventory system)"
  let ?st = "advisory_status (response_updates r)"
  note e = lazy_save_and_load_ext [OF assms(1,4)]
  have reg: "gm_has (t_inventory db1) (?acc, ?sys)" using assms(2) e(5) by simp
  obtain rows' t t' where res: "store_advisory_data True no_faults db1 system ext
       = Inr (Some rows', db1\<lparr>t_system_advisories := t, t_account_data := t'\<rparr>)"
    and up: "update_advisory_account_data no_faults (db1\<lparr>t_system_advisories := t\<rparr>) system ext
       = Inr (db1\<lparr>t_system_advisories := t, t_account_data := t'\<rparr>)"
    and get: "\<And>a y v. gm_get t (a, y, v) = (if a = ?acc \<and> y = ?sys
       then (case metadata_by_id db1 v of None \<Rightarrow> None | Some m \<Rightarrow> ?st (am_name m))
       else gm_get (t_system_advisories db1) (a, y, v))"
    by (rule store_advisory_data_result [OF e(1) reg e(2,6)]) blast
  have db2: "db2 = db1\<lparr>t_system_advisories := t, t_account_data := t'\<rparr>" using res assms(5) by simp
  have match: "ids_match db1 ext" by (rule changes_ids_match [OF e(2,6)])
  obtain t'' where up': "update_advisory_account_data no_faults (db1\<lparr>t_system_advisories := t\<rparr>) system ext
       = Inr (db1\<lparr>t_system_advisories := t\<rparr>\<lparr>t_account_data := t''\<rparr>)"
    and aad: "\<And>v. gm_get t'' (?acc, v) = (case Option.bind (entry_of ext v) (aad_of ?acc) of
         None \<Rightarrow> gm_get (t_account_data (db1\<lparr>t_system_advisories := t\<rparr>)) (?acc, v)
       | Some r \<Rightarrow> Some (add_counts (gm_get (t_account_data (db1\<lparr>t_system_advisories := t\<rparr>)) (?acc, v)) r))"
    by (rule update_account_data_get [where db' = "db1\<lparr>t_system_advisories := t\<rparr>" and faults = no_faults,
          OF e(1) match assms(3) no_faults_ok]) blast
  have "t_account_data (db1\<lparr>t_system_advisories := t\<rparr>\<lparr>t_account_data := t''\<rparr>)
      = t_account_data (db1\<lparr>t_system_advisories := t, t_account_data := t'\<rparr>)"
    using up up' by simp
  then have acct: "t_account_data db2 = t''" by (simp add: db2)
  show "fst (account_counts db2 ?acc v) - fst (account_counts db ?acc v)
        = (case Option.bind (entry_of ext v) (aad_of ?acc) of None \<Rightarrow> 0 | Some r \<Rightarrow> aad_installable r)"
    "snd (account_counts db2 ?acc v) - snd (account_counts db ?acc v)
        = (case Option.bind (entry_of ext v) (aad_of ?acc) of None \<Rightarrow> 0 | Some r \<Rightarrow> aad_applicable r)"
    unfolding account_counts_def acct aad using e(4) by (auto simp: add_counts_def split: option.splits)
  show "gm_get (t_system_advisories db2) (?acc, ?sys, v)
      = (case metadata_by_id db1 v of None \<Rightarrow> None | Some m \<Rightarrow> ?st (am_name m))"
    using get by (simp add: db2)
qed

text \<open>C3.  The account cache after an evaluation: both counts of an advisory move by
  what the system's row gained or lost exactly when the row did not change its status and was not a
  removed applicable-only row.  In the other cases \<open>calcAdvisoryChanges\<close> writes a wrong difference:
  a removed applicable row is taken from the installable count, and a row that changes its status is
  counted a second time.\<close>

theorem account_counts_follow_rows:
  assumes "wf_db db"
    and "gm_has (t_inventory db) (si_account (pl_inventory system), si_id (pl_inventory system))"
    and "\<not> si_stale (pl_inventory system)"
    and "lazy_save_and_load_advisories True no_faults db system r = (Inr (Some ext), db1)"
    and "store_advisory_data True no_faults db1 system ext = Inr (rows, db2)"
    and "known_statuses (response_updates r)"
    and "old = gm_get (t_system_advisories db) (si_account (pl_inventory system), si_id (pl_inventory system), v)"
    and "old \<in> {None, Some INSTALLABLE, Some APPLICABLE}"
    and "new = gm_get (t_system_advisories db2) (si_account (pl_inventory system), si_id (pl_inventory system), v)"
  shows "(fst (account_counts db2 (si_account (pl_inventory system)) v)
            - fst (account_counts db (si_account (pl_inventory system)) v) = fst (row_counts new) - fst (row_counts old)
        \<and> snd (account_counts db2 (si_account (pl_inventory system)) v)
            - snd (account_counts db (si_account (pl_inventory system)) v) = snd (row_counts new) - snd (row_counts old))
       \<longleftrightarrow> \<not> misread old new"
proof -
  let ?acc = "si_account (pl_inventory system)" and ?sys = "si_id (pl_inventory system)"
  let ?st = "advisory_status (response_updates r)"
  let ?c = "Option.bind (entry_of ext v) (aad_of ?acc)"
  note e = lazy_save_and_load_ext [OF assms(1,4)]
  note diff = evaluation_effect(1,2) [OF assms(1-5), of v]
  have old: "gm_get (t_system_advisories db1) (?acc, ?sys, v) = old" using e(3) assms(7) by simp
  have new: "new = (case metadata_by_id db1 v of None \<Rightarrow> None | Some m \<Rightarrow> ?st (am_name m))"
    using assms(9) evaluation_effect(3) [OF assms(1-5), of v] by simp
  have new_known: "new \<in> {None, Some INSTALLABLE, Some APPLICABLE}"
    unfolding new by (auto simp: advisory_status_alt [OF assms(6)] Let_def split: option.splits)
  show ?thesis
    unfolding diff
  proof (cases "metadata_by_id db1 v")
    case None
    then have "old = None" "new = None" "entry_of ext v = None"
      using no_metadata_no_row [OF e(1) None] old new changes_entry [OF e(1,2,6), of v] by simp_all
    then show "((case ?c of None \<Rightarrow> 0 | Some r \<Rightarrow> aad_installable r) = fst (row_counts new) - fst (row_counts old)
        \<and> (case ?c of None \<Rightarrow> 0 | Some r \<Rightarrow> aad_applicable r) = snd (row_counts new) - snd (row_counts old))
       \<longleftrightarrow> \<not> misread old new"
      by (simp add: row_counts_def misread_def)
  next
    case (Some m)
    show "((case ?c of None \<Rightarrow> 0 | Some r \<Rightarrow> aad_installable r) = fst (row_counts new) - fst (row_counts old)
        \<and> (case ?c of None \<Rightarrow> 0 | Some r \<Rightarrow> aad_applicable r) = snd (row_counts new) - snd (row_counts old))
       \<longleftrightarrow> \<not> misread old new"
      by (rule aad_delta [OF assms(8) new_known, where a = ?acc and y = ?sys and m = m and v = v])
        (simp only: changes_entry [OF e(1,2,6)] Some option.case old new)
  qed
qed

section \<open>Witnesses\<close>

definition erratum_update :: "string \<Rightarrow> int \<Rightarrow> avail_update" where
  "erratum_update e s = \<lparr>up_repository = None, up_releasever = None, up_basearch = None, up_erratum = Some e,
     up_package = Some ''foo-0:1-1.x'', up_package_name = None, up_evra = None, up_status = s\<rparr>"

definition errata_response :: "avail_update list \<Rightarrow> updates_response option" where
  "errata_response us = Some \<lparr>ur_update_list = Some [(''foo-0:0-1.x'', Some (Some us))], ur_repository_list = None,
     ur_modules_list = None, ur_releasever = None, ur_basearch = None, ur_last_change = None,
     ur_build_pkgcache = None\<rparr>"

definition sample_system :: system_platform where
  "sample_system = \<lparr>pl_inventory = zero_inventory\<lparr>si_id := 10, si_account := 1\<rparr>, pl_patch = zero_patch\<rparr>"

definition sample_db :: eval_db where
  "sample_db = \<lparr>t_metadata = [zero_advisory\<lparr>am_id := 7, am_name := ''RHSA-1''\<rparr>], t_next_advisory = 8,
     t_system_advisories = [((1, 10, 7), 1), ((1, 11, 7), 0)],
     t_account_data = [((1, 7), aad_row 7 1 1 2)], t_system_packages = [],
     t_inventory = [((1, 10), pl_inventory sample_system)], t_patch = []\<rparr>"

definition sample_report :: "updates_response option" where
  "sample_report = errata_response [erratum_update ''RHBA-2'' 0]"

definition sample_eval :: "(eval_error + ext_advisory_map option) \<times> eval_db" where
  "sample_eval = lazy_save_and_load_advisories True no_faults sample_db sample_system sample_report"

definition sample_changes :: ext_advisory_map where
  "sample_changes = (case sample_eval of (Inr (Some ext), db) \<Rightarrow> ext | _ \<Rightarrow> [])"

definition sample_store :: "eval_error + system_advisory_map option \<times> eval_db" where
  "sample_store = store_advisory_data True no_faults (snd sample_eval) sample_system sample_changes"

definition sample_after :: eval_db where
  "sample_after = (case sample_store of Inl e \<Rightarrow> sample_db | Inr (rows, db) \<Rightarrow> db)"

lemma sample_wf: "wf_db sample_db"
  by (simp add: wf_db_def sample_db_def)

lemma sample_registered:
  "gm_has (t_inventory sample_db) (si_account (pl_inventory sample_system), si_id (pl_inventory sample_system))"
  by (simp add: sample_db_def sample_system_def)

lemma sample_eval_eq:
  "lazy_save_and_load_advisories True no_faults sample_db sample_system sample_report
     = (Inr (Some sample_changes), snd sample_eval)"
  by code_simp

lemma sample_store_eq:
  "store_advisory_data True no_faults (snd sample_eval) sample_system sample_changes
     = Inr (fst (projr sample_store), sample_after)"
  by code_simp

lemma sample_report_known: "known_statuses (response_updates sample_report)"
  by code_simp

theorem reported_advisory_status_witness:
  "gm_get (get_reported_advisories (errata_response [erratum_update ''RHSA-1'' 0, erratum_update ''RHSA-1'' 1]))
     ''RHSA-1'' = Some INSTALLABLE"
proof -
  let ?a = "erratum_update ''RHSA-1'' 0" and ?b = "erratum_update ''RHSA-1'' 1"
  have r: "response_updates (errata_response [?a, ?b]) = [?a, ?b]"
    by (simp add: response_updates_def errata_response_def update_entries_def get_update_list_def
        get_available_updates_def)
  have k: "known_statuses (response_updates (errata_response [?a, ?b]))"
    unfolding r by (simp add: known_statuses_def erratum_update_def)
  have "{u \<in> set [?a, ?b]. get_erratum u = ''RHSA-1''} = {?a, ?b}"
    by (auto simp: get_erratum_def erratum_update_def str_of_def)
  then show ?thesis
    using reported_advisory_status [OF k, of "''RHSA-1''"] unfolding r by (simp add: erratum_update_def)
qed

theorem lazy_save_and_load_spec_witness:
  "''RHBA-2'' \<in> am_name ` set (t_metadata (snd sample_eval))"
proof -
  have "''RHBA-2'' \<in> reported_names sample_report" unfolding reported_names_def mem_Collect_eq by code_simp
  then show ?thesis using lazy_save_and_load_spec [OF sample_wf sample_eval_eq] by auto
qed

theorem stored_rows_are_reported_witness:
  "\<exists>rows db2. store_advisory_data True no_faults (snd sample_eval) sample_system sample_changes = Inr (Some rows, db2)
     \<and> wf_db db2 \<and> gm_get (t_system_advisories db2) (1, 11, 7) = Some 0"
proof -
  have "si_id (pl_inventory sample_system) = 10" "gm_get (t_system_advisories sample_db) (1, 11, 7) = Some 0"
    by (simp_all add: sample_system_def sample_db_def)
  then show ?thesis using stored_rows_are_reported [OF sample_wf sample_registered sample_eval_eq] by fastforce
qed

theorem account_counts_follow_rows_witness:
  "misread (Some APPLICABLE) None
   \<and> \<not> (fst (account_counts sample_after 1 7) - fst (account_counts sample_db 1 7) = 0
      \<and> snd (account_counts sample_after 1 7) - snd (account_counts sample_db 1 7) = - 1)"
proof -
  have f: "\<not> si_stale (pl_inventory sample_system)" "si_account (pl_inventory sample_system) = 1"
    "si_id (pl_inventory sample_system) = 10"
    by code_simp+
  have o: "Some APPLICABLE = gm_get (t_system_advisories sample_db)
      (si_account (pl_inventory sample_system), si_id (pl_inventory sample_system), 7)" by code_simp
  have n: "None = gm_get (t_system_advisories sample_after)
      (si_account (pl_inventory sample_system), si_id (pl_inventory sample_system), 7)" by code_simp
  have m: "misread (Some APPLICABLE) None" by (simp add: misread_def)
  have "row_counts (Some APPLICABLE) = (0, 1)" "row_counts None = (0, 0)" by (simp_all add: row_counts_def)
  then show ?thesis
    using account_counts_follow_rows [OF sample_wf sample_registered f(1) sample_eval_eq sample_store_eq
        sample_report_known o _ n] m
    by (simp add: f)
qed

end
