(* ===== verification/PackageLaws.thy ===== *)
theory PackageLaws
  imports Packages AdvisoryLaws
begin

text \<open>
  The laws of the package evaluation: with an enabled, coherent cache the package
  map is a function of the update list and the tables alone; the rows of
  \<open>system_package2\<close> end up equal to it.
\<close>

section \<open>The update list, without the cache\<close>

definition row_of :: "package_db \<Rightarrow> string \<Rightarrow> package_meta option" where
  "row_of db s = (case parse_nevra s of Inl _ \<Rightarrow> None
     | Inr n \<Rightarrow> find (\<lambda>m. pm_name m = nv_name n \<and> pm_evra m = evra_string n) (pkg_view db))"

definition id_of :: "package_db \<Rightarrow> string \<Rightarrow> int option" where
  "id_of db s = (if s = [] then None else map_option pm_id (row_of db s))"

text \<open>The last named update of a list with a given status.\<close>

definition newest_with :: "int \<Rightarrow> avail_update list \<Rightarrow> string" where
  "newest_with status us =
     (let mine = filter (\<lambda>u. up_status u = status \<and> get_package u \<noteq> []) us
      in if mine = [] then [] else get_package (last mine))"

lemma latest_scan_newest: "latest_scan us [] [] = (newest_with INSTALLABLE us, newest_with APPLICABLE us)"
proof -
  have "latest_scan us i a =
     ((if filter (\<lambda>u. up_status u = INSTALLABLE \<and> get_package u \<noteq> []) us = [] then i else newest_with INSTALLABLE us),
      (if filter (\<lambda>u. up_status u = APPLICABLE \<and> get_package u \<noteq> []) us = [] then a else newest_with APPLICABLE us))" for i a
    by (induction us arbitrary: i a) (simp_all add: newest_with_def Let_def)
  then show ?thesis by (simp add: newest_with_def Let_def)
qed

text \<open>What VMaaS lists about one package: its row, and the rows of its newest installable and its
  newest applicable update.\<close>

definition listed_package :: "package_db \<Rightarrow> string \<Rightarrow> update_list_ptr \<Rightarrow> named_package option" where
  "listed_package db nevra l =
     (if has_prefix ''gpg-pubkey'' nevra then None
      else map_option (\<lambda>m. \<lparr>np_name_id = pm_name_id m, np_package_id = pm_id m,
             np_installable_id = id_of db (newest_with INSTALLABLE (get_available_updates l)),
             np_applicable_id = id_of db (newest_with APPLICABLE (get_available_updates l)),
             np_change = Add\<rparr>) (row_of db nevra))"

lemma read_by_nevra_up: "\<not> d_down db \<Longrightarrow> read_by_nevra db s = Some (row_of db s)"
  by (simp add: read_by_nevra_def row_of_def read_package_from_db_def split: sum.splits)

lemma get_by_nevra_up:
  assumes "coherent env db c" "pc_enabled c" "\<not> d_down db"
  shows "\<exists>v c'. get_by_nevra env db c s = Some (v, c') \<and> map_option ident v = map_option ident (row_of db s)
    \<and> coherent env db c' \<and> pc_enabled c'"
  by (rule get_by_nevra_same [OF assms(1,2) read_by_nevra_up [OF assms(3)]])

lemma ident_fields:
  assumes "map_option ident v = map_option ident r"
  shows "map_option pm_id v = map_option pm_id r" "v = None \<longleftrightarrow> r = None"
    "v = Some m \<Longrightarrow> \<exists>m'. r = Some m' \<and> pm_id m = pm_id m' \<and> pm_name_id m = pm_name_id m'
       \<and> pm_name m = pm_name m' \<and> pm_evra m = pm_evra m'"
  using assms by (cases v; cases r; simp add: ident_def)+

lemma id_if_known_up:
  assumes "coherent env db c" "pc_enabled c" "\<not> d_down db"
  shows "\<exists>c'. id_if_known env db c s = Some (id_of db s, c') \<and> coherent env db c' \<and> pc_enabled c'"
proof (cases "s = []")
  case True
  then show ?thesis using assms by (simp add: id_if_known_def id_of_def)
next
  case False
  obtain v c' where g: "get_by_nevra env db c s = Some (v, c')" "map_option ident v = map_option ident (row_of db s)"
    "coherent env db c'" "pc_enabled c'"
    using get_by_nevra_up [OF assms] by blast
  then show ?thesis using False ident_fields(1) [OF g(2)] by (simp add: id_if_known_def id_of_def)
qed

lemma latest_packages_up:
  assumes "coherent env db c" "pc_enabled c" "\<not> d_down db"
  shows "\<exists>c'. latest_packages_from_updates_list env db c us
      = Some ((id_of db (newest_with INSTALLABLE us), id_of db (newest_with APPLICABLE us)), c')
    \<and> coherent env db c' \<and> pc_enabled c'"
proof -
  obtain i a where s: "latest_scan us [] [] = (i, a)" "i = newest_with INSTALLABLE us" "a = newest_with APPLICABLE us"
    by (simp add: latest_scan_newest)
  obtain c1 where c1: "id_if_known env db c i = Some (id_of db i, c1)" "coherent env db c1" "pc_enabled c1"
    using id_if_known_up [OF assms] by blast
  obtain c2 where c2: "id_if_known env db c1 a = Some (id_of db a, c2)" "coherent env db c2" "pc_enabled c2"
    using id_if_known_up [OF c1(2,3) assms(3)] by blast
  show ?thesis using c1(1) c2 by (simp add: latest_packages_from_updates_list_def s)
qed

lemma is_valid_nevra_up:
  assumes "coherent env db c" "pc_enabled c" "\<not> d_down db"
  shows "\<exists>c'. is_valid_nevra env db c s = Some (\<not> has_prefix ''gpg-pubkey'' s \<and> row_of db s \<noteq> None, c')
    \<and> coherent env db c' \<and> pc_enabled c'"
proof (cases "has_prefix ''gpg-pubkey'' s")
  case True
  then show ?thesis using assms by (simp add: is_valid_nevra_def)
next
  case False
  obtain v c' where g: "get_by_nevra env db c s = Some (v, c')" "map_option ident v = map_option ident (row_of db s)"
    "coherent env db c'" "pc_enabled c'"
    using get_by_nevra_up [OF assms] by blast
  then show ?thesis using False ident_fields(2) [OF g(2)] by (simp add: is_valid_nevra_def del: not_None_eq)
qed

definition count_package :: "named_package \<Rightarrow> pkg_counts \<Rightarrow> pkg_counts" where
  "count_package p cnt =
     \<lparr>cnt_installed = cnt_installed cnt + 1,
      cnt_installable = cnt_installable cnt + (if np_installable_id p \<noteq> None then 1 else 0),
      cnt_applicable = cnt_applicable cnt
        + (if np_installable_id p \<noteq> None \<or> np_applicable_id p \<noteq> None then 1 else 0)\<rparr>"

fun listed_loop :: "package_db \<Rightarrow> (string, update_list_ptr) gomap \<Rightarrow> named_package_map \<Rightarrow> pkg_counts
    \<Rightarrow> named_package_map \<times> pkg_counts" where
  "listed_loop db [] m cnt = (m, cnt)"
| "listed_loop db ((nevra, l) # es) m cnt =
     (case listed_package db nevra l of
        None \<Rightarrow> listed_loop db es m cnt
      | Some p \<Rightarrow> listed_loop db es (gm_put nevra p m) (count_package p cnt))"

lemma update_list_loop_up:
  assumes "coherent env db c" "pc_enabled c" "\<not> d_down db"
  shows "\<exists>c'. update_list_loop env db es c m cnt
      = Some (fst (listed_loop db es m cnt), snd (listed_loop db es m cnt), c')
    \<and> coherent env db c' \<and> pc_enabled c'"
  using assms
proof (induction es arbitrary: c m cnt)
  case Nil
  then show ?case by simp
next
  case (Cons e es)
  obtain nevra l where e: "e = (nevra, l)" by (cases e)
  obtain c1 where c1: "is_valid_nevra env db c nevra
      = Some (\<not> has_prefix ''gpg-pubkey'' nevra \<and> row_of db nevra \<noteq> None, c1)"
    "coherent env db c1" "pc_enabled c1"
    using is_valid_nevra_up [OF Cons.prems] by blast
  show ?case
  proof (cases "listed_package db nevra l")
    case None
    then have "\<not> (\<not> has_prefix ''gpg-pubkey'' nevra \<and> row_of db nevra \<noteq> None)"
      by (auto simp: listed_package_def split: if_splits)
    then show ?thesis using Cons.IH [OF c1(2,3) Cons.prems(3)] None c1(1) by (simp add: e)
  next
    case (Some p)
    then obtain r where r: "\<not> has_prefix ''gpg-pubkey'' nevra" "row_of db nevra = Some r"
      by (auto simp: listed_package_def split: if_splits)
    obtain v c2 where c2: "get_by_nevra env db c1 nevra = Some (v, c2)" "coherent env db c2" "pc_enabled c2"
      and v: "map_option ident v = map_option ident (row_of db nevra)"
      using get_by_nevra_up [OF c1(2,3) Cons.prems(3), of nevra] by blast
    obtain r' where r': "v = Some r'" "pm_id r' = pm_id r" "pm_name_id r' = pm_name_id r"
      using ident_fields(2,3) [OF v] r(2) by (cases v) auto
    obtain c3 where c3: "latest_packages_from_updates_list env db c2 (get_available_updates l)
        = Some ((id_of db (newest_with INSTALLABLE (get_available_updates l)),
                 id_of db (newest_with APPLICABLE (get_available_updates l))), c3)"
      "coherent env db c3" "pc_enabled c3"
      using latest_packages_up [OF c2(2,3) Cons.prems(3)] by blast
    have p: "p = \<lparr>np_name_id = pm_name_id r, np_package_id = pm_id r,
        np_installable_id = id_of db (newest_with INSTALLABLE (get_available_updates l)),
        np_applicable_id = id_of db (newest_with APPLICABLE (get_available_updates l)), np_change = Add\<rparr>"
      using Some r by (simp add: listed_package_def)
    have "update_list_loop env db (e # es) c m cnt
        = update_list_loop env db es c3 (gm_put nevra p m) (count_package p cnt)"
      using c1(1) r c2(1) c3(1) r' by (cases cnt) (simp add: e p count_package_def)
    then show ?thesis using Cons.IH [OF c3(2,3) Cons.prems(3)] Some by (simp add: e)
  qed
qed

lemma listed_loop_get:
  "wf_gomap es \<Longrightarrow> gm_get (fst (listed_loop db es m cnt)) k =
     (case Option.bind (gm_get es k) (listed_package db k) of None \<Rightarrow> gm_get m k | Some p \<Rightarrow> Some p)"
proof (induction db es m cnt rule: listed_loop.induct)
  case (2 db nevra l es m cnt)
  have n: "gm_get es nevra = None" using "2.prems" by (simp add: map_of_eq_None_iff)
  show ?case
  proof (cases "listed_package db nevra l")
    case None
    then show ?thesis using 2 n by (cases "k = nevra") simp_all
  next
    case (Some p)
    then show ?thesis using 2 n by (cases "k = nevra") (simp_all add: gomap split: option.splits)
  qed
qed simp

lemma listed_loop_wf: "wf_gomap m \<Longrightarrow> wf_gomap (fst (listed_loop db es m cnt))"
  by (induction db es m cnt rule: listed_loop.induct) (auto split: option.splits)

definition listed :: "package_db \<Rightarrow> (string, update_list_ptr) gomap \<Rightarrow> named_package list" where
  "listed db es = concat (map (\<lambda>(nevra, l). case listed_package db nevra l of None \<Rightarrow> [] | Some p \<Rightarrow> [p]) es)"

lemma listed_loop_counts:
  "snd (listed_loop db es m cnt) =
     \<lparr>cnt_installed = cnt_installed cnt + int (length (listed db es)),
      cnt_installable = cnt_installable cnt + int (length (filter (\<lambda>p. np_installable_id p \<noteq> None) (listed db es))),
      cnt_applicable = cnt_applicable cnt
        + int (length (filter (\<lambda>p. np_installable_id p \<noteq> None \<or> np_applicable_id p \<noteq> None) (listed db es)))\<rparr>"
proof (induction db es m cnt rule: listed_loop.induct)
  case (1 db m cnt)
  then show ?case by (simp add: listed_def)
next
  case (2 db nevra l es m cnt)
  show ?case
  proof (cases "listed_package db nevra l")
    case None
    then show ?thesis using 2 by (simp add: listed_def)
  next
    case (Some p)
    then have "listed db ((nevra, l) # es) = p # listed db es" by (simp add: listed_def)
    then show ?thesis using 2(2) [OF Some] Some by (simp add: count_package_def)
  qed
qed

section \<open>The stored rows\<close>

definition meta_of :: "package_db \<Rightarrow> int \<Rightarrow> package_meta option" where
  "meta_of db i = find (\<lambda>m. pm_id m = i) (pkg_view db)"

definition key_of :: "package_db \<Rightarrow> named_package \<Rightarrow> string" where
  "key_of db col = (case meta_of db (np_package_id col) of None \<Rightarrow> []
     | Some m \<Rightarrow> nevra_string_e (pm_name m) (pm_evra m) True)"

definition with_stored :: "named_package option \<Rightarrow> named_package \<Rightarrow> named_package" where
  "with_stored p col = (case p of
       Some q \<Rightarrow> q\<lparr>np_change := if latest_pkgs_changed q col then Update else Keep\<rparr>
     | None \<Rightarrow> col\<lparr>np_change := Remove\<rparr>)"

fun stored_fold :: "package_db \<Rightarrow> named_package list \<Rightarrow> named_package_map \<Rightarrow> named_package_map" where
  "stored_fold db [] m = m"
| "stored_fold db (col # cols) m =
     stored_fold db cols (gm_put (key_of db col) (with_stored (gm_get m (key_of db col)) col) m)"

lemma get_by_id_up:
  assumes "coherent env db c" "pc_enabled c" "\<not> d_down db"
  shows "\<exists>v c'. get_by_id env db c i = Some (v, c') \<and> map_option ident v = map_option ident (meta_of db i)
    \<and> coherent env db c' \<and> pc_enabled c'"
  by (rule get_by_id_same [OF assms(1,2)])
    (simp add: read_by_id_def read_package_from_db_def meta_of_def assms(3))

lemma stored_loop_up:
  assumes "coherent env db c" "pc_enabled c" "\<not> d_down db"
    and "\<forall>col\<in>set cols. meta_of db (np_package_id col) \<noteq> None"
  shows "\<exists>c'. stored_packages_loop env db cols c m = Some (Inr (stored_fold db cols m), c')
    \<and> coherent env db c' \<and> pc_enabled c'"
  using assms
proof (induction cols arbitrary: c m)
  case Nil
  then show ?case by simp
next
  case (Cons col cols)
  obtain r where r: "meta_of db (np_package_id col) = Some r" using Cons.prems(4) by auto
  obtain v c1 where g: "get_by_id env db c (np_package_id col) = Some (v, c1)" "coherent env db c1" "pc_enabled c1"
    and v: "map_option ident v = map_option ident (meta_of db (np_package_id col))"
    using get_by_id_up [OF Cons.prems(1-3), of "np_package_id col"] by blast
  obtain r' where r': "v = Some r'" "pm_name r' = pm_name r" "pm_evra r' = pm_evra r"
    using ident_fields(2,3) [OF v] r by (cases v) auto
  note c1 = g(1) [unfolded r'(1)] g(2,3)
  have k: "key_of db col = nevra_string_e (pm_name r) (pm_evra r) True" by (simp add: key_of_def r)
  have step: "stored_packages_loop env db (col # cols) c m
      = stored_packages_loop env db cols c1 (gm_put (key_of db col) (with_stored (gm_get m (key_of db col)) col) m)"
    using c1(1) r'(2,3) by (simp add: k with_stored_def Let_def split: option.splits)
  show ?case unfolding step using Cons.IH [OF c1(2,3) Cons.prems(3)] Cons.prems(4) by simp
qed

lemma stored_fold_get:
  "distinct (map (key_of db) cols) \<Longrightarrow>
   gm_get (stored_fold db cols m) k = (case find (\<lambda>col. key_of db col = k) cols of
      None \<Rightarrow> gm_get m k | Some col \<Rightarrow> Some (with_stored (gm_get m k) col))"
proof (induction db cols m rule: stored_fold.induct)
  case (2 db col cols m)
  have "key_of db col = k \<Longrightarrow> find (\<lambda>c. key_of db c = k) cols = None"
    using "2.prems" by (auto simp: find_None_iff image_iff)
  then show ?case using 2 by (auto simp: gomap split: option.splits)
qed simp

lemma stored_fold_wf: "wf_gomap m \<Longrightarrow> wf_gomap (stored_fold db cols m)"
  by (induction db cols m rule: stored_fold.induct) auto

section \<open>Storing the package map\<close>

definition np_written :: "named_package \<Rightarrow> bool" where
  "np_written p \<longleftrightarrow> np_change p = Add \<or> np_change p = Update"

definition keys_where :: "(named_package \<Rightarrow> bool) \<Rightarrow> named_package_map \<Rightarrow> string list \<Rightarrow> string list" where
  "keys_where q m ns = filter (\<lambda>k. case gm_get m k of None \<Rightarrow> False | Some p \<Rightarrow> q p) ns"

lemma split_packages_eq:
  assumes "distinct (map (\<lambda>k. np_package_id (the (gm_get m k))) (keys_where np_written m ns))"
    "\<forall>k\<in>set (keys_where np_written m ns). np_package_id (the (gm_get m k)) \<notin> set uniq"
  shows "split_packages system m ns uniq =
    (map (\<lambda>k. np_package_id (the (gm_get m k))) (keys_where (\<lambda>p. np_change p = Remove) m ns),
     map (\<lambda>k. create_system_package system (the (gm_get m k))) (keys_where np_written m ns))"
  using assms
proof (induction ns arbitrary: uniq)
  case Nil
  then show ?case by (simp add: keys_where_def)
next
  case (Cons n ns)
  show ?case
  proof (cases "gm_get m n")
    case None
    then show ?thesis using Cons by (simp add: keys_where_def)
  next
    case (Some p)
    show ?thesis
    proof (cases "np_written p")
      case True
      have "split_packages system m ns (np_package_id p # uniq) =
        (map (\<lambda>k. np_package_id (the (gm_get m k))) (keys_where (\<lambda>p. np_change p = Remove) m ns),
         map (\<lambda>k. create_system_package system (the (gm_get m k))) (keys_where np_written m ns))"
        using Cons.prems Some True by (intro Cons.IH) (auto simp: keys_where_def image_iff)
      moreover have "np_package_id p \<notin> set uniq" using Cons.prems(2) Some True by (simp add: keys_where_def)
      moreover have "np_change p = Add \<or> np_change p = Update" using True by (simp add: np_written_def)
      ultimately show ?thesis using Some True by (auto simp: keys_where_def)
    next
      case False
      have "split_packages system m ns uniq =
        (map (\<lambda>k. np_package_id (the (gm_get m k))) (keys_where (\<lambda>p. np_change p = Remove) m ns),
         map (\<lambda>k. create_system_package system (the (gm_get m k))) (keys_where np_written m ns))"
        using Cons.prems Some False by (intro Cons.IH) (simp_all add: keys_where_def)
      moreover have "np_change p \<noteq> Add" "np_change p \<noteq> Update" using False by (simp_all add: np_written_def)
      ultimately show ?thesis using Some False by (cases "np_change p") (simp_all add: keys_where_def)
    qed
  qed
qed

definition uniq_ids :: "(named_package \<Rightarrow> bool) \<Rightarrow> named_package_map \<Rightarrow> bool" where
  "uniq_ids q m \<longleftrightarrow> (\<forall>k k' p p'. gm_get m k = Some p \<longrightarrow> gm_get m k' = Some p' \<longrightarrow> q p \<longrightarrow> q p' \<longrightarrow>
     np_package_id p = np_package_id p' \<longrightarrow> k = k')"

lemma keys_where_distinct:
  assumes "distinct ns" "uniq_ids q m"
  shows "distinct (map (\<lambda>k. np_package_id (the (gm_get m k))) (keys_where q m ns))"
proof -
  have "inj_on (\<lambda>k. np_package_id (the (gm_get m k))) (set (keys_where q m ns))"
    using assms(2) by (intro inj_onI) (auto simp: keys_where_def uniq_ids_def split: option.splits)
  then show ?thesis using assms(1) by (simp add: distinct_map keys_where_def)
qed

text \<open>What the entries about one package do to its row.\<close>

lemma update_system_packages_get:
  fixes system :: system_platform
  defines "acc \<equiv> si_account (pl_inventory system)" and "sys \<equiv> si_id (pl_inventory system)"
  assumes wf: "wf_gomap m" and uniq: "uniq_ids np_written m" and wft: "wf_gomap (t_system_packages db)"
    and ok: "\<not> faults DeleteOldPackages" "\<not> faults UpsertPackages"
  obtains t where "update_system_packages True faults db system m = Inr (db\<lparr>t_system_packages := t\<rparr>)" "wf_gomap t"
    "\<And>a y i. a \<noteq> acc \<or> y \<noteq> sys \<Longrightarrow> gm_get t (a, y, i) = gm_get (t_system_packages db) (a, y, i)"
    "\<And>k p. gm_get m k = Some p \<Longrightarrow> np_written p \<Longrightarrow>
       map_option snd (gm_get t (acc, sys, np_package_id p)) = Some (np_installable_id p, np_applicable_id p)"
    "\<And>i. (\<And>k p. gm_get m k = Some p \<Longrightarrow> np_written p \<Longrightarrow> np_package_id p \<noteq> i) \<Longrightarrow>
       gm_get t (acc, sys, i) = (if \<exists>k p. gm_get m k = Some p \<and> np_change p = Remove \<and> np_package_id p = i then None
         else gm_get (t_system_packages db) (acc, sys, i))"
proof -
  let ?ns = "sort (map fst m)"
  let ?rem = "map (\<lambda>k. np_package_id (the (gm_get m k))) (keys_where (\<lambda>p. np_change p = Remove) m ?ns)"
  let ?upd = "map (\<lambda>k. create_system_package system (the (gm_get m k))) (keys_where np_written m ?ns)"
  let ?rows = "package_rows ?upd"
  let ?del = "delete_keys (\<lambda>(a, y, p). a = acc \<and> y = sys \<and> p \<in> set ?rem) (t_system_packages db)"
  let ?t = "upsert_all replace_latest ?rows ?del"
  have dn: "distinct ?ns" using wf by simp
  have d: "distinct (map (\<lambda>k. np_package_id (the (gm_get m k))) (keys_where np_written m ?ns))"
    by (rule keys_where_distinct [OF dn uniq])
  have split: "split_packages system m ?ns [] = (?rem, ?upd)"
    by (rule split_packages_eq [OF d]) simp
  have mem: "k \<in> set (keys_where q m ?ns) \<longleftrightarrow> (\<exists>p. gm_get m k = Some p \<and> q p)" for k q
    by (auto simp: keys_where_def split: option.splits intro: rev_image_eqI dest: map_of_SomeD)
  have keys: "map fst ?rows = map (\<lambda>i. (acc, sys, i)) (map (\<lambda>k. np_package_id (the (gm_get m k))) (keys_where np_written m ?ns))"
    by (simp add: package_rows_def create_system_package_def acc_def sys_def)
  have wfr: "wf_gomap ?rows" unfolding keys using d by (simp only: distinct_map_triple)
  have res: "update_system_packages True faults db system m = Inr (db\<lparr>t_system_packages := ?t\<rparr>)"
  proof (cases "?upd = []")
    case True
    then show ?thesis
      unfolding update_system_packages_def split Let_def prod.case
      by (simp add: ok delete_old_system_packages_def acc_def sys_def package_rows_def)
  next
    case False
    then show ?thesis
      unfolding update_system_packages_def split Let_def prod.case
      using wfr by (simp add: ok delete_old_system_packages_def bulk_upsert_def acc_def sys_def)
  qed
  have rows_get: "gm_get ?rows (acc, sys, i) = Some (n, x) \<longleftrightarrow>
      (\<exists>k p. gm_get m k = Some p \<and> np_written p \<and> np_package_id p = i \<and> n = np_name_id p
         \<and> x = (np_installable_id p, np_applicable_id p))" for i n x
  proof -
    have "gm_get ?rows (acc, sys, i) = Some (n, x) \<longleftrightarrow> (\<exists>k\<in>set (keys_where np_written m ?ns).
        np_package_id (the (gm_get m k)) = i \<and> n = np_name_id (the (gm_get m k))
        \<and> x = (np_installable_id (the (gm_get m k)), np_applicable_id (the (gm_get m k))))"
      unfolding gm_get_mem [OF wfr]
      by (auto simp: package_rows_def create_system_package_def acc_def sys_def image_iff)
    also have "\<dots> \<longleftrightarrow> (\<exists>k p. gm_get m k = Some p \<and> np_written p \<and> np_package_id p = i \<and> n = np_name_id p
         \<and> x = (np_installable_id p, np_applicable_id p))"
      unfolding Bex_def mem by (intro ex_cong1) auto
    finally show ?thesis .
  qed
  have rows_other: "a \<noteq> acc \<or> y \<noteq> sys \<Longrightarrow> gm_get ?rows (a, y, i) = None" for a y i
  proof -
    assume "a \<noteq> acc \<or> y \<noteq> sys"
    then have "(a, y, i) \<notin> set (map fst ?rows)" unfolding keys by auto
    then show "gm_get ?rows (a, y, i) = None" by (simp add: map_of_eq_None_iff)
  qed
  have rem: "i \<in> set ?rem \<longleftrightarrow> (\<exists>k p. gm_get m k = Some p \<and> np_change p = Remove \<and> np_package_id p = i)" for i
  proof -
    have "i \<in> set ?rem \<longleftrightarrow> (\<exists>k\<in>set (keys_where (\<lambda>p. np_change p = Remove) m ?ns). i = np_package_id (the (gm_get m k)))"
      by (auto simp: image_iff)
    also have "\<dots> \<longleftrightarrow> (\<exists>k p. gm_get m k = Some p \<and> np_change p = Remove \<and> np_package_id p = i)"
      unfolding Bex_def mem by (intro ex_cong1) auto
    finally show ?thesis .
  qed
  show thesis
  proof (rule that [OF res])
    show "wf_gomap ?t" using wft by simp
    show "a \<noteq> acc \<or> y \<noteq> sys \<Longrightarrow> gm_get ?t (a, y, i) = gm_get (t_system_packages db) (a, y, i)" for a y i
      using rows_other by (auto simp: upsert_all_get [OF wfr] delete_keys_get)
    show "map_option snd (gm_get ?t (acc, sys, np_package_id p)) = Some (np_installable_id p, np_applicable_id p)"
      if "gm_get m k = Some p" "np_written p" for k p
    proof -
      have "gm_get ?rows (acc, sys, np_package_id p)
          = Some (np_name_id p, np_installable_id p, np_applicable_id p)"
        using rows_get that by blast
      then show ?thesis by (simp add: upsert_all_get [OF wfr] replace_latest_def split: option.splits prod.splits)
    qed
    show "gm_get ?t (acc, sys, i) = (if \<exists>k p. gm_get m k = Some p \<and> np_change p = Remove \<and> np_package_id p = i
        then None else gm_get (t_system_packages db) (acc, sys, i))"
      if "\<And>k p. gm_get m k = Some p \<Longrightarrow> np_written p \<Longrightarrow> np_package_id p \<noteq> i" for i
    proof -
      have "gm_get ?rows (acc, sys, i) = None"
        using rows_get that by (metis option.exhaust surj_pair)
      then show ?thesis unfolding upsert_all_get [OF wfr] delete_keys_get prod.case rem by simp
    qed
  qed
qed

section \<open>From the update list to the rows\<close>

lemma listed_mem: "p \<in> set (listed db es) \<longleftrightarrow> (\<exists>k l. (k, l) \<in> set es \<and> listed_package db k l = Some p)"
proof -
  have "p \<in> set (listed db es) \<longleftrightarrow> (\<exists>x\<in>set es. listed_package db (fst x) (snd x) = Some p)"
    by (auto simp: listed_def case_prod_unfold split: option.splits intro: rev_bexI)
  also have "\<dots> \<longleftrightarrow> (\<exists>k l. (k, l) \<in> set es \<and> listed_package db k l = Some p)"
    by (simp add: Bex_def split_paired_Ex)
  finally show ?thesis .
qed

lemma listed_unique:
  "distinct (map np_package_id (listed db es)) \<Longrightarrow> (k, l) \<in> set es \<Longrightarrow> (k', l') \<in> set es \<Longrightarrow>
   listed_package db k l = Some p \<Longrightarrow> listed_package db k' l' = Some p' \<Longrightarrow>
   np_package_id p = np_package_id p' \<Longrightarrow> (k, l) = (k', l')"
proof (induction es)
  case (Cons e es)
  obtain k0 l0 where e: "e = (k0, l0)" by (cases e)
  have tail: "np_package_id q \<in> np_package_id ` set (listed db es)"
    if "(j, h) \<in> set es" "listed_package db j h = Some q" for j h q
    using that listed_mem by blast
  show ?case
  proof (cases "listed_package db k0 l0")
    case None
    then have "listed db (e # es) = listed db es" by (simp add: listed_def e)
    then show ?thesis using Cons None e by auto
  next
    case (Some q)
    then have l: "listed db (e # es) = q # listed db es" by (simp add: listed_def e)
    then have "np_package_id q \<notin> np_package_id ` set (listed db es)" using Cons.prems(1) by simp
    then show ?thesis using Cons l Some e tail by (auto, metis+)
  qed
qed simp

lemma row_of_key:
  assumes "package_db_ok db" "m \<in> set (pkg_view db)"
  shows "row_of db (nevra_string_e (pm_name m) (pm_evra m) True) = Some m"
proof -
  let ?s = "nevra_string_e (pm_name m) (pm_evra m) True"
  have row: "nevra_row (set (pkg_view db)) ?s m"
    using nevra_row_key assms unfolding package_db_ok_def by blast
  then obtain n where n: "parse_nevra ?s = Inr n" "pm_name m = nv_name n" "pm_evra m = evra_string n"
    by (auto simp: nevra_row_def)
  show ?thesis
  proof (cases "row_of db ?s")
    case None
    then show ?thesis using n assms(2) by (auto simp: row_of_def find_None_iff)
  next
    case (Some m')
    then have "m' \<in> set (pkg_view db) \<and> pm_name m' = nv_name n \<and> pm_evra m' = evra_string n"
      using n(1) by (auto simp: row_of_def find_Some_iff)
    then show ?thesis using view_nevra_inj [OF assms(1) _ assms(2), of m'] n Some by simp
  qed
qed

lemma key_of_row:
  assumes "package_db_ok db" "meta_of db (np_package_id col) \<noteq> None"
  shows "\<exists>m. row_of db (key_of db col) = Some m \<and> pm_id m = np_package_id col"
proof -
  obtain m where m: "meta_of db (np_package_id col) = Some m" using assms(2) by auto
  then have "m \<in> set (pkg_view db)" "pm_id m = np_package_id col" by (auto simp: meta_of_def find_Some_iff)
  then show ?thesis using row_of_key [OF assms(1)] m by (auto simp: key_of_def)
qed

lemma listed_package_id:
  "listed_package db k l = Some p \<Longrightarrow> \<exists>m. row_of db k = Some m \<and> np_package_id p = pm_id m \<and> np_change p = Add"
  by (auto simp: listed_package_def split: if_splits)

definition stored_latest :: "eval_db \<Rightarrow> int \<Rightarrow> int \<Rightarrow> int \<Rightarrow> (int option \<times> int option) option" where
  "stored_latest edb acc sys i = map_option snd (gm_get (t_system_packages edb) (acc, sys, i))"

definition listed_latest :: "package_db \<Rightarrow> updates_response option \<Rightarrow> int \<Rightarrow> (int option \<times> int option) option" where
  "listed_latest db r i = map_option (\<lambda>p. (np_installable_id p, np_applicable_id p))
     (find (\<lambda>p. np_package_id p = i) (listed db (update_entries r)))"

lemma stored_columns_mem:
  assumes "wf_gomap (t_system_packages edb)"
  shows "col \<in> set (stored_columns edb acc sys) \<longleftrightarrow> np_change col = NoChange
    \<and> gm_get (t_system_packages edb) (acc, sys, np_package_id col)
        = Some (np_name_id col, np_installable_id col, np_applicable_id col)"
proof -
  have "col \<in> set (stored_columns edb acc sys) \<longleftrightarrow> (\<exists>i n ins app. ((acc, sys, i), (n, ins, app)) \<in> set (t_system_packages edb)
      \<and> col = \<lparr>np_name_id = n, np_package_id = i, np_installable_id = ins, np_applicable_id = app, np_change = NoChange\<rparr>)"
    by (auto simp: stored_columns_def image_iff)
  then show ?thesis unfolding gm_get_mem [OF assms] by (cases col) auto
qed

lemma stored_columns_ids:
  assumes "wf_gomap (t_system_packages edb)"
  shows "distinct (map np_package_id (stored_columns edb acc sys))"
proof -
  let ?T = "filter (\<lambda>((a, y, p), _). a = acc \<and> y = sys) (t_system_packages edb)"
  have "wf_gomap ?T" using assms by (simp add: distinct_map_filter)
  moreover have "map fst ?T = map (\<lambda>i. (acc, sys, i)) (map np_package_id (stored_columns edb acc sys))"
    by (auto simp: stored_columns_def)
  ultimately show ?thesis by (simp only: distinct_map_triple)
qed

lemma latest_unchanged:
  "latest_pkgs_changed p q \<longleftrightarrow> np_installable_id p \<noteq> np_installable_id q \<or> np_applicable_id p \<noteq> np_applicable_id q"
  by (cases "np_installable_id p"; cases "np_installable_id q"; cases "np_applicable_id p"; cases "np_applicable_id q")
    (auto simp: latest_pkgs_changed_def Let_def)

lemma package_rows_refine:
  fixes system :: system_platform
  defines "acc \<equiv> si_account (pl_inventory system)" and "sys \<equiv> si_id (pl_inventory system)"
  assumes inv: "coherent env db c" "pc_enabled c" "\<not> d_down db"
    and wfe: "wf_gomap (update_entries r)" and wft: "wf_gomap (t_system_packages edb)"
    and fk: "\<forall>col\<in>set (stored_columns edb acc sys). meta_of db (np_package_id col) \<noteq> None"
    and uniq: "distinct (map np_package_id (listed db (update_entries r)))"
  shows "\<exists>m c' edb'. load_packages env no_faults db edb system r c
        = Some (Inr (m, snd (listed_loop db (update_entries r) []
            \<lparr>cnt_installed = 0, cnt_installable = 0, cnt_applicable = 0\<rparr>)), c')
      \<and> coherent env db c' \<and> pc_enabled c'
      \<and> update_system_packages True no_faults edb system m = Inr edb'
      \<and> (\<forall>a y i. stored_latest edb' a y i = (if a = acc \<and> y = sys then listed_latest db r i else stored_latest edb a y i))
      \<and> wf_gomap (t_system_packages edb')"
proof -
  let ?es = "update_entries r" and ?cols = "stored_columns edb acc sys"
  let ?z = "\<lparr>cnt_installed = 0, cnt_installable = 0, cnt_applicable = 0\<rparr>"
  define m0 where "m0 = fst (listed_loop db ?es [] ?z)"
  define m where "m = stored_fold db ?cols m0"
  have dbok: "package_db_ok db" using inv(1) by (simp add: coherent_def)
  have m0: "gm_get m0 k = Option.bind (gm_get ?es k) (listed_package db k)" for k
    unfolding m0_def listed_loop_get [OF wfe] by (simp split: option.splits)
  have m0_listed: "gm_get m0 k = Some p \<longleftrightarrow> (\<exists>l. (k, l) \<in> set ?es \<and> listed_package db k l = Some p)" for k p
    unfolding m0 bind_eq_Some_conv gm_get_mem [OF wfe] ..
  have m0_inj: "k = k'" if "gm_get m0 k = Some p" "gm_get m0 k' = Some p'" "np_package_id p = np_package_id p'" for k k' p p'
    using that listed_unique [OF uniq] unfolding m0_listed by blast
  have m0_row: "\<exists>x. row_of db k = Some x \<and> np_package_id p = pm_id x \<and> np_change p = Add" if "gm_get m0 k = Some p" for k p
    using that listed_package_id unfolding m0_listed by blast
  have col_row: "\<exists>x. row_of db (key_of db col) = Some x \<and> pm_id x = np_package_id col" if "col \<in> set ?cols" for col
    using key_of_row [OF dbok] fk that by blast
  have keys: "distinct (map (key_of db) ?cols)"
  proof -
    have "inj_on (key_of db) (set ?cols)"
    proof (rule inj_onI)
      fix x y assume "x \<in> set ?cols" "y \<in> set ?cols" "key_of db x = key_of db y"
      then have "np_package_id x = np_package_id y" using col_row by (metis option.inject)
      then show "x = y" using \<open>x \<in> set ?cols\<close> \<open>y \<in> set ?cols\<close> stored_columns_ids [OF wft, of acc sys]
        by (simp add: distinct_map inj_on_def)
    qed
    then show ?thesis using stored_columns_ids [OF wft, of acc sys] by (simp add: distinct_map)
  qed
  have m_get: "gm_get m k = (case find (\<lambda>col. key_of db col = k) ?cols of
      None \<Rightarrow> gm_get m0 k | Some col \<Rightarrow> Some (with_stored (gm_get m0 k) col))" for k
    unfolding m_def by (rule stored_fold_get [OF keys])
  have find_col: "find (\<lambda>col. key_of db col = k) ?cols = Some col \<longleftrightarrow> col \<in> set ?cols \<and> key_of db col = k" for k col
    by (rule find_Some_iff_unique [OF keys])
  have m_col: "gm_get m (key_of db col) = Some (with_stored (gm_get m0 (key_of db col)) col)" if "col \<in> set ?cols" for col
    using find_col [of "key_of db col" col] that by (simp add: m_get)
  have m_written: "\<exists>q. gm_get m0 k = Some q \<and> np_package_id q = np_package_id p
      \<and> np_installable_id q = np_installable_id p \<and> np_applicable_id q = np_applicable_id p"
    if "gm_get m k = Some p" "np_written p" for k p
  proof (cases "find (\<lambda>col. key_of db col = k) ?cols")
    case None
    then show ?thesis using that(1) by (simp add: m_get)
  next
    case (Some col)
    then have "p = with_stored (gm_get m0 k) col" using that(1) by (simp add: m_get)
    then show ?thesis using that(2) by (cases "gm_get m0 k") (auto simp: with_stored_def np_written_def)
  qed
  have m_removed: "\<exists>col. col \<in> set ?cols \<and> key_of db col = k \<and> gm_get m0 k = None \<and> np_package_id col = np_package_id p"
    if "gm_get m k = Some p" "np_change p = Remove" for k p
  proof (cases "find (\<lambda>col. key_of db col = k) ?cols")
    case None
    then have "gm_get m0 k = Some p" using that(1) by (simp add: m_get)
    then show ?thesis using m0_row [of k p] that(2) by simp
  next
    case (Some col)
    then have "p = with_stored (gm_get m0 k) col" using that(1) by (simp add: m_get)
    then show ?thesis using that(2) Some find_col
      by (cases "gm_get m0 k") (auto simp: with_stored_def split: if_splits)
  qed
  have uniqm: "uniq_ids np_written m"
    unfolding uniq_ids_def using m_written m0_inj by metis
  have wfm: "wf_gomap m" unfolding m_def m0_def by (intro stored_fold_wf listed_loop_wf) simp
  obtain t where t: "update_system_packages True no_faults edb system m = Inr (edb\<lparr>t_system_packages := t\<rparr>)" "wf_gomap t"
    "\<And>a y i. a \<noteq> acc \<or> y \<noteq> sys \<Longrightarrow> gm_get t (a, y, i) = gm_get (t_system_packages edb) (a, y, i)"
    "\<And>k p. gm_get m k = Some p \<Longrightarrow> np_written p \<Longrightarrow>
       map_option snd (gm_get t (acc, sys, np_package_id p)) = Some (np_installable_id p, np_applicable_id p)"
    "\<And>i. (\<And>k p. gm_get m k = Some p \<Longrightarrow> np_written p \<Longrightarrow> np_package_id p \<noteq> i) \<Longrightarrow>
       gm_get t (acc, sys, i) = (if \<exists>k p. gm_get m k = Some p \<and> np_change p = Remove \<and> np_package_id p = i then None
         else gm_get (t_system_packages edb) (acc, sys, i))"
    unfolding acc_def sys_def
    by (rule update_system_packages_get [where faults = no_faults and system = system,
          OF wfm uniqm wft no_faults_ok no_faults_ok]) blast
  have rows: "map_option snd (gm_get t (acc, sys, i)) = listed_latest db r i" for i
  proof (cases "find (\<lambda>p. np_package_id p = i) (listed db ?es)")
    case None
    have none: "gm_get m0 k = Some p \<Longrightarrow> np_package_id p \<noteq> i" for k p
      using None listed_mem unfolding m0_listed find_None_iff by blast
    have nw: "gm_get m k = Some p \<Longrightarrow> np_written p \<Longrightarrow> np_package_id p \<noteq> i" for k p
      using m_written none by metis
    have "gm_get t (acc, sys, i) = None"
    proof (cases "\<exists>col\<in>set ?cols. np_package_id col = i")
      case True
      then obtain col where col: "col \<in> set ?cols" "np_package_id col = i" by blast
      have "gm_get m0 (key_of db col) = None"
        using none m0_row col_row [OF col(1)] col(2) by (metis option.exhaust option.inject)
      then have "gm_get m (key_of db col) = Some (col\<lparr>np_change := Remove\<rparr>)"
        using m_col [OF col(1)] by (simp add: with_stored_def)
      then have "\<exists>k p. gm_get m k = Some p \<and> np_change p = Remove \<and> np_package_id p = i"
        using col(2) by (intro exI [of _ "key_of db col"] exI [of _ "col\<lparr>np_change := Remove\<rparr>"] conjI) simp_all
      then show ?thesis using t(5) [OF nw] by simp
    next
      case False
      have "gm_get (t_system_packages edb) (acc, sys, i) = None"
      proof (rule ccontr)
        assume "gm_get (t_system_packages edb) (acc, sys, i) \<noteq> None"
        then obtain n ins app where "gm_get (t_system_packages edb) (acc, sys, i) = Some (n, ins, app)" by auto
        then have "\<lparr>np_name_id = n, np_package_id = i, np_installable_id = ins, np_applicable_id = app,
            np_change = NoChange\<rparr> \<in> set ?cols"
          unfolding stored_columns_mem [OF wft] by simp
        then show False using False by force
      qed
      then show ?thesis using t(5) [OF nw] by simp
    qed
    then show ?thesis using None by (simp add: listed_latest_def)
  next
    case (Some p0)
    then have p0: "p0 \<in> set (listed db ?es)" "np_package_id p0 = i" by (auto simp: find_Some_iff)
    then obtain k where k: "gm_get m0 k = Some p0" using listed_mem unfolding m0_listed by blast
    have goal: "listed_latest db r i = Some (np_installable_id p0, np_applicable_id p0)"
      using Some by (simp add: listed_latest_def)
    show ?thesis
    proof (cases "\<exists>p. gm_get m k = Some p \<and> np_written p")
      case True
      then obtain p where p: "gm_get m k = Some p" "np_written p" by blast
      then show ?thesis using m_written [OF p] t(4) [OF p] k p0(2) goal by auto
    next
      case False
      obtain col where col: "col \<in> set ?cols" "key_of db col = k"
      proof (cases "find (\<lambda>col. key_of db col = k) ?cols")
        case None
        then have "gm_get m k = Some p0" using k by (simp add: m_get)
        moreover have "np_written p0" using m0_row [OF k] unfolding np_written_def by blast
        ultimately show thesis using False by blast
      next
        case (Some col)
        then show thesis using find_col that by blast
      qed
      have mk: "gm_get m k = Some (p0\<lparr>np_change := if latest_pkgs_changed p0 col then Update else Keep\<rparr>)"
        using m_col [OF col(1)] k col(2) by (simp add: with_stored_def)
      then have same: "\<not> latest_pkgs_changed p0 col" using False by (auto simp: np_written_def)
      have id: "np_package_id col = i" using col_row [OF col(1)] m0_row [OF k] col(2) p0(2) by auto
      have old: "map_option snd (gm_get (t_system_packages edb) (acc, sys, i))
          = Some (np_installable_id p0, np_applicable_id p0)"
        using col(1) id same unfolding stored_columns_mem [OF wft] latest_unchanged by simp
      have nw: "gm_get m j = Some p \<Longrightarrow> np_written p \<Longrightarrow> np_package_id p \<noteq> i" for j p
      proof
        assume j: "gm_get m j = Some p" "np_written p" "np_package_id p = i"
        then have "j = k" using m_written [OF j(1,2)] m0_inj k p0(2) by metis
        then show False using False j by blast
      qed
      have tv: "gm_get t (acc, sys, i) = (if \<exists>k p. gm_get m k = Some p \<and> np_change p = Remove \<and> np_package_id p = i
          then None else gm_get (t_system_packages edb) (acc, sys, i))"
        by (rule t(5)) (rule nw)
      have "\<not> (\<exists>j p. gm_get m j = Some p \<and> np_change p = Remove \<and> np_package_id p = i)"
      proof
        assume "\<exists>j p. gm_get m j = Some p \<and> np_change p = Remove \<and> np_package_id p = i"
        then obtain j p where j: "gm_get m j = Some p" "np_change p = Remove" "np_package_id p = i" by blast
        obtain col' where col': "col' \<in> set ?cols" "key_of db col' = j" "gm_get m0 j = None" "np_package_id col' = i"
          using m_removed [OF j(1,2)] j(3) by auto
        have "col' = col"
          using stored_columns_ids [OF wft, of acc sys] col' col(1) id by (simp add: distinct_map inj_on_def)
        then show False using col' col k by simp
      qed
      then have "gm_get t (acc, sys, i) = gm_get (t_system_packages edb) (acc, sys, i)" unfolding tv by (simp only: if_False)
      then show ?thesis using old goal by simp
    qed
  qed
  obtain c1 where c1: "update_list_loop env db ?es c [] ?z = Some (m0, snd (listed_loop db ?es [] ?z), c1)"
    "coherent env db c1" "pc_enabled c1"
    using update_list_loop_up [OF inv] unfolding m0_def by blast
  obtain c2 where c2: "stored_packages_loop env db ?cols c1 m0 = Some (Inr m, c2)" "coherent env db c2" "pc_enabled c2"
    using stored_loop_up [OF c1(2,3) inv(3) fk] unfolding m_def by blast
  have load: "load_packages env no_faults db edb system r c = Some (Inr (m, snd (listed_loop db ?es [] ?z)), c2)"
    using c1(1) c2(1) unfolding acc_def sys_def
    by (simp add: load_packages_def packages_from_update_list_def load_system_nevras_from_db_def no_faults_ok)
  show ?thesis
    using load c2(2,3) t(1,2,3) rows
    by (intro exI [of _ m] exI [of _ c2] exI [of _ "edb\<lparr>t_system_packages := t\<rparr>"] conjI)
      (auto simp: stored_latest_def)
qed

section \<open>Properties\<close>

text \<open>C8.  After a package evaluation the rows of the system in \<open>system_package2\<close> are exactly the
  packages VMaaS listed for it that the tables know (public keys left out), each with the id of
  the last named update with status installable and of the last one with status applicable in its
  own update list; no other row changes.  It holds for every enabled cache whose entries carry the
  identity of rows of the tables (whichever of them it holds and whatever their texts), while the
  database is up, when the stored packages of the system are in the tables and no two listed names
  mean the same package.\<close>

theorem stored_packages_are_listed:
  assumes "coherent env db c" "pc_enabled c" "\<not> d_down db"
    and "wf_gomap (update_entries r)" "wf_gomap (t_system_packages edb)"
    and "\<forall>col\<in>set (stored_columns edb (si_account (pl_inventory system)) (si_id (pl_inventory system))).
           meta_of db (np_package_id col) \<noteq> None"
    and "distinct (map np_package_id (listed db (update_entries r)))"
  shows "\<exists>m cnt c' edb'. load_packages env no_faults db edb system r c = Some (Inr (m, cnt), c')
      \<and> update_system_packages True no_faults edb system m = Inr edb'
      \<and> (\<forall>a y i. stored_latest edb' a y i =
           (if a = si_account (pl_inventory system) \<and> y = si_id (pl_inventory system) then listed_latest db r i
            else stored_latest edb a y i))"
  using package_rows_refine [OF assms] by blast

text \<open>The three counts of a system are the numbers of its known packages, of those with an
  installable update and of those with any update, so that installable never exceeds applicable
  and applicable never exceeds installed.\<close>

theorem package_counts:
  assumes "coherent env db c" "pc_enabled c" "\<not> d_down db"
    and "packages_from_update_list env db c r = Some (m, cnt, c')"
  shows "cnt_installed cnt = int (length (listed db (update_entries r)))
    \<and> cnt_installable cnt = int (length (filter (\<lambda>p. np_installable_id p \<noteq> None) (listed db (update_entries r))))
    \<and> 0 \<le> cnt_installable cnt \<and> cnt_installable cnt \<le> cnt_applicable cnt \<and> cnt_applicable cnt \<le> cnt_installed cnt"
proof -
  let ?es = "update_entries r" and ?z = "\<lparr>cnt_installed = 0, cnt_installable = 0, cnt_applicable = 0\<rparr>"
  let ?i = "\<lambda>p. np_installable_id p \<noteq> None" and ?a = "\<lambda>p. np_installable_id p \<noteq> None \<or> np_applicable_id p \<noteq> None"
  have "cnt = snd (listed_loop db ?es [] ?z)"
    using update_list_loop_up [OF assms(1-3), of ?es "[]" ?z] assms(4) by (auto simp: packages_from_update_list_def)
  then have c: "cnt = \<lparr>cnt_installed = int (length (listed db ?es)),
      cnt_installable = int (length (filter ?i (listed db ?es))),
      cnt_applicable = int (length (filter ?a (listed db ?es)))\<rparr>"
    by (simp add: listed_loop_counts)
  have "length (filter ?i xs) \<le> length (filter ?a xs)" for xs by (induction xs) auto
  then show ?thesis unfolding c by simp
qed

section \<open>Witnesses\<close>

definition sample_listing :: "updates_response option" where
  "sample_listing = Some \<lparr>ur_update_list = Some [(''foo-0:1-1.x'', None), (''gpg-pubkey-1-1.x'', None)],
     ur_repository_list = None, ur_modules_list = None, ur_releasever = None, ur_basearch = None,
     ur_last_change = None, ur_build_pkgcache = None\<rparr>"

definition sample_edb :: eval_db where
  "sample_edb = sample_db\<lparr>t_system_packages := [((1, 10, 5), (1, Some 5, None)), ((1, 11, 5), (1, None, None))]\<rparr>"

lemma sample_inv: "coherent sample_env sample_packages (sample_cache True)"
  by (rule cache_run_coherent [OF sample_cache_run sample_env_ok sample_packages_ok]) simp

theorem stored_packages_are_listed_witness:
  "\<exists>m cnt c' edb'. load_packages sample_env no_faults sample_packages sample_edb sample_system sample_listing
        (sample_cache True) = Some (Inr (m, cnt), c')
      \<and> update_system_packages True no_faults sample_edb sample_system m = Inr edb'
      \<and> stored_latest edb' 1 10 5 = Some (None, None)"
proof -
  have h: "wf_gomap (update_entries sample_listing)" "wf_gomap (t_system_packages sample_edb)"
    "\<forall>col\<in>set (stored_columns sample_edb (si_account (pl_inventory sample_system)) (si_id (pl_inventory sample_system))).
       meta_of sample_packages (np_package_id col) \<noteq> None"
    "distinct (map np_package_id (listed sample_packages (update_entries sample_listing)))"
    "listed_latest sample_packages sample_listing 5 = Some (None, None)"
    "si_account (pl_inventory sample_system) = 1" "si_id (pl_inventory sample_system) = 10"
    by code_simp+
  show ?thesis
    using stored_packages_are_listed [OF sample_inv _ sample_packages_up h(1,2,3,4)] h(5,6,7)
    by fastforce
qed

theorem package_counts_witness:
  "\<exists>m cnt c'. packages_from_update_list sample_env sample_packages (sample_cache True) sample_listing = Some (m, cnt, c')
     \<and> cnt_installed cnt = 1"
proof -
  obtain m cnt c' where r: "packages_from_update_list sample_env sample_packages (sample_cache True) sample_listing
      = Some (m, cnt, c')"
    using update_list_loop_up [OF sample_inv _ sample_packages_up, of "update_entries sample_listing" "[]"
        "\<lparr>cnt_installed = 0, cnt_installable = 0, cnt_applicable = 0\<rparr>"]
    by (auto simp: packages_from_update_list_def)
  have "length (listed sample_packages (update_entries sample_listing)) = 1" by code_simp
  then show ?thesis using package_counts [OF sample_inv _ sample_packages_up r] r by auto
qed

end
