(* ===== verification/PackageLazyLaws.thy ===== *)
theory PackageLazyLaws
  imports PackageLaws
begin

text \<open>
  Lazy saving of packages and the cache: whatever fails while unknown names and packages are
  inserted, the tables stay well-formed and keep every row, so that the cache stays coherent with
  them; and a package map that was loaded while some statement could fail is the one that is
  loaded when none can.
\<close>

section \<open>Growing tables\<close>

definition rows_grow :: "package_db \<Rightarrow> package_db \<Rightarrow> bool" where
  "rows_grow db db' \<longleftrightarrow> set (d_names db) \<subseteq> set (d_names db') \<and> set (pkg_view db) \<subseteq> set (pkg_view db')
     \<and> d_down db' = d_down db"

lemma rows_grow_refl [simp]: "rows_grow db db"
  by (simp add: rows_grow_def)

lemma rows_grow_trans: "rows_grow db db' \<Longrightarrow> rows_grow db' db'' \<Longrightarrow> rows_grow db db''"
  by (auto simp: rows_grow_def)

lemma rows_grow_keeps: "rows_grow db db' \<Longrightarrow> keeps_rows db db'"
  by (auto simp: rows_grow_def keeps_rows_def)

lemma known_name_id: "package_db_ok db \<Longrightarrow> (i, name) \<in> set (d_names db) \<Longrightarrow> 0 < i \<and> i < d_next_name db"
  by (auto simp: package_db_ok_def)

lemma package_db_okD:
  assumes "package_db_ok db"
  shows "distinct (map pr_id (d_packages db))" "distinct (map fst (d_names db))" "distinct (map snd (d_names db))"
    "distinct (map (\<lambda>p. (pr_name_id p, pr_evra p)) (d_packages db))"
    "\<forall>p\<in>set (d_packages db). pr_name_id p \<in> fst ` set (d_names db)"
    "\<forall>p\<in>set (d_packages db). pr_id p < d_next_package db"
    "\<forall>(i, name)\<in>set (d_names db). 0 < i \<and> i < d_next_name db" "0 < d_next_name db"
    "\<forall>m\<in>set (pkg_view db). canonical m"
  using assms unfolding package_db_ok_def by blast+

lemma update_package_name_db_ok:
  assumes "package_db_ok db" "update_package_name_db faults db name = (err, i, db')"
  shows "package_db_ok db' \<and> rows_grow db db' \<and> (i = 0 \<or> (i, name) \<in> set (d_names db'))"
proof (cases "db' = db \<and> i = 0")
  case True
  then show ?thesis using assms(1) by simp
next
  case False
  then have new: "name \<notin> snd ` set (d_names db)" "i = d_next_name db"
    "db' = db\<lparr>d_names := d_names db @ [(d_next_name db, name)], d_next_name := d_next_name db + 1\<rparr>"
    using assms(2) by (auto simp: update_package_name_db_def split: if_splits)
  have free: "pr_name_id p \<noteq> d_next_name db" if "p \<in> set (d_packages db)" for p
  proof -
    have "pr_name_id p \<in> fst ` set (d_names db)" using package_db_okD(5) [OF assms(1)] that by blast
    then obtain x where "(pr_name_id p, x) \<in> set (d_names db)" by auto
    from known_name_id [OF assms(1) this] show ?thesis by simp
  qed
  have view: "set (pkg_view db') = set (pkg_view db)"
    using free by (auto simp: pkg_view_mem new(3))
  have fresh: "d_next_name db \<notin> fst ` set (d_names db)" using known_name_id [OF assms(1)] by force
  have range: "\<forall>(j, x)\<in>set (d_names db'). 0 < j \<and> j < d_next_name db'"
    using known_name_id [OF assms(1)] package_db_okD(8) [OF assms(1)] unfolding new(3) by force
  have "package_db_ok db'"
    unfolding package_db_ok_def view
  proof (intro conjI range)
    show "distinct (map fst (d_names db'))" "distinct (map snd (d_names db'))"
      using package_db_okD(2,3) [OF assms(1)] fresh new(1) by (simp_all add: new(3))
    show "\<forall>p\<in>set (d_packages db'). pr_name_id p \<in> fst ` set (d_names db')"
      using package_db_okD(5) [OF assms(1)] by (auto simp: new(3))
  qed (use package_db_okD [OF assms(1)] in \<open>simp_all add: new(3)\<close>)
  then show ?thesis using view by (auto simp: rows_grow_def new(2,3))
qed

section \<open>The rows that are to be inserted\<close>

definition pending_ok :: "package_db \<Rightarrow> package_row \<Rightarrow> bool" where
  "pending_ok db p \<longleftrightarrow> pr_name_id p = 0 \<or>
     (\<exists>n. nevra_wf n \<and> (pr_name_id p, nv_name n) \<in> set (d_names db) \<and> pr_evra p = evra_string n)"

lemma pending_grows: "pending_ok db p \<Longrightarrow> rows_grow db db' \<Longrightarrow> pending_ok db' p"
  by (auto simp: pending_ok_def rows_grow_def)

lemma latest_by_name_same:
  assumes "coherent env db c" "pc_enabled c" "get_latest_by_name env db c name = Some (v, c')"
  shows "coherent env db c' \<and> pc_enabled c' \<and> (\<forall>m. v = Some m \<longrightarrow> (pm_name_id m, name) \<in> set (d_names db))"
proof -
  have inv: "cache_inv env (same_rows db) db c" and ok: "package_db_ok db" using assms(1) by (simp_all add: coherent_def)
  from latest.get_step [OF inv assms(3) [unfolded get_latest_by_name_def]]
  have step: "cache_inv env (same_rows db) db c'" "\<forall>m. v = Some m \<longrightarrow> name_row (same_rows db) name m" by simp_all
  have "pc_enabled c'"
  proof (cases "read_latest_by_name db name")
    case (Some r)
    then show ?thesis using latest.get_enabled [OF inv assms(2) Some] assms(3) by (auto simp: get_latest_by_name_def)
  next
    case None
    obtain w c1 where "hit_latest_by_name env c name = Some (w, c1)" "pc_enabled c1"
      using hit_frame(3) [OF inv assms(2)] by blast
    then show ?thesis using assms(2,3) None by (auto simp: get_latest_by_name_def cached_get_def split: option.splits)
  qed
  moreover have "(pm_name_id m, name) \<in> set (d_names db)" if m: "v = Some m" for m
  proof -
    obtain m0 where "m0 \<in> set (pkg_view db)" "ident m0 = ident m" "pm_name m = name"
      using step(2) m by (auto simp: name_row_def same_rows_mem)
    then show ?thesis by (auto simp: pkg_view_mem ident_def)
  qed
  ultimately show ?thesis using step(1) ok by (simp add: coherent_def)
qed

lemma get_missing_package_ok:
  assumes "coherent env db c" "pc_enabled c" "nevra_wf parsed"
    and "get_missing_package env faults parsed (c, db) = Some (pkg, (c', db'))"
  shows "coherent env db' c' \<and> pc_enabled c' \<and> rows_grow db db' \<and> pending_ok db' pkg"
proof -
  obtain v c1 where l: "get_latest_by_name env db c (nv_name parsed) = Some (v, c1)"
    using assms(4) by (auto simp: get_missing_package_def bind_eq_Some_conv)
  note l1 = latest_by_name_same [OF assms(1,2) l]
  show ?thesis
  proof (cases v)
    case (Some m)
    then have "c' = c1" "db' = db" "pr_name_id pkg = pm_name_id m" "pr_evra pkg = evra_string parsed"
      using assms(4) l by (auto simp: get_missing_package_def)
    then show ?thesis using l1 assms(3) Some by (auto simp: pending_ok_def)
  next
    case None
    obtain err i db1 where u: "update_package_name_db faults db (nv_name parsed) = (err, i, db1)"
      by (cases "update_package_name_db faults db (nv_name parsed)")
    have ok: "package_db_ok db1" "rows_grow db db1" "i = 0 \<or> (i, nv_name parsed) \<in> set (d_names db1)"
      using update_package_name_db_ok [OF _ u] assms(1) by (simp_all add: coherent_def)
    have r: "c' = c1" "db' = db1" "pr_evra pkg = evra_string parsed"
      "pr_name_id pkg = (if i = 0 then (case find (\<lambda>(j, name). name = nv_name parsed) (d_names db1) of
           None \<Rightarrow> 0 | Some (j, name) \<Rightarrow> if d_down db1 then 0 else j) else i)"
      using assms(4) l None u by (auto simp: get_missing_package_def Let_def)
    have "pr_name_id pkg = 0 \<or> (pr_name_id pkg, nv_name parsed) \<in> set (d_names db1)"
    proof (cases "find (\<lambda>(j, name). name = nv_name parsed) (d_names db1)")
      case None
      then show ?thesis using ok(3) r(4) by (cases "i = 0") simp_all
    next
      case (Some x)
      obtain j y where x: "x = (j, y)" by (cases x)
      have "(j, y) \<in> set (d_names db1)" "y = nv_name parsed"
        using Some unfolding x by (auto simp: find_Some_iff) (metis nth_mem)
      then show ?thesis using ok(3) r(4) Some x by (cases "i = 0") simp_all
    qed
    then have "pending_ok db1 pkg" using r(3) assms(3) by (auto simp: pending_ok_def)
    moreover have "coherent env db1 c1" using coherent_keeps [OF _ ok(1) rows_grow_keeps [OF ok(2)]] l1 by blast
    ultimately show ?thesis using l1 ok(2) r(1,2) by simp
  qed
qed

lemma get_missing_loop_ok:
  assumes "coherent env db c" "pc_enabled c" "\<forall>(s, n)\<in>set ns. nevra_wf n" "\<forall>p\<in>set packages. pending_ok db p"
    and "get_missing_loop env faults ns packages (c, db) = Some (packages', (c', db'))"
  shows "coherent env db' c' \<and> pc_enabled c' \<and> rows_grow db db' \<and> (\<forall>p\<in>set packages'. pending_ok db' p)"
  using assms
proof (induction ns arbitrary: packages c db)
  case (Cons x ns)
  obtain s n where x: "x = (s, n)" by (cases x)
  obtain pkg c1 db1 where g: "get_missing_package env faults n (c, db) = Some (pkg, (c1, db1))"
    and rest: "get_missing_loop env faults ns (packages @ [pkg]) (c1, db1) = Some (packages', (c', db'))"
    using Cons.prems(5) by (auto simp: x bind_eq_Some_conv)
  have st: "coherent env db1 c1" "pc_enabled c1" "rows_grow db db1" "pending_ok db1 pkg"
    using get_missing_package_ok [OF Cons.prems(1,2) _ g] Cons.prems(3) x by simp_all
  have "\<forall>p\<in>set (packages @ [pkg]). pending_ok db1 p" using Cons.prems(4) st(3,4) pending_grows by auto
  from Cons.IH [OF st(1,2) _ this rest] Cons.prems(3) show ?case using rows_grow_trans [OF st(3)] by auto
qed auto

lemma insert_packages_ok:
  assumes "package_db_ok db" "\<forall>p\<in>set ps. pending_ok db p \<and> pr_name_id p \<in> fst ` set (d_names db)"
  shows "package_db_ok (insert_packages ps db) \<and> rows_grow db (insert_packages ps db)"
  using assms
proof (induction ps db rule: insert_packages.induct)
  case (2 p ps db)
  show ?case
  proof (cases "\<exists>q\<in>set (d_packages db). pr_name_id q = pr_name_id p \<and> pr_evra q = pr_evra p")
    case True
    then show ?thesis using "2.IH"(1) "2.prems" by simp
  next
    case False
    let ?db = "db\<lparr>d_packages := d_packages db @ [p\<lparr>pr_id := d_next_package db\<rparr>], d_next_package := d_next_package db + 1\<rparr>"
    obtain x where x: "(pr_name_id p, x) \<in> set (d_names db)" using "2.prems"(2) by force
    have "pr_name_id p \<noteq> 0" using known_name_id [OF "2.prems"(1) x] by simp
    then obtain n where n: "nevra_wf n" "(pr_name_id p, nv_name n) \<in> set (d_names db)" "pr_evra p = evra_string n"
      using "2.prems"(2) by (auto simp: pending_ok_def)
    have uniq: "name = nv_name n" if "(pr_name_id p, name) \<in> set (d_names db)" for name
      by (rule eq_key_imp_eq_value [OF package_db_okD(2) [OF "2.prems"(1)] that n(2)])
    have view: "m \<in> set (pkg_view ?db) \<longleftrightarrow> m \<in> set (pkg_view db) \<or> (pm_id m = d_next_package db \<and> pm_name_id m = pr_name_id p
        \<and> pm_name m = nv_name n \<and> pm_evra m = pr_evra p \<and> pm_summary m = pr_summary p \<and> pm_description m = pr_description p)" for m
    proof -
      have name: "(pr_name_id p, x) \<in> set (d_names db) \<longleftrightarrow> x = nv_name n" for x using uniq n(2) by blast
      show ?thesis by (simp add: pkg_view_mem name) blast
    qed
    have g: "rows_grow db ?db" using view by (auto simp: rows_grow_def)
    have new: "\<forall>q\<in>set (d_packages db). pr_id q < d_next_package db" by (rule package_db_okD(6) [OF "2.prems"(1)])
    have canon: "\<forall>m\<in>set (pkg_view ?db). canonical m"
      using package_db_okD(9) [OF "2.prems"(1)] n unfolding view Ball_def by (auto simp: canonical_def)
    have fresh: "(pr_name_id p, pr_evra p) \<notin> (\<lambda>q. (pr_name_id q, pr_evra q)) ` set (d_packages db)"
      using False by (auto simp: image_iff)
    have ids: "d_next_package db \<notin> pr_id ` set (d_packages db)" "\<forall>q\<in>set (d_packages db). pr_id q < d_next_package db + 1"
      using new by force+
    have "package_db_ok ?db"
      unfolding package_db_ok_def
    proof (intro conjI canon)
      show "distinct (map pr_id (d_packages ?db))"
        using package_db_okD(1) [OF "2.prems"(1)] ids(1) by simp
      show "distinct (map (\<lambda>p. (pr_name_id p, pr_evra p)) (d_packages ?db))"
        using package_db_okD(4) [OF "2.prems"(1)] fresh by simp
      show "\<forall>p\<in>set (d_packages ?db). pr_name_id p \<in> fst ` set (d_names ?db)"
        using package_db_okD(5) [OF "2.prems"(1)] "2.prems"(2) by simp
      show "\<forall>p\<in>set (d_packages ?db). pr_id p < d_next_package ?db" using ids(2) by simp
    qed (use package_db_okD [OF "2.prems"(1)] in simp_all)
    moreover have "\<forall>q\<in>set ps. pending_ok ?db q \<and> pr_name_id q \<in> fst ` set (d_names ?db)"
      using "2.prems"(2) pending_grows [OF _ g] by simp
    ultimately have "package_db_ok (insert_packages ps ?db) \<and> rows_grow ?db (insert_packages ps ?db)"
      using "2.IH"(2) [OF False] by blast
    moreover have "insert_packages (p # ps) db = insert_packages ps ?db" using False by (simp only: insert_packages.simps if_False)
    ultimately show ?thesis using rows_grow_trans [OF g] by (simp only:)
  qed
qed simp

lemma parse_all_wf:
  "\<forall>(s, n)\<in>set m. parse_nevra s = Inr n \<Longrightarrow> \<forall>(s, n)\<in>set (parse_all ss m). parse_nevra s = Inr n"
proof (induction ss m rule: parse_all.induct)
  case (2 s ss parsed)
  have put: "x \<in> set (gm_put k v l) \<Longrightarrow> x = (k, v) \<or> x \<in> set l" for x k v and l :: "(string \<times> nevra) list"
    by (induction l) (auto split: if_splits)
  show ?case
  proof (cases "parse_nevra s")
    case (Inr n)
    then have "\<forall>(t, k)\<in>set (gm_put s n parsed). parse_nevra t = Inr k" using "2.prems" put by fastforce
    then show ?thesis using "2.IH"(2) Inr by simp
  qed (use 2 in simp)
qed simp

lemma get_by_nevras_missing:
  assumes "get_by_nevras env db c ss = Some ((found, missing, b), c')"
  shows "\<forall>(s, n)\<in>set missing. nevra_wf n"
proof -
  have all: "\<forall>(s, n)\<in>set (parse_all ts []). parse_nevra s = Inr n" for ts by (rule parse_all_wf) simp
  have read: "\<forall>(s, n)\<in>set mis. parse_nevra s = Inr n" if "read_by_nevras db ts = Some (ms, mis)" for ts ms mis
    using that all [of ts] by (auto simp: read_by_nevras_def Let_def bind_eq_Some_conv)
  obtain cached absent c1 where sp:
    "(if pc_enabled c then split_cached env ss c [] [] else Some ([], [], c)) = Some (cached, absent, c1)"
    using assms unfolding get_by_nevras_def by (elim bind_eq_Some_conv [THEN iffD1, THEN exE] conjE) (metis prod_cases3)
  have "\<forall>(s, n)\<in>set missing. parse_nevra s = Inr n"
  proof (cases "pc_enabled c1 \<and> absent = []")
    case True
    then show ?thesis using assms by (simp add: get_by_nevras_def sp)
  next
    case False
    let ?ts = "if absent = [] then ss else absent"
    obtain ms mis where rd: "read_by_nevras db ?ts = Some (ms, mis)"
      using assms False by (cases "read_by_nevras db ?ts") (auto simp: get_by_nevras_def sp)
    have "missing = mis" using assms False rd
      by (simp add: get_by_nevras_def sp bind_eq_Some_conv del: append_is_Nil_conv split: if_splits) 
    then show ?thesis using read [OF rd] by simp
  qed
  then show ?thesis using parse_nevra_wf by fast
qed

section \<open>Lazy saving\<close>

lemma lazy_save_packages_ok:
  assumes "coherent env db c" "pc_enabled c"
    and "lazy_save_packages lz env faults r (c, db) = Some (err, (c', db'))"
  shows "coherent env db' c' \<and> pc_enabled c' \<and> rows_grow db db'"
proof (cases lz)
  case False
  then show ?thesis using assms by (simp add: lazy_save_packages_def)
next
  case True
  obtain found mis b c1 missing db1 where
    n: "get_by_nevras env db c (listed_nevras r) = Some ((found, mis, b), c1)" and
    l: "get_missing_loop env faults mis [] (c1, db) = Some (missing, (c', db1))" and
    u: "update_package_db faults db1 missing = (err, db')"
  proof -
    obtain missing c2 db2 where g: "get_missing_packages env faults r (c, db) = Some (missing, (c2, db2))"
      using assms(3) True by (auto simp: lazy_save_packages_def bind_eq_Some_conv)
    obtain found mis b c1 where n: "get_by_nevras env db c (listed_nevras r) = Some ((found, mis, b), c1)"
      using g by (auto simp: get_missing_packages_def bind_eq_Some_conv)
    have "get_missing_loop env faults mis [] (c1, db) = Some (missing, (c2, db2))"
      using g n by (simp add: get_missing_packages_def)
    moreover have "c2 = c'" "update_package_db faults db2 missing = (err, db')"
      using assms(3) True g by (cases "update_package_db faults db2 missing", simp add: lazy_save_packages_def)+
    ultimately show thesis using that n by blast
  qed
  have "coherent env db c1 \<and> pc_enabled c1"
    using get_by_nevras_inv [OF _ n, of "same_rows db"] assms(1,2) by (simp add: coherent_def)
  then have st: "coherent env db1 c'" "pc_enabled c'" "rows_grow db db1" "\<forall>p\<in>set missing. pending_ok db1 p"
    using get_missing_loop_ok [OF _ _ get_by_nevras_missing [OF n] _ l] by simp_all
  have ok: "package_db_ok db1" using st(1) by (simp add: coherent_def)
  have "package_db_ok db' \<and> rows_grow db1 db'"
    using u insert_packages_ok [OF ok, of missing] st(4) ok by (auto simp: update_package_db_def split: if_splits)
  then show ?thesis using coherent_keeps [OF st(1) _ rows_grow_keeps] st(2,3) rows_grow_trans by blast
qed

section \<open>Faults\<close>

lemma load_packages_faults:
  "load_packages env faults db edb system r c = Some (Inr x, c')
   \<Longrightarrow> load_packages env no_faults db edb system r c = Some (Inr x, c')"
  by (auto simp: load_packages_def load_system_nevras_from_db_def no_faults_def bind_eq_Some_conv split: if_splits)

lemma update_system_packages_faults:
  "update_system_packages an faults edb system m = Inr db'
   \<Longrightarrow> update_system_packages an no_faults edb system m = Inr db'"
  by (cases "split_packages system m (sort (map fst m)) []")
    (auto simp: update_system_packages_def delete_old_system_packages_def no_faults_def split: if_splits)

end
