(* ===== verification/EvaluateStored.thy ===== *)
theory EvaluateStored
  imports Evaluate PackageLazyLaws
begin

text \<open>
  What the statements of an evaluation leave in each of the four tables they write, for any
  faults under which they succeed: \<open>system_advisories\<close>, \<open>advisory_account_data\<close>,
  \<open>system_package2\<close> and the row of the system.
\<close>

section \<open>Faults under which a statement succeeds\<close>

lemma lazy_advisories_faults:
  assumes "lazy_save_and_load_advisories an faults db system r = (Inr x, db1)"
  shows "lazy_save_and_load_advisories an no_faults db system r = (Inr x, db1)"
proof (cases an)
  case True
  obtain e db2 where l: "lazy_save_advisories faults db r = (e, db2)" by (cases "lazy_save_advisories faults db r")
  have e: "e = None" using assms True l by (cases e) (auto simp: lazy_save_and_load_advisories_def)
  have l': "lazy_save_advisories no_faults db r = (None, db2)"
    using l [unfolded e]
    by (auto simp: lazy_save_advisories_def get_missing_advisories_def get_advisory_metadata_ids_def
        store_missing_advisories_def no_faults_def Let_def split: if_splits sum.splits)
  obtain stored where s: "load_system_advisories faults StoredLoad db2 (si_account (pl_inventory system))
      (si_id (pl_inventory system)) = Inr stored" "\<not> faults StoredLoad"
    using assms True l e by (auto simp: lazy_save_and_load_advisories_def load_system_advisories_def split: if_splits)
  then have s': "load_system_advisories no_faults StoredLoad db2 (si_account (pl_inventory system))
      (si_id (pl_inventory system)) = Inr stored"
    by (simp add: load_system_advisories_def no_faults_def)
  obtain ext where c: "evaluate_changes faults db2 r stored = Inr ext" "x = Some ext" "db2 = db1"
    using assms True l e s(1) by (auto simp: lazy_save_and_load_advisories_def split: sum.splits)
  then have "evaluate_changes no_faults db2 r stored = Inr ext"
    by (auto simp: evaluate_changes_def load_missing_names_ids_def get_advisory_metadata_ids_def no_faults_def Let_def
        split: prod.splits sum.splits if_splits)
  then show ?thesis using True l' s' c(2,3) by (simp add: lazy_save_and_load_advisories_def)
qed (use assms in \<open>simp add: lazy_save_and_load_advisories_def\<close>)

text \<open>A failing check of the system makes the code skip the upsert, so it has to be excluded.\<close>

lemma store_advisory_faults:
  assumes "store_advisory_data an faults db system ext = Inr x" "\<not> faults CheckSystem"
  shows "store_advisory_data an no_faults db system ext = Inr x"
proof (cases an)
  case True
  obtain db1 where u: "update_system_advisories faults db system ext = Inr db1"
    using assms(1) True by (auto simp: store_advisory_data_def split: sum.splits)
  have u': "update_system_advisories no_faults db system ext = Inr db1"
    using u assms(2)
    by (cases "process_advisories system ext")
      (auto simp: update_system_advisories_def delete_old_system_advisories_def valid_system_def
        upsert_system_advisories_def no_faults_def Let_def split: if_splits)
  obtain rows where l: "load_system_advisories faults ReloadAdvisories db1 (si_account (pl_inventory system))
      (si_id (pl_inventory system)) = Inr rows"
    using assms(1) True u by (auto simp: store_advisory_data_def split: sum.splits)
  then have l': "load_system_advisories no_faults ReloadAdvisories db1 (si_account (pl_inventory system))
      (si_id (pl_inventory system)) = Inr rows"
    by (auto simp: load_system_advisories_def no_faults_def split: if_splits)
  obtain db2 where a: "update_advisory_account_data faults db1 system ext = Inr db2" "x = (Some rows, db2)"
    using assms(1) True u l by (auto simp: store_advisory_data_def split: sum.splits)
  then have "update_advisory_account_data no_faults db1 system ext = Inr db2"
    by (auto simp: update_advisory_account_data_def no_faults_def Let_def split: if_splits)
  then show ?thesis using True u' l' a(2) by (simp add: store_advisory_data_def)
qed (use assms in \<open>simp add: store_advisory_data_def\<close>)

section \<open>Advisories and account data\<close>

lemma reported_saved:
  assumes "wf_db db" "lazy_save_and_load_advisories True no_faults db system r = (Inr (Some ext), db1)"
  shows "reported_names r \<subseteq> am_name ` set (t_metadata db1)"
proof -
  obtain ms res where m: "lazy_save_and_load_advisories True no_faults db system r = (res, insert_metadata ms db)"
    "am_name ` set ms = {n \<in> reported_names r. lookup_metadata db n = None \<and> length n < 100}"
    "if \<exists>n\<in>reported_names r. lookup_metadata db n = None \<and> 100 \<le> length n then res = Inl NotLazySaved
     else (\<exists>ext. res = Inr (Some ext) \<and> wf_gomap ext
       \<and> (\<forall>n. gm_get ext n = change_for (map_option am_id (lookup_metadata (insert_metadata ms db) n))
                (advisory_status (response_updates r) n)
                (stored_row (insert_metadata ms db) (si_account (pl_inventory system)) (si_id (pl_inventory system)) n)))"
    by (rule lazy_save_and_load_no_faults [where system = system and r = r, OF assms(1)])
  have eq: "res = Inr (Some ext)" "db1 = insert_metadata ms db" using m(1) assms(2) by simp_all
  have "\<not> (\<exists>n\<in>reported_names r. lookup_metadata db n = None \<and> 100 \<le> length n)"
    using m(3) eq(1) by (auto split: if_splits)
  then show ?thesis
    unfolding eq(2) insert_metadata_names m(2) using lookup_metadata_None [of db] by fastforce
qed

text \<open>What an evaluation adds to the two counts of an advisory in the account's cache, from the
  status of the system's row before and after.\<close>

definition account_delta :: "int option \<Rightarrow> int option \<Rightarrow> int \<times> int" where
  "account_delta old new =
     (if old = new then (0, 0)
      else case new of None \<Rightarrow> (-1, if old = Some APPLICABLE then 0 else -1)
         | Some s \<Rightarrow> (if s = INSTALLABLE then 1 else 0, 1))"

lemma change_delta:
  assumes "e = change_for (Some v) new (map_option (\<lambda>s. \<lparr>sa_account = a, sa_system = y, sa_advisory_id = v,
          sa_advisory = m, sa_status = s\<rparr>) old)"
  shows "(case Option.bind e (aad_of acc) of None \<Rightarrow> 0 | Some r \<Rightarrow> aad_installable r) = fst (account_delta old new)"
    "(case Option.bind e (aad_of acc) of None \<Rightarrow> 0 | Some r \<Rightarrow> aad_applicable r) = snd (account_delta old new)"
  unfolding assms
  by (cases old; cases new; simp add: aad_of_def aad_row_def account_delta_def new_row_def)+

lemma aad_changes_account:
  "\<forall>(v, r)\<in>set m. aad_account r = acc \<Longrightarrow> \<forall>(v, r)\<in>set (aad_changes acc ext m). aad_account r = acc"
proof (induction acc ext m rule: aad_changes.induct)
  case (2 acc name a as m)
  have put: "(x, y) \<in> set (gm_put k w l) \<Longrightarrow> y = w \<or> (x, y) \<in> set l" for x y k w and l :: "(int \<times> advisory_account_data) list"
    by (induction l) (auto split: if_splits)
  show ?case
    unfolding aad_changes.simps Let_def
    by (rule "2.IH" [OF refl refl]) (use "2.prems" in \<open>auto simp: aad_row_def split: change.splits if_splits dest!: put\<close>)
qed simp

lemma update_account_data_other:
  assumes "update_advisory_account_data faults db system ext = Inr db'" "a \<noteq> si_account (pl_inventory system)"
  shows "gm_get (t_account_data db') (a, v) = gm_get (t_account_data db) (a, v)"
proof -
  let ?rows = "map (\<lambda>r. ((aad_account r, aad_advisory_id r), r)) (calc_advisory_changes system ext)"
  have "aad_account r = si_account (pl_inventory system)" if "r \<in> set (calc_advisory_changes system ext)" for r
    using that aad_changes_account [of "[]" "si_account (pl_inventory system)" ext]
    by (auto simp: calc_advisory_changes_def split: if_splits)
  then have "gm_get ?rows (a, v) = None" using assms(2) by (auto simp: map_of_eq_None_iff)
  then show ?thesis using assms(1)
    by (auto simp: update_advisory_account_data_def bulk_upsert_def upsert_all_get Let_def split: if_splits)
qed

lemma account_counts_other:
  "(\<And>v. gm_get (t_account_data db') (a, v) = gm_get (t_account_data db) (a, v)) \<Longrightarrow> account_counts db' a v = account_counts db a v"
  by (simp add: account_counts_def)

definition advisories_stored :: "updates_response option \<Rightarrow> int \<Rightarrow> int \<Rightarrow> eval_db \<Rightarrow> eval_db \<Rightarrow> bool" where
  "advisories_stored r acc sys db db' \<longleftrightarrow>
     reported_names r \<subseteq> am_name ` set (t_metadata db')
   \<and> (\<forall>a y v. gm_get (t_system_advisories db') (a, y, v) =
        (if a = acc \<and> y = sys
         then (case metadata_by_id db' v of None \<Rightarrow> None | Some m \<Rightarrow> advisory_status (response_updates r) (am_name m))
         else gm_get (t_system_advisories db) (a, y, v)))"

definition account_moved :: "bool \<Rightarrow> int \<Rightarrow> int \<Rightarrow> eval_db \<Rightarrow> eval_db \<Rightarrow> bool" where
  "account_moved stale acc sys db db' \<longleftrightarrow>
     (\<forall>a v. account_counts db' a v =
        (let (i, p) = account_counts db a v;
             (di, dp) = (if a = acc \<and> \<not> stale
                then account_delta (gm_get (t_system_advisories db) (acc, sys, v)) (gm_get (t_system_advisories db') (acc, sys, v))
                else (0, 0))
         in (i + di, p + dp)))"

lemma advisory_effect:
  fixes system :: system_platform
  defines "acc \<equiv> si_account (pl_inventory system)" and "sys \<equiv> si_id (pl_inventory system)"
  assumes wf: "wf_db db" and reg: "gm_has (t_inventory db) (acc, sys)"
    and lazy: "lazy_save_and_load_advisories True faults db system r = (Inr (Some ext), db1)"
    and store: "store_advisory_data True faults db1 system ext = Inr (rows, db2)" and check: "\<not> faults CheckSystem"
  shows "wf_db db2" "advisories_stored r acc sys db db2" "account_moved (si_stale (pl_inventory system)) acc sys db db2"
    "\<exists>t t'. db2 = db1\<lparr>t_system_advisories := t, t_account_data := t'\<rparr>"
proof -
  let ?st = "advisory_status (response_updates r)"
  note lz = lazy_advisories_faults [OF lazy] and sz = store_advisory_faults [OF store check]
  note e = lazy_save_and_load_ext [OF wf lz]
  have reg1: "gm_has (t_inventory db1) (acc, sys)" using reg e(5) by simp
  obtain rows' t t' where res: "store_advisory_data True no_faults db1 system ext
       = Inr (Some rows', db1\<lparr>t_system_advisories := t, t_account_data := t'\<rparr>)"
    and up: "update_advisory_account_data no_faults (db1\<lparr>t_system_advisories := t\<rparr>) system ext
       = Inr (db1\<lparr>t_system_advisories := t, t_account_data := t'\<rparr>)"
    and wf1: "wf_db (db1\<lparr>t_system_advisories := t\<rparr>)"
    and get: "\<And>a y v. gm_get t (a, y, v) = (if a = acc \<and> y = sys
       then (case metadata_by_id db1 v of None \<Rightarrow> None | Some m \<Rightarrow> ?st (am_name m))
       else gm_get (t_system_advisories db1) (a, y, v))"
    unfolding acc_def sys_def
    by (rule store_advisory_data_result [OF e(1) reg1 [unfolded acc_def sys_def] e(2,6)]) blast
  have db2: "db2 = db1\<lparr>t_system_advisories := t, t_account_data := t'\<rparr>" using res sz by simp
  show "wf_db db2" using wf1 by (simp add: db2 wf_db_def)
  show "\<exists>t t'. db2 = db1\<lparr>t_system_advisories := t, t_account_data := t'\<rparr>" using db2 by blast
  show "advisories_stored r acc sys db db2"
    using reported_saved [OF wf lz] get e(3) by (simp add: advisories_stored_def db2)
  have old: "gm_get (t_system_advisories db1) k = gm_get (t_system_advisories db) k" for k by (simp only: e(3))
  have new: "gm_get (t_system_advisories db2) (acc, sys, v)
      = (case metadata_by_id db1 v of None \<Rightarrow> None | Some m \<Rightarrow> ?st (am_name m))" for v
    using get by (simp add: db2)
  have delta: "(case Option.bind (entry_of ext v) (aad_of acc) of None \<Rightarrow> 0 | Some r \<Rightarrow> aad_installable r)
      = fst (account_delta (gm_get (t_system_advisories db) (acc, sys, v)) (gm_get (t_system_advisories db2) (acc, sys, v)))"
    "(case Option.bind (entry_of ext v) (aad_of acc) of None \<Rightarrow> 0 | Some r \<Rightarrow> aad_applicable r)
      = snd (account_delta (gm_get (t_system_advisories db) (acc, sys, v)) (gm_get (t_system_advisories db2) (acc, sys, v)))" for v
  proof -
    have entry: "entry_of ext v = (case metadata_by_id db1 v of None \<Rightarrow> None
      | Some m \<Rightarrow> change_for (Some v) (?st (am_name m))
          (map_option (\<lambda>s. \<lparr>sa_account = acc, sa_system = sys, sa_advisory_id = v, sa_advisory = m, sa_status = s\<rparr>)
            (gm_get (t_system_advisories db) (acc, sys, v))))"
      unfolding old [symmetric] acc_def sys_def by (rule changes_entry [OF e(1,2,6)])
    have "(case Option.bind (entry_of ext v) (aad_of acc) of None \<Rightarrow> 0 | Some r \<Rightarrow> aad_installable r)
        = fst (account_delta (gm_get (t_system_advisories db) (acc, sys, v)) (gm_get (t_system_advisories db2) (acc, sys, v)))
      \<and> (case Option.bind (entry_of ext v) (aad_of acc) of None \<Rightarrow> 0 | Some r \<Rightarrow> aad_applicable r)
        = snd (account_delta (gm_get (t_system_advisories db) (acc, sys, v)) (gm_get (t_system_advisories db2) (acc, sys, v)))"
    proof (cases "metadata_by_id db1 v")
      case None
      then show ?thesis using no_metadata_no_row [OF e(1) None, of acc sys] by (simp add: entry new old account_delta_def)
    next
      case (Some m)
      have n: "gm_get (t_system_advisories db2) (acc, sys, v) = ?st (am_name m)" using new Some by simp
      have en: "entry_of ext v = change_for (Some v) (?st (am_name m))
          (map_option (\<lambda>s. \<lparr>sa_account = acc, sa_system = sys, sa_advisory_id = v, sa_advisory = m, sa_status = s\<rparr>)
            (gm_get (t_system_advisories db) (acc, sys, v)))" using entry Some by simp
      show ?thesis unfolding n using change_delta [OF en] by blast
    qed
    then show "(case Option.bind (entry_of ext v) (aad_of acc) of None \<Rightarrow> 0 | Some r \<Rightarrow> aad_installable r)
      = fst (account_delta (gm_get (t_system_advisories db) (acc, sys, v)) (gm_get (t_system_advisories db2) (acc, sys, v)))"
      "(case Option.bind (entry_of ext v) (aad_of acc) of None \<Rightarrow> 0 | Some r \<Rightarrow> aad_applicable r)
      = snd (account_delta (gm_get (t_system_advisories db) (acc, sys, v)) (gm_get (t_system_advisories db2) (acc, sys, v)))"
      by blast+
  qed
  have base: "t_account_data (db1\<lparr>t_system_advisories := t\<rparr>) = t_account_data db" using e(4) by simp
  have acct: "account_counts db2 a v =
        (let (i, p) = account_counts db a v;
             (di, dp) = (if a = acc \<and> \<not> si_stale (pl_inventory system)
                then account_delta (gm_get (t_system_advisories db) (acc, sys, v)) (gm_get (t_system_advisories db2) (acc, sys, v))
                else (0, 0))
         in (i + di, p + dp))" for a v
  proof (cases "a = acc")
    case False
    have "gm_get (t_account_data db2) (a, v) = gm_get (t_account_data db) (a, v)"
      using update_account_data_other [OF up, of a v] False base by (simp add: db2 acc_def)
    then show ?thesis using False by (simp add: account_counts_def split: option.splits)
  next
    case True
    show ?thesis
    proof (cases "si_stale (pl_inventory system)")
      case stale: True
      then have "t_account_data db2 = t_account_data db"
        using up e(4) by (simp add: update_advisory_account_data_def calc_advisory_changes_def db2)
      then show ?thesis using stale by (simp add: account_counts_def split: option.splits)
    next
      case fresh: False
      note diff = evaluation_effect(1,2) [OF wf reg [unfolded acc_def sys_def] fresh lz sz, of v, folded acc_def]
      show ?thesis using diff delta [of v] True fresh
        by (cases "account_counts db acc v"; cases "account_counts db2 acc v"
            ; cases "account_delta (gm_get (t_system_advisories db) (acc, sys, v)) (gm_get (t_system_advisories db2) (acc, sys, v))"
            ; simp)
    qed
  qed
  show "account_moved (si_stale (pl_inventory system)) acc sys db db2"
    unfolding account_moved_def using acct by blast
qed

section \<open>Packages\<close>

text \<open>No two names of the listing mean one package.\<close>

definition well_listed :: "package_db \<Rightarrow> updates_response option \<Rightarrow> bool" where
  "well_listed db r \<longleftrightarrow> wf_gomap (update_entries r) \<and> distinct (map np_package_id (listed db (update_entries r)))"

definition packages_stored :: "package_db \<Rightarrow> updates_response option \<Rightarrow> int \<Rightarrow> int \<Rightarrow> eval_db \<Rightarrow> eval_db \<Rightarrow> bool" where
  "packages_stored db r acc sys edb edb' \<longleftrightarrow>
     (\<forall>a y i. stored_latest edb' a y i =
        (if a = acc \<and> y = sys then listed_latest db r i else stored_latest edb a y i))"

text \<open>The numbers of listed packages, of those with an installable and of those with any update.\<close>

definition listed_counts :: "package_db \<Rightarrow> updates_response option \<Rightarrow> pkg_counts" where
  "listed_counts db r = (let ps = listed db (update_entries r) in
     \<lparr>cnt_installed = int (length ps),
      cnt_installable = int (length (filter (\<lambda>p. np_installable_id p \<noteq> None) ps)),
      cnt_applicable = int (length (filter (\<lambda>p. np_installable_id p \<noteq> None \<or> np_applicable_id p \<noteq> None) ps))\<rparr>)"

text \<open>Every package of a stored row is in the tables (the foreign key).\<close>

definition packages_known :: "package_db \<Rightarrow> eval_db \<Rightarrow> bool" where
  "packages_known db edb \<longleftrightarrow> wf_gomap (t_system_packages edb)
     \<and> (\<forall>((a, y, i), x)\<in>set (t_system_packages edb). meta_of db i \<noteq> None)"

lemma meta_of_grows: "meta_of db i \<noteq> None \<Longrightarrow> rows_grow db db' \<Longrightarrow> meta_of db' i \<noteq> None"
  by (auto simp: meta_of_def find_None_iff rows_grow_def)

lemma packages_known_columns:
  assumes "packages_known db edb" "rows_grow db db'"
  shows "\<forall>col\<in>set (stored_columns edb acc sys). meta_of db' (np_package_id col) \<noteq> None"
proof
  fix col assume "col \<in> set (stored_columns edb acc sys)"
  then obtain x where "((acc, sys, np_package_id col), x) \<in> set (t_system_packages edb)"
    by (auto simp: stored_columns_def)
  then have "meta_of db (np_package_id col) \<noteq> None" using assms(1) unfolding packages_known_def by fast
  then show "meta_of db' (np_package_id col) \<noteq> None" using meta_of_grows assms(2) by blast
qed

lemma update_packages_table:
  assumes "update_system_packages an faults edb system m = Inr e" "t_system_packages edb2 = t_system_packages edb"
  shows "\<exists>e2. update_system_packages an faults edb2 system m = Inr e2 \<and> t_system_packages e2 = t_system_packages e"
  using assms
  by (cases "split_packages system m (sort (map fst m)) []")
    (auto simp: update_system_packages_def delete_old_system_packages_def split: if_splits sum.splits)

lemma packages_effect:
  fixes system :: system_platform
  assumes live: "coherent env db c" "pc_enabled c" "\<not> d_down db" and known: "packages_known db edb"
    and load: "lazy_save_and_load_packages True lz env faults edb system r (c, db) = Some (Inr (m, cnt), (c', db'))"
    and store: "update_system_packages True faults edb2 system m = Inr edb3" "t_system_packages edb2 = t_system_packages edb"
  shows "cnt = listed_counts db' r"
    "well_listed db' r \<Longrightarrow> packages_stored db' r (si_account (pl_inventory system)) (si_id (pl_inventory system)) edb edb3"
proof -
  let ?z = "\<lparr>cnt_installed = 0, cnt_installable = 0, cnt_applicable = 0\<rparr>"
  obtain err c1 db1 where lz: "lazy_save_packages lz env faults r (c, db) = Some (err, (c1, db1))"
    using load by (auto simp: lazy_save_and_load_packages_def bind_eq_Some_conv)
  have err: "err = None" using load lz by (cases err) (auto simp: lazy_save_and_load_packages_def)
  have ld: "load_packages env faults db1 edb system r c1 = Some (Inr (m, cnt), c')" and db1: "db1 = db'"
    using load lz err by (auto simp: lazy_save_and_load_packages_def bind_eq_Some_conv)
  have live1: "coherent env db' c1" "pc_enabled c1" "rows_grow db db'"
    using lazy_save_packages_ok [OF live(1,2) lz] db1 by simp_all
  have up: "\<not> d_down db'" using live(3) live1(3) by (simp add: rows_grow_def)
  note ld' = load_packages_faults [OF ld, unfolded db1]
  obtain c3 where ul: "packages_from_update_list env db' c1 r
      = Some (fst (listed_loop db' (update_entries r) [] ?z), snd (listed_loop db' (update_entries r) [] ?z), c3)"
    using update_list_loop_up [OF live1(1,2) up, of "update_entries r" "[]" ?z]
    by (auto simp: packages_from_update_list_def)
  obtain res c4 where res: "load_system_nevras_from_db env no_faults db' edb system c3
      (fst (listed_loop db' (update_entries r) [] ?z)) = Some (res, c4)"
    using ld' ul by (auto simp: load_packages_def bind_eq_Some_conv)
  have "cnt = snd (listed_loop db' (update_entries r) [] ?z)"
    using ld' ul res by (cases res) (simp_all add: load_packages_def)
  then show "cnt = listed_counts db' r" by (simp add: listed_loop_counts listed_counts_def Let_def)
  show "packages_stored db' r (si_account (pl_inventory system)) (si_id (pl_inventory system)) edb edb3" if listing: "well_listed db' r"
  proof -
    have wl: "wf_gomap (update_entries r)" "distinct (map np_package_id (listed db' (update_entries r)))"
      and wft: "wf_gomap (t_system_packages edb)"
      using listing known by (simp_all add: well_listed_def packages_known_def)
    obtain m' c2 edb' where "load_packages env no_faults db' edb system r c1 = Some (Inr (m', snd (listed_loop db' (update_entries r) [] ?z)), c2)"
      and u: "update_system_packages True no_faults edb system m' = Inr edb'"
      and rows: "\<forall>a y i. stored_latest edb' a y i = (if a = si_account (pl_inventory system) \<and> y = si_id (pl_inventory system)
           then listed_latest db' r i else stored_latest edb a y i)"
      using package_rows_refine [OF live1(1,2) up wl(1) wft packages_known_columns [OF known live1(3)] wl(2)] by blast
    then have "m' = m" using ld' by simp
    from update_packages_table [OF u [unfolded this] store(2)] update_system_packages_faults [OF store(1)]
    have "t_system_packages edb3 = t_system_packages edb'" by auto
    then have "stored_latest edb3 = stored_latest edb'" by (simp add: stored_latest_def fun_eq_iff)
    then show ?thesis using rows by (simp add: packages_stored_def)
  qed
qed

end
