(* ===== verification/UpdatesDataLaws.thy ===== *)
theory UpdatesDataLaws
  imports UpdatesData
begin

text \<open>
  Laws of the updates data: where an installable update can come from, what a template
  decides, and that a request VMaaS rejects skips the system instead of failing.
\<close>

section \<open>Where merged updates come from\<close>

definition has_update :: "updates_response option \<Rightarrow> string \<Rightarrow> avail_update \<Rightarrow> bool" where
  "has_update r k u \<longleftrightarrow> (\<exists>l. (k, l) \<in> set (update_entries r) \<and> u \<in> set (get_available_updates l))"

lemma merge_loop_mem:
  "merge_loop lc fuel us vs = Some ws \<Longrightarrow> u \<in> set ws \<Longrightarrow> u \<in> set us \<union> set vs"
proof (induction lc fuel us vs arbitrary: ws rule: merge_loop.induct)
  case (4 lc fuel a us b vs)
  show ?case
  proof (cases "pkg_parses a \<and> pkg_parses b")
    case True
    then obtain n m where p: "parse_nevra (get_package a) = Inr n" "parse_nevra (get_package b) = Inr m"
      by (auto simp: pkg_parses_iff)
    let ?c = "nevra_cmp lc n m"
    let ?cmp = "if ?c = 0 then upd_cmp a b else ?c"
    consider "?cmp < 0" | "?cmp > 0" | "\<not> ?cmp < 0" "\<not> ?cmp > 0" by linarith
    then show ?thesis
    proof cases
      case 1
      then obtain ws' where "ws = a # ws'" "merge_loop lc fuel us (b # vs) = Some ws'"
        using 4(6) p by (auto simp: Let_def)
      then show ?thesis using 4(3) [OF p refl refl] 1 4(7) by auto
    next
      case 2
      then obtain ws' where "ws = b # ws'" "merge_loop lc fuel (a # us) vs = Some ws'"
        using 4(6) p by (auto simp: Let_def)
      then show ?thesis using 4(4) [OF p refl refl] 2 4(7) by auto
    next
      case 3
      then obtain ws' where "ws = a # ws'" "merge_loop lc fuel us vs = Some ws'"
        using 4(6) p by (auto simp: Let_def)
      then show ?thesis using 4(5) [OF p refl refl] 3 4(7) by auto
    qed
  next
    case False
    then have "merge_loop lc (Suc fuel) (a # us) (b # vs) = None" by (intro merge_loop_stuck) blast
    then show ?thesis using 4(6) by simp
  qed
qed auto

lemma gm_put_mem: "(k', v') \<in> set (gm_put k v m) \<Longrightarrow> (k' = k \<and> v' = v) \<or> (k', v') \<in> set m"
  by (induction m) (auto split: if_splits)

lemma merge_entries_mem:
  assumes "merge_entries lc fuel bs merged = Some m" "(k, l) \<in> set m" "u \<in> set (get_available_updates l)"
  shows "\<exists>l'. (k, l') \<in> set merged \<union> set bs \<and> u \<in> set (get_available_updates l')"
  using assms(1)
proof (induction lc fuel bs merged rule: merge_entries.induct)
  case (1 lc fuel merged)
  then show ?case using assms(2,3) by auto
next
  case (2 lc fuel j lb bs merged)
  show ?case
  proof (cases "gm_get merged j")
    case None
    then obtain l' where l': "(k, l') \<in> set (gm_put j lb merged) \<union> set bs" "u \<in> set (get_available_updates l')"
      using 2 by auto
    then show ?thesis using gm_put_mem [of k l' j lb merged] by auto
  next
    case (Some la)
    then obtain r where r: "merge_updates lc fuel la lb = Some r"
      and rest: "merge_entries lc fuel bs (gm_put j r merged) = Some m"
      using 2(3) by (auto split: option.splits)
    obtain l' where l': "(k, l') \<in> set (gm_put j r merged) \<union> set bs" "u \<in> set (get_available_updates l')"
      using 2(2) [OF Some r rest] by blast
    show ?thesis
    proof (cases "(k, l') \<in> set merged \<union> set bs")
      case True
      then show ?thesis using l'(2) by auto
    next
      case False
      then have kr: "k = j" "l' = r" using l'(1) gm_put_mem [of k l' j r merged] by auto
      then have "u \<in> set (get_available_updates la) \<union> set (get_available_updates lb)"
        using l'(2) r merge_loop_mem [of lc fuel "get_available_updates la" "get_available_updates lb" _ u]
        by (auto simp: merge_updates_def get_available_updates_def [of "Some (Some _)"])
      then show ?thesis using kr map_of_SomeD [OF Some] by auto
    qed
  qed
qed

lemma gm_del_all_mem: "x \<in> set (gm_del_all ks m) \<Longrightarrow> x \<in> set m"
proof (induction ks arbitrary: m)
  case (Cons a ks)
  then have "x \<in> set (gm_del a m)" by simp
  then show ?case by (auto simp: AList.delete_eq)
qed simp

lemma merge_responses_mem:
  assumes "merge_responses lc fuel a b = Some r" "has_update r k u"
  shows "has_update a k u \<or> has_update b k u"
proof (cases "\<exists>ra rb merged. a = Some ra \<and> b = Some rb \<and> get_update_list a = Some merged")
  case True
  then obtain ra rb merged where ab: "a = Some ra" "b = Some rb" "get_update_list a = Some merged" by blast
  then obtain m where m: "merge_entries lc fuel (update_entries b) merged = Some m"
    and r: "r = Some (remove_non_latest lc (ra\<lparr>ur_update_list := Some m\<rparr>))"
    using assms(1) by (auto simp: merge_responses_def split: option.splits)
  obtain l where l: "(k, l) \<in> set (update_entries r)" "u \<in> set (get_available_updates l)"
    using assms(2) by (auto simp: has_update_def)
  have "(k, l) \<in> set m"
    using l(1) r gm_del_all_mem
    by (fastforce simp: remove_non_latest_def update_entries_def get_update_list_def Let_def split: prod.splits)
  from merge_entries_mem [OF m this l(2)] show ?thesis
    using ab by (auto simp: has_update_def update_entries_def)
next
  case False
  then show ?thesis using assms by (auto simp: merge_responses_def split: option.splits)
qed

section \<open>Forcing a status\<close>

lemma force_applicable_status:
  assumes "force_applicable r = Some r'" "has_update r' k u"
  shows "up_status u = APPLICABLE"
proof -
  obtain d where d: "r' = Some (d\<lparr>ur_update_list := map_option (map (\<lambda>(k, l).
      (k, set_updates_installability APPLICABLE l))) (ur_update_list d)\<rparr>)"
    using assms by (cases r) (auto simp: force_applicable_def has_update_def update_entries_def
      get_update_list_def split: if_splits)
  then show ?thesis
    using assms(2) by (cases "ur_update_list d") (auto simp: has_update_def update_entries_def get_update_list_def)
qed

definition updates_in_template :: "string list \<Rightarrow> updates_response option \<Rightarrow> bool" where
  "updates_in_template errata r \<longleftrightarrow> (\<forall>k u. has_update r k u \<and> get_erratum u \<noteq> [] \<longrightarrow>
     up_status u = (if get_erratum u \<in> set errata then INSTALLABLE else APPLICABLE))"

lemma template_status_erratum [simp]: "get_erratum (template_status errata u) = get_erratum u"
  by (simp add: template_status_def)

lemma apply_template_updates: "updates_in_template errata (apply_template_advisory_installability errata r)"
proof (cases r)
  case None
  then show ?thesis
    by (simp add: updates_in_template_def apply_template_advisory_installability_def has_update_def
        update_entries_def get_update_list_def)
next
  case (Some d)
  have "up_status u = (if get_erratum u \<in> set errata then INSTALLABLE else APPLICABLE)"
    if "has_update (apply_template_advisory_installability errata r) k u" "get_erratum u \<noteq> []" for k u
    using that Some
    by (auto simp: apply_template_advisory_installability_def has_update_def update_entries_def
        get_update_list_def get_available_updates_def template_status_def split: option.splits if_splits)
  then show ?thesis by (auto simp: updates_in_template_def)
qed

section \<open>Properties\<close>

text \<open>C27.  Where the status of an update the evaluator works with comes from.  When the template
  decides (template evaluation is switched on, the system has a template and Satellite does not
  manage it), an erratum is installable exactly if the template has it, on an image-mode system as on
  any other, although a comment on the other path calls image-mode systems "not patchable".  When it
  does not, an update that is not merely applicable never occurs on an image-mode system, and on a
  system managed by Satellite or assigned to a template it was reported by the system's own
  package manager, not by VMaaS.\<close>

theorem installable_updates_origin:
  assumes "get_updates_data cf env faults rows system st = Some (Inr (Some r), st')"
    and "has_update (Some r) k u"
  shows "(use_template_advisory_eval cf system \<longrightarrow> get_erratum u \<noteq> [] \<longrightarrow>
           (\<exists>errata. load_template_advisory_errata faults rows (si_account (pl_inventory system))
                (the (sp_template_id (pl_patch system))) = Inr errata
              \<and> up_status u = (if get_erratum u \<in> set errata then INSTALLABLE else APPLICABLE)))
     \<and> (\<not> use_template_advisory_eval cf system \<longrightarrow> up_status u \<noteq> APPLICABLE \<longrightarrow>
           \<not> si_bootc (pl_inventory system)
         \<and> (si_satellite_managed (pl_inventory system) \<or> sp_template_id (pl_patch system) \<noteq> None \<longrightarrow>
             has_update (yum_part cf env system) k u))"
proof (cases "use_template_advisory_eval cf system")
  case True
  then obtain d errata where
    e: "load_template_advisory_errata faults rows (si_account (pl_inventory system))
          (the (sp_template_id (pl_patch system))) = Inr errata"
    and r: "apply_template_advisory_installability errata (Some d) = Some r"
    using assms(1) by (auto simp: get_updates_data_def get_template_advisory_updates_data_def Let_def
        split: prod.splits sum.splits option.splits if_splits)
  then show ?thesis using True assms(2) apply_template_updates [of errata "Some d"]
    unfolding r by (auto simp: updates_in_template_def)
next
  case False
  obtain res st1 where res: "get_vmaas_updates cf env system st = (res, st1)" by (cases "get_vmaas_updates cf env system st")
  obtain data data' merged where
    d: "(if si_satellite_managed (pl_inventory system) \<or> sp_template_id (pl_patch system) \<noteq> None
         then force_applicable data else Some data) = Some data'"
    and m: "merge_responses (fe_compare env) (fe_fuel env) (yum_part cf env system) data' = Some merged"
    and b: "(if si_bootc (pl_inventory system) \<and> merged \<noteq> None then force_applicable merged else Some merged) = Some (Some r)"
    using assms(1) False res unfolding get_updates_data_def Let_def
    by (auto simp del: not_None_eq split: option.splits if_splits)
  have bootc: "up_status u = APPLICABLE" if "si_bootc (pl_inventory system)"
    using b that force_applicable_status [OF _ assms(2)] by (auto split: if_splits)
  have sat: "has_update (yum_part cf env system) k u"
    if "up_status u \<noteq> APPLICABLE" "si_satellite_managed (pl_inventory system) \<or> sp_template_id (pl_patch system) \<noteq> None"
  proof -
    have "merged = Some r" using b bootc that(1) by (auto split: if_splits)
    then have "has_update (yum_part cf env system) k u \<or> has_update data' k u"
      using merge_responses_mem [OF m] assms(2) by blast
    moreover have "\<not> has_update data' k u"
      using d that force_applicable_status [of data data' k u] by auto
    ultimately show ?thesis by blast
  qed
  show ?thesis using False bootc sat by blast
qed

lemma error_is_map [simp]: "error_is (map_go_error f e) t = error_is e t"
  by (induction e) auto

lemma call_vmaas_rejected:
  assumes "0 < fe_retries env" "\<not> debug" "tr_do (fst (fe_exchange env req net)) = (Some 400, True)"
  shows "\<exists>e net'. call_vmaas env debug req net = (Inl e, net') \<and> error_is e ErrVmaasBadRequest"
proof -
  obtain t net' where x: "fe_exchange env req net = (t, net')" by (cases "fe_exchange env req net")
  then have t: "tr_do t = (Some 400, True)" using assms(3) by simp
  obtain n where n: "fe_retries env = Suc n" using assms(1) by (cases "fe_retries env") auto
  have "client_request True True debug t empty_response =
      (empty_response, Some 400, Some (Wrapped ''Request failed'' (Leaf (Non2xx 400))))"
    using t assms(2) by (simp add: client_request_def call_api_def try_get_status_code_def)
  then have "vmaas_call_func env debug req net = ((empty_response, Some 400,
      Some (Wrapped (fe_error_text env (Wrapped ''Request failed'' (Leaf (Non2xx 400)))) (Sentinel ErrVmaasBadRequest))), net')"
    using x by (simp add: vmaas_call_func_def try_get_status_code_def)
  then show ?thesis using n by (simp add: call_vmaas_def status_code_found_def)
qed

lemma get_vmaas_updates_rejected:
  assumes "fst (vmaas_cache_get (fe_cache env) (fs_cache st) (si_json_checksum (pl_inventory system))) = None"
    and "try_get_vmaas_request env (Some system) = Inr (Some req)" "0 < fe_retries env" "\<not> cf_debug cf"
    and "\<And>rq. tr_do (fst (fe_exchange env rq (fs_net st))) = (Some 400, True)"
  shows "\<exists>e st'. get_vmaas_updates cf env system st = (Inl e, st') \<and> error_is e ErrVmaasBadRequest"
proof -
  obtain c where c: "vmaas_cache_get (fe_cache env) (fs_cache st) (si_json_checksum (pl_inventory system)) = (None, c)"
    using assms(1) by (metis prod.collapse)
  let ?req = "req\<lparr>rq_third_party := Some (sp_third_party (pl_patch system)),
     rq_optimistic_updates := Some (sp_third_party (pl_patch system) \<or> cf_optimistic cf), rq_epoch_required := Some True\<rparr>"
  obtain e net' where "call_vmaas env (cf_debug cf) ?req (fs_net st) = (Inl e, net')" "error_is e ErrVmaasBadRequest"
    using call_vmaas_rejected [OF assms(3,4,5)] by blast
  then show ?thesis using c assms(2) by (simp add: get_vmaas_updates_def Let_def)
qed

text \<open>A request that VMaaS rejects with status 400 skips the system: there is no error, so
  the message is not retried, and the updates its package manager reported are not used either.\<close>

theorem bad_request_skips_system:
  assumes "fst (vmaas_cache_get (fe_cache env) (fs_cache st) (si_json_checksum (pl_inventory system))) = None"
    and "try_get_vmaas_request env (Some system) = Inr (Some req)" "0 < fe_retries env" "\<not> cf_debug cf"
    and "\<And>rq. tr_do (fst (fe_exchange env rq (fs_net st))) = (Some 400, True)"
  shows "\<exists>st'. get_updates_data cf env faults rows system st = Some (Inr None, st')"
proof -
  obtain e st' where "get_vmaas_updates cf env system st = (Inl e, st')" "error_is e ErrVmaasBadRequest"
    using get_vmaas_updates_rejected [OF assms] by blast
  then show ?thesis by (simp add: get_updates_data_def get_template_advisory_updates_data_def)
qed

section \<open>Witnesses\<close>

text \<open>A system with one package, an HTTP exchange that always answers the same, and updates of the
  package manager that are always the same.\<close>

definition sample_config :: ev_config where
  "sample_config = \<lparr>cf_bypass = False, cf_advisory_analysis = True, cf_package_analysis = True,
     cf_repo_analysis = True, cf_stale_eval = True, cf_lazy_save = True, cf_optimistic = True, cf_yum_eval = True,
     cf_template_eval = False, cf_instant_notifications = True, cf_inventory_views = True,
     cf_advisory_updates = True, cf_payload_tracker = True, cf_debug = False\<rparr>"

definition sample_update :: avail_update where
  "sample_update = \<lparr>up_repository = None, up_releasever = None, up_basearch = None, up_erratum = Some ''E-1'',
     up_package = Some ''foo-0:2-1.x'', up_package_name = Some ''foo'', up_evra = Some ''0:2-1.x'', up_status = 0\<rparr>"

definition sample_updates :: updates_response where
  "sample_updates = empty_response\<lparr>ur_update_list := Some [(''foo-0:1-1.x'', Some (Some [sample_update]))]\<rparr>"

definition sample_request :: updates_request where
  "sample_request = \<lparr>rq_package_list = [''foo-0:1-1.x''], rq_repository_list = [''repo''], rq_repository_paths = [],
     rq_modules_list = None, rq_releasever = None, rq_basearch = None, rq_security_only = None, rq_latest_only = None,
     rq_third_party = None, rq_optimistic_updates = None, rq_epoch_required = None\<rparr>"

definition answering :: "int \<Rightarrow> ((string, updates_response) gomap, nat) fetch_env" where
  "answering code = \<lparr>fe_compare = text_label_compare, fe_fuel = 9, fe_cache = alist_ops,
     fe_parse_response = (\<lambda>s. Some sample_updates), fe_parse_request = (\<lambda>s. Some sample_request),
     fe_exchange = (\<lambda>req n. (\<lparr>tr_dump_request = True, tr_do = (Some code, True), tr_dump_response = True,
         tr_decode = Some (Some sample_updates)\<rparr>, Suc n)),
     fe_error_text = (\<lambda>e. []), fe_text = (\<lambda>e. []), fe_retries = 8\<rparr>"

definition no_cache :: "((string, updates_response) gomap, nat) fetch_state" where
  "no_cache = \<lparr>fs_cache = \<lparr>vc_enabled = False, vc_size = 0, vc_current_size = 0, vc_validity = None, vc_data = None,
      vc_gauge = 0\<rparr>, fs_net = 0\<rparr>"

definition satellite_system :: system_platform where
  "satellite_system = \<lparr>pl_inventory = zero_inventory\<lparr>si_id := 1, si_account := 1, si_vmaas_json := Some ''{}'',
      si_satellite_managed := True\<rparr>, pl_patch = zero_patch\<rparr>"

lemma sample_vmaas_request: "try_get_vmaas_request (answering code) (Some satellite_system) = Inr (Some sample_request)"
  by (simp add: try_get_vmaas_request_def parse_vmaas_json_def satellite_system_def answering_def sample_request_def
      zero_inventory_def)

lemma no_cache_misses [simp]: "vmaas_cache_get ops (fs_cache no_cache) k = (None, fs_cache no_cache)"
  by (simp add: vmaas_cache_get_def no_cache_def split: option.splits)

theorem bad_request_skips_system_witness:
  "\<exists>st'. get_updates_data sample_config (answering 400) (\<lambda>s. False) [] satellite_system no_cache = Some (Inr None, st')"
  by (rule bad_request_skips_system [OF _ sample_vmaas_request])
    (simp_all add: answering_def sample_config_def)

text \<open>The second system is an image-mode one whose template has the erratum.\<close>

definition image_system :: system_platform where
  "image_system = \<lparr>pl_inventory = zero_inventory\<lparr>si_id := 2, si_account := 1, si_vmaas_json := Some ''{}'',
      si_bootc := True\<rparr>, pl_patch = zero_patch\<lparr>sp_template_id := Some 7\<rparr>\<rparr>"

definition sample_template_rows :: "template_advisory list" where
  "sample_template_rows = [\<lparr>ta_account = 1, ta_template_id = 7, ta_advisory_id = 1,
     ta_advisory = zero_advisory\<lparr>am_name := ''E-1''\<rparr>\<rparr>]"

theorem installable_updates_origin_witness:
  "(\<exists>r st'. get_updates_data sample_config (answering 200) (\<lambda>s. False) [] satellite_system no_cache = Some (Inr (Some r), st')
     \<and> \<not> has_update (Some r) ''foo-0:1-1.x'' sample_update)
   \<and> (\<exists>r st'. get_updates_data (sample_config\<lparr>cf_template_eval := True\<rparr>) (answering 200) (\<lambda>s. False) sample_template_rows
       image_system no_cache = Some (Inr (Some r), st')
     \<and> has_update (Some r) ''foo-0:1-1.x'' sample_update \<and> up_status sample_update = INSTALLABLE
     \<and> si_bootc (pl_inventory image_system))"
proof (intro conjI)
  have "case get_updates_data sample_config (answering 200) (\<lambda>s. False) [] satellite_system no_cache of
      Some (Inr (Some r), st') \<Rightarrow> True | _ \<Rightarrow> False" by code_simp
  then obtain r st' where g: "get_updates_data sample_config (answering 200) (\<lambda>s. False) [] satellite_system no_cache
      = Some (Inr (Some r), st')" by (auto split: option.splits sum.splits)
  have "yum_part sample_config (answering 200) satellite_system = None"
    by (simp add: yum_part_def try_get_yum_updates_def satellite_system_def zero_inventory_def)
  then show "\<exists>r st'. get_updates_data sample_config (answering 200) (\<lambda>s. False) [] satellite_system no_cache = Some (Inr (Some r), st')
     \<and> \<not> has_update (Some r) ''foo-0:1-1.x'' sample_update"
    using g installable_updates_origin [OF g, of "''foo-0:1-1.x''" sample_update]
    by (auto simp: use_template_advisory_eval_def sample_config_def satellite_system_def sample_update_def
        has_update_def update_entries_def get_update_list_def zero_patch_def)
next
  let ?run = "get_updates_data (sample_config\<lparr>cf_template_eval := True\<rparr>) (answering 200) (\<lambda>s. False) sample_template_rows
       image_system no_cache"
  have "case ?run of Some (Inr (Some r), st') \<Rightarrow> r = sample_updates | _ \<Rightarrow> False" by code_simp
  then obtain st' where h: "?run = Some (Inr (Some sample_updates), st')"
    by (auto split: option.splits sum.splits)
  have u: "has_update (Some sample_updates) ''foo-0:1-1.x'' sample_update"
    by (simp add: has_update_def update_entries_def get_update_list_def sample_updates_def get_available_updates_def)
  have "use_template_advisory_eval (sample_config\<lparr>cf_template_eval := True\<rparr>) image_system" "get_erratum sample_update = ''E-1''"
    "load_template_advisory_errata (\<lambda>s. False) sample_template_rows (si_account (pl_inventory image_system))
       (the (sp_template_id (pl_patch image_system))) = Inr [''E-1'']" by code_simp+
  then have "up_status sample_update = INSTALLABLE" using installable_updates_origin [OF h u] by auto
  then show "\<exists>r st'. ?run = Some (Inr (Some r), st')
     \<and> has_update (Some r) ''foo-0:1-1.x'' sample_update \<and> up_status sample_update = INSTALLABLE
     \<and> si_bootc (pl_inventory image_system)"
    using h u by (auto simp: image_system_def)
qed

end
