(* ===== verification/EvaluateLaws.thy ===== *)
theory EvaluateLaws
  imports EvaluateStored UpdatesDataLaws
begin

text \<open>
  Laws of the evaluation of a system: it stores all of its results or none, the counts in the
  row of the system are those of its advisory rows, messages do not wait for the commit, and
  what the handler makes of the errors of a bulk message.
\<close>

section \<open>Frames\<close>

definition tables :: "eval_db \<Rightarrow> (advisory_key, int) gomap \<times> (account_key, advisory_account_data) gomap
    \<times> (advisory_key, int \<times> int option \<times> int option) gomap \<times> (account_key, system_inventory) gomap
    \<times> (account_key, system_patch) gomap" where
  "tables db = (t_system_advisories db, t_account_data db, t_system_packages db, t_inventory db, t_patch db)"

lemma tables_insert_metadata [simp]: "tables (insert_metadata ms db) = tables db"
  by (simp add: tables_def)






lemma tx_statement_db [simp]: "tx_db (snd (tx_statement faults site t)) = tx_db t"
  by (simp add: tx_statement_def)

lemma publish_views_db [simp]: "tx_db (fst (snd (publish_inventory_views pb faults sd ss ev t out))) = tx_db t"
  by (auto simp: publish_inventory_views_def make_views_event_def find_systems_templates_def tx_statement_def Let_def
      split: option.splits sum.splits prod.splits list.splits if_splits)

text \<open>Publishing marks rows of the account data as notified and changes no count.\<close>

definition same_counts :: "eval_db \<Rightarrow> eval_db \<Rightarrow> bool" where
  "same_counts db db' \<longleftrightarrow> (\<exists>x. db' = db\<lparr>t_account_data := x\<rparr>) \<and> (\<forall>a v. account_counts db' a v = account_counts db a v)"

lemma same_counts_refl [simp]: "same_counts db db"
  by (auto simp: same_counts_def intro: exI [of _ "t_account_data db"])





section \<open>All or nothing\<close>



section \<open>Counts\<close>

definition of_type :: "int \<Rightarrow> system_advisory \<Rightarrow> bool" where
  "of_type i sa \<longleftrightarrow> am_type_id (sa_advisory sa) = i"

abbreviation num :: "('a \<Rightarrow> bool) \<Rightarrow> 'a list \<Rightarrow> int" where
  "num p xs \<equiv> int (length (filter p xs))"

definition counts_of :: "system_advisory list \<Rightarrow> adv_counts" where
  "counts_of rows = \<lparr>ct_total = int (length rows), ct_enh = num (of_type 1) rows, ct_bug = num (of_type 2) rows,
     ct_sec = num (of_type 3) rows\<rparr>"



lemma adv_counts_eta [simp]:
  "\<lparr>ct_total = ct_total c, ct_enh = ct_enh c, ct_bug = ct_bug c, ct_sec = ct_sec c\<rparr> = c"
  by simp


lemma type_counts_le: "ct_enh (counts_of rows) + ct_bug (counts_of rows) + ct_sec (counts_of rows) \<le> ct_total (counts_of rows)"
  by (induction rows) (auto simp: counts_of_def of_type_def)



lemma system_rows_frame [simp]:
  "system_rows (db\<lparr>t_account_data := x\<rparr>) acc sys = system_rows db acc sys"
  "system_rows (db\<lparr>t_system_packages := y\<rparr>) acc sys = system_rows db acc sys"
  "system_rows (db\<lparr>t_patch := z\<rparr>) acc sys = system_rows db acc sys"
  by (simp_all add: system_rows_def advisory_row_def metadata_by_id_def cong: map_cong)

lemma wf_db_frame [simp]:
  "wf_db (db\<lparr>t_account_data := x\<rparr>) = wf_db db" "wf_db (db\<lparr>t_system_packages := y\<rparr>) = wf_db db"
  "wf_db (db\<lparr>t_patch := z\<rparr>) = wf_db db"
  by (simp_all add: wf_db_def)







section \<open>The fault of the commit\<close>

text \<open>Nothing before the commit depends on whether it will fail.\<close>

lemma commit_fault_site:
  "(faults(CommitTx := b)) MissingNamesLookup = faults MissingNamesLookup"
  "(faults(CommitTx := b)) MissingNamesInsert = faults MissingNamesInsert"
  "(faults(CommitTx := b)) StoredLoad = faults StoredLoad"
  "(faults(CommitTx := b)) ChangedNamesLookup = faults ChangedNamesLookup"
  "(faults(CommitTx := b)) DeleteOldAdvisories = faults DeleteOldAdvisories"
  "(faults(CommitTx := b)) CheckSystem = faults CheckSystem"
  "(faults(CommitTx := b)) UpsertAdvisories = faults UpsertAdvisories"
  "(faults(CommitTx := b)) ReloadAdvisories = faults ReloadAdvisories"
  "(faults(CommitTx := b)) UpsertAccountData = faults UpsertAccountData"
  "(faults(CommitTx := b)) PackagesLoad = faults PackagesLoad"
  "(faults(CommitTx := b)) DeleteOldPackages = faults DeleteOldPackages"
  "(faults(CommitTx := b)) UpsertPackages = faults UpsertPackages"
  "(faults(CommitTx := b)) UpdatePatch = faults UpdatePatch"
  "(faults(CommitTx := b)) PackageNameInsert = faults PackageNameInsert"
  "(faults(CommitTx := b)) PackageInsert = faults PackageInsert"
  "(faults(CommitTx := b)) LoadSystem = faults LoadSystem"
  "(faults(CommitTx := b)) ThirdPartyCount = faults ThirdPartyCount"
  "(faults(CommitTx := b)) LazyPackages = faults LazyPackages"
  "(faults(CommitTx := b)) TemplateErrata = faults TemplateErrata"
  "(faults(CommitTx := b)) InvalidateCaches = faults InvalidateCaches"
  "(faults(CommitTx := b)) TemplatesLoad = faults TemplatesLoad"
  "(faults(CommitTx := b)) UnnotifiedLoad = faults UnnotifiedLoad"
  "(faults(CommitTx := b)) TagsLoad = faults TagsLoad"
  "(faults(CommitTx := b)) MarkNotified = faults MarkNotified"
  by simp_all

lemma commit_fault_advisories [simp]:
  "lazy_save_and_load_advisories an (faults(CommitTx := b)) db system r = lazy_save_and_load_advisories an faults db system r"
  unfolding lazy_save_and_load_advisories_def lazy_save_advisories_def get_missing_advisories_def
      get_advisory_metadata_ids_def store_missing_advisories_def load_system_advisories_def evaluate_changes_def
      load_missing_names_ids_def
    commit_fault_site by (rule refl)

lemma commit_fault_missing [simp]:
  "get_missing_package env (faults(CommitTx := b)) parsed st = get_missing_package env faults parsed st"
  unfolding get_missing_package_def update_package_name_db_def
    commit_fault_site by (rule refl)

lemma commit_fault_missing_loop [simp]:
  "get_missing_loop env (faults(CommitTx := b)) ns packages st = get_missing_loop env faults ns packages st"
proof (induction ns arbitrary: packages st)
  case (Cons n ns)
  obtain nevra parsed where n: "n = (nevra, parsed)" by (cases n)
  show ?case unfolding n get_missing_loop.simps commit_fault_missing Cons.IH by (rule refl)
qed simp

lemma commit_fault_packages [simp]:
  "lazy_save_and_load_packages an lz env (faults(CommitTx := b)) edb system r st
     = lazy_save_and_load_packages an lz env faults edb system r st"
  unfolding lazy_save_and_load_packages_def lazy_save_packages_def get_missing_packages_def update_package_db_def commit_fault_missing_loop
      load_packages_def load_system_nevras_from_db_def
    commit_fault_site by (rule refl)

lemma commit_fault_statements [simp]:
  "store_statements cf now (faults(CommitTx := b)) db system adv packages cnt
     = store_statements cf now faults db system adv packages cnt"
  unfolding store_statements_def store_advisory_data_def update_system_advisories_def delete_old_system_advisories_def
      valid_system_def upsert_system_advisories_def load_system_advisories_def update_advisory_account_data_def
      update_system_packages_def delete_old_system_packages_def update_system_platform_def
    commit_fault_site by (rule refl)

lemma commit_fault_publish [simp]:
  "publish_results env (faults(CommitTx := b)) sd system event adv rows t out
     = publish_results env faults sd system event adv rows t out"
  unfolding publish_results_def publish_inventory_views_def make_views_event_def find_systems_templates_def
      publish_new_advisories_def get_unnotified_advisories_def get_system_tags_def mark_advisories_notified_def
      tx_statement_def
    commit_fault_site by (rule refl)


section \<open>Properties\<close>




lemma eval_loop_trace:
  assumes "eval_loop env faults event ids reqs pt err pts st = Some ((err', pts'), st')"
  shows "\<exists>new. pts' = pts @ new \<and> length new = length ids
     \<and> (\<forall>k<length new. te_inventory (new ! k) = ids ! k)
     \<and> (te_status pt = ''error'' \<longrightarrow> (\<forall>p\<in>set new. te_status p = ''error''))
     \<and> (\<forall>j k. j \<le> k \<and> k < length new \<and> te_status (new ! j) = ''error'' \<longrightarrow> te_status (new ! k) = ''error'')
     \<and> (if ids = [] then err' = err
        else \<exists>pt0 st0. run_evaluate env faults event (last ids) pt0 st0 = Some ((last new, err'), st'))"
  using assms
proof (induction env faults event ids reqs pt err pts st rule: eval_loop.induct)
  case (2 env faults event i ids reqs pt err pts st)
  let ?pt = "case reqs of [] \<Rightarrow> pt\<lparr>te_inventory := i\<rparr> | r # _ \<Rightarrow> pt\<lparr>te_inventory := i, te_request := Some r\<rparr>"
  obtain p1 e1 s1 where run: "run_evaluate env faults event i ?pt st = Some ((p1, e1), s1)"
    and rest: "eval_loop env faults event ids (tl reqs) p1 e1 (pts @ [p1]) s1 = Some ((err', pts'), st')"
    using 2(2) by (auto simp: Let_def split: option.splits prod.splits list.splits)
  have inv: "te_inventory p1 = i" "te_status pt = ''error'' \<Longrightarrow> te_status p1 = ''error''"
    using run by (auto simp: run_evaluate_def split: option.splits if_splits list.splits)
  obtain new where new: "pts' = (pts @ [p1]) @ new" "length new = length ids"
     "\<forall>k<length new. te_inventory (new ! k) = ids ! k"
     "te_status p1 = ''error'' \<longrightarrow> (\<forall>p\<in>set new. te_status p = ''error'')"
     "\<forall>j k. j \<le> k \<and> k < length new \<and> te_status (new ! j) = ''error'' \<longrightarrow> te_status (new ! k) = ''error''"
     "if ids = [] then err' = e1
        else \<exists>pt0 st0. run_evaluate env faults event (last ids) pt0 st0 = Some ((last new, err'), st')"
    using 2(1) [OF refl refl run refl refl rest] by blast
  have mono: "te_status ((p1 # new) ! k) = ''error''"
    if "j \<le> k" "k < length (p1 # new)" "te_status ((p1 # new) ! j) = ''error''" for j k
  proof (cases k)
    case (Suc k')
    show ?thesis
    proof (cases j)
      case 0
      then show ?thesis using that new(4) Suc by (simp add: nth_mem)
    next
      case (Suc j')
      then show ?thesis using that new(5) \<open>k = Suc k'\<close> by auto
    qed
  qed (use that in simp)
  have ends: "s1 = st' \<and> e1 = err'" if "ids = []" using rest that by auto
  show ?case
  proof (intro exI [of _ "p1 # new"] conjI)
    show "\<forall>k<length (p1 # new). te_inventory ((p1 # new) ! k) = (i # ids) ! k"
      using new(3) inv(1) by (simp add: nth_Cons split: nat.splits)
    show "te_status pt = ''error'' \<longrightarrow> (\<forall>p\<in>set (p1 # new). te_status p = ''error'')"
    proof (intro impI ballI)
      fix p
      assume e: "te_status pt = ''error''" and p: "p \<in> set (p1 # new)"
      show "te_status p = ''error''" using p new(4) inv(2) [OF e] by (cases "p = p1") simp_all
    qed
    show "\<forall>j k. j \<le> k \<and> k < length (p1 # new) \<and> te_status ((p1 # new) ! j) = ''error''
        \<longrightarrow> te_status ((p1 # new) ! k) = ''error''" using mono by blast
    show "if i # ids = [] then err' = err
        else \<exists>pt0 st0. run_evaluate env faults event (last (i # ids)) pt0 st0 = Some ((last (p1 # new), err'), st')"
    proof (cases "ids = []")
      case True
      then have "new = []" using new(2) by simp
      moreover have "\<exists>pt0 st0. run_evaluate env faults event i pt0 st0 = Some ((p1, err'), st')"
        using run unfolding ends [OF True, THEN conjunct1] ends [OF True, THEN conjunct2] by blast
      ultimately show ?thesis by (simp add: True)
    next
      case False
      then have "new \<noteq> []" using new(2) by auto
      then show ?thesis using new(6) False by simp
    qed
  qed (use new(1,2) in simp_all)
qed simp

text \<open>A message for several systems gets one tracker event per system in order, and once an
  evaluation has failed every later system is reported as failed too.  The error of the whole
  message is that of the last system alone: a fatal error of an earlier one is lost, and the
  message is not retried.\<close>

theorem bulk_evaluation_last_error:
  assumes "eval_loop env faults event (ids @ [i]) reqs pt None [] st = Some ((err, pts), st')"
  shows "length pts = length ids + 1 \<and> map te_inventory pts = ids @ [i]
     \<and> (\<forall>j k. j \<le> k \<and> k < length pts \<and> te_status (pts ! j) = ''error'' \<longrightarrow> te_status (pts ! k) = ''error'')
     \<and> (\<exists>pt0 st0. run_evaluate env faults event i pt0 st0 = Some ((last pts, err), st'))"
proof -
  from eval_loop_trace [OF assms] show ?thesis
  proof (elim exE conjE, goal_cases)
    case (1 new)
    then have "map te_inventory pts = ids @ [i]" by (intro nth_equalityI) simp_all
    moreover have "\<exists>pt0 st0. run_evaluate env faults event i pt0 st0 = Some ((last pts, err), st')"
      using 1(1,6) by simp
    ultimately show ?case using 1(1,2,5) by simp
  qed
qed

section \<open>Witnesses\<close>

text \<open>One known system, an HTTP exchange that answers with one installable update, and a topic that
  accepts everything.\<close>

definition sample_pub :: "kafka_message list publishers" where
  "sample_pub = \<lparr>pb_remediations = Some append_writer, pb_notifications = Some append_writer,
     pb_views = Some append_writer, pb_advisory_update = Some append_writer, pb_tracker = append_writer,
     pb_enc_remediations = (\<lambda>x. Some ''remediations''), pb_enc_notification = (\<lambda>n. Some ''notification''),
     pb_enc_views = (\<lambda>v. Some ''views''), pb_enc_advisory_update = (\<lambda>a. Some ''advisories''),
     pb_enc_tracker = (\<lambda>t. Some (te_status t)), pb_parse_tags = (\<lambda>s. Some []), pb_hostname = ''host'',
     pb_format_time = (\<lambda>t. []), pb_now = 100\<rparr>"

definition sample_ev_env :: "(int recency, string recency, (string, updates_response) gomap, nat, kafka_message list) ev_env" where
  "sample_ev_env = \<lparr>ee_config = sample_config, ee_cache = sample_env, ee_fetch = answering 200, ee_pub = sample_pub\<rparr>"

definition sample_ev_db :: eval_db where
  "sample_ev_db = \<lparr>t_metadata = [], t_next_advisory = 1, t_system_advisories = [], t_account_data = [],
     t_system_packages = [],
     t_inventory = [((1, 1), zero_inventory\<lparr>si_id := 1, si_account := 1, si_inventory_id := ''i'', si_vmaas_json := Some ''{}''\<rparr>)],
     t_patch = [((1, 1), zero_patch)]\<rparr>"

definition sample_ev_state :: "(int recency, string recency, (string, updates_response) gomap, nat, kafka_message list) ev_state" where
  "sample_ev_state = \<lparr>es_pkgs = (sample_cache True, sample_packages), es_db = sample_ev_db,
     es_side = \<lparr>sd_system_repo = [], sd_repo = [], sd_template_advisories = [], sd_templates = [],
       sd_advisory_types = [(0, ''unknown'')], sd_accounts = []\<rparr>,
     es_fetch = no_cache, es_out = []\<rparr>"

definition sample_event :: platform_event where
  "sample_event = \<lparr>pe_id = ''i'', pe_type = None, pe_timestamp = None, pe_account = 1, pe_org = Some ''org'',
     pe_identity = None, pe_url = None, pe_systems = Some [''i''], pe_requests = [''r''], pe_skip_notifications = False\<rparr>"







text \<open>Two systems, the first of them unknown.\<close>

theorem bulk_evaluation_last_error_witness:
  "\<exists>pts st'. eval_loop sample_ev_env no_faults sample_event ([''x''] @ [''i'']) [''r''] (\<lparr>te_service = [], te_org = None,
      te_request = None, te_inventory = nil_uuid, te_status = ''success'', te_status_msg = [], te_date = None\<rparr>) None []
      sample_ev_state = Some ((None, pts), st') \<and> map te_inventory pts = [''x'', ''i'']"
proof -
  have "case eval_loop sample_ev_env no_faults sample_event ([''x''] @ [''i'']) [''r''] (\<lparr>te_service = [], te_org = None,
      te_request = None, te_inventory = nil_uuid, te_status = ''success'', te_status_msg = [], te_date = None\<rparr>) None []
      sample_ev_state of Some ((None, pts), st') \<Rightarrow> True | _ \<Rightarrow> False" by code_simp
  then obtain pts st' where e: "eval_loop sample_ev_env no_faults sample_event ([''x''] @ [''i'']) [''r'']
      (\<lparr>te_service = [], te_org = None, te_request = None, te_inventory = nil_uuid, te_status = ''success'',
        te_status_msg = [], te_date = None\<rparr>) None [] sample_ev_state = Some ((None, pts), st')"
    by (auto split: option.splits prod.splits)
  show ?thesis using e bulk_evaluation_last_error [OF e] by auto
qed

end
