(* ===== verification/KafkaEventsLaws.thy ===== *)
theory KafkaEventsLaws
  imports KafkaEvents
begin

text \<open>
  Laws of the events written to Kafka: the batches of an evaluation request partition the
  systems of every account in order, and what a failing payload tracker loses.
\<close>

section \<open>Grouping\<close>

lemma gm_list_put: "gm_list (gm_put k v m) k' = (if k' = k then v else gm_list m k')"
  by (simp add: gm_list_def gomap)

lemma group_evals_lists:
  assumes "group_evals evals invs0 reqs0 orgs0 = (invs, reqs, orgs)"
  shows "gm_list invs k = gm_list invs0 k @ map ed_inventory (filter (\<lambda>e. ed_account e = k) evals)"
    and "gm_list reqs k = gm_list reqs0 k @ map ed_request (filter (\<lambda>e. ed_account e = k) evals)"
    and "wf_gomap invs0 \<Longrightarrow> wf_gomap invs"
    and "fst ` set invs = fst ` set invs0 \<union> ed_account ` set evals"
  using assms by (induction evals invs0 reqs0 orgs0 rule: group_evals.induct)
    (simp_all add: gm_list_put dom_update [simplified dom_map_of_conv_image_fst])

text \<open>The organisation of an account is that of its first system.\<close>

definition first_org :: "eval_data list \<Rightarrow> int \<Rightarrow> string option" where
  "first_org evals k = (case find (\<lambda>e. ed_account e = k) evals of None \<Rightarrow> None | Some e \<Rightarrow> ed_org e)"

lemma group_evals_orgs:
  assumes "group_evals evals invs0 reqs0 orgs0 = (invs, reqs, orgs)"
  shows "gm_get orgs k = (case gm_get orgs0 k of Some org \<Rightarrow> Some org
     | None \<Rightarrow> map_option ed_org (find (\<lambda>e. ed_account e = k) evals))"
  using assms by (induction evals invs0 reqs0 orgs0 rule: group_evals.induct)
    (auto simp: gomap split: option.splits if_splits)

section \<open>Batches\<close>

definition event_pairs :: "platform_event \<Rightarrow> (uuid \<times> string) list" where
  "event_pairs ev = (case pe_systems ev of None \<Rightarrow> [] | Some ss \<Rightarrow> zip ss (pe_requests ev))"

definition batch_ok :: "int \<Rightarrow> bool \<Rightarrow> int \<Rightarrow> string option \<Rightarrow> platform_event \<Rightarrow> bool" where
  "batch_ok sz skip acc org ev \<longleftrightarrow> pe_account ev = acc \<and> pe_org ev = org \<and> pe_skip_notifications ev = skip
     \<and> (\<exists>ss. pe_systems ev = Some ss \<and> ss \<noteq> [] \<and> length ss = length (pe_requests ev) \<and> int (length ss) \<le> sz)"

lemma drop_split: "a \<le> b \<Longrightarrow> b \<le> length xs \<Longrightarrow> drop a xs = take (b - a) (drop a xs) @ drop b xs"
  by (metis append_take_drop_id drop_drop le_add_diff_inverse2)

lemma batch_loop_spec:
  assumes "0 < sz" "length reqs = length invs" "0 \<le> start"
  shows "\<exists>evs. batch_loop now skip sz acc invs reqs org start = Some evs
     \<and> concat (map event_pairs evs) = drop (nat start) (zip invs reqs)
     \<and> (\<forall>ev\<in>set evs. batch_ok sz skip acc org ev)
     \<and> int (length evs) = (if start < int (length invs) then (int (length invs) - start + sz - 1) div sz else 0)"
  using assms
proof (induction now skip sz acc invs reqs org start rule: batch_loop.induct)
  case (1 now skip sz acc invs reqs org start)
  show ?case
  proof (cases "start < int (length invs)")
    case False
    then show ?thesis using "1.prems" by (simp add: batch_loop.simps)
  next
    case True
    define e where "e = (if start + sz > int (length invs) then int (length invs) else start + sz)"
    have e: "start < e" "e \<le> int (length invs)" using True "1.prems" by (auto simp: e_def)
    obtain ss rs where ss: "go_slice invs start e = Some ss" "ss = take (nat (e - start)) (drop (nat start) invs)"
      and rs: "go_slice reqs start e = Some rs" "rs = take (nat (e - start)) (drop (nat start) reqs)"
      using e "1.prems" by (simp add: go_slice_def)
    have "0 \<le> start + sz" using "1.prems" by simp
    then obtain rest where rest: "batch_loop now skip sz acc invs reqs org (start + sz) = Some rest"
        "concat (map event_pairs rest) = drop (nat (start + sz)) (zip invs reqs)"
        "\<forall>ev\<in>set rest. batch_ok sz skip acc org ev"
        "int (length rest) = (if start + sz < int (length invs)
           then (int (length invs) - (start + sz) + sz - 1) div sz else 0)"
      using "1.IH" [OF True e_def _ ss(1) rs(1)] e "1.prems" by auto
    have res: "batch_loop now skip sz acc invs reqs org start = Some (batch_event now acc ss rs org skip # rest)"
      using True e ss rs rest(1) by (subst batch_loop.simps) (simp add: e_def [symmetric] Let_def)
    have len: "length ss = nat (e - start)" "length rs = nat (e - start)"
      using ss(2) rs(2) e "1.prems" by auto
    have tail: "drop (nat (start + sz)) (zip invs reqs) = drop (nat e) (zip invs reqs)"
      using "1.prems" by (auto simp: e_def)
    have head: "event_pairs (batch_event now acc ss rs org skip) = take (nat (e - start)) (drop (nat start) (zip invs reqs))"
      using ss(2) rs(2) by (simp add: event_pairs_def batch_event_def drop_zip take_zip)
    have pairs: "concat (map event_pairs (batch_event now acc ss rs org skip # rest)) = drop (nat start) (zip invs reqs)"
      using head rest(2) tail drop_split [of "nat start" "nat e" "zip invs reqs"] e "1.prems"
      by (simp add: nat_diff_distrib)
    have ok: "batch_ok sz skip acc org (batch_event now acc ss rs org skip)"
      using len e by (auto simp: batch_ok_def batch_event_def e_def split: if_splits)
    have cnt: "int (length (batch_event now acc ss rs org skip # rest)) = (int (length invs) - start + sz - 1) div sz"
    proof (cases "start + sz < int (length invs)")
      case True
      then have "(int (length invs) - start + sz - 1) div sz = 1 + (int (length invs) - (start + sz) + sz - 1) div sz"
        using div_add_self2 [of sz "int (length invs) - start - 1"] "1.prems" by (simp add: algebra_simps)
      then show ?thesis using rest(4) True by simp
    next
      case False
      then have "(int (length invs) - start + sz - 1) div sz = 1"
        using div_add_self2 [of sz "int (length invs) - start - 1"] div_pos_pos_trivial [of "int (length invs) - start - 1" sz]
          \<open>start < int (length invs)\<close> "1.prems" by (simp add: algebra_simps)
      then show ?thesis using rest(4) False by simp
    qed
    show ?thesis using res pairs ok rest(3) cnt True by auto
  qed
qed

lemma batch_loop_all:
  assumes "0 < sz" "length reqs = length invs"
  obtains evs where "batch_loop now skip sz acc invs reqs org 0 = Some evs"
    "concat (map event_pairs evs) = zip invs reqs" "\<forall>ev\<in>set evs. batch_ok sz skip acc org ev"
    "int (length evs) = (int (length invs) + sz - 1) div sz"
proof -
  have "(int (length invs) + sz - 1) div sz = 0" if "length invs = 0"
    using that assms(1) by (simp add: div_pos_pos_trivial)
  then show ?thesis using batch_loop_spec [OF assms, of 0 now skip acc org] that by (auto split: if_splits)
qed

definition batches_of :: "int \<Rightarrow> (int \<times> uuid list) list \<Rightarrow> int" where
  "batches_of sz groups = sum_list (map (\<lambda>(acc, invs). (int (length invs) + sz - 1) div sz) groups)"

lemma account_loop_spec:
  assumes "0 < sz" "\<forall>(acc, invs)\<in>set groups. length (gm_list reqs acc) = length invs"
  shows "\<exists>evs. account_loop now skip sz reqs orgs groups = Some evs
     \<and> (\<forall>ev\<in>set evs. batch_ok sz skip (pe_account ev)
           (case gm_get orgs (pe_account ev) of None \<Rightarrow> None | Some org \<Rightarrow> org) ev)
     \<and> (\<forall>k. concat (map event_pairs (filter (\<lambda>ev. pe_account ev = k) evs)) =
           concat (map (\<lambda>(acc, invs). zip invs (gm_list reqs acc)) (filter (\<lambda>g. fst g = k) groups)))
     \<and> int (length evs) = batches_of sz groups"
  using assms(2)
proof (induction groups)
  case Nil
  then show ?case by (simp add: batches_of_def)
next
  case (Cons g groups)
  obtain acc invs where g: "g = (acc, invs)" by (cases g)
  let ?org = "case gm_get orgs acc of None \<Rightarrow> None | Some org \<Rightarrow> org"
  obtain evs where evs: "batch_loop now skip sz acc invs (gm_list reqs acc) ?org 0 = Some evs"
    "concat (map event_pairs evs) = zip invs (gm_list reqs acc)" "\<forall>ev\<in>set evs. batch_ok sz skip acc ?org ev"
    "int (length evs) = (int (length invs) + sz - 1) div sz"
    using batch_loop_all [OF assms(1), of "gm_list reqs acc" invs now skip acc ?org] Cons.prems g by auto
  obtain rest where rest: "account_loop now skip sz reqs orgs groups = Some rest"
    "\<forall>ev\<in>set rest. batch_ok sz skip (pe_account ev) (case gm_get orgs (pe_account ev) of None \<Rightarrow> None | Some org \<Rightarrow> org) ev"
    "\<forall>k. concat (map event_pairs (filter (\<lambda>ev. pe_account ev = k) rest)) =
           concat (map (\<lambda>(acc, invs). zip invs (gm_list reqs acc)) (filter (\<lambda>g. fst g = k) groups))"
    "int (length rest) = batches_of sz groups"
    using Cons.IH Cons.prems by auto
  have acc: "\<forall>ev\<in>set evs. pe_account ev = acc" using evs(3) by (simp add: batch_ok_def)
  have sel: "filter (\<lambda>ev. pe_account ev = k) evs = (if k = acc then evs else [])" for k
    using acc by (auto simp: filter_id_conv filter_empty_conv)
  have res: "account_loop now skip sz reqs orgs (g # groups) = Some (evs @ rest)" using g evs(1) rest(1) by simp
  have ok: "\<forall>ev\<in>set (evs @ rest). batch_ok sz skip (pe_account ev)
      (case gm_get orgs (pe_account ev) of None \<Rightarrow> None | Some org \<Rightarrow> org) ev"
    using evs(3) rest(2) acc by auto
  have pairs: "concat (map event_pairs (filter (\<lambda>ev. pe_account ev = k) (evs @ rest))) =
      concat (map (\<lambda>(acc, invs). zip invs (gm_list reqs acc)) (filter (\<lambda>g. fst g = k) (g # groups)))" for k
    using evs(2) rest(3) g by (simp add: sel)
  have cnt: "int (length (evs @ rest)) = batches_of sz (g # groups)"
    using evs(4) rest(4) g by (simp add: batches_of_def)
  show ?case using res ok pairs cnt by blast
qed

definition systems_in :: "(int \<times> uuid list) list \<Rightarrow> int" where
  "systems_in groups = sum_list (map (\<lambda>(acc, invs). int (length invs)) groups)"

lemma batches_le:
  assumes "0 < sz"
  shows "0 \<le> (int n + sz - 1) div sz \<and> (int n + sz - 1) div sz \<le> int n"
proof (cases n)
  case 0
  then show ?thesis using assms by (simp add: div_pos_pos_trivial)
next
  case (Suc k)
  have "(int n + sz - 1) div sz = int k div sz + 1"
    using div_add_self2 [of sz "int k"] assms Suc by (simp add: algebra_simps)
  moreover have "int k div sz \<le> int k" using assms zdiv_mono2 [of "int k" 1 sz] by simp
  moreover have "0 \<le> int k div sz" using assms by (simp add: pos_imp_zdiv_nonneg_iff)
  ultimately show ?thesis using Suc by simp
qed

lemma systems_in_nonneg: "0 \<le> systems_in groups"
  by (induction groups) (auto simp: systems_in_def)

lemma batches_of_bounds: "0 < sz \<Longrightarrow> 0 \<le> batches_of sz groups \<and> batches_of sz groups \<le> systems_in groups"
proof (induction groups)
  case (Cons g groups)
  then show ?case using batches_le [of sz "length (snd g)"]
    by (auto simp: batches_of_def systems_in_def split: prod.splits)
qed (simp add: batches_of_def systems_in_def)

lemma sum_batches_spec:
  assumes "0 < sz" "0 \<le> b" "b + systems_in groups + sz < 2 ^ 63"
  shows "sum_batches groups sz b = Some (b + batches_of sz groups)"
  using assms(2,3)
proof (induction groups arbitrary: b)
  case Nil
  then show ?case by (simp add: batches_of_def)
next
  case (Cons g groups)
  obtain acc ev where g: "g = (acc, ev)" by (cases g)
  let ?n = "(int (length ev) + sz - 1) div sz"
  have sys: "systems_in (g # groups) = int (length ev) + systems_in groups" by (simp add: systems_in_def g)
  have le: "0 \<le> ?n" "?n \<le> int (length ev)" using batches_le [OF assms(1)] by blast+
  have small: "int (length ev) + sz - 1 < 2 ^ 63" "b + ?n < 2 ^ 63"
    using Cons.prems sys systems_in_nonneg [of groups] le assms(1) by linarith+
  have w: "wrap64 (int (length ev) + sz - 1) = int (length ev) + sz - 1"
    by (rule wrap64_id) (use small assms(1) in \<open>simp add: in_int64_def\<close>)
  have d: "go_div (int (length ev) + sz - 1) sz = Some ?n"
    by (rule go_div_nonneg) (use small assms(1) in simp_all)
  have w2: "wrap64 (b + ?n) = b + ?n"
    by (rule wrap64_id) (use small le Cons.prems in \<open>simp add: in_int64_def\<close>)
  have "sum_batches groups sz (b + ?n) = Some (b + ?n + batches_of sz groups)"
    by (rule Cons.IH) (use Cons.prems sys le in linarith)+
  then show ?case using g w d w2 by (simp add: batches_of_def)
qed

lemma systems_in_group:
  assumes "group_evals evals invs0 reqs0 orgs0 = (invs, reqs, orgs)"
  shows "systems_in invs = systems_in invs0 + int (length evals)"
proof -
  have upd: "systems_in (gm_put k (gm_list m k @ [x]) m) = systems_in m + 1" for k x and m :: "(int \<times> uuid list) list"
    by (induction m) (auto simp: systems_in_def gm_list_def)
  show ?thesis using assms
    by (induction evals invs0 reqs0 orgs0 rule: group_evals.induct) (simp_all add: upd)
qed

text \<open>In any order of the accounts, the group of one account is what the map holds for it.\<close>

lemma group_pairs:
  assumes "wf_gomap invs" "mset groups = mset invs"
  shows "concat (map (\<lambda>(acc, invs). zip invs (gm_list reqs acc)) (filter (\<lambda>g. fst g = k) groups))
    = zip (gm_list invs k) (gm_list reqs k)"
proof -
  have "mset (filter (\<lambda>g. fst g = k) groups) = mset (filter (\<lambda>g. fst g = k) invs)"
    using assms(2) by simp
  moreover have "filter (\<lambda>g. fst g = k) invs = (case gm_get invs k of None \<Rightarrow> [] | Some is \<Rightarrow> [(k, is)])"
    using assms(1) by (induction invs) (auto split: option.splits simp: filter_empty_conv rev_image_eqI)
  ultimately have "filter (\<lambda>g. fst g = k) groups = (case gm_get invs k of None \<Rightarrow> [] | Some is \<Rightarrow> [(k, is)])"
    by (cases "gm_get invs k") (simp_all add: mset_single_iff del: mset_filter)
  then show ?thesis by (simp add: gm_list_def [of invs] split: option.splits)
qed

section \<open>Properties\<close>

text \<open>The evaluation requests written for a list of systems partition it: every event has
  between one and \<open>size\<close> systems of one account, each with its request id and the organisation of
  the account, the events of an account list exactly its systems in their order, and their
  number is the capacity the code computed.  This holds for every order in which the runtime
  visits the accounts, provided the sizes do not overflow 64 bits.\<close>

theorem eval_batches_partition:
  fixes sz default_size evals
  defines "n \<equiv> (if sz \<le> 0 then default_size else sz)"
  assumes "0 < n" "int (length evals) + n < 2 ^ 63" "\<And>m. mset (shuffle m) = mset m"
  shows "\<exists>events. eval_batches default_size now shuffle evals sz skip = Some events
     \<and> (\<forall>ev\<in>set events. batch_ok n skip (pe_account ev) (first_org evals (pe_account ev)) ev)
     \<and> (\<forall>k. concat (map event_pairs (filter (\<lambda>ev. pe_account ev = k) events)) =
           map (\<lambda>e. (ed_inventory e, ed_request e)) (filter (\<lambda>e. ed_account e = k) evals))
     \<and> map_option fst (get_account_eval_data default_size evals n) = Some (int (length events))"
proof -
  obtain invs reqs orgs where g: "group_evals evals [] [] [] = (invs, reqs, orgs)" by (cases "group_evals evals [] [] []")
  have wf: "wf_gomap invs" using group_evals_lists(3) [OF g] by simp
  have lists: "gm_list invs k = map ed_inventory (filter (\<lambda>e. ed_account e = k) evals)"
       "gm_list reqs k = map ed_request (filter (\<lambda>e. ed_account e = k) evals)" for k
    using group_evals_lists(1,2) [OF g, of k] by (simp_all add: gm_list_def)
  have orgs: "(case gm_get orgs k of None \<Rightarrow> None | Some org \<Rightarrow> org) = first_org evals k" for k
    using group_evals_orgs [OF g, of k] by (simp add: first_org_def split: option.splits)
  have at: "gm_list invs acc = is" if "(acc, is) \<in> set invs" for acc "is"
    using that wf by (simp add: gm_list_def)
  have "systems_in invs = int (length evals)" using systems_in_group [OF g] by (simp add: systems_in_def)
  then have sum: "sum_batches invs n 0 = Some (batches_of n invs)"
    using sum_batches_spec [of n 0 invs] assms(2,3) by simp
  have data: "get_account_eval_data default_size evals n = Some (batches_of n invs, invs, reqs, orgs)"
    using g sum assms(2) by (simp add: get_account_eval_data_def batch_count_def)
  have nonneg: "0 \<le> batches_of n invs" using batches_of_bounds [OF assms(2)] by blast
  have perm: "set (shuffle invs) = set invs" "batches_of n (shuffle invs) = batches_of n invs"
    using assms(4) [of invs] mset_eq_setD by (blast, metis batches_of_def mset_map sum_mset_sum_list)
  have "\<forall>(acc, is)\<in>set (shuffle invs). length (gm_list reqs acc) = length is"
    using at lists perm(1) by fastforce
  then obtain events where ev: "account_loop now skip n reqs orgs (shuffle invs) = Some events"
     "\<forall>ev\<in>set events. batch_ok n skip (pe_account ev) (first_org evals (pe_account ev)) ev"
     "\<forall>k. concat (map event_pairs (filter (\<lambda>ev. pe_account ev = k) events)) =
           concat (map (\<lambda>(acc, invs). zip invs (gm_list reqs acc)) (filter (\<lambda>g. fst g = k) (shuffle invs)))"
     "int (length events) = batches_of n (shuffle invs)"
    using account_loop_spec [OF assms(2), of "shuffle invs" reqs now skip orgs] by (auto simp: orgs)
  have pairs: "concat (map (\<lambda>(acc, invs). zip invs (gm_list reqs acc)) (filter (\<lambda>g. fst g = k) (shuffle invs))) =
      map (\<lambda>e. (ed_inventory e, ed_request e)) (filter (\<lambda>e. ed_account e = k) evals)" for k
    using group_pairs [OF wf assms(4) [of invs], of reqs k] by (simp add: lists zip_map_map zip_same_conv_map)
  have "eval_batches default_size now shuffle evals sz skip = Some events"
    using data nonneg ev(1) by (simp add: eval_batches_def n_def [symmetric] del: n_def)
  then show ?thesis using ev pairs data perm(2) by auto
qed

text \<open>Two accounts, batches of two, the map visited backwards.\<close>

definition sample_evals :: "eval_data list" where
  "sample_evals = map (\<lambda>(i, acc, r, org). \<lparr>ed_inventory = i, ed_account = acc, ed_request = r, ed_org = org\<rparr>)
     [(''a'', 1, ''r1'', Some ''o1''), (''b'', 2, ''r2'', None), (''c'', 1, ''r3'', None), (''d'', 1, ''r4'', Some ''o1'')]"

theorem eval_batches_partition_witness:
  "\<exists>events. eval_batches 4000 7 rev sample_evals 2 True = Some events
     \<and> concat (map event_pairs (filter (\<lambda>ev. pe_account ev = 1) events)) = [(''a'', ''r1''), (''c'', ''r3''), (''d'', ''r4'')]
     \<and> int (length events) = 3"
proof -
  let ?n = "if (2::int) \<le> 0 then 4000 else 2"
  have "(0::int) < ?n" "int (length sample_evals) + ?n < 2 ^ 63" "\<And>m. mset (rev m) = mset m"
    by (simp_all add: sample_evals_def)
  from eval_batches_partition [OF this, of 7 True] obtain events where
    e: "eval_batches 4000 7 rev sample_evals 2 True = Some events"
    "concat (map event_pairs (filter (\<lambda>ev. pe_account ev = 1) events)) =
       map (\<lambda>e. (ed_inventory e, ed_request e)) (filter (\<lambda>e. ed_account e = 1) sample_evals)"
    "map_option fst (get_account_eval_data 4000 sample_evals 2) = Some (int (length events))" by auto
  have "map_option fst (get_account_eval_data 4000 sample_evals 2) = Some 3" by code_simp
  then have "Some (int (length events)) = Some 3" by (rule trans [OF e(3) [symmetric]])
  then have "int (length events) = 3" by simp
  moreover have "map (\<lambda>e. (ed_inventory e, ed_request e)) (filter (\<lambda>e. ed_account e = 1) sample_evals)
      = [(''a'', ''r1''), (''c'', ''r3''), (''d'', ''r4'')]" by (simp add: sample_evals_def)
  ultimately show ?thesis using e(1,2) by auto
qed

text \<open>Only events that carry a request id and an organisation are sent.\<close>

definition tracked :: "tracker_event \<Rightarrow> bool" where
  "tracked e \<longleftrightarrow> te_request e \<noteq> None \<and> te_org e \<noteq> None"

lemma tracker_loop_append:
  "tracker_loop now enc w (es @ [e]) err s =
     write_tracker_event now enc w e (snd (tracker_loop now enc w es err s))"
  by (induction now enc w es err s rule: tracker_loop.induct) (simp_all split: prod.splits)

lemma tracker_loop_sends:
  assumes "\<And>e. enc e = Some (f e)"
  shows "tracker_loop now enc append_writer es err s =
     (if es = [] then err else None,
      s @ map (\<lambda>e. \<lparr>km_key = [], km_value = f (e\<lparr>te_service := ''patchman'', te_date := Some now\<rparr>), km_headers = []\<rparr>)
            (filter tracked es))"
  using assms by (induction now enc "append_writer :: kafka_message list writer" es err s rule: tracker_loop.induct)
    (simp_all add: write_tracker_event_def write_tracker_message_def create_event_message_def append_writer_def
      tracked_def split: prod.splits)

text \<open>A list of payload tracker events is written one message at a time, events without a
  request id or an organisation left out, and the error reported is only that of the last
  event: when the last one is not tracked, every failure before it is lost.\<close>

theorem tracker_events_lose_errors:
  "write_tracker_events True now enc w (es @ [e]) s =
     (let s' = snd (write_tracker_events True now enc w es s)
      in if tracked e then write_tracker_message enc w (e\<lparr>te_service := ''patchman'', te_date := Some now\<rparr>) s'
         else (None, s'))
   \<and> write_tracker_events True now (\<lambda>e. Some (f e)) append_writer es topic =
       (None, topic @ map (\<lambda>e. \<lparr>km_key = [], km_value = f (e\<lparr>te_service := ''patchman'', te_date := Some now\<rparr>),
            km_headers = []\<rparr>) (filter tracked es))"
  by (simp add: write_tracker_events_def tracker_loop_append tracker_loop_sends write_tracker_event_def
      tracked_def Let_def)

end
