(* ===== verification/GoText.thy ===== *)
theory GoText
  imports GoStrings
begin

text \<open>
  More of Go's \<open>strings\<close> package: \<open>TrimSpace\<close> on the bytes of UTF-8 text, \<open>ReplaceAll\<close> and
  \<open>TrimPrefix\<close>.
\<close>

section \<open>White space\<close>

text \<open>The encodings of the code points \<open>unicode.IsSpace\<close> accepts.\<close>

definition white_space :: "string list" where
  "white_space =
     [[CHR 0x09], [CHR 0x0A], [CHR 0x0B], [CHR 0x0C], [CHR 0x0D], [CHR 0x20], [CHR 0xC2, CHR 0x85],
      [CHR 0xC2, CHR 0xA0], [CHR 0xE1, CHR 0x9A, CHR 0x80], [CHR 0xE2, CHR 0x80, CHR 0x80],
      [CHR 0xE2, CHR 0x80, CHR 0x81], [CHR 0xE2, CHR 0x80, CHR 0x82], [CHR 0xE2, CHR 0x80, CHR 0x83],
      [CHR 0xE2, CHR 0x80, CHR 0x84], [CHR 0xE2, CHR 0x80, CHR 0x85], [CHR 0xE2, CHR 0x80, CHR 0x86],
      [CHR 0xE2, CHR 0x80, CHR 0x87], [CHR 0xE2, CHR 0x80, CHR 0x88], [CHR 0xE2, CHR 0x80, CHR 0x89],
      [CHR 0xE2, CHR 0x80, CHR 0x8A], [CHR 0xE2, CHR 0x80, CHR 0xA8], [CHR 0xE2, CHR 0x80, CHR 0xA9],
      [CHR 0xE2, CHR 0x80, CHR 0xAF], [CHR 0xE2, CHR 0x81, CHR 0x9F], [CHR 0xE3, CHR 0x80, CHR 0x80]]"

lemma white_space_ne: "w \<in> set white_space \<Longrightarrow> w \<noteq> []"
  by (auto simp: white_space_def)

function trim_left :: "string \<Rightarrow> string" where
  "trim_left s = (case find (\<lambda>w. prefix w s) white_space of
                    None \<Rightarrow> s
                  | Some w \<Rightarrow> trim_left (drop (length w) s))"
  by pat_completeness auto
termination
proof (relation "measure length")
  show "wf (measure (length :: string \<Rightarrow> nat))" by simp
next
  fix s w
  assume "find (\<lambda>w. prefix w s) white_space = Some w"
  then have "prefix w s" "w \<in> set white_space"
    by (auto simp: find_Some_iff)
  then have "prefix w s" "w \<noteq> []" by (simp_all add: white_space_ne)
  then show "(drop (length w) s, s) \<in> measure length"
    by (cases w; cases s) auto
qed

declare trim_left.simps [simp del]

text \<open>\<open>strings.TrimSpace(s) == ""\<close>, the only question the program asks of a trimmed string: what
  is left of \<open>s\<close> once its leading spaces are gone is empty.\<close>

definition is_blank :: "string \<Rightarrow> bool" where
  "is_blank s \<longleftrightarrow> trim_left s = []"

lemma is_blank_Nil [simp]: "is_blank []"
proof -
  have "find (\<lambda>w. prefix w []) white_space = None"
    by (auto simp: find_None_iff dest: white_space_ne)
  then show ?thesis by (simp add: is_blank_def trim_left.simps [of "[]"])
qed

section \<open>Replacing\<close>

text \<open>\<open>strings.ReplaceAll\<close> for a non-empty pattern: the matches from the left that do not overlap.\<close>

function replace_all :: "string \<Rightarrow> string \<Rightarrow> string \<Rightarrow> string" where
  "replace_all old new s =
     (case s of
        [] \<Rightarrow> []
      | x # t \<Rightarrow> if old \<noteq> [] \<and> prefix old s then new @ replace_all old new (drop (length old) s)
                 else x # replace_all old new t)"
  by pat_completeness auto
termination
  by (relation "measure (\<lambda>(old, new, s). length s)") auto

declare replace_all.simps [simp del]

definition trim_prefix :: "string \<Rightarrow> string \<Rightarrow> string" where
  "trim_prefix p s = (if prefix p s then drop (length p) s else s)"

lemma replace_all_Nil [simp]: "replace_all old new [] = []"
  by (simp add: replace_all.simps)

text \<open>A text without the pattern is left alone.\<close>

lemma replace_all_id: "old \<noteq> [] \<Longrightarrow> \<not> str_contains s old \<Longrightarrow> replace_all old new s = s"
  by (induction s) (simp_all add: replace_all.simps [of old new])

lemma trim_prefix_append [simp]: "trim_prefix p (p @ s) = s"
  by (simp add: trim_prefix_def)

end
