(* ===== verification/Host.thy ===== *)
theory Host
  imports Nevra Models GoErrors Vmaas GoText
begin

text \<open>
  The host message of the inventory (\<open>base/inventory/inventory.go\<close> and the types of
  \<open>listener/upload.go\<close>) and the pure steps of an upload: validation, the list of
  repositories and repository paths, the modules, the metric of a rejection.  \<open>url.Parse\<close>
  is an argument: the path of an URL, \<open>None\<close> when it does not parse.
\<close>

section \<open>The system profile\<close>

record operating_system =
  os_major :: int
  os_minor :: int
  os_name :: string

record yum_repo =
  yr_id :: string
  yr_name :: string
  yr_enabled :: bool
  yr_mirrorlist :: string
  yr_base_url :: string

record dnf_module =
  dm_name :: string
  dm_stream :: string

record rhsm =
  rh_version :: string
  rh_environments :: "string list"

record sap_workload =
  sap_system :: bool
  sap_sids :: "string list"

record satellite_workload =
  sat_type :: string
  sat_version :: string

text \<open>The workloads with one field are that field.\<close>

record workloads =
  wl_sap :: sap_workload
  wl_ansible_controller_version :: string
  wl_mssql_version :: string
  wl_crowdstrike_falcon_aid :: string
  wl_ibm_db2_is_running :: bool
  wl_intersystems_is_intersystems :: bool
  wl_oracle_db_is_running :: bool
  wl_rhel_ai_variant :: string
  wl_satellite :: satellite_workload

record system_profile =
  pf_arch :: "string option"
  pf_host_type :: string
  pf_installed_packages :: "string list option"
  pf_yum_repos :: "yum_repo list option"
  pf_dnf_modules :: "dnf_module list option"
  pf_operating_system :: operating_system
  pf_rhsm :: rhsm
  pf_releasever :: "string option"
  pf_satellite_managed :: bool
  pf_bootc_booted_image :: string
  pf_owner_id :: "uuid option"
  pf_workloads :: workloads

definition get_installed_packages :: "system_profile option \<Rightarrow> string list" where
  "get_installed_packages t =
     (case t of None \<Rightarrow> []
      | Some p \<Rightarrow> (case pf_installed_packages p of None \<Rightarrow> [] | Some l \<Rightarrow> l))"

definition get_dnf_modules :: "system_profile option \<Rightarrow> dnf_module list" where
  "get_dnf_modules t =
     (case t of None \<Rightarrow> []
      | Some p \<Rightarrow> (case pf_dnf_modules p of None \<Rightarrow> [] | Some l \<Rightarrow> l))"

definition get_yum_repos :: "system_profile option \<Rightarrow> yum_repo list" where
  "get_yum_repos t =
     (case t of None \<Rightarrow> []
      | Some p \<Rightarrow> (case pf_yum_repos p of None \<Rightarrow> [] | Some l \<Rightarrow> l))"

section \<open>The host message\<close>

record inv_group =
  gr_id :: string
  gr_name :: string

record host =
  ho_id :: uuid
  ho_display_name :: "string option"
  ho_org_id :: "string option"
  ho_stale_timestamp :: "timestamp option"
  ho_stale_warning_timestamp :: "timestamp option"
  ho_culled_timestamp :: "timestamp option"
  ho_reporter :: string
  ho_profile :: system_profile
  ho_per_reporter_staleness :: "(string, timestamp) gomap"
  ho_groups :: "inv_group list"
  ho_tags :: string
  ho_created :: timestamp

record host_event =
  he_type :: string
  he_yum_updates :: string
  he_yum_updates_s3url :: "string option"
  he_host :: host
  he_request_id :: string

text \<open>\<open>YumUpdates\<close>; a nil slice reads as the empty one.\<close>

record host_yum =
  yu_raw_parsed :: string
  yu_built_pkgcache :: bool

definition get_raw_parsed :: "host_yum option \<Rightarrow> string" where
  "get_raw_parsed y = (case y of None \<Rightarrow> [] | Some y \<Rightarrow> yu_raw_parsed y)"

definition get_built_pkgcache :: "host_yum option \<Rightarrow> bool" where
  "get_built_pkgcache y = (case y of None \<Rightarrow> False | Some y \<Rightarrow> yu_built_pkgcache y)"

definition get_org_id :: "host \<Rightarrow> string" where
  "get_org_id h = (case ho_org_id h of None \<Rightarrow> [] | Some s \<Rightarrow> s)"

text \<open>\<open>allowed\<close> is a map to \<open>bool\<close>: a missing key reads as false.\<close>

definition str_set_has :: "(string, bool) gomap \<Rightarrow> string \<Rightarrow> bool" where
  "str_set_has m k = (case gm_get m k of None \<Rightarrow> False | Some b \<Rightarrow> b)"

fun last_upload_loop :: "(string, bool) gomap \<Rightarrow> (string, timestamp) gomap \<Rightarrow> timestamp option \<Rightarrow> timestamp option" where
  "last_upload_loop allowed [] latest = latest"
| "last_upload_loop allowed ((reporter, t) # rs) latest =
     last_upload_loop allowed rs
       (if str_set_has allowed reporter \<and> (case latest of None \<Rightarrow> True | Some l \<Rightarrow> l < t) then Some t else latest)"

definition get_last_upload :: "(string, bool) gomap \<Rightarrow> host option \<Rightarrow> timestamp option" where
  "get_last_upload allowed h =
     (case h of None \<Rightarrow> None | Some h \<Rightarrow> last_upload_loop allowed (ho_per_reporter_staleness h) None)"

section \<open>Validation\<close>

datatype ls_site =
    AccountFind | AccountCreate | DeletedFind | OldChecksums | TemplateLookup | SystemLookup | InventoryUpsert
  | PatchUpsert | PatchReload | ReposLoad | ReposInsert | SystemReposInsert | SystemReposDelete | UploadCommit
  | DeletedUpsert | MarkCulled | TemplateFind | TemplateUpsert | TemplateUnassign | TemplateAdvisoriesDelete
  | TemplateDeleteRow | StoredAdvisories | AdvisoryIds | OldAdvisoriesDelete | NewAdvisoriesInsert | SyncCommit
  | TemplateSystems

datatype listener_error =
    NevraError nevra_error
  | HttpFailed
  | BadYumJson
  | MarshalFailed
  | InvalidWorkspace
  | MissingOrgId
  | BadTemplateJson
  | NilClient
  | IdentityFailed
  | SqlFailed ls_site

type_synonym ls_err = "listener_error go_error"

definition check_packages_epoch :: "string list \<Rightarrow> ls_err option" where
  "check_packages_epoch packages =
     (case packages of
        [] \<Rightarrow> None
      | p # _ \<Rightarrow> (case parse_nevra p of Inl e \<Rightarrow> Some (Leaf (NevraError e)) | Inr _ \<Rightarrow> None))"

text \<open>\<open>excluded\<close> is read for the presence of the key alone, as \<open>allowed\<close> is here.\<close>

definition validate_host :: "(string, bool) gomap \<Rightarrow> (string, bool) gomap \<Rightarrow> host \<Rightarrow> ls_err option" where
  "validate_host allowed excluded h =
     (if \<not> gm_has allowed (ho_reporter h) then Some (Sentinel ErrReporter)
      else if ho_org_id h = None \<or> ho_org_id h = Some [] then Some (Sentinel ErrNoAccountProvided)
      else if gm_has excluded (pf_host_type (ho_profile h)) then Some (Sentinel ErrHostType)
      else (let installed_packages = get_installed_packages (Some (ho_profile h))
            in if length installed_packages = 0 then Some (Sentinel ErrNoPackages)
               else (case check_packages_epoch installed_packages of
                       Some e \<Rightarrow> join_errors [Some (Sentinel ErrBadPackages), Some e]
                     | None \<Rightarrow> None)))"

text \<open>\<open>metricByErr\<close> is a Go map keyed by error values: only an error that is the sentinel itself is
  found, not one that wraps or joins it.\<close>

definition metric_by_err :: "(sentinel, string) gomap" where
  "metric_by_err =
     [(ErrNoPackages, ''warn-no-packages''), (ErrReporter, ''warn-excluded-reporter''),
      (ErrHostType, ''warn-excluded-host-type''), (ErrBadPackages, ''warn-malformed-packages''),
      (ErrNoAccountProvided, ''error-identity''), (ErrProcessUpload, ''error-processing'')]"

definition error_metric :: "ls_err \<Rightarrow> string" where
  "error_metric err =
     (case (case err of Sentinel s \<Rightarrow> gm_get metric_by_err s | _ \<Rightarrow> None) of
        Some metric \<Rightarrow> metric
      | None \<Rightarrow> ''internal-error'')"

section \<open>Repositories\<close>

definition fix_epel_repo :: "int \<Rightarrow> string \<Rightarrow> string" where
  "fix_epel_repo major r =
     (if r = ''epel'' then r @ ''-'' @ show_int major
      else if has_prefix r (''EPEL_'' @ show_int major) then ''epel-'' @ show_int major
      else r)"

text \<open>\<open>fixEpelRepos\<close> writes into the slice it is given: the result is also what the caller's slice holds.\<close>

definition fix_epel_repos :: "system_profile option \<Rightarrow> string list \<Rightarrow> string list" where
  "fix_epel_repos sys repos =
     (case sys of
        None \<Rightarrow> repos
      | Some p \<Rightarrow>
          if os_major (pf_operating_system p) = 0 then repos
          else map (fix_epel_repo (os_major (pf_operating_system p))) repos)"

fun lit :: "string \<Rightarrow> re \<Rightarrow> re" where
  "lit [] r = r"
| "lit (c # cs) r = Seq (Chars (\<lambda>x. x = c)) (lit cs r)"

definition any_char :: "char \<Rightarrow> bool" where
  "any_char c \<longleftrightarrow> c \<noteq> CHR 0x0A"

definition is_xdigit :: "char \<Rightarrow> bool" where
  "is_xdigit c \<longleftrightarrow> is_digit c \<or> c \<in> set ''abcdefABCDEF''"

definition repo_path_regex :: re where
  "repo_path_regex = Grp 1 (lit ''/content/'' (Many 0 any_char))"

definition template_repo_path :: re where
  "template_repo_path =
     Seq Bol (lit ''https://cert.console'' (Seq (Many 0 any_char)
       (lit ''/api/pulp-content/'' (Seq (Opt (Grp 1 (lit ''cs'' (Chars (\<lambda>c. c = CHR ''-'')))))
         (Seq (Many 1 is_xdigit) (lit ''/templates'' (Chars (\<lambda>c. c = CHR ''/''))))))))"

definition get_repo_path :: "(string \<Rightarrow> string option) \<Rightarrow> system_profile option \<Rightarrow> yum_repo option \<Rightarrow> string \<times> bool" where
  "get_repo_path url_path sys repo =
     (case (sys, repo) of
        (Some p, Some r) \<Rightarrow>
          (if length (yr_mirrorlist r) = 0 \<and> length (yr_base_url r) = 0 then ([], False)
           else (let repo_url = (if length (yr_mirrorlist r) = 0 then yr_base_url r else yr_mirrorlist r)
                 in (case url_path repo_url of
                       None \<Rightarrow> ([], True)
                     | Some path \<Rightarrow>
                         (let found = (case find_submatch repo_path_regex path of None \<Rightarrow> [] | Some cs \<Rightarrow> group cs 0)
                          in if str_contains found ''/rhui/''
                             then (let repo_path = (case pf_arch p of None \<Rightarrow> found
                                                    | Some a \<Rightarrow> replace_all ''$basearch'' a found);
                                       repo_path = (case pf_releasever p of None \<Rightarrow> repo_path
                                                    | Some v \<Rightarrow> replace_all ''$releasever'' v repo_path)
                                   in (repo_path, False))
                             else ([], False)))))
      | _ \<Rightarrow> ([], False))"

definition has_template_repo :: "system_profile option \<Rightarrow> bool" where
  "has_template_repo sys =
     list_ex (\<lambda>r. yr_enabled r \<and> match_string template_repo_path (yr_base_url r)) (get_yum_repos sys)"

text \<open>The loop of \<open>processRepos\<close>.  The error of \<open>getRepoPath\<close> is only logged.\<close>

fun repos_loop :: "(string \<Rightarrow> string option) \<Rightarrow> system_profile option \<Rightarrow> yum_repo list \<Rightarrow> string list
    \<Rightarrow> string list \<times> string list" where
  "repos_loop url_path sys [] seen = ([], [])"
| "repos_loop url_path sys (r # rs) seen =
     (if yr_id r \<in> set seen then repos_loop url_path sys rs seen
      else (let seen = yr_id r # seen
            in if is_blank (yr_id r) then repos_loop url_path sys rs seen
               else if yr_enabled r
               then (let repo_path = fst (get_repo_path url_path sys (Some r));
                         (repos, paths) = repos_loop url_path sys rs seen
                     in (yr_id r # repos, if 0 < length repo_path then repo_path # paths else paths))
               else repos_loop url_path sys rs seen))"

definition process_repos :: "(string \<Rightarrow> string option) \<Rightarrow> system_profile option \<Rightarrow> string list \<times> string list" where
  "process_repos url_path sys =
     (let (repos, repo_paths) = repos_loop url_path sys (get_yum_repos sys) []
      in (fix_epel_repos sys repos, repo_paths))"

text \<open>\<open>processModules\<close> answers a pointer to the list, nil when there are no modules.\<close>

definition process_modules :: "system_profile option \<Rightarrow> (string \<times> string) list" where
  "process_modules sys = map (\<lambda>m. (dm_name m, dm_stream m)) (get_dnf_modules sys)"

end
