(* ===== verification/ListenerStore.thy ===== *)
theory ListenerStore
  imports Host
begin

text \<open>
  The tables the listener reads and writes, and its statements: the account
  (\<open>manager/middlewares/authentication.go\<close>), the upsert of \<open>system_inventory\<close> with the triggers of
  \<open>create_schema.sql\<close>, \<open>system_patch\<close>, repositories and their assignment to systems
  (\<open>listener/upload.go\<close>, \<open>rhsm.go\<close>).  Every statement may fail (\<open>faults\<close>); inside a transaction a
  failed statement makes every later one fail (\<open>ltx_statement\<close>).
\<close>

type_synonym ls_faults = "ls_site \<Rightarrow> bool"

record template_row =
  tr_id :: int
  tr_account :: int
  tr_uuid :: string
  tr_name :: string
  tr_environment_id :: string
  tr_arch :: string
  tr_version :: string
  tr_description :: "string option"
  tr_creator :: "string option"
  tr_published :: "timestamp option"

record listener_db =
  ldb_accounts :: "(string, int) gomap"
  ldb_next_account :: int
  ldb_inventory :: "system_inventory list"
  ldb_next_system :: int
  ldb_patch :: "(int \<times> int, system_patch) gomap"
  ldb_repos :: "(string, int) gomap"
  ldb_next_repo :: int
  ldb_system_repo :: "(int \<times> int \<times> int) list"
  ldb_deleted :: "(uuid, timestamp) gomap"
  ldb_templates :: "template_row list"
  ldb_next_template :: int
  ldb_template_advisories :: "(int \<times> int \<times> int) list"
  ldb_metadata :: "(string, int) gomap"

record ltx =
  lt_db :: listener_db
  lt_aborted :: bool

definition ltx_begin :: "listener_db \<Rightarrow> ltx" where
  "ltx_begin db = \<lparr>lt_db = db, lt_aborted = False\<rparr>"

definition ltx_statement :: "ls_faults \<Rightarrow> ls_site \<Rightarrow> ltx \<Rightarrow> bool \<times> ltx" where
  "ltx_statement faults site t =
     (if lt_aborted t \<or> faults site then (False, t\<lparr>lt_aborted := True\<rparr>) else (True, t))"

definition sql_failed :: "ls_site \<Rightarrow> ls_err" where
  "sql_failed site = Leaf (SqlFailed site)"

definition fatal_sql :: "ls_site \<Rightarrow> string \<Rightarrow> ls_err" where
  "fatal_sql site message = the (wrap_fatal_db_error (Some (sql_failed site)) message)"

section \<open>Accounts\<close>

definition get_or_create_account :: "ls_faults \<Rightarrow> string \<Rightarrow> listener_db \<Rightarrow> (ls_err + int) \<times> listener_db" where
  "get_or_create_account faults org db =
     (if org = [] then (Inl (Leaf MissingOrgId), db)
      else (let found = (if faults AccountFind then None else gm_get (ldb_accounts db) org)
            in (case found of
                  Some i \<Rightarrow> (Inr i, db)
                | None \<Rightarrow>
                    if faults AccountCreate
                    then (Inl (Joined [Sentinel ErrFatal, Sentinel ErrDatabase, sql_failed AccountCreate]), db)
                    else (case gm_get (ldb_accounts db) org of
                            Some i \<Rightarrow> (Inr i, db)
                          | None \<Rightarrow> (Inr (ldb_next_account db),
                              db\<lparr>ldb_accounts := gm_put org (ldb_next_account db) (ldb_accounts db),
                                 ldb_next_account := ldb_next_account db + 1\<rparr>)))))"

section \<open>system_inventory\<close>

text \<open>\<open>SET column = excluded.column\<close>.\<close>

definition set_column :: "system_inventory \<Rightarrow> string \<Rightarrow> system_inventory \<Rightarrow> system_inventory" where
  "set_column new c r =
     (if c = ''display_name'' then r\<lparr>si_display_name := si_display_name new\<rparr>
      else if c = ''last_upload'' then r\<lparr>si_last_upload := si_last_upload new\<rparr>
      else if c = ''stale_timestamp'' then r\<lparr>si_stale_timestamp := si_stale_timestamp new\<rparr>
      else if c = ''stale_warning_timestamp'' then r\<lparr>si_stale_warning_timestamp := si_stale_warning_timestamp new\<rparr>
      else if c = ''culled_timestamp'' then r\<lparr>si_culled_timestamp := si_culled_timestamp new\<rparr>
      else if c = ''satellite_managed'' then r\<lparr>si_satellite_managed := si_satellite_managed new\<rparr>
      else if c = ''built_pkgcache'' then r\<lparr>si_built_pkgcache := si_built_pkgcache new\<rparr>
      else if c = ''arch'' then r\<lparr>si_arch := si_arch new\<rparr>
      else if c = ''bootc'' then r\<lparr>si_bootc := si_bootc new\<rparr>
      else if c = ''tags'' then r\<lparr>si_tags := si_tags new\<rparr>
      else if c = ''workspace_id'' then r\<lparr>si_workspace_id := si_workspace_id new\<rparr>
      else if c = ''workspace_name'' then r\<lparr>si_workspace_name := si_workspace_name new\<rparr>
      else if c = ''os_name'' then r\<lparr>si_os_name := si_os_name new\<rparr>
      else if c = ''os_major'' then r\<lparr>si_os_major := si_os_major new\<rparr>
      else if c = ''os_minor'' then r\<lparr>si_os_minor := si_os_minor new\<rparr>
      else if c = ''rhsm_version'' then r\<lparr>si_rhsm_version := si_rhsm_version new\<rparr>
      else if c = ''subscription_manager_id'' then r\<lparr>si_subscription_manager_id := si_subscription_manager_id new\<rparr>
      else if c = ''sap_workload'' then r\<lparr>si_sap_workload := si_sap_workload new\<rparr>
      else if c = ''sap_workload_sids'' then r\<lparr>si_sap_workload_sids := si_sap_workload_sids new\<rparr>
      else if c = ''ansible_workload'' then r\<lparr>si_ansible_workload := si_ansible_workload new\<rparr>
      else if c = ''ansible_workload_controller_version''
        then r\<lparr>si_ansible_workload_controller_version := si_ansible_workload_controller_version new\<rparr>
      else if c = ''mssql_workload'' then r\<lparr>si_mssql_workload := si_mssql_workload new\<rparr>
      else if c = ''mssql_workload_version'' then r\<lparr>si_mssql_workload_version := si_mssql_workload_version new\<rparr>
      else if c = ''crowdstrike_workload'' then r\<lparr>si_crowdstrike_workload := si_crowdstrike_workload new\<rparr>
      else if c = ''ibm_db2_workload'' then r\<lparr>si_ibm_db2_workload := si_ibm_db2_workload new\<rparr>
      else if c = ''intersystems_workload'' then r\<lparr>si_intersystems_workload := si_intersystems_workload new\<rparr>
      else if c = ''oracle_db_workload'' then r\<lparr>si_oracle_db_workload := si_oracle_db_workload new\<rparr>
      else if c = ''rhel_ai_workload'' then r\<lparr>si_rhel_ai_workload := si_rhel_ai_workload new\<rparr>
      else if c = ''satellite_workload'' then r\<lparr>si_satellite_workload := si_satellite_workload new\<rparr>
      else if c = ''vmaas_json'' then r\<lparr>si_vmaas_json := si_vmaas_json new\<rparr>
      else if c = ''json_checksum'' then r\<lparr>si_json_checksum := si_json_checksum new\<rparr>
      else if c = ''reporter_id'' then r\<lparr>si_reporter_id := si_reporter_id new\<rparr>
      else if c = ''yum_updates'' then r\<lparr>si_yum_updates := si_yum_updates new\<rparr>
      else if c = ''yum_checksum'' then r\<lparr>si_yum_checksum := si_yum_checksum new\<rparr>
      else r)"

text \<open>The triggers \<open>set_last_updated\<close> and \<open>check_unchanged\<close>; SQL's \<open><>\<close> is not true of NULL.\<close>

definition sql_differ :: "'a option \<Rightarrow> 'a option \<Rightarrow> bool" where
  "sql_differ a b = (case (a, b) of (Some x, Some y) \<Rightarrow> x \<noteq> y | _ \<Rightarrow> False)"

definition on_insert :: "timestamp \<Rightarrow> system_inventory \<Rightarrow> system_inventory" where
  "on_insert now r = r\<lparr>si_last_updated := (if si_last_updated r = None then Some now else si_last_updated r),
     si_unchanged_since := (if si_unchanged_since r = None then Some now else si_unchanged_since r)\<rparr>"

definition on_update :: "timestamp \<Rightarrow> system_inventory \<Rightarrow> system_inventory \<Rightarrow> system_inventory" where
  "on_update now old r = r\<lparr>si_last_updated := Some now,
     si_unchanged_since := (if sql_differ (si_json_checksum r) (si_json_checksum old)
         \<or> sql_differ (si_yum_checksum r) (si_yum_checksum old) then Some now else si_unchanged_since r)\<rparr>"

definition is_row :: "int \<Rightarrow> uuid \<Rightarrow> system_inventory \<Rightarrow> bool" where
  "is_row account inventory_id r \<longleftrightarrow> si_account r = account \<and> si_inventory_id r = inventory_id"

definition find_inventory :: "int \<Rightarrow> uuid \<Rightarrow> listener_db \<Rightarrow> system_inventory option" where
  "find_inventory account inventory_id db = find (is_row account inventory_id) (ldb_inventory db)"

text \<open>\<open>INSERT .. ON CONFLICT (rh_account_id, inventory_id) DO UPDATE SET ..\<close>: the row as it is stored.
  A zero id is left to the sequence.\<close>

definition upsert_inventory :: "timestamp \<Rightarrow> string list \<Rightarrow> system_inventory \<Rightarrow> listener_db
    \<Rightarrow> system_inventory \<times> listener_db" where
  "upsert_inventory now cols new db =
     (case find_inventory (si_account new) (si_inventory_id new) db of
        Some old \<Rightarrow>
          (let row = on_update now old (fold (set_column new) cols old)
           in (row, db\<lparr>ldb_inventory := map (\<lambda>r. if is_row (si_account new) (si_inventory_id new) r then row else r)
                 (ldb_inventory db)\<rparr>))
      | None \<Rightarrow>
          (let row = on_insert now (if si_id new = 0 then new\<lparr>si_id := ldb_next_system db\<rparr> else new)
           in (row, db\<lparr>ldb_inventory := ldb_inventory db @ [row],
                 ldb_next_system := (if si_id new = 0 then ldb_next_system db + 1 else ldb_next_system db)\<rparr>)))"

section \<open>system_patch\<close>

text \<open>The rows affected, and \<open>last_evaluation\<close> as \<open>RETURNING\<close> gives it.\<close>

definition upsert_patch :: "int \<Rightarrow> int \<Rightarrow> int option \<Rightarrow> string list \<Rightarrow> listener_db
    \<Rightarrow> (nat \<times> timestamp option) \<times> listener_db" where
  "upsert_patch account system template_id cols db =
     (case gm_get (ldb_patch db) (account, system) of
        None \<Rightarrow> ((1, None), db\<lparr>ldb_patch := gm_put (account, system)
           (zero_patch\<lparr>sp_system_id := system, sp_account := account, sp_template_id := template_id\<rparr>) (ldb_patch db)\<rparr>)
      | Some p \<Rightarrow>
          if cols = [] then ((0, None), db)
          else ((1, sp_last_evaluation p), db\<lparr>ldb_patch := gm_put (account, system)
             (if ''template_id'' \<in> set cols then p\<lparr>sp_template_id := template_id\<rparr> else p) (ldb_patch db)\<rparr>))"

section \<open>Repositories\<close>

text \<open>\<open>INSERT INTO repo .. ON CONFLICT DO NOTHING RETURNING id\<close>: a name that is taken returns no row.\<close>

fun insert_repos :: "string list \<Rightarrow> listener_db \<Rightarrow> int list \<times> listener_db" where
  "insert_repos [] db = ([], db)"
| "insert_repos (n # ns) db =
     (if gm_has (ldb_repos db) n then insert_repos ns db
      else (let (ids, db') = insert_repos ns (db\<lparr>ldb_repos := gm_put n (ldb_next_repo db) (ldb_repos db),
                                               ldb_next_repo := ldb_next_repo db + 1\<rparr>)
            in (ldb_next_repo db # ids, db')))"

fun split_repos :: "(string, int) gomap \<Rightarrow> string list \<Rightarrow> int list \<times> string list" where
  "split_repos known [] = ([], [])"
| "split_repos known (r # rs) =
     (let (ids, to_store) = split_repos known rs
      in (case gm_get known r of Some i \<Rightarrow> (i # ids, to_store) | None \<Rightarrow> (ids, r # to_store)))"

text \<open>\<open>scan_ids n ids\<close> is how gorm spreads the returned ids over the \<open>n\<close> rows it was given.\<close>

definition ensure_repos_in_db :: "ls_faults \<Rightarrow> (nat \<Rightarrow> int list \<Rightarrow> int list) \<Rightarrow> string list \<Rightarrow> ltx
    \<Rightarrow> (ls_err + int list \<times> nat) \<times> ltx" where
  "ensure_repos_in_db faults scan_ids repos t =
     (if repos = [] then (Inr ([], 0), t)
      else (let (ok, t) = ltx_statement faults ReposLoad t
            in if \<not> ok then (Inl (fatal_sql ReposLoad ''unable to load repos''), t)
               else (let (repo_ids, to_store) =
                           split_repos (filter (\<lambda>e. fst e \<in> set repos) (ldb_repos (lt_db t))) repos
                     in if to_store = [] then (Inr (repo_ids, 0), t)
                        else (let (ok, t) = ltx_statement faults ReposInsert t
                              in if \<not> ok then (Inl (fatal_sql ReposInsert ''unable to update repos''), t)
                                 else (let (ids, db) = insert_repos to_store (lt_db t)
                                       in (Inr (repo_ids @ scan_ids (length to_store) ids, length ids),
                                           t\<lparr>lt_db := db\<rparr>))))))"

text \<open>\<open>delete_other_system_repos\<close> is a statement and the number of rows it deletes.\<close>

definition delete_other_system_repos :: "ls_faults \<Rightarrow> int \<Rightarrow> int \<Rightarrow> int list \<Rightarrow> ltx \<Rightarrow> (ls_err + nat) \<times> ltx" where
  "delete_other_system_repos faults account system repo_ids t =
     (let (ok, t) = ltx_statement faults SystemReposDelete t
      in if \<not> ok then (Inl (sql_failed SystemReposDelete), t)
         else (let gone = (\<lambda>(a, s, r). a = account \<and> s = system \<and> (repo_ids = [] \<or> r \<notin> set repo_ids));
                   rows = ldb_system_repo (lt_db t)
               in (Inr (length (filter gone rows)),
                   t\<lparr>lt_db := (lt_db t)\<lparr>ldb_system_repo := filter (\<lambda>k. \<not> gone k) rows\<rparr>\<rparr>)))"

fun insert_rows :: "'a list \<Rightarrow> 'a list \<Rightarrow> 'a list" where
  "insert_rows [] t = t"
| "insert_rows (k # ks) t = insert_rows ks (if k \<in> set t then t else t @ [k])"

text \<open>The foreign key: a row with an id that is not in \<open>repo\<close> makes the insert fail.  An insert of
  no rows sends no statement.\<close>

definition update_system_repos :: "ls_faults \<Rightarrow> int \<Rightarrow> int \<Rightarrow> int list \<Rightarrow> ltx \<Rightarrow> (ls_err + nat \<times> nat) \<times> ltx" where
  "update_system_repos faults account system repo_ids t =
     (let objs = map (\<lambda>r. (account, system, r)) repo_ids;
          fk_ok = list_all (\<lambda>r. r \<in> snd ` set (ldb_repos (lt_db t))) repo_ids;
          (ok, t) = (if objs = [] then (True, t)
                     else if fk_ok then ltx_statement faults SystemReposInsert t
                     else (False, t\<lparr>lt_aborted := True\<rparr>))
      in if \<not> ok then (Inl (fatal_sql SystemReposInsert ''unable to update system repos''), t)
         else (let rows = insert_rows objs (ldb_system_repo (lt_db t));
                   added = length rows - length (ldb_system_repo (lt_db t));
                   t = t\<lparr>lt_db := (lt_db t)\<lparr>ldb_system_repo := rows\<rparr>\<rparr>;
                   (deleted, t) = delete_other_system_repos faults account system repo_ids t
               in (case deleted of
                     Inl e \<Rightarrow> (Inl (the (wrap_fatal_db_error (Some e) ''unable to delete out-of-date system repos'')), t)
                   | Inr n \<Rightarrow> (Inr (added, n), t))))"

definition update_repos :: "ls_faults \<Rightarrow> (nat \<Rightarrow> int list \<Rightarrow> int list) \<Rightarrow> system_profile \<Rightarrow> int \<Rightarrow> int \<Rightarrow> string list
    \<Rightarrow> ltx \<Rightarrow> (ls_err + nat \<times> nat \<times> nat) \<times> ltx" where
  "update_repos faults scan_ids profile account system repos t =
     (let repos = fix_epel_repos (Some profile) repos;
          (res, t) = ensure_repos_in_db faults scan_ids repos t
      in (case res of
            Inl e \<Rightarrow> (Inl e, t)
          | Inr (repo_ids, added) \<Rightarrow>
              (case update_system_repos faults account system repo_ids t of
                 (Inl e, t) \<Rightarrow> (Inl e, t)
               | (Inr (added_sys, deleted_sys), t) \<Rightarrow> (Inr (added, added_sys, deleted_sys), t))))"

section \<open>Templates of a host\<close>

definition get_template :: "ls_faults \<Rightarrow> int \<Rightarrow> string list \<Rightarrow> ltx \<Rightarrow> (ls_err + int option) \<times> ltx" where
  "get_template faults account environments t =
     (if environments = [] then (Inr None, t)
      else (let (ok, t) = ltx_statement faults TemplateLookup t
            in if \<not> ok then (Inl (sql_failed TemplateLookup), t)
               else (case filter (\<lambda>r. tr_account r = account \<and> tr_environment_id r \<in> set environments)
                            (ldb_templates (lt_db t)) of
                       [] \<Rightarrow> (Inr None, t)
                     | r # _ \<Rightarrow> (Inr (Some (tr_id r)), t))))"

end
