(* ===== verification/Upload.thy ===== *)
theory Upload
  imports ListenerStore VmaasMerge VmaasCache Retry KafkaEvents
begin

text \<open>
  An upload event, from the host message to the stored system (\<open>listener/upload.go\<close>,
  \<open>listener/rhsm.go\<close>).  The environment holds what is configured and what is third-party or
  outside the process: the JSON codec, SHA-256, the UUID parser, the HTTP exchanges, the
  Kafka writers.  An outer \<open>None\<close> is a panic.
\<close>

record ('w, 'n) listener_env =
  le_allowed :: "(string, bool) gomap"
  le_excluded :: "(string, bool) gomap"
  le_valid_reporters :: "(string, int) gomap"
  le_bypass :: bool
  le_template_eval :: bool
  le_deletion_threshold :: int
  le_faults :: ls_faults
  le_scan_ids :: "nat \<Rightarrow> int list \<Rightarrow> int list"
  le_url_path :: "string \<Rightarrow> string option"
  le_valid_url :: "string \<Rightarrow> bool"
  le_parse_uuid :: "string \<Rightarrow> uuid option"
  le_sha256 :: "string \<Rightarrow> string"
  le_compare :: "evr \<Rightarrow> evr \<Rightarrow> int"
  le_encode_request :: "updates_request \<Rightarrow> string option"
  le_parse_response :: "string \<Rightarrow> updates_response option"
  le_encode_response :: "updates_response \<Rightarrow> string option"
  le_s3 :: "string \<Rightarrow> 'n \<Rightarrow> updates_response transport \<times> 'n"
  le_candlepin :: "uuid \<Rightarrow> 'n \<Rightarrow> string list transport \<times> 'n"
  le_candlepin_retries :: nat
  le_error_text :: "http_error go_error \<Rightarrow> string"
  le_debug :: bool
  le_batch_size :: int
  le_shuffle :: "(int \<times> uuid list) list \<Rightarrow> (int \<times> uuid list) list"
  le_enc_eval :: "platform_event \<Rightarrow> string option"
  le_enc_pt :: "tracker_event \<Rightarrow> string option"
  le_tracker :: bool
  le_eval_writer :: "'w writer"
  le_created_writer :: "'w writer"
  le_pt_writer :: "'w writer"

section \<open>Yum updates of the message\<close>

definition add_installed :: "string list \<Rightarrow> (string, update_list_ptr) gomap \<Rightarrow> (string, update_list_ptr) gomap" where
  "add_installed pkgs m = fold (\<lambda>pkg m. if gm_has m pkg then m else gm_put pkg (Some None) m) pkgs m"

definition fetch_yum_updates :: "('w, 'n) listener_env \<Rightarrow> string option \<Rightarrow> 'n
    \<Rightarrow> (ls_err + updates_response) \<times> 'n" where
  "fetch_yum_updates env url net =
     (if url \<noteq> None \<and> url \<noteq> Some []
      then (let (t, net) = le_s3 env (the url) net;
                (parsed, resp, err) = client_request True (le_valid_url env (the url)) (le_debug env) t empty_response
            in (case err of
                  Some e \<Rightarrow> (Inl (Wrapped ''unable to get yum updates from S3'' (Leaf HttpFailed)), net)
                | None \<Rightarrow> (Inr parsed, net)))
      else (Inr empty_response, net))"

definition legacy_yum_updates :: "('w, 'n) listener_env \<Rightarrow> string \<Rightarrow> updates_response \<Rightarrow> ls_err + updates_response" where
  "legacy_yum_updates env yum parsed =
     (if parsed = empty_response \<and> 0 < length yum
      then (case le_parse_response env yum of
              None \<Rightarrow> Inl (Wrapped ''unable to unmarshall yum updates'' (Leaf BadYumJson))
            | Some p \<Rightarrow> Inr p)
      else Inr parsed)"

definition prepare_yum_updates :: "('w, 'n) listener_env \<Rightarrow> host_event \<Rightarrow> updates_response \<Rightarrow> ls_err + host_yum" where
  "prepare_yum_updates env event parsed =
     (let updates_map = update_entries (Some parsed)
      in if length updates_map = 0
         then Inr \<lparr>yu_raw_parsed = he_yum_updates event, yu_built_pkgcache = get_build_pkgcache (Some parsed)\<rparr>
         else (let updates_map = add_installed (get_installed_packages (Some (ho_profile (he_host event)))) updates_map;
                   parsed = remove_non_latest (le_compare env) (parsed\<lparr>ur_update_list := Some updates_map\<rparr>)
               in (case le_encode_response env parsed of
                     None \<Rightarrow> Inl (Wrapped ''unable to marshall yum updates'' (Leaf MarshalFailed))
                   | Some raw \<Rightarrow>
                       Inr \<lparr>yu_raw_parsed = raw, yu_built_pkgcache = get_build_pkgcache (Some parsed)\<rparr>)))"

definition get_yum_updates :: "('w, 'n) listener_env \<Rightarrow> host_event \<Rightarrow> 'n \<Rightarrow> (ls_err + host_yum) \<times> 'n" where
  "get_yum_updates env event net =
     (let (res, net) = fetch_yum_updates env (he_yum_updates_s3url event) net
      in (case res of
            Inl e \<Rightarrow> (Inl e, net)
          | Inr parsed \<Rightarrow>
              (case legacy_yum_updates env (he_yum_updates event) parsed of
                 Inl e \<Rightarrow> (Inl e, net)
               | Inr parsed \<Rightarrow> (prepare_yum_updates env event parsed, net))))"

section \<open>The template of a host\<close>

text \<open>\<open>httpCallCandlepinEnv\<close>: the response is returned next to a status error.\<close>

definition http_call_candlepin_env :: "('w, 'n) listener_env \<Rightarrow> uuid \<Rightarrow> 'n \<Rightarrow> string list http_outcome \<times> 'n" where
  "http_call_candlepin_env env consumer net =
     (let (t, net) = le_candlepin env consumer net;
          (data, resp, err) = client_request True True (le_debug env) t []
      in (case err of
            Some e \<Rightarrow> ((data, resp, Some (Wrapped (le_error_text env e) (Sentinel ErrCandlepin))), net)
          | None \<Rightarrow>
              (let status_code = try_get_status_code resp
               in ((data, resp, if status_code \<noteq> 200 \<and> status_code \<noteq> 204
                     then Some (Leaf (Non2xx status_code)) else None), net))))"

definition call_candlepin_environment :: "('w, 'n) listener_env \<Rightarrow> uuid \<Rightarrow> 'n
    \<Rightarrow> (http_error go_error + string list) \<times> 'n" where
  "call_candlepin_environment env consumer net =
     (case http_call_retry (http_call_candlepin_env env consumer) [503] (le_candlepin_retries env) 0 net of
        (Inl e, net) \<Rightarrow> (Inl (Wrapped ''candlepin /consumers call failed'' e), net)
      | (Inr data, net) \<Rightarrow> (Inr data, net))"

text \<open>Every error of \<open>hostTemplate\<close> is only logged.\<close>

definition host_template :: "('w, 'n) listener_env \<Rightarrow> int \<Rightarrow> host \<Rightarrow> ltx \<Rightarrow> 'n \<Rightarrow> int option \<times> ltx \<times> 'n" where
  "host_template env account h t net =
     (if has_template_repo (Some (ho_profile h))
      then (case pf_owner_id (ho_profile h) of
              None \<Rightarrow> (None, t, net)
            | Some owner \<Rightarrow>
                (case call_candlepin_environment env owner net of
                   (Inl e, net) \<Rightarrow> (None, t, net)
                 | (Inr envs, net) \<Rightarrow>
                     (case get_template (le_faults env) account envs t of
                        (Inl e, t) \<Rightarrow> (None, t, net)
                      | (Inr template_id, t) \<Rightarrow> (template_id, t, net))))
      else (None, t, net))"

section \<open>The system to store\<close>

definition empty_to_nil :: "string \<Rightarrow> string option" where
  "empty_to_nil s = (if s = [] then None else Some s)"

definition marshal_nil_to_jsonb :: "string \<Rightarrow> string" where
  "marshal_nil_to_jsonb data = (if length data = 0 then ''[]'' else data)"

definition get_reporter_id :: "(string, int) gomap \<Rightarrow> string \<Rightarrow> int option" where
  "get_reporter_id valid reporter = gm_get valid reporter"

definition cols_to_update :: "string list" where
  "cols_to_update =
     [''display_name'', ''last_upload'', ''stale_timestamp'', ''stale_warning_timestamp'', ''culled_timestamp'',
      ''satellite_managed'', ''built_pkgcache'', ''arch'', ''bootc'', ''tags'', ''workspace_id'', ''workspace_name'',
      ''os_name'', ''os_major'', ''os_minor'', ''rhsm_version'', ''subscription_manager_id'', ''sap_workload'',
      ''sap_workload_sids'', ''ansible_workload'', ''ansible_workload_controller_version'', ''mssql_workload'',
      ''mssql_workload_version'', ''crowdstrike_workload'', ''ibm_db2_workload'', ''intersystems_workload'',
      ''oracle_db_workload'', ''rhel_ai_workload'', ''satellite_workload'']"

text \<open>The workspace of the host: the first group, if its id is a UUID.\<close>

definition host_workspace :: "('w, 'n) listener_env \<Rightarrow> host \<Rightarrow> ls_err + uuid option \<times> string option" where
  "host_workspace env h =
     (case ho_groups h of
        [] \<Rightarrow> Inr (None, None)
      | g # _ \<Rightarrow>
          (case le_parse_uuid env (gr_id g) of
             None \<Rightarrow> Inl (Leaf InvalidWorkspace)
           | Some u \<Rightarrow> Inr (Some u, if gr_name g = [] then None else Some (gr_name g))))"

definition host_inventory :: "('w, 'n) listener_env \<Rightarrow> int \<Rightarrow> host \<Rightarrow> host_yum option \<Rightarrow> string \<Rightarrow> string \<Rightarrow> string
    \<Rightarrow> uuid option \<times> string option \<Rightarrow> system_inventory" where
  "host_inventory env account h yum json json_checksum yum_checksum ws =
     (let p = ho_profile h; w = pf_workloads p
      in \<lparr>si_id = 0,
          si_inventory_id = ho_id h,
          si_account = account,
          si_vmaas_json = empty_to_nil json,
          si_json_checksum = empty_to_nil json_checksum,
          si_last_updated = None,
          si_unchanged_since = None,
          si_last_upload = get_last_upload (le_allowed env) (Some h),
          si_stale = False,
          si_display_name = (case ho_display_name h of
             Some d \<Rightarrow> if \<not> is_blank d then d else ho_id h | None \<Rightarrow> ho_id h),
          si_reporter_id = get_reporter_id (le_valid_reporters env) (ho_reporter h),
          si_yum_updates = get_raw_parsed yum,
          si_yum_checksum = empty_to_nil yum_checksum,
          si_satellite_managed = pf_satellite_managed p,
          si_built_pkgcache = get_built_pkgcache yum,
          si_arch = pf_arch p,
          si_bootc = (0 < length (pf_bootc_booted_image p)),
          si_tags = marshal_nil_to_jsonb (ho_tags h),
          si_created = ho_created h,
          si_workspace_id = fst ws,
          si_workspace_name = snd ws,
          si_stale_timestamp = ho_stale_timestamp h,
          si_stale_warning_timestamp = ho_stale_warning_timestamp h,
          si_culled_timestamp = ho_culled_timestamp h,
          si_os_name = empty_to_nil (os_name (pf_operating_system p)),
          si_os_major = Some (os_major (pf_operating_system p)),
          si_os_minor = Some (os_minor (pf_operating_system p)),
          si_rhsm_version = empty_to_nil (rh_version (pf_rhsm p)),
          si_subscription_manager_id = pf_owner_id p,
          si_sap_workload = sap_system (wl_sap w),
          si_sap_workload_sids = sap_sids (wl_sap w),
          si_ansible_workload = (wl_ansible_controller_version w \<noteq> []),
          si_ansible_workload_controller_version = empty_to_nil (wl_ansible_controller_version w),
          si_mssql_workload = (wl_mssql_version w \<noteq> []),
          si_mssql_workload_version = empty_to_nil (wl_mssql_version w),
          si_crowdstrike_workload = (wl_crowdstrike_falcon_aid w \<noteq> []),
          si_ibm_db2_workload = wl_ibm_db2_is_running w,
          si_intersystems_workload = wl_intersystems_is_intersystems w,
          si_oracle_db_workload = wl_oracle_db_is_running w,
          si_rhel_ai_workload = (wl_rhel_ai_variant w \<noteq> []),
          si_satellite_workload = (sat_type (wl_satellite w) \<noteq> [])\<rparr>)"

section \<open>Storing the system\<close>

definition upsert_system_patch :: "ls_faults \<Rightarrow> system_platform \<Rightarrow> ltx \<Rightarrow> (ls_err + system_platform) \<times> ltx" where
  "upsert_system_patch faults system t =
     (let account = si_account (pl_inventory system); system_id = si_id (pl_inventory system);
          template_id = sp_template_id (pl_patch system);
          cols = (if template_id \<noteq> None then [''template_id''] else []);
          (ok, t) = ltx_statement faults PatchUpsert t
      in if \<not> ok then (Inl (fatal_sql PatchUpsert ''unable to insert to system_patch''), t)
         else (let ((affected, last_evaluation), db) = upsert_patch account system_id template_id cols (lt_db t);
                   t = t\<lparr>lt_db := db\<rparr>;
                   done' = (\<lambda>le. system\<lparr>pl_patch := (pl_patch system)\<lparr>sp_system_id := system_id,
                     sp_last_evaluation := le\<rparr>\<rparr>)
               in if affected = 0
                  then (let (ok, t) = ltx_statement faults PatchReload t
                        in if \<not> ok then (Inl (fatal_sql PatchReload ''unable to load system_patch last_evaluation''), t)
                           else (Inr (done' (case gm_get (ldb_patch (lt_db t)) (account, system_id) of
                                   None \<Rightarrow> None | Some p \<Rightarrow> sp_last_evaluation p)), t))
                  else (Inr (done' last_evaluation), t)))"

definition store_or_update_sys_platform :: "ls_faults \<Rightarrow> timestamp \<Rightarrow> system_platform \<Rightarrow> string list \<Rightarrow> ltx
    \<Rightarrow> (ls_err + system_platform) \<times> ltx" where
  "store_or_update_sys_platform faults now system cols t =
     (let inv = pl_inventory system;
          (ok, t) = ltx_statement faults SystemLookup t;
          existing = (if ok then (case find_inventory (si_account inv) (si_inventory_id inv) (lt_db t) of
                        None \<Rightarrow> 0 | Some r \<Rightarrow> si_id r) else 0);
          inv = inv\<lparr>si_id := existing\<rparr>;
          (ok, t) = ltx_statement faults InventoryUpsert t
      in if \<not> ok then (Inl (fatal_sql InventoryUpsert ''unable to insert to system_inventory''), t)
         else (let (row, db) = upsert_inventory now cols inv (lt_db t);
                   inv = inv\<lparr>si_id := si_id row, si_inventory_id := si_inventory_id row, si_account := si_account row,
                             si_unchanged_since := si_unchanged_since row\<rparr>;
                   system = system\<lparr>pl_inventory := inv,
                     pl_patch := (pl_patch system)\<lparr>sp_account := si_account inv\<rparr>\<rparr>
               in upsert_system_patch faults system (t\<lparr>lt_db := db\<rparr>)))"

definition old_checksums :: "ls_faults \<Rightarrow> int \<Rightarrow> uuid \<Rightarrow> ltx \<Rightarrow> (string \<times> string) \<times> ltx" where
  "old_checksums faults account inventory_id t =
     (let (ok, t) = ltx_statement faults OldChecksums t
      in ((if ok then (case find_inventory account inventory_id (lt_db t) of
                         None \<Rightarrow> ([], [])
                       | Some r \<Rightarrow> (str_of (si_json_checksum r), str_of (si_yum_checksum r)))
           else ([], [])), t))"

text \<open>Which columns an update writes, and whether the repositories are updated.\<close>

definition changed_columns :: "string \<times> string \<Rightarrow> string \<Rightarrow> string \<Rightarrow> string list" where
  "changed_columns old json_checksum yum_checksum =
     cols_to_update
     @ (if fst old \<noteq> json_checksum then [''vmaas_json'', ''json_checksum'', ''reporter_id''] else [])
     @ (if snd old \<noteq> yum_checksum then [''yum_updates'', ''yum_checksum''] else [])"

definition store_system :: "('w, 'n) listener_env \<Rightarrow> timestamp \<Rightarrow> int \<Rightarrow> host \<Rightarrow> system_platform \<Rightarrow> string \<Rightarrow> string
    \<Rightarrow> string list \<Rightarrow> ltx \<Rightarrow> (ls_err + system_platform) \<times> ltx" where
  "store_system env now account h system json_checksum yum_checksum repos t =
     (let (old, t) = old_checksums (le_faults env) account (ho_id h) t;
          should_update_repos = (fst old \<noteq> json_checksum);
          (res, t) = store_or_update_sys_platform (le_faults env) now system
            (changed_columns old json_checksum yum_checksum) t
      in (case res of
            Inl e \<Rightarrow> (Inl (Wrapped ''Unable to save or update system in database'' e), t)
          | Inr system \<Rightarrow>
              if should_update_repos
              then (case update_repos (le_faults env) (le_scan_ids env) (ho_profile h) account
                           (si_id (pl_inventory system)) repos t of
                      (Inl e, t) \<Rightarrow> (Inl (Wrapped ''unable to update system repos'' e), t)
                    | (Inr counts, t) \<Rightarrow> (Inr system, t))
              else (Inr system, t)))"

definition update_system_platform :: "('w, 'n) listener_env \<Rightarrow> timestamp \<Rightarrow> int \<Rightarrow> host \<Rightarrow> host_yum option
    \<Rightarrow> updates_request \<Rightarrow> ltx \<Rightarrow> 'n \<Rightarrow> (ls_err + system_platform) \<times> ltx \<times> 'n" where
  "update_system_platform env now account h yum req t net =
     (case le_encode_request env req of
        None \<Rightarrow> (Inl (Wrapped ''Serializing vmaas request'' (Leaf MarshalFailed)), t, net)
      | Some json \<Rightarrow>
          (let json_checksum = le_sha256 env json; yum_checksum = le_sha256 env (get_raw_parsed yum)
           in (case host_workspace env h of
                 Inl e \<Rightarrow> (Inl e, t, net)
               | Inr ws \<Rightarrow>
                   (let (template_id, t, net) = host_template env account h t net;
                        system = \<lparr>pl_inventory = host_inventory env account h yum json json_checksum yum_checksum ws,
                                  pl_patch = zero_patch\<lparr>sp_account := account, sp_template_id := template_id\<rparr>\<rparr>;
                        (res, t) = store_system env now account h system json_checksum yum_checksum
                          (rq_repository_list req) t
                    in (res, t, net)))))"

section \<open>Processing an upload\<close>

definition upload_request :: "('w, 'n) listener_env \<Rightarrow> host \<Rightarrow> updates_request" where
  "upload_request env h =
     (let p = ho_profile h;
          (repos, repo_paths) = process_repos (le_url_path env) (Some p);
          releasever = rh_version (pf_rhsm p);
          releasever = (if releasever = [] then (case pf_releasever p of None \<Rightarrow> releasever | Some v \<Rightarrow> v)
                        else releasever);
          req = \<lparr>rq_package_list = get_installed_packages (Some p), rq_repository_list = repos,
                 rq_repository_paths = repo_paths, rq_modules_list = Some (process_modules (Some p)),
                 rq_releasever = None, rq_basearch = pf_arch p, rq_security_only = Some False,
                 rq_latest_only = Some True, rq_third_party = None, rq_optimistic_updates = None,
                 rq_epoch_required = None\<rparr>
      in if 0 < length releasever then set_releasever releasever req else req)"

definition recently_deleted :: "int \<Rightarrow> timestamp \<Rightarrow> uuid \<Rightarrow> listener_db \<Rightarrow> bool" where
  "recently_deleted threshold now inventory_id db =
     (case gm_get (ldb_deleted db) inventory_id of
        None \<Rightarrow> False
      | Some when_deleted \<Rightarrow> inventory_id \<noteq> nil_uuid \<and> now - threshold < when_deleted)"

text \<open>The deferred rollback leaves the database as it was when the transaction began; the account
  is stored outside the transaction.\<close>

definition process_upload :: "('w, 'n) listener_env \<Rightarrow> timestamp \<Rightarrow> host \<Rightarrow> host_yum option \<Rightarrow> listener_db \<Rightarrow> 'n
    \<Rightarrow> (ls_err + system_platform option) \<times> listener_db \<times> 'n" where
  "process_upload env now h yum db net =
     (case get_or_create_account (le_faults env) (get_org_id h) db of
        (Inl e, db) \<Rightarrow> (Inl (Wrapped ''saving account into the database'' e), db, net)
      | (Inr account, db) \<Rightarrow>
          (let req = upload_request env h;
               (ok, t) = ltx_statement (le_faults env) DeletedFind (ltx_begin db)
           in if \<not> ok then (Inl (fatal_sql DeletedFind ''checking deleted systems''), db, net)
              else if recently_deleted (le_deletion_threshold env) now (ho_id h) (lt_db t) then (Inr None, db, net)
              else (case update_system_platform env now account h yum req t net of
                      (Inl e, t, net) \<Rightarrow> (Inl (Wrapped ''saving system into the database'' e), db, net)
                    | (Inr sys, t, net) \<Rightarrow>
                        (let (ok, t) = ltx_statement (le_faults env) UploadCommit t
                         in if \<not> ok then (Inl (fatal_sql UploadCommit ''committing changes''), db, net)
                            else (Inr (Some sys), lt_db t, net)))))"

section \<open>Event buffers\<close>

text \<open>\<open>listener/event_buffers.go\<close>: the two slices of a buffer; the writers are those of the environment.\<close>

record event_buffer =
  eb_eval :: "eval_data list"
  eb_pt :: "tracker_event list"

definition init_event_buffer :: event_buffer where
  "init_event_buffer = \<lparr>eb_eval = [], eb_pt = []\<rparr>"

definition event_buffer_size :: "('w, 'n) listener_env \<Rightarrow> int" where
  "event_buffer_size env = wrap64 (5 * le_batch_size env)"

text \<open>The part under the first lock: both slices grow, and the answer says whether the buffer is full.\<close>

definition buffer_append :: "('w, 'n) listener_env \<Rightarrow> uuid \<Rightarrow> int \<Rightarrow> tracker_event \<Rightarrow> event_buffer
    \<Rightarrow> (bool \<times> event_buffer) option" where
  "buffer_append env inventory_id account pt b =
     (case te_request pt of
        None \<Rightarrow> None
      | Some request \<Rightarrow>
          (let b = \<lparr>eb_eval = eb_eval b @ [\<lparr>ed_inventory = inventory_id, ed_account = account,
                      ed_request = request, ed_org = te_org pt\<rparr>],
                    eb_pt = eb_pt b @ [pt]\<rparr>
           in Some (event_buffer_size env \<le> int (length (eb_eval b)), b)))"

text \<open>The part under the second lock.  Errors of the writers are logged; the slices are emptied anyway.\<close>

definition flush_eval_events :: "('w, 'n) listener_env \<Rightarrow> timestamp \<Rightarrow> 'w writer \<Rightarrow> event_buffer \<Rightarrow> 'w \<Rightarrow> 'w
    \<Rightarrow> (event_buffer \<times> 'w \<times> 'w) option" where
  "flush_eval_events env now writer b out pt_out =
     (case eval_write_events (le_batch_size env) now (le_shuffle env) (le_enc_eval env) writer (eb_eval b) out of
        None \<Rightarrow> None
      | Some (err, out) \<Rightarrow>
          (let (err, pt_out) = write_tracker_events (le_tracker env) now (le_enc_pt env) (le_pt_writer env) (eb_pt b) pt_out
           in Some (\<lparr>eb_eval = [], eb_pt = []\<rparr>, out, pt_out)))"

definition buffer_eval_events :: "('w, 'n) listener_env \<Rightarrow> timestamp \<Rightarrow> 'w writer \<Rightarrow> uuid \<Rightarrow> int \<Rightarrow> tracker_event
    \<Rightarrow> event_buffer \<Rightarrow> 'w \<Rightarrow> 'w \<Rightarrow> (event_buffer \<times> 'w \<times> 'w) option" where
  "buffer_eval_events env now writer inventory_id account pt b out pt_out =
     (case buffer_append env inventory_id account pt b of
        None \<Rightarrow> None
      | Some (should_flush, b) \<Rightarrow>
          if should_flush then flush_eval_events env now writer b out pt_out
          else Some (b, out, pt_out))"

section \<open>Handling an upload\<close>

record ('w, 'n) listener_state =
  ls_db :: listener_db
  ls_net :: 'n
  ls_created :: event_buffer
  ls_updated :: event_buffer
  ls_created_topic :: 'w
  ls_eval_topic :: 'w
  ls_pt_topic :: 'w
  ls_metrics :: "(string \<times> string) list"

definition send_payload_status :: "('w, 'n) listener_env \<Rightarrow> timestamp \<Rightarrow> tracker_event \<Rightarrow> string \<Rightarrow> string
    \<Rightarrow> ('w, 'n) listener_state \<Rightarrow> ('w, 'n) listener_state" where
  "send_payload_status env now event status status_msg s =
     (let event = (if status \<noteq> [] then event\<lparr>te_status := status\<rparr> else event);
          event = (if status_msg \<noteq> [] then event\<lparr>te_status_msg := status_msg\<rparr> else event);
          (err, out) = write_one_tracker_event (le_tracker env) now (le_enc_pt env) (le_pt_writer env) event (ls_pt_topic s)
      in s\<lparr>ls_pt_topic := out\<rparr>)"

definition log_and_observe :: "('w, 'n) listener_env \<Rightarrow> timestamp \<Rightarrow> string \<Rightarrow> tracker_event \<Rightarrow> string \<Rightarrow> bool
    \<Rightarrow> ('w, 'n) listener_state \<Rightarrow> ('w, 'n) listener_state" where
  "log_and_observe env now metric pt status with_tracker s =
     (let s = s\<lparr>ls_metrics := ls_metrics s @ [(''upload'', metric)]\<rparr>
      in if with_tracker then send_payload_status env now pt status metric s else s)"

definition handle_listener_errors :: "('w, 'n) listener_env \<Rightarrow> timestamp \<Rightarrow> ls_err \<Rightarrow> tracker_event \<Rightarrow> string
    \<Rightarrow> ('w, 'n) listener_state \<Rightarrow> ls_err option \<times> ('w, 'n) listener_state" where
  "handle_listener_errors env now err pt status s =
     (Some err, log_and_observe env now (error_metric err) pt status True s)"

definition no_eval_required :: "system_platform \<Rightarrow> bool" where
  "no_eval_required sys =
     (case (si_unchanged_since (pl_inventory sys), sp_last_evaluation (pl_patch sys)) of
        (Some unchanged, Some evaluated) \<Rightarrow> unchanged < evaluated
      | _ \<Rightarrow> False)"

text \<open>The end of the handler: the event goes to the buffer of its type.\<close>

definition buffer_upload :: "('w, 'n) listener_env \<Rightarrow> timestamp \<Rightarrow> host_event \<Rightarrow> system_platform \<Rightarrow> tracker_event
    \<Rightarrow> ('w, 'n) listener_state \<Rightarrow> ('w, 'n) listener_state option" where
  "buffer_upload env now event sys pt s =
     (let inv = pl_inventory sys
      in if he_type event = ''created''
         then (case buffer_eval_events env now (le_created_writer env) (si_inventory_id inv) (si_account inv) pt
                      (ls_created s) (ls_created_topic s) (ls_pt_topic s) of
                 None \<Rightarrow> None
               | Some (b, out, pt_out) \<Rightarrow> Some (s\<lparr>ls_created := b, ls_created_topic := out, ls_pt_topic := pt_out\<rparr>))
         else (case buffer_eval_events env now (le_eval_writer env) (si_inventory_id inv) (si_account inv) pt
                      (ls_updated s) (ls_eval_topic s) (ls_pt_topic s) of
                 None \<Rightarrow> None
               | Some (b, out, pt_out) \<Rightarrow> Some (s\<lparr>ls_updated := b, ls_eval_topic := out, ls_pt_topic := pt_out\<rparr>)))"

definition handle_upload :: "('w, 'n) listener_env \<Rightarrow> timestamp \<Rightarrow> host_event \<Rightarrow> ('w, 'n) listener_state
    \<Rightarrow> (ls_err option \<times> ('w, 'n) listener_state) option" where
  "handle_upload env now event s =
     (let h = he_host event;
          pt = \<lparr>te_service = [], te_org = ho_org_id h, te_request = Some (he_request_id event),
                te_inventory = ho_id h, te_status = ''received'', te_status_msg = [], te_date = None\<rparr>
      in (case validate_host (le_allowed env) (le_excluded env) h of
            Some err \<Rightarrow> Some (handle_listener_errors env now err pt ''received'' s)
          | None \<Rightarrow>
              (let s = send_payload_status env now pt [] ''Received by listener'' s;
                   (yum, net) = get_yum_updates env event (ls_net s);
                   yum = (case yum of Inl e \<Rightarrow> None | Inr y \<Rightarrow> Some y);
                   (res, db, net) = process_upload env now h yum (ls_db s) net;
                   s = s\<lparr>ls_db := db, ls_net := net\<rparr>
               in (case res of
                     Inl e \<Rightarrow> Some (handle_listener_errors env now (Joined [Sentinel ErrProcessUpload, e]) pt ''error'' s)
                   | Inr None \<Rightarrow> Some (None, log_and_observe env now ''success-deleted'' pt ''success'' True s)
                   | Inr (Some sys) \<Rightarrow>
                       if no_eval_required sys
                       then Some (None, log_and_observe env now ''success-unchanged'' pt ''success'' True s)
                       else (let pt = pt\<lparr>te_status_msg := ''processing''\<rparr>
                             in (case buffer_upload env now event sys pt s of
                                   None \<Rightarrow> None
                                 | Some s \<Rightarrow>
                                     Some (None, log_and_observe env now ''success-eval'' pt ''success'' False s)))))))"

end
