(* ===== verification/ListenerEvents.thy ===== *)
theory ListenerEvents
  imports Upload
begin

text \<open>
  The events topic (\<open>listener/events.go\<close>): which handler a message goes to, and the deletion of a
  system.  What the JSON decoder gives is an argument: the field \<open>type\<close> of the message as a
  generic value, the platform event (with the decoder's success), the host event.
\<close>

text \<open>The value of a key of \<open>map[string]interface{}\<close>: absent or null, a string, anything else.\<close>

datatype json_field = FieldNull | FieldString string | FieldOther

record event_codec =
  ec_type :: "string \<Rightarrow> json_field option"
  ec_platform :: "string \<Rightarrow> bool \<times> platform_event"
  ec_host :: "string \<Rightarrow> host_event option"

definition count_metric :: "string \<Rightarrow> string \<Rightarrow> ('w, 'n) listener_state \<Rightarrow> ('w, 'n) listener_state" where
  "count_metric event metric s = s\<lparr>ls_metrics := ls_metrics s @ [(event, metric)]\<rparr>"

section \<open>Deleting a system\<close>

text \<open>\<open>UPDATE system_inventory SET culled_timestamp = NOW()\<close>, with the trigger of the table.\<close>

definition cull_row :: "timestamp \<Rightarrow> system_inventory \<Rightarrow> system_inventory" where
  "cull_row now r = on_update now r (r\<lparr>si_culled_timestamp := Some now\<rparr>)"

definition mark_culled :: "timestamp \<Rightarrow> uuid \<Rightarrow> listener_db \<Rightarrow> nat \<times> listener_db" where
  "mark_culled now i db =
     (length (filter (\<lambda>r. si_inventory_id r = i) (ldb_inventory db)),
      db\<lparr>ldb_inventory := map (\<lambda>r. if si_inventory_id r = i then cull_row now r else r) (ldb_inventory db)\<rparr>)"

definition handle_delete :: "ls_faults \<Rightarrow> timestamp \<Rightarrow> platform_event \<Rightarrow> ('w, 'n) listener_state
    \<Rightarrow> ls_err option \<times> ('w, 'n) listener_state" where
  "handle_delete faults now event s =
     (if faults DeletedUpsert
      then (Some (Wrapped ''Could not delete system'' (sql_failed DeletedUpsert)),
            count_metric ''delete'' ''error-processing'' s)
      else (let db = (ls_db s)\<lparr>ldb_deleted := gm_put (pe_id event) now (ldb_deleted (ls_db s))\<rparr>
            in if faults MarkCulled
               then (Some (Wrapped ''Could not mark system as deleted'' (sql_failed MarkCulled)),
                     count_metric ''delete'' ''error-processing'' (s\<lparr>ls_db := db\<rparr>))
               else (let (affected, db) = mark_culled now (pe_id event) db; s = s\<lparr>ls_db := db\<rparr>
                     in if affected = 0 then (None, count_metric ''delete'' ''warn-no-rows'' s)
                        else (None, count_metric ''delete'' ''success-eval'' s))))"

section \<open>Dispatching\<close>

text \<open>A delete message that does not decode is logged and handled all the same, with whatever the
  decoder left in the event.  With the bypass on, a type that is not a string panics.\<close>

definition events_message_handler :: "('w, 'n) listener_env \<Rightarrow> event_codec \<Rightarrow> timestamp \<Rightarrow> string
    \<Rightarrow> ('w, 'n) listener_state \<Rightarrow> (ls_err option \<times> ('w, 'n) listener_state) option" where
  "events_message_handler env codec now msg s =
     (case ec_type codec msg of
        None \<Rightarrow> Some (None, s)
      | Some FieldNull \<Rightarrow> Some (None, count_metric [] ''error-other-type'' s)
      | Some t \<Rightarrow>
          if le_bypass env
          then (case t of FieldString ty \<Rightarrow> Some (None, count_metric ty ''bypassed'' s) | _ \<Rightarrow> None)
          else if t = FieldString ''delete''
          then Some (handle_delete (le_faults env) now (snd (ec_platform codec msg)) s)
          else if t = FieldString ''updated'' \<or> t = FieldString ''created''
          then (case ec_host codec msg of
                  None \<Rightarrow> Some (None, s)
                | Some event \<Rightarrow> handle_upload env now event s)
          else Some (None, s))"

end
