(* ===== verification/ListenerStoreLaws.thy ===== *)
theory ListenerStoreLaws
  imports ListenerStore
begin

text \<open>
  What the statements of the listener keep and change: the lemmas on transactions
  (\<open>ltx\<close>), the columns an upsert writes, and the repositories of a system.
\<close>

named_theorems ltx \<open>outcomes of the statements of a transaction\<close>

lemma ltx_statement_True [ltx]:
  "(ltx_statement faults site t = (True, t')) = (t' = t \<and> \<not> lt_aborted t \<and> \<not> faults site)"
  by (auto simp: ltx_statement_def)

lemma ltx_statement_db [simp]: "lt_db (snd (ltx_statement faults site t)) = lt_db t"
  by (simp add: ltx_statement_def)

lemma ltx_statement_aborted:
  "ltx_statement faults site t = (False, t') \<Longrightarrow> lt_aborted t' \<and> lt_db t' = lt_db t"
  by (auto simp: ltx_statement_def split: if_splits)

text \<open>An aborted transaction runs no statement.\<close>

lemma ltx_statement_after_abort [simp]:
  "lt_aborted t \<Longrightarrow> ltx_statement faults site t = (False, t)"
  by (simp add: ltx_statement_def)

section \<open>Columns\<close>

lemma set_column_simps [simp]:
  "set_column n ''display_name'' r = r\<lparr>si_display_name := si_display_name n\<rparr>"
  "set_column n ''last_upload'' r = r\<lparr>si_last_upload := si_last_upload n\<rparr>"
  "set_column n ''stale_timestamp'' r = r\<lparr>si_stale_timestamp := si_stale_timestamp n\<rparr>"
  "set_column n ''stale_warning_timestamp'' r = r\<lparr>si_stale_warning_timestamp := si_stale_warning_timestamp n\<rparr>"
  "set_column n ''culled_timestamp'' r = r\<lparr>si_culled_timestamp := si_culled_timestamp n\<rparr>"
  "set_column n ''satellite_managed'' r = r\<lparr>si_satellite_managed := si_satellite_managed n\<rparr>"
  "set_column n ''built_pkgcache'' r = r\<lparr>si_built_pkgcache := si_built_pkgcache n\<rparr>"
  "set_column n ''arch'' r = r\<lparr>si_arch := si_arch n\<rparr>"
  "set_column n ''bootc'' r = r\<lparr>si_bootc := si_bootc n\<rparr>"
  "set_column n ''tags'' r = r\<lparr>si_tags := si_tags n\<rparr>"
  "set_column n ''workspace_id'' r = r\<lparr>si_workspace_id := si_workspace_id n\<rparr>"
  "set_column n ''workspace_name'' r = r\<lparr>si_workspace_name := si_workspace_name n\<rparr>"
  "set_column n ''os_name'' r = r\<lparr>si_os_name := si_os_name n\<rparr>"
  "set_column n ''os_major'' r = r\<lparr>si_os_major := si_os_major n\<rparr>"
  "set_column n ''os_minor'' r = r\<lparr>si_os_minor := si_os_minor n\<rparr>"
  "set_column n ''rhsm_version'' r = r\<lparr>si_rhsm_version := si_rhsm_version n\<rparr>"
  "set_column n ''subscription_manager_id'' r = r\<lparr>si_subscription_manager_id := si_subscription_manager_id n\<rparr>"
  "set_column n ''sap_workload'' r = r\<lparr>si_sap_workload := si_sap_workload n\<rparr>"
  "set_column n ''sap_workload_sids'' r = r\<lparr>si_sap_workload_sids := si_sap_workload_sids n\<rparr>"
  "set_column n ''ansible_workload'' r = r\<lparr>si_ansible_workload := si_ansible_workload n\<rparr>"
  "set_column n ''ansible_workload_controller_version'' r
     = r\<lparr>si_ansible_workload_controller_version := si_ansible_workload_controller_version n\<rparr>"
  "set_column n ''mssql_workload'' r = r\<lparr>si_mssql_workload := si_mssql_workload n\<rparr>"
  "set_column n ''mssql_workload_version'' r = r\<lparr>si_mssql_workload_version := si_mssql_workload_version n\<rparr>"
  "set_column n ''crowdstrike_workload'' r = r\<lparr>si_crowdstrike_workload := si_crowdstrike_workload n\<rparr>"
  "set_column n ''ibm_db2_workload'' r = r\<lparr>si_ibm_db2_workload := si_ibm_db2_workload n\<rparr>"
  "set_column n ''intersystems_workload'' r = r\<lparr>si_intersystems_workload := si_intersystems_workload n\<rparr>"
  "set_column n ''oracle_db_workload'' r = r\<lparr>si_oracle_db_workload := si_oracle_db_workload n\<rparr>"
  "set_column n ''rhel_ai_workload'' r = r\<lparr>si_rhel_ai_workload := si_rhel_ai_workload n\<rparr>"
  "set_column n ''satellite_workload'' r = r\<lparr>si_satellite_workload := si_satellite_workload n\<rparr>"
  "set_column n ''vmaas_json'' r = r\<lparr>si_vmaas_json := si_vmaas_json n\<rparr>"
  "set_column n ''json_checksum'' r = r\<lparr>si_json_checksum := si_json_checksum n\<rparr>"
  "set_column n ''reporter_id'' r = r\<lparr>si_reporter_id := si_reporter_id n\<rparr>"
  "set_column n ''yum_updates'' r = r\<lparr>si_yum_updates := si_yum_updates n\<rparr>"
  "set_column n ''yum_checksum'' r = r\<lparr>si_yum_checksum := si_yum_checksum n\<rparr>"
  by (simp_all add: set_column_def)

text \<open>No column is part of the key of a row.\<close>

lemma set_column_key [simp]:
  "si_id (set_column n c r) = si_id r" "si_account (set_column n c r) = si_account r"
  "si_inventory_id (set_column n c r) = si_inventory_id r"
  by (simp_all add: set_column_def)

lemma set_columns_key [simp]:
  "si_id (fold (set_column n) cs r) = si_id r" "si_account (fold (set_column n) cs r) = si_account r"
  "si_inventory_id (fold (set_column n) cs r) = si_inventory_id r"
  by (induction cs arbitrary: r) simp_all

lemma on_update_key [simp]:
  "si_id (on_update now old r) = si_id r" "si_account (on_update now old r) = si_account r"
  "si_inventory_id (on_update now old r) = si_inventory_id r"
  by (simp_all add: on_update_def)

lemma on_insert_key [simp]:
  "si_id (on_insert now r) = si_id r" "si_account (on_insert now r) = si_account r"
  "si_inventory_id (on_insert now r) = si_inventory_id r"
  by (simp_all add: on_insert_def)

section \<open>The upsert of a system\<close>

lemma find_inventory_Some:
  "find_inventory a i db = Some r \<Longrightarrow> r \<in> set (ldb_inventory db) \<and> si_account r = a \<and> si_inventory_id r = i"
  by (auto simp: find_inventory_def find_Some_iff is_row_def)

lemma find_map_row:
  assumes "find p xs = Some old" "p row" "\<And>r. p r \<Longrightarrow> p row"
  shows "find p (map (\<lambda>r. if p r then row else r) xs) = Some row"
  using assms by (induction xs) (auto split: if_splits)

lemma find_append: "find p (xs @ ys) = (case find p xs of Some x \<Rightarrow> Some x | None \<Rightarrow> find p ys)"
  by (induction xs) auto

text \<open>Afterwards the row is the one the statement returned.\<close>

lemma upsert_inventory_find:
  assumes "upsert_inventory now cols new db = (row, db')"
  shows "find_inventory (si_account new) (si_inventory_id new) db' = Some row"
    and "si_account row = si_account new \<and> si_inventory_id row = si_inventory_id new"
proof -
  have "find_inventory (si_account new) (si_inventory_id new) db' = Some row
      \<and> si_account row = si_account new \<and> si_inventory_id row = si_inventory_id new"
  proof (cases "find_inventory (si_account new) (si_inventory_id new) db")
    case None
    with assms show ?thesis
      by (auto simp: upsert_inventory_def Let_def find_inventory_def find_append is_row_def)
  next
    case (Some old)
    let ?p = "is_row (si_account new) (si_inventory_id new)"
    have row: "row = on_update now old (fold (set_column new) cols old)"
      and db': "ldb_inventory db' = map (\<lambda>r. if ?p r then row else r) (ldb_inventory db)"
      using assms Some by (auto simp: upsert_inventory_def Let_def)
    have k: "si_account row = si_account new" "si_inventory_id row = si_inventory_id new"
      using find_inventory_Some [OF Some] by (simp_all add: row)
    have "find ?p (ldb_inventory db') = Some row"
      unfolding db' by (rule find_map_row [of ?p _ old]) (use Some k in \<open>simp_all add: find_inventory_def is_row_def\<close>)
    with k show ?thesis by (simp add: find_inventory_def)
  qed
  then show "find_inventory (si_account new) (si_inventory_id new) db' = Some row"
    "si_account row = si_account new \<and> si_inventory_id row = si_inventory_id new" by auto
qed

text \<open>The other rows, and the other tables, are as before.\<close>

lemma find_map_other:
  assumes "\<And>r. q r \<Longrightarrow> \<not> p r" "\<not> p row"
  shows "find p (map (\<lambda>r. if q r then row else r) xs) = find p xs"
  using assms by (induction xs) auto

lemma upsert_inventory_other:
  assumes "upsert_inventory now cols new db = (row, db')"
    "(a, i) \<noteq> (si_account new, si_inventory_id new)"
  shows "find_inventory a i db' = find_inventory a i db"
proof -
  have k: "si_account row = si_account new \<and> si_inventory_id row = si_inventory_id new"
    by (rule upsert_inventory_find(2) [OF assms(1)])
  show ?thesis
  proof (cases "find_inventory (si_account new) (si_inventory_id new) db")
    case None
    with assms show ?thesis
      by (auto simp: upsert_inventory_def Let_def find_inventory_def find_append is_row_def split: option.splits)
  next
    case (Some old)
    with assms k show ?thesis
      by (auto simp: upsert_inventory_def Let_def find_inventory_def is_row_def intro!: find_map_other)
  qed
qed

lemma upsert_inventory_frame:
  "ldb_accounts (snd (upsert_inventory now cols new db)) = ldb_accounts db"
  "ldb_next_account (snd (upsert_inventory now cols new db)) = ldb_next_account db"
  "ldb_patch (snd (upsert_inventory now cols new db)) = ldb_patch db"
  "ldb_repos (snd (upsert_inventory now cols new db)) = ldb_repos db"
  "ldb_next_repo (snd (upsert_inventory now cols new db)) = ldb_next_repo db"
  "ldb_system_repo (snd (upsert_inventory now cols new db)) = ldb_system_repo db"
  "ldb_deleted (snd (upsert_inventory now cols new db)) = ldb_deleted db"
  "ldb_templates (snd (upsert_inventory now cols new db)) = ldb_templates db"
  "ldb_next_template (snd (upsert_inventory now cols new db)) = ldb_next_template db"
  "ldb_template_advisories (snd (upsert_inventory now cols new db)) = ldb_template_advisories db"
  by (simp_all add: upsert_inventory_def Let_def split: option.split)

lemma upsert_patch_frame:
  "ldb_accounts (snd (upsert_patch a s t cols db)) = ldb_accounts db"
  "ldb_next_account (snd (upsert_patch a s t cols db)) = ldb_next_account db"
  "ldb_inventory (snd (upsert_patch a s t cols db)) = ldb_inventory db"
  "ldb_next_system (snd (upsert_patch a s t cols db)) = ldb_next_system db"
  "ldb_repos (snd (upsert_patch a s t cols db)) = ldb_repos db"
  "ldb_next_repo (snd (upsert_patch a s t cols db)) = ldb_next_repo db"
  "ldb_system_repo (snd (upsert_patch a s t cols db)) = ldb_system_repo db"
  "ldb_deleted (snd (upsert_patch a s t cols db)) = ldb_deleted db"
  "ldb_templates (snd (upsert_patch a s t cols db)) = ldb_templates db"
  "ldb_next_template (snd (upsert_patch a s t cols db)) = ldb_next_template db"
  "ldb_template_advisories (snd (upsert_patch a s t cols db)) = ldb_template_advisories db"
  by (simp_all add: upsert_patch_def Let_def split: option.split)

section \<open>Repositories\<close>

lemma insert_repos_frame:
  "insert_repos ns db = (ids, db') \<Longrightarrow>
     db' = db\<lparr>ldb_repos := ldb_repos db', ldb_next_repo := ldb_next_repo db'\<rparr>"
proof (induction ns arbitrary: db ids)
  case Nil
  then show ?case by simp
next
  case (Cons n ns)
  show ?case
  proof (cases "gm_has (ldb_repos db) n")
    case True
    then show ?thesis using Cons by simp
  next
    case False
    then obtain ids' where
      "insert_repos ns (db\<lparr>ldb_repos := gm_put n (ldb_next_repo db) (ldb_repos db),
                          ldb_next_repo := ldb_next_repo db + 1\<rparr>) = (ids', db')"
      using Cons.prems by (auto split: prod.splits)
    from Cons.IH [OF this] show ?thesis by simp
  qed
qed

text \<open>A name that is known keeps its id, the others get one each: the number of ids returned is
  the number of different names that were missing.\<close>

lemma insert_repos_all:
  "insert_repos ns db = (ids, db') \<Longrightarrow>
     (gm_get (ldb_repos db) n = Some i \<longrightarrow> gm_get (ldb_repos db') n = Some i)
   \<and> (n \<notin> set ns \<longrightarrow> gm_get (ldb_repos db') n = gm_get (ldb_repos db) n)
   \<and> (n \<in> set ns \<longrightarrow> gm_has (ldb_repos db') n)"
proof (induction ns arbitrary: db ids)
  case Nil
  then show ?case by simp
next
  case (Cons m ns)
  obtain db1 ids' where r: "insert_repos ns db1 = (ids', db')" and
    d: "db1 = (if gm_has (ldb_repos db) m then db
      else db\<lparr>ldb_repos := gm_put m (ldb_next_repo db) (ldb_repos db), ldb_next_repo := ldb_next_repo db + 1\<rparr>)"
    using Cons.prems by (auto split: if_splits prod.splits)
  from Cons.IH [OF r] show ?case
    by (cases "n = m") (auto simp: d gomap split: if_splits)
qed

lemma insert_repos_get:
  assumes "insert_repos ns db = (ids, db')"
  shows "gm_get (ldb_repos db) n = Some i \<Longrightarrow> gm_get (ldb_repos db') n = Some i"
    and "n \<notin> set ns \<Longrightarrow> gm_get (ldb_repos db') n = gm_get (ldb_repos db) n"
    and "n \<in> set ns \<Longrightarrow> gm_has (ldb_repos db') n"
  using insert_repos_all [OF assms] by blast+

lemma insert_repos_ids:
  assumes "insert_repos ns db = (ids, db')" "distinct ns" "\<forall>n\<in>set ns. gm_get (ldb_repos db) n = None"
  shows "map (gm_get (ldb_repos db')) ns = map Some ids"
  using assms
proof (induction ns arbitrary: db ids)
  case Nil
  then show ?case by simp
next
  case (Cons m ns)
  let ?db1 = "db\<lparr>ldb_repos := gm_put m (ldb_next_repo db) (ldb_repos db), ldb_next_repo := ldb_next_repo db + 1\<rparr>"
  obtain ids' where r: "insert_repos ns ?db1 = (ids', db')" and ids: "ids = ldb_next_repo db # ids'"
    using Cons.prems(1,3) by (auto split: prod.splits)
  have "map (gm_get (ldb_repos db')) ns = map Some ids'"
    by (rule Cons.IH [OF r]) (use Cons.prems(2,3) in \<open>auto simp: gomap\<close>)
  moreover have "gm_get (ldb_repos db') m = Some (ldb_next_repo db)"
    by (rule insert_repos_get(1) [OF r]) (simp add: gomap)
  ultimately show ?case by (simp add: ids)
qed

lemma insert_repos_count:
  assumes "insert_repos ns db = (ids, db')" "\<forall>n\<in>set ns. gm_get (ldb_repos db) n = None"
  shows "length ids = card (set ns)"
proof -
  have "length ids = card (set ns - {n. gm_has (ldb_repos db) n})"
    using assms(1)
  proof (induction ns arbitrary: db ids)
    case Nil
    then show ?case by simp
  next
    case (Cons m ns)
    show ?case
    proof (cases "gm_has (ldb_repos db) m")
      case True
      then have "set (m # ns) - {n. gm_has (ldb_repos db) n} = set ns - {n. gm_has (ldb_repos db) n}" by auto
      then show ?thesis using Cons.IH [of db ids] Cons.prems True by simp
    next
      case False
      let ?db1 = "db\<lparr>ldb_repos := gm_put m (ldb_next_repo db) (ldb_repos db), ldb_next_repo := ldb_next_repo db + 1\<rparr>"
      obtain ids' where r: "insert_repos ns ?db1 = (ids', db')" and ids: "ids = ldb_next_repo db # ids'"
        using Cons.prems False by (auto split: prod.splits)
      have "set (m # ns) - {n. gm_has (ldb_repos db) n}
          = insert m (set ns - {n. gm_has (ldb_repos ?db1) n})"
        using False by (auto simp: gomap split: if_splits)
      moreover have "m \<notin> set ns - {n. gm_has (ldb_repos ?db1) n}" by (simp add: gomap)
      ultimately show ?thesis using Cons.IH [OF r] by (simp add: ids)
    qed
  qed
  moreover have "set ns - {n. gm_has (ldb_repos db) n} = set ns" using assms(2) by auto
  ultimately show ?thesis by simp
qed

lemma gm_put_subset: "set (gm_put k v m) \<subseteq> insert (k, v) (set m)"
  by (induction m) auto

lemma insert_repos_positive:
  "insert_repos ns db = (ids, db') \<Longrightarrow> \<forall>i\<in>snd ` set (ldb_repos db). 0 < i \<Longrightarrow> 0 < ldb_next_repo db
   \<Longrightarrow> \<forall>i\<in>snd ` set (ldb_repos db'). 0 < i"
proof (induction ns arbitrary: db ids)
  case Nil
  then show ?case by simp
next
  case (Cons m ns)
  show ?case
  proof (cases "gm_has (ldb_repos db) m")
    case True
    then show ?thesis using Cons by simp
  next
    case False
    let ?db1 = "db\<lparr>ldb_repos := gm_put m (ldb_next_repo db) (ldb_repos db), ldb_next_repo := ldb_next_repo db + 1\<rparr>"
    obtain ids' where r: "insert_repos ns ?db1 = (ids', db')" using Cons.prems(1) False by (auto split: prod.splits)
    have "set (gm_put m (ldb_next_repo db) (ldb_repos db)) \<subseteq> insert (m, ldb_next_repo db) (set (ldb_repos db))"
      by (rule gm_put_subset)
    then show ?thesis using Cons.IH [OF r] Cons.prems(2,3) by fastforce
  qed
qed

lemma split_repos_spec:
  "split_repos known rs = (ids, ns) \<Longrightarrow>
     ns = filter (\<lambda>r. gm_get known r = None) rs
   \<and> map Some ids = map (gm_get known) (filter (gm_has known) rs)"
  by (induction rs arbitrary: ids ns) (auto split: option.splits prod.splits)

lemma insert_rows_set: "set (insert_rows ks t) = set ks \<union> set t"
  by (induction ks t rule: insert_rows.induct) auto

definition repos_of :: "listener_db \<Rightarrow> int \<Rightarrow> int \<Rightarrow> int list" where
  "repos_of db account system =
     map (\<lambda>(a, s, r). r) (filter (\<lambda>(a, s, r). a = account \<and> s = system) (ldb_system_repo db))"

lemma repos_of_set: "r \<in> set (repos_of db a s) \<longleftrightarrow> (a, s, r) \<in> set (ldb_system_repo db)"
  by (force simp: repos_of_def)

definition missing_repos :: "listener_db \<Rightarrow> string list \<Rightarrow> string list" where
  "missing_repos db names = filter (\<lambda>n. gm_get (ldb_repos db) n = None) names"

lemma restricted_get:
  "n \<in> set repos \<Longrightarrow> gm_get (filter (\<lambda>e. fst e \<in> set repos) m) n = gm_get m n"
  by (induction m) auto

lemma split_restricted:
  assumes "split_repos (filter (\<lambda>e. fst e \<in> set repos) (ldb_repos db)) repos = (ids, ns)"
  shows "ns = missing_repos db repos"
    and "set ids = {i. \<exists>n\<in>set repos. gm_get (ldb_repos db) n = Some i}"
proof -
  let ?known = "filter (\<lambda>e. fst e \<in> set repos) (ldb_repos db)"
  note spec = split_repos_spec [OF assms]
  have "filter (\<lambda>r. gm_get ?known r = None) repos = missing_repos db repos"
    unfolding missing_repos_def by (rule filter_cong) (simp_all add: restricted_get)
  with spec show "ns = missing_repos db repos" by simp
  have "Some ` set ids = gm_get ?known ` {n \<in> set repos. gm_has ?known n}"
    using spec by (metis image_set set_filter)
  also have "\<dots> = gm_get (ldb_repos db) ` {n \<in> set repos. gm_has (ldb_repos db) n}"
    by (intro image_cong) (auto simp: restricted_get)
  finally have e: "Some ` set ids = gm_get (ldb_repos db) ` {n \<in> set repos. gm_has (ldb_repos db) n}" .
  show "set ids = {i. \<exists>n\<in>set repos. gm_get (ldb_repos db) n = Some i}"
  proof (intro set_eqI iffI)
    fix i
    assume "i \<in> set ids"
    then have "Some i \<in> gm_get (ldb_repos db) ` {n \<in> set repos. gm_has (ldb_repos db) n}"
      unfolding e [symmetric] by simp
    then show "i \<in> {i. \<exists>n\<in>set repos. gm_get (ldb_repos db) n = Some i}" by force
  next
    fix i
    assume "i \<in> {i. \<exists>n\<in>set repos. gm_get (ldb_repos db) n = Some i}"
    then have "Some i \<in> gm_get (ldb_repos db) ` {n \<in> set repos. gm_has (ldb_repos db) n}"
      by (auto simp: image_iff intro!: bexI)
    then show "i \<in> set ids" unfolding e [symmetric] by auto
  qed
qed

text \<open>What \<open>ensure_repos_in_db\<close> does when it succeeds: it inserts the missing names, and gorm spreads
  the returned ids over them.\<close>

lemma ensure_repos_Inr:
  assumes "ensure_repos_in_db faults scan_ids repos t = (Inr (ids, added), t')"
  obtains old new where
    "set old = {i. \<exists>n\<in>set repos. gm_get (ldb_repos (lt_db t)) n = Some i}"
    "insert_repos (missing_repos (lt_db t) repos) (lt_db t) = (new, lt_db t')"
    "ids = old @ (if missing_repos (lt_db t) repos = [] then []
                  else scan_ids (length (missing_repos (lt_db t) repos)) new)"
    "lt_aborted t' = lt_aborted t"
proof (cases "repos = []")
  case True
  with assms show ?thesis
    by (intro that [of "[]" "[]"]) (auto simp: ensure_repos_in_db_def missing_repos_def)
next
  case False
  let ?known = "filter (\<lambda>e. fst e \<in> set repos) (ldb_repos (lt_db t))"
  obtain old ns where sp: "split_repos ?known repos = (old, ns)" by (cases "split_repos ?known repos")
  note ns = split_restricted(1) [OF sp] and old = split_restricted(2) [OF sp]
  obtain new db' where ins: "insert_repos ns (lt_db t) = (new, db')" by (cases "insert_repos ns (lt_db t)")
  show ?thesis
    using assms False sp ins ns
    by (intro that [of old new, OF old])
      (auto simp: ensure_repos_in_db_def ltx_statement_def Let_def split: if_splits prod.splits)
qed

lemma update_system_repos_Inr:
  assumes "update_system_repos faults a s ids t = (Inr counts, t')"
  shows "set (repos_of (lt_db t') a s) = set ids"
    and "(a', s') \<noteq> (a, s) \<Longrightarrow> set (repos_of (lt_db t') a' s') = set (repos_of (lt_db t) a' s')"
    and "lt_db t' = (lt_db t)\<lparr>ldb_system_repo := ldb_system_repo (lt_db t')\<rparr>"
    and "\<forall>i\<in>set ids. i \<in> snd ` set (ldb_repos (lt_db t))"
proof -
  let ?rows = "insert_rows (map (\<lambda>r. (a, s, r)) ids) (ldb_system_repo (lt_db t))"
  let ?gone = "\<lambda>(a', s', r). a' = a \<and> s' = s \<and> (ids = [] \<or> r \<notin> set ids)"
  have db: "lt_db t' = (lt_db t)\<lparr>ldb_system_repo := filter (\<lambda>k. \<not> ?gone k) ?rows\<rparr>"
    and fk: "\<forall>i\<in>set ids. i \<in> snd ` set (ldb_repos (lt_db t))"
    using assms
    by (auto simp: update_system_repos_def delete_other_system_repos_def ltx_statement_def Let_def
        list_all_iff split: if_splits)
  show "set (repos_of (lt_db t') a s) = set ids"
    by (auto simp: db repos_of_set insert_rows_set)
  show "(a', s') \<noteq> (a, s) \<Longrightarrow> set (repos_of (lt_db t') a' s') = set (repos_of (lt_db t) a' s')"
    by (auto simp: db repos_of_set insert_rows_set)
  show "lt_db t' = (lt_db t)\<lparr>ldb_system_repo := ldb_system_repo (lt_db t')\<rparr>" by (simp add: db)
  show "\<forall>i\<in>set ids. i \<in> snd ` set (ldb_repos (lt_db t))" by (rule fk)
qed

lemma update_repos_Inr:
  assumes "update_repos faults scan_ids profile a s repos t = (Inr counts, t')"
  obtains ids added tm counts' where
    "ensure_repos_in_db faults scan_ids (fix_epel_repos (Some profile) repos) t = (Inr (ids, added), tm)"
    "update_system_repos faults a s ids tm = (Inr counts', t')"
  using assms by (auto simp: update_repos_def Let_def split: sum.splits prod.splits)

text \<open>C22.  After an update of the repositories of a system its rows in \<open>system_repo\<close> are exactly the
  repositories of the request, every one of them in the table \<open>repo\<close>; the rows of every other
  system and the ids of the repositories that were known are as before.\<close>

theorem upload_repos_exact:
  fixes profile :: system_profile
  defines "names \<equiv> fix_epel_repos (Some profile)"
  assumes run: "update_repos faults scan_ids profile a s repos t = (Inr counts, t')"
    and gorm: "\<forall>ids. scan_ids (length ids) ids = ids"
    and once: "distinct (missing_repos (lt_db t) (names repos))"
  shows "set (repos_of (lt_db t') a s)
       = {i. \<exists>n\<in>set (names repos). gm_get (ldb_repos (lt_db t')) n = Some i}
     \<and> (\<forall>n\<in>set (names repos). gm_has (ldb_repos (lt_db t')) n)
     \<and> (\<forall>n i. gm_get (ldb_repos (lt_db t)) n = Some i \<longrightarrow> gm_get (ldb_repos (lt_db t')) n = Some i)
     \<and> (\<forall>a' s'. (a', s') \<noteq> (a, s) \<longrightarrow> set (repos_of (lt_db t') a' s') = set (repos_of (lt_db t) a' s'))"
proof -
  obtain ids added tm counts' where
    e: "ensure_repos_in_db faults scan_ids (names repos) t = (Inr (ids, added), tm)"
    and u: "update_system_repos faults a s ids tm = (Inr counts', t')"
    using run unfolding names_def by (rule update_repos_Inr)
  obtain old new where old: "set old = {i. \<exists>n\<in>set (names repos). gm_get (ldb_repos (lt_db t)) n = Some i}"
    and ins: "insert_repos (missing_repos (lt_db t) (names repos)) (lt_db t) = (new, lt_db tm)"
    and ids: "ids = old @ (if missing_repos (lt_db t) (names repos) = [] then []
        else scan_ids (length (missing_repos (lt_db t) (names repos))) new)"
    using e by (rule ensure_repos_Inr)
  let ?ms = "missing_repos (lt_db t) (names repos)"
  have m: "map (gm_get (ldb_repos (lt_db tm))) ?ms = map Some new"
    by (rule insert_repos_ids [OF ins once]) (simp add: missing_repos_def)
  then have "length new = length ?ms" using map_eq_imp_length_eq by fastforce
  then have "scan_ids (length ?ms) new = new" using gorm by metis
  then have ids': "set ids = set old \<union> set new" using ids m by (cases "?ms = []") auto
  have new: "set new = {i. \<exists>n\<in>set ?ms. gm_get (ldb_repos (lt_db tm)) n = Some i}"
  proof -
    have img: "gm_get (ldb_repos (lt_db tm)) ` set ?ms = Some ` set new" using arg_cong [OF m, of set] by simp
    show ?thesis
    proof (intro set_eqI iffI)
      fix i
      assume "i \<in> set new"
      then have "Some i \<in> gm_get (ldb_repos (lt_db tm)) ` set ?ms" unfolding img by simp
      then show "i \<in> {i. \<exists>n\<in>set ?ms. gm_get (ldb_repos (lt_db tm)) n = Some i}" by force
    next
      fix i
      assume "i \<in> {i. \<exists>n\<in>set ?ms. gm_get (ldb_repos (lt_db tm)) n = Some i}"
      then have "Some i \<in> gm_get (ldb_repos (lt_db tm)) ` set ?ms" by (auto simp: image_iff intro!: bexI)
      then show "i \<in> set new" unfolding img by auto
    qed
  qed
  have eq: "ldb_repos (lt_db t') = ldb_repos (lt_db tm)"
    by (subst update_system_repos_Inr(3) [OF u]) simp
  have sr: "ldb_system_repo (lt_db tm) = ldb_system_repo (lt_db t)"
    by (subst insert_repos_frame [OF ins]) simp
  have keep: "gm_get (ldb_repos (lt_db tm)) n = Some i" if "gm_get (ldb_repos (lt_db t)) n = Some i" for n i
    by (rule insert_repos_get(1) [OF ins that])
  have has: "gm_has (ldb_repos (lt_db tm)) n" if "n \<in> set (names repos)" for n
    using that keep insert_repos_get(3) [OF ins, of n]
    by (cases "gm_get (ldb_repos (lt_db t)) n") (auto simp: missing_repos_def)
  have "set ids = {i. \<exists>n\<in>set (names repos). gm_get (ldb_repos (lt_db tm)) n = Some i}"
  proof -
    have "n \<in> set ?ms \<or> gm_get (ldb_repos (lt_db t)) n = Some i"
      if "n \<in> set (names repos)" "gm_get (ldb_repos (lt_db tm)) n = Some i" for n i
      using that keep by (cases "gm_get (ldb_repos (lt_db t)) n") (auto simp: missing_repos_def)
    moreover have "set ?ms \<subseteq> set (names repos)" by (auto simp: missing_repos_def)
    ultimately show ?thesis unfolding ids' old new using keep by blast
  qed
  then show ?thesis
    using update_system_repos_Inr(1,2) [OF u] keep has
    by (simp add: eq repos_of_def sr)
qed

text \<open>A database with one known repository, and how gorm fills the rows of an insert in order, the
  rest keeping the id 0.\<close>

definition sample_db :: listener_db where
  "sample_db = \<lparr>ldb_accounts = [(''org'', 1)], ldb_next_account = 2, ldb_inventory = [], ldb_next_system = 1,
     ldb_patch = [], ldb_repos = [(''base'', 1)], ldb_next_repo = 2, ldb_system_repo = [(1, 1, 1)], ldb_deleted = [],
     ldb_templates = [], ldb_next_template = 1, ldb_template_advisories = [], ldb_metadata = []\<rparr>"

definition fill_rows :: "nat \<Rightarrow> int list \<Rightarrow> int list" where
  "fill_rows n ids = take n ids @ replicate (n - length ids) 0"

definition sample_profile :: system_profile where
  "sample_profile = \<lparr>pf_arch = Some ''x86_64'', pf_host_type = [], pf_installed_packages = Some [''foo-0:1-1.x86_64''],
     pf_yum_repos = Some [\<lparr>yr_id = ''epel'', yr_name = [], yr_enabled = True, yr_mirrorlist = [], yr_base_url = []\<rparr>,
                          \<lparr>yr_id = ''EPEL_8'', yr_name = [], yr_enabled = True, yr_mirrorlist = [], yr_base_url = []\<rparr>],
     pf_dnf_modules = None,
     pf_operating_system = \<lparr>os_major = 8, os_minor = 4, os_name = ''RHEL''\<rparr>,
     pf_rhsm = \<lparr>rh_version = [], rh_environments = []\<rparr>, pf_releasever = None, pf_satellite_managed = False,
     pf_bootc_booted_image = [], pf_owner_id = None,
     pf_workloads = \<lparr>wl_sap = \<lparr>sap_system = False, sap_sids = []\<rparr>, wl_ansible_controller_version = [],
       wl_mssql_version = [], wl_crowdstrike_falcon_aid = [], wl_ibm_db2_is_running = False,
       wl_intersystems_is_intersystems = False, wl_oracle_db_is_running = False, wl_rhel_ai_variant = [],
       wl_satellite = \<lparr>sat_type = [], sat_version = []\<rparr>\<rparr>\<rparr>"

lemma show_int_8 [simp]: "show_int 8 = ''8''"
  by code_simp

lemma sample_names:
  "fix_epel_repos (Some sample_profile) [''base'', ''epel''] = [''base'', ''epel-8'']"
  "fix_epel_repos (Some sample_profile) [''epel'', ''EPEL_8''] = [''epel-8'', ''epel-8'']"
  by (simp_all add: fix_epel_repos_def fix_epel_repo_def sample_profile_def)

theorem upload_repos_exact_witness:
  "\<exists>t'. update_repos (\<lambda>s. False) fill_rows sample_profile 1 1 [''base'', ''epel''] (ltx_begin sample_db)
          = (Inr (1, 1, 0), t')
     \<and> set (repos_of (lt_db t') 1 1)
         = {i. \<exists>n\<in>set [''base'', ''epel-8'']. gm_get (ldb_repos (lt_db t')) n = Some i}
     \<and> set (repos_of (lt_db t') 1 1) = {1, 2}"
proof -
  obtain t' where run: "update_repos (\<lambda>s. False) fill_rows sample_profile 1 1 [''base'', ''epel''] (ltx_begin sample_db)
      = (Inr (1, 1, 0), t')" and set: "repos_of (lt_db t') 1 1 = [1, 2]"
    by (simp add: update_repos_def sample_names ensure_repos_in_db_def update_system_repos_def
        delete_other_system_repos_def ltx_statement_def ltx_begin_def sample_db_def fill_rows_def repos_of_def)
  have "set (repos_of (lt_db t') 1 1)
      = {i. \<exists>n\<in>set (fix_epel_repos (Some sample_profile) [''base'', ''epel'']). gm_get (ldb_repos (lt_db t')) n = Some i}"
    using upload_repos_exact [OF run] by (simp add: fill_rows_def missing_repos_def sample_names ltx_begin_def sample_db_def)
  with run set show ?thesis by (intro exI [of _ t']) (simp add: sample_names)
qed

text \<open>A request that names an unknown repository twice, as a host with both \<open>epel\<close> and
  \<open>EPEL_8\<close> enabled does, never gets through: the insert returns fewer ids than rows, one row keeps
  the id 0, and the foreign key rejects it.\<close>

theorem duplicate_repos_fail:
  assumes gorm: "\<forall>n ids. length ids < n \<longrightarrow> 0 \<in> set (scan_ids n ids)"
    and twice: "\<not> distinct (missing_repos (lt_db t) (fix_epel_repos (Some profile) repos))"
    and ids: "\<forall>i\<in>snd ` set (ldb_repos (lt_db t)). 0 < i" "0 < ldb_next_repo (lt_db t)"
  shows "isl (fst (update_repos faults scan_ids profile a s repos t))"
proof (rule ccontr)
  assume "\<not> isl (fst (update_repos faults scan_ids profile a s repos t))"
  then obtain counts t' where "update_repos faults scan_ids profile a s repos t = (Inr counts, t')"
    by (metis isl_def prod.exhaust_sel sum.exhaust)
  then obtain rids added tm counts' where
    e: "ensure_repos_in_db faults scan_ids (fix_epel_repos (Some profile) repos) t = (Inr (rids, added), tm)"
    and u: "update_system_repos faults a s rids tm = (Inr counts', t')"
    by (rule update_repos_Inr)
  let ?ms = "missing_repos (lt_db t) (fix_epel_repos (Some profile) repos)"
  obtain old new where ins: "insert_repos ?ms (lt_db t) = (new, lt_db tm)"
    and rids: "rids = old @ (if ?ms = [] then [] else scan_ids (length ?ms) new)"
    using e by (rule ensure_repos_Inr)
  have "length new = card (set ?ms)"
    by (rule insert_repos_count [OF ins]) (simp add: missing_repos_def)
  then have "length new < length ?ms" using twice by (metis card_distinct card_length le_neq_implies_less)
  then have "0 \<in> set rids" using gorm twice rids by auto
  then have "0 \<in> snd ` set (ldb_repos (lt_db tm))" using update_system_repos_Inr(4) [OF u] by blast
  moreover have "\<forall>i\<in>snd ` set (ldb_repos (lt_db tm)). 0 < i" by (rule insert_repos_positive [OF ins ids])
  ultimately show False by auto
qed

theorem duplicate_repos_fail_witness:
  "fst (process_repos (\<lambda>u. None) (Some sample_profile)) = [''epel-8'', ''epel-8'']
   \<and> isl (fst (update_repos (\<lambda>s. False) fill_rows sample_profile 1 1 [''epel-8'', ''epel-8''] (ltx_begin sample_db)))"
proof -
  have "fst (process_repos (\<lambda>u. None) (Some sample_profile)) = [''epel-8'', ''epel-8'']"
    by code_simp
  moreover have fixed: "fix_epel_repos (Some sample_profile) [''epel-8'', ''epel-8''] = [''epel-8'', ''epel-8'']"
    by (simp add: fix_epel_repos_def fix_epel_repo_def sample_profile_def)
  moreover have "isl (fst (update_repos (\<lambda>s. False) fill_rows sample_profile 1 1 [''epel-8'', ''epel-8'']
      (ltx_begin sample_db)))"
    by (rule duplicate_repos_fail)
      (auto simp: fill_rows_def missing_repos_def fixed ltx_begin_def sample_db_def)
  ultimately show ?thesis by simp
qed

end
