(* ===== verification/UploadLaws.thy ===== *)
theory UploadLaws
  imports ListenerEvents ListenerStoreLaws
begin

text \<open>
  What an upload does to the database: the columns that are skipped when a checksum is
  unchanged, the row a successful upload leaves, the invariant of the tables, and what every
  rejected or failed upload leaves alone.
\<close>

lemma upsert_found:
  assumes "find_inventory a i db = Some old" "si_account new = a" "si_inventory_id new = i"
  shows "snd (upsert_inventory now cols new db) = db\<lparr>ldb_inventory :=
    map (\<lambda>r. if is_row a i r then on_update now old (fold (set_column new) cols old) else r) (ldb_inventory db)\<rparr>"
  using assms by (simp add: upsert_inventory_def Let_def)

section \<open>The steps of an upload\<close>

lemma store_or_update_Inr:
  assumes "store_or_update_sys_platform faults now system cols t = (Inr sys, t')"
  obtains row db1 existing where
    "existing = (case find_inventory (si_account (pl_inventory system)) (si_inventory_id (pl_inventory system)) (lt_db t)
                 of None \<Rightarrow> 0 | Some r \<Rightarrow> si_id r)"
    "upsert_inventory now cols ((pl_inventory system)\<lparr>si_id := existing\<rparr>) (lt_db t) = (row, db1)"
    "lt_db t' = snd (upsert_patch (si_account row) (si_id row) (sp_template_id (pl_patch system))
        (if sp_template_id (pl_patch system) \<noteq> None then [''template_id''] else []) db1)"
    "pl_inventory sys = (pl_inventory system)\<lparr>si_id := si_id row, si_inventory_id := si_inventory_id row,
        si_account := si_account row, si_unchanged_since := si_unchanged_since row\<rparr>"
    "\<not> lt_aborted t"
proof -
  let ?inv = "pl_inventory system"
  let ?ex = "case find_inventory (si_account ?inv) (si_inventory_id ?inv) (lt_db t) of None \<Rightarrow> 0 | Some r \<Rightarrow> si_id r"
  have live: "\<not> lt_aborted t" "\<not> faults SystemLookup" "\<not> faults InventoryUpsert"
    using assms by (auto simp: store_or_update_sys_platform_def ltx_statement_def Let_def split: if_splits)
  obtain row db1 where up: "upsert_inventory now cols (?inv\<lparr>si_id := ?ex\<rparr>) (lt_db t) = (row, db1)"
    by (cases "upsert_inventory now cols (?inv\<lparr>si_id := ?ex\<rparr>) (lt_db t)")
  let ?sys = "system\<lparr>pl_inventory := ?inv\<lparr>si_id := si_id row, si_inventory_id := si_inventory_id row,
      si_account := si_account row, si_unchanged_since := si_unchanged_since row\<rparr>,
      pl_patch := (pl_patch system)\<lparr>sp_account := si_account row\<rparr>\<rparr>"
  have p: "upsert_system_patch faults ?sys (t\<lparr>lt_db := db1\<rparr>) = (Inr sys, t')"
    using assms live up
    by (auto simp: store_or_update_sys_platform_def ltx_statement_def Let_def split: option.splits)
  have "lt_db t' = snd (upsert_patch (si_account row) (si_id row) (sp_template_id (pl_patch system))
        (if sp_template_id (pl_patch system) \<noteq> None then [''template_id''] else []) db1)
      \<and> pl_inventory sys = pl_inventory ?sys"
    using p by (auto simp: upsert_system_patch_def ltx_statement_def Let_def split: if_splits prod.splits)
  then show ?thesis using that [OF refl up] live by simp
qed

lemma host_template_db:
  "host_template env account h t net = (template_id, t', net') \<Longrightarrow> lt_db t' = lt_db t"
  by (auto simp: host_template_def get_template_def ltx_statement_def Let_def
      split: if_splits option.splits sum.splits prod.splits list.splits)

lemma old_checksums_Inr:
  assumes "old_checksums faults account i t = (old, t')" "\<not> lt_aborted t'"
  shows "t' = t" and "old = (case find_inventory account i (lt_db t) of None \<Rightarrow> ([], [])
      | Some r \<Rightarrow> (str_of (si_json_checksum r), str_of (si_yum_checksum r)))"
  using assms by (auto simp: old_checksums_def ltx_statement_def Let_def split: if_splits)

definition uploaded_system :: "('w, 'n) listener_env \<Rightarrow> int \<Rightarrow> host \<Rightarrow> host_yum option \<Rightarrow> string
    \<Rightarrow> uuid option \<times> string option \<Rightarrow> int option \<Rightarrow> system_platform" where
  "uploaded_system env account h yum json ws template_id =
     \<lparr>pl_inventory = host_inventory env account h yum json (le_sha256 env json) (le_sha256 env (get_raw_parsed yum)) ws,
      pl_patch = zero_patch\<lparr>sp_account := account, sp_template_id := template_id\<rparr>\<rparr>"

definition prior_checksums :: "listener_db \<Rightarrow> int \<Rightarrow> uuid \<Rightarrow> string \<times> string" where
  "prior_checksums db account i =
     (case find_inventory account i db of None \<Rightarrow> ([], [])
      | Some r \<Rightarrow> (str_of (si_json_checksum r), str_of (si_yum_checksum r)))"

text \<open>A successful upload: the account, the encoded request, the stored system, and, when the package
  profile changed, the repositories.\<close>

lemma store_system_Inr:
  assumes "store_system env now account h system jc yc repos t = (Inr sys, t')"
  obtains tm where
    "store_or_update_sys_platform (le_faults env) now system
       (changed_columns (prior_checksums (lt_db t) account (ho_id h)) jc yc) t = (Inr sys, tm)"
    "fst (prior_checksums (lt_db t) account (ho_id h)) = jc \<Longrightarrow> t' = tm"
    "fst (prior_checksums (lt_db t) account (ho_id h)) \<noteq> jc \<Longrightarrow>
       \<exists>counts. update_repos (le_faults env) (le_scan_ids env) (ho_profile h) account (si_id (pl_inventory sys)) repos tm
          = (Inr counts, t')"
proof -
  obtain old t1 where o: "old_checksums (le_faults env) account (ho_id h) t = (old, t1)"
    by (cases "old_checksums (le_faults env) account (ho_id h) t")
  obtain res tm where st: "store_or_update_sys_platform (le_faults env) now system (changed_columns old jc yc) t1 = (res, tm)"
    by (cases "store_or_update_sys_platform (le_faults env) now system (changed_columns old jc yc) t1")
  have res: "res = Inr sys" "fst old = jc \<Longrightarrow> t' = tm"
    "fst old \<noteq> jc \<Longrightarrow> \<exists>counts. update_repos (le_faults env) (le_scan_ids env) (ho_profile h) account
        (si_id (pl_inventory sys)) repos tm = (Inr counts, t')"
    using assms o st by (auto simp: store_system_def Let_def split: sum.splits if_splits prod.splits)
  have "\<not> lt_aborted t1" using st [unfolded res(1)] by (rule store_or_update_Inr)
  from old_checksums_Inr [OF o this] have "t1 = t" "old = prior_checksums (lt_db t) account (ho_id h)"
    by (simp_all add: prior_checksums_def)
  then show ?thesis using that st res by simp
qed

lemma process_upload_run:
  assumes "process_upload env now h yum db net = (Inr (Some sys), db', net')"
  obtains account db0 json ws template_id ta tb net1 where
    "get_or_create_account (le_faults env) (get_org_id h) db = (Inr account, db0)"
    "le_encode_request env (upload_request env h) = Some json"
    "host_workspace env h = Inr ws"
    "host_template env account h (ltx_begin db0) net = (template_id, ta, net1)" "lt_db tb = db'"
    "\<not> recently_deleted (le_deletion_threshold env) now (ho_id h) db0"
    "store_system env now account h (uploaded_system env account h yum json ws template_id) (le_sha256 env json)
       (le_sha256 env (get_raw_parsed yum)) (rq_repository_list (upload_request env h)) ta = (Inr sys, tb)"
proof -
  obtain account db0 where acc: "get_or_create_account (le_faults env) (get_org_id h) db = (Inr account, db0)"
    using assms by (auto simp: process_upload_def split: sum.splits prod.splits)
  obtain t1 where t1: "ltx_statement (le_faults env) DeletedFind (ltx_begin db0) = (True, t1)"
    and del: "\<not> recently_deleted (le_deletion_threshold env) now (ho_id h) (lt_db t1)"
    using assms acc by (auto simp: process_upload_def Let_def split: if_splits prod.splits)
  have db1: "t1 = ltx_begin db0" "lt_db t1 = db0" using t1 by (simp_all add: ltx ltx_begin_def split: if_splits)
  obtain tb net2 where up: "update_system_platform env now account h yum (upload_request env h) t1 net = (Inr sys, tb, net2)"
    and com: "ltx_statement (le_faults env) UploadCommit tb = (True, tb)" and fin: "lt_db tb = db'"
    using assms acc t1 del
    by (auto simp: process_upload_def Let_def ltx split: if_splits prod.splits sum.splits)
  obtain json where json: "le_encode_request env (upload_request env h) = Some json"
    using up by (auto simp: update_system_platform_def split: option.splits)
  obtain ws where ws: "host_workspace env h = Inr ws"
    using up json by (auto simp: update_system_platform_def Let_def split: sum.splits)
  obtain template_id ta net1 where tmpl: "host_template env account h t1 net = (template_id, ta, net1)"
    by (cases "host_template env account h t1 net") auto
  have "store_system env now account h (uploaded_system env account h yum json ws template_id) (le_sha256 env json)
       (le_sha256 env (get_raw_parsed yum)) (rq_repository_list (upload_request env h)) ta = (Inr sys, tb)"
    using up json ws tmpl
    by (auto simp: update_system_platform_def uploaded_system_def Let_def split: prod.splits)
  then show ?thesis using that [OF acc json ws tmpl [unfolded db1(1)] fin] db1(2) del by simp
qed

lemma process_upload_template:
  assumes "process_upload env now h yum db net = (Inr (Some sys), db', net')"
  obtains account db0 json ws template_id ta tb t1 net0 net1 where
    "get_or_create_account (le_faults env) (get_org_id h) db = (Inr account, db0)"
    "le_encode_request env (upload_request env h) = Some json"
    "host_workspace env h = Inr ws"
    "host_template env account h t1 net0 = (template_id, ta, net1)" "lt_db t1 = db0" "lt_db tb = db'"
    "\<not> recently_deleted (le_deletion_threshold env) now (ho_id h) db0"
    "store_system env now account h (uploaded_system env account h yum json ws template_id) (le_sha256 env json)
       (le_sha256 env (get_raw_parsed yum)) (rq_repository_list (upload_request env h)) ta = (Inr sys, tb)"
  using process_upload_run [OF assms] by (metis (no_types) ltx_begin_def ltx.select_convs(1) that)

lemma process_upload_Some:
  assumes "process_upload env now h yum db net = (Inr (Some sys), db', net')"
  obtains account db0 json ws template_id ta tb where
    "get_or_create_account (le_faults env) (get_org_id h) db = (Inr account, db0)"
    "le_encode_request env (upload_request env h) = Some json"
    "host_workspace env h = Inr ws"
    "lt_db ta = db0" "lt_db tb = db'"
    "\<not> recently_deleted (le_deletion_threshold env) now (ho_id h) db0"
    "store_system env now account h (uploaded_system env account h yum json ws template_id) (le_sha256 env json)
       (le_sha256 env (get_raw_parsed yum)) (rq_repository_list (upload_request env h)) ta = (Inr sys, tb)"
  using process_upload_template [OF assms] host_template_db by (metis (no_types) that)

section \<open>The row of an upload\<close>

definition unless_empty :: "string \<Rightarrow> string option" where
  "unless_empty s = (if s = [] then None else Some s)"

text \<open>The columns every upload writes, from the fields of the host message.\<close>

definition host_columns :: "('w, 'n) listener_env \<Rightarrow> host \<Rightarrow> host_yum option \<Rightarrow> uuid option \<times> string option
    \<Rightarrow> system_inventory \<Rightarrow> bool" where
  "host_columns env h yum ws row \<longleftrightarrow>
     si_display_name row = (case ho_display_name h of None \<Rightarrow> ho_id h | Some d \<Rightarrow> if is_blank d then ho_id h else d)
   \<and> si_last_upload row = get_last_upload (le_allowed env) (Some h)
   \<and> si_stale_timestamp row = ho_stale_timestamp h \<and> si_stale_warning_timestamp row = ho_stale_warning_timestamp h
   \<and> si_culled_timestamp row = ho_culled_timestamp h
   \<and> si_satellite_managed row = pf_satellite_managed (ho_profile h)
   \<and> si_built_pkgcache row = (case yum of None \<Rightarrow> False | Some y \<Rightarrow> yu_built_pkgcache y)
   \<and> si_arch row = pf_arch (ho_profile h) \<and> si_bootc row = (pf_bootc_booted_image (ho_profile h) \<noteq> [])
   \<and> si_tags row = (if ho_tags h = [] then ''[]'' else ho_tags h)
   \<and> si_workspace_id row = fst ws \<and> si_workspace_name row = snd ws
   \<and> si_os_name row = unless_empty (os_name (pf_operating_system (ho_profile h)))
   \<and> si_os_major row = Some (os_major (pf_operating_system (ho_profile h)))
   \<and> si_os_minor row = Some (os_minor (pf_operating_system (ho_profile h)))
   \<and> si_rhsm_version row = unless_empty (rh_version (pf_rhsm (ho_profile h)))
   \<and> si_subscription_manager_id row = pf_owner_id (ho_profile h)
   \<and> si_sap_workload row = sap_system (wl_sap (pf_workloads (ho_profile h)))
   \<and> si_sap_workload_sids row = sap_sids (wl_sap (pf_workloads (ho_profile h)))
   \<and> si_ansible_workload row = (wl_ansible_controller_version (pf_workloads (ho_profile h)) \<noteq> [])
   \<and> si_ansible_workload_controller_version row = unless_empty (wl_ansible_controller_version (pf_workloads (ho_profile h)))
   \<and> si_mssql_workload row = (wl_mssql_version (pf_workloads (ho_profile h)) \<noteq> [])
   \<and> si_mssql_workload_version row = unless_empty (wl_mssql_version (pf_workloads (ho_profile h)))
   \<and> si_crowdstrike_workload row = (wl_crowdstrike_falcon_aid (pf_workloads (ho_profile h)) \<noteq> [])
   \<and> si_ibm_db2_workload row = wl_ibm_db2_is_running (pf_workloads (ho_profile h))
   \<and> si_intersystems_workload row = wl_intersystems_is_intersystems (pf_workloads (ho_profile h))
   \<and> si_oracle_db_workload row = wl_oracle_db_is_running (pf_workloads (ho_profile h))
   \<and> si_rhel_ai_workload row = (wl_rhel_ai_variant (pf_workloads (ho_profile h)) \<noteq> [])
   \<and> si_satellite_workload row = (sat_type (wl_satellite (pf_workloads (ho_profile h))) \<noteq> [])"

text \<open>The remaining columns, by the row before.  The request and the yum updates are rewritten only when their
  checksum changed, and the reporter only with the request.\<close>

definition uploaded_row :: "('w, 'n) listener_env \<Rightarrow> timestamp \<Rightarrow> int \<Rightarrow> host \<Rightarrow> host_yum option \<Rightarrow> string \<Rightarrow> int
    \<Rightarrow> system_inventory option \<Rightarrow> system_inventory \<Rightarrow> bool" where
  "uploaded_row env now account h yum json next_id before row \<longleftrightarrow>
     si_account row = account \<and> si_inventory_id row = ho_id h \<and> si_last_updated row = Some now
   \<and> si_json_checksum row = Some (le_sha256 env json) \<and> si_yum_checksum row = Some (le_sha256 env (get_raw_parsed yum))
   \<and> (case before of
        None \<Rightarrow> si_id row = next_id \<and> si_vmaas_json row = unless_empty json \<and> si_yum_updates row = get_raw_parsed yum
          \<and> si_reporter_id row = gm_get (le_valid_reporters env) (ho_reporter h) \<and> si_created row = ho_created h
          \<and> \<not> si_stale row \<and> si_unchanged_since row = Some now
      | Some old \<Rightarrow> si_id row = si_id old \<and> si_created row = si_created old \<and> si_stale row = si_stale old
          \<and> (if si_json_checksum old = Some (le_sha256 env json)
             then si_vmaas_json row = si_vmaas_json old \<and> si_reporter_id row = si_reporter_id old
             else si_vmaas_json row = unless_empty json \<and> si_reporter_id row = gm_get (le_valid_reporters env) (ho_reporter h))
          \<and> (if si_yum_checksum old = Some (le_sha256 env (get_raw_parsed yum)) then si_yum_updates row = si_yum_updates old
             else si_yum_updates row = get_raw_parsed yum)
          \<and> si_unchanged_since row = (if (si_json_checksum old \<noteq> None \<and> si_json_checksum old \<noteq> Some (le_sha256 env json))
                 \<or> (si_yum_checksum old \<noteq> None \<and> si_yum_checksum old \<noteq> Some (le_sha256 env (get_raw_parsed yum)))
               then Some now else si_unchanged_since old))"

text \<open>The row of \<open>system_patch\<close>: an existing one changes only its template, and only if the host has one.\<close>

definition uploaded_patch :: "int \<Rightarrow> int \<Rightarrow> int option \<Rightarrow> system_patch option \<Rightarrow> system_patch" where
  "uploaded_patch account system template before =
     (case before of
        None \<Rightarrow> zero_patch\<lparr>sp_system_id := system, sp_account := account, sp_template_id := template\<rparr>
      | Some p \<Rightarrow> if template = None then p else p\<lparr>sp_template_id := template\<rparr>)"

lemma upsert_patch_get:
  "gm_get (ldb_patch (snd (upsert_patch a s template (if template \<noteq> None then [''template_id''] else []) db))) k
   = (if k = (a, s) then Some (uploaded_patch a s template (gm_get (ldb_patch db) k)) else gm_get (ldb_patch db) k)"
  by (cases "gm_get (ldb_patch db) (a, s)"; cases "k = (a, s)"; cases template)
    (simp_all add: upsert_patch_def uploaded_patch_def gomap)

definition base_columns :: "system_inventory \<Rightarrow> system_inventory \<Rightarrow> system_inventory" where
  "base_columns new old = fold (set_column new) cols_to_update old"

lemma base_columns_keep [simp]:
  "si_id (base_columns new old) = si_id old"
  "si_account (base_columns new old) = si_account old"
  "si_inventory_id (base_columns new old) = si_inventory_id old"
  "si_vmaas_json (base_columns new old) = si_vmaas_json old"
  "si_json_checksum (base_columns new old) = si_json_checksum old"
  "si_reporter_id (base_columns new old) = si_reporter_id old"
  "si_yum_updates (base_columns new old) = si_yum_updates old"
  "si_yum_checksum (base_columns new old) = si_yum_checksum old"
  "si_unchanged_since (base_columns new old) = si_unchanged_since old"
  "si_stale (base_columns new old) = si_stale old"
  "si_created (base_columns new old) = si_created old"
  by (simp_all add: base_columns_def cols_to_update_def)

lemma changed_columns_row:
  "fold (set_column new) (changed_columns (oj, oy) jc yc) old =
     (let r = base_columns new old;
          r = (if oj \<noteq> jc then r\<lparr>si_vmaas_json := si_vmaas_json new, si_json_checksum := si_json_checksum new,
                                 si_reporter_id := si_reporter_id new\<rparr> else r)
      in if oy \<noteq> yc then r\<lparr>si_yum_updates := si_yum_updates new, si_yum_checksum := si_yum_checksum new\<rparr> else r)"
  by (simp add: changed_columns_def base_columns_def Let_def)

lemma host_columns_fields:
  "host_columns env h yum ws (r\<lparr>si_vmaas_json := j, si_json_checksum := c, si_reporter_id := i\<rparr>) = host_columns env h yum ws r"
  "host_columns env h yum ws (r\<lparr>si_yum_updates := y, si_yum_checksum := c\<rparr>) = host_columns env h yum ws r"
  "host_columns env h yum ws (r\<lparr>si_last_updated := t, si_unchanged_since := u\<rparr>) = host_columns env h yum ws r"
  "host_columns env h yum ws (r\<lparr>si_id := x\<rparr>) = host_columns env h yum ws r"
  by (simp_all add: host_columns_def)

lemma host_columns_inventory: "host_columns env h yum ws (host_inventory env account h yum json jc yc ws)"
  by (auto simp: host_columns_def host_inventory_def unless_empty_def empty_to_nil_def marshal_nil_to_jsonb_def
      get_built_pkgcache_def Let_def split: option.splits)

lemma host_columns_base:
  assumes "host_columns env h yum ws new"
  shows "host_columns env h yum ws (base_columns new old)"
  using assms by (simp add: host_columns_def base_columns_def cols_to_update_def)

lemma get_or_create_account_Inr:
  assumes "get_or_create_account faults org db = (Inr account, db')"
  shows "gm_get (ldb_accounts db') org = Some account"
    and "db' = db\<lparr>ldb_accounts := ldb_accounts db', ldb_next_account := ldb_next_account db'\<rparr>"
  using assms by (auto simp: get_or_create_account_def Let_def gomap split: if_splits option.splits)

lemma find_inventory_cong: "ldb_inventory db = ldb_inventory db' \<Longrightarrow> find_inventory a i db = find_inventory a i db'"
  by (simp add: find_inventory_def)

lemma insert_repos_fields:
  assumes "insert_repos ns db = (ids, db')"
  shows "ldb_inventory db' = ldb_inventory db" "ldb_accounts db' = ldb_accounts db" "ldb_patch db' = ldb_patch db"
    "ldb_next_system db' = ldb_next_system db" "ldb_next_account db' = ldb_next_account db"
    "ldb_deleted db' = ldb_deleted db" "ldb_system_repo db' = ldb_system_repo db"
    "ldb_templates db' = ldb_templates db" "ldb_next_template db' = ldb_next_template db"
    "ldb_template_advisories db' = ldb_template_advisories db"
  using insert_repos_frame [OF assms] by (metis listener_db.select_convs listener_db.surjective listener_db.update_convs)+

lemma update_repos_frame:
  assumes "update_repos faults scan_ids profile a s repos t = (Inr counts, t')"
  shows "ldb_inventory (lt_db t') = ldb_inventory (lt_db t)" "ldb_accounts (lt_db t') = ldb_accounts (lt_db t)"
    "ldb_patch (lt_db t') = ldb_patch (lt_db t)" "ldb_next_system (lt_db t') = ldb_next_system (lt_db t)"
    "ldb_next_account (lt_db t') = ldb_next_account (lt_db t)" "ldb_deleted (lt_db t') = ldb_deleted (lt_db t)"
    "ldb_templates (lt_db t') = ldb_templates (lt_db t)" "ldb_next_template (lt_db t') = ldb_next_template (lt_db t)"
    "ldb_template_advisories (lt_db t') = ldb_template_advisories (lt_db t)"
proof -
  obtain ids added tm counts' where
    e: "ensure_repos_in_db faults scan_ids (fix_epel_repos (Some profile) repos) t = (Inr (ids, added), tm)"
    and u: "update_system_repos faults a s ids tm = (Inr counts', t')"
    using assms by (rule update_repos_Inr)
  obtain new where
    i: "insert_repos (missing_repos (lt_db t) (fix_epel_repos (Some profile) repos)) (lt_db t) = (new, lt_db tm)"
    using e by (rule ensure_repos_Inr)
  obtain rows where r: "lt_db t' = (lt_db tm)\<lparr>ldb_system_repo := rows\<rparr>"
    using update_system_repos_Inr(3) [OF u] by blast
  show "ldb_inventory (lt_db t') = ldb_inventory (lt_db t)" "ldb_accounts (lt_db t') = ldb_accounts (lt_db t)"
    "ldb_patch (lt_db t') = ldb_patch (lt_db t)" "ldb_next_system (lt_db t') = ldb_next_system (lt_db t)"
    "ldb_next_account (lt_db t') = ldb_next_account (lt_db t)" "ldb_deleted (lt_db t') = ldb_deleted (lt_db t)"
    "ldb_templates (lt_db t') = ldb_templates (lt_db t)" "ldb_next_template (lt_db t') = ldb_next_template (lt_db t)"
    "ldb_template_advisories (lt_db t') = ldb_template_advisories (lt_db t)"
    by (simp_all add: r insert_repos_fields [OF i])
qed

lemma str_of_Some: "str_of p = s \<Longrightarrow> s \<noteq> [] \<Longrightarrow> p = Some s"
  by (cases p) (simp_all add: str_of_def)

lemma set_column_new_id: "set_column (new\<lparr>si_id := x\<rparr>) c r = set_column new c r"
  unfolding set_column_def by (simp cong: if_cong split del: if_split)

text \<open>The row the upsert stores for an uploaded system.\<close>

lemma uploaded_row_stored:
  assumes up: "upsert_inventory now (changed_columns (prior_checksums db account (ho_id h)) jc yc) (new\<lparr>si_id := x\<rparr>) db = (row, db')"
    and new: "new = host_inventory env account h yum json jc yc ws"
    and sums: "jc = le_sha256 env json" "yc = le_sha256 env (get_raw_parsed yum)" "jc \<noteq> []" "yc \<noteq> []"
    and x: "x = (case find_inventory account (ho_id h) db of None \<Rightarrow> 0 | Some r \<Rightarrow> si_id r)"
  shows "host_columns env h yum ws row
    \<and> uploaded_row env now account h yum json (ldb_next_system db) (find_inventory account (ho_id h) db) row"
proof -
  have key: "si_account new = account" "si_inventory_id new = ho_id h" "si_json_checksum new = Some jc" "si_yum_checksum new = Some yc"
    "si_vmaas_json new = unless_empty json" "si_yum_updates new = get_raw_parsed yum" "si_created new = ho_created h"
    "si_reporter_id new = gm_get (le_valid_reporters env) (ho_reporter h)" "\<not> si_stale new" "si_last_updated new = None"
    "si_unchanged_since new = None"
    using sums(3,4) by (simp_all add: new host_inventory_def empty_to_nil_def unless_empty_def get_reporter_id_def Let_def)
  have host: "host_columns env h yum ws new" unfolding new by (rule host_columns_inventory)
  show ?thesis
  proof (cases "find_inventory account (ho_id h) db")
    case None
    then have row: "row = on_insert now (new\<lparr>si_id := ldb_next_system db\<rparr>)" using up key x by (auto simp: upsert_inventory_def Let_def)
    have "host_columns env h yum ws row" unfolding row on_insert_def host_columns_fields by (rule host)
    moreover have "uploaded_row env now account h yum json (ldb_next_system db) None row"
      using key sums by (simp add: row uploaded_row_def on_insert_def)
    ultimately show ?thesis using None by simp
  next
    case (Some old)
    let ?jc = "str_of (si_json_checksum old)" and ?yc = "str_of (si_yum_checksum old)"
    have cols: "fold (set_column (new\<lparr>si_id := x\<rparr>)) cs r = fold (set_column new) cs r" for cs r
      by (induction cs arbitrary: r) (simp_all add: set_column_new_id)
    have row: "row = on_update now old (fold (set_column new) (changed_columns (?jc, ?yc) jc yc) old)"
      using up key Some by (auto simp: upsert_inventory_def Let_def prior_checksums_def cols)
    have j: "(?jc = jc) = (si_json_checksum old = Some jc)" using sums(3) by (cases "si_json_checksum old") (auto simp: str_of_def)
    have y: "(?yc = yc) = (si_yum_checksum old = Some yc)" using sums(4) by (cases "si_yum_checksum old") (auto simp: str_of_def)
    have base: "host_columns env h yum ws (base_columns new old)" by (rule host_columns_base [OF host])
    have "host_columns env h yum ws (fold (set_column new) (changed_columns (?jc, ?yc) jc yc) old)"
      unfolding changed_columns_row Let_def using base by (cases "?jc = jc"; cases "?yc = yc") (simp_all add: host_columns_fields)
    then have "host_columns env h yum ws row" unfolding row on_update_def host_columns_fields .
    moreover have "uploaded_row env now account h yum json (ldb_next_system db) (Some old) row"
    proof -
      have old: "find_inventory account (ho_id h) db = Some old" by (rule Some)
      have id: "si_account old = account" "si_inventory_id old = ho_id h"
        using old by (auto simp: find_inventory_def is_row_def find_Some_iff)
      have differ: "sql_differ (Some c) v = (v \<noteq> None \<and> v \<noteq> Some c)" "sql_differ v v = False" for c :: string and v
        by (cases v; auto simp: sql_differ_def)+
      show ?thesis
        unfolding row on_update_def changed_columns_row Let_def j y
        using id key by (cases "si_json_checksum old = Some jc"; cases "si_yum_checksum old = Some yc")
          (simp_all add: uploaded_row_def sums(1) [symmetric] sums(2) [symmetric] differ)
    qed
    ultimately show ?thesis using Some by simp
  qed
qed

lemma uploaded_inventory:
  "si_account (pl_inventory (uploaded_system env account h yum json ws tid)) = account"
  "si_inventory_id (pl_inventory (uploaded_system env account h yum json ws tid)) = ho_id h"
  "si_json_checksum (pl_inventory (uploaded_system env account h yum json ws tid)) = empty_to_nil (le_sha256 env json)"
  "si_yum_checksum (pl_inventory (uploaded_system env account h yum json ws tid))
     = empty_to_nil (le_sha256 env (get_raw_parsed yum))"
  by (simp_all add: uploaded_system_def host_inventory_def Let_def)

text \<open>C4.  A successful upload leaves, in the account of the organisation, a row for the host that has every column of
  the host message; the encoded VMaaS request, the yum updates and the reporter, unless the checksum says they have
  not changed; and in \<open>system_patch\<close> its template.  When the request has not changed the repositories are left alone.
  The rows of all other systems, in both tables, are as before.\<close>

theorem upload_stores_host:
  assumes run: "process_upload env now h yum db net = (Inr (Some sys), db', net')"
    and hash: "\<forall>x. le_sha256 env x \<noteq> []"
  shows "\<exists>account db0 json ws row.
     get_or_create_account (le_faults env) (get_org_id h) db = (Inr account, db0)
   \<and> gm_get (ldb_accounts db') (get_org_id h) = Some account
   \<and> le_encode_request env (upload_request env h) = Some json \<and> host_workspace env h = Inr ws
   \<and> find_inventory account (ho_id h) db' = Some row \<and> si_id row = si_id (pl_inventory sys)
   \<and> host_columns env h yum ws row
   \<and> uploaded_row env now account h yum json (ldb_next_system db) (find_inventory account (ho_id h) db) row
   \<and> (\<forall>a i. (a, i) \<noteq> (account, ho_id h) \<longrightarrow> find_inventory a i db' = find_inventory a i db)
   \<and> gm_get (ldb_patch db') (account, si_id row) = Some (uploaded_patch account (si_id row)
        (fst (host_template env account h (ltx_begin db0) net)) (gm_get (ldb_patch db) (account, si_id row)))
   \<and> (\<forall>k. k \<noteq> (account, si_id row) \<longrightarrow> gm_get (ldb_patch db') k = gm_get (ldb_patch db) k)
   \<and> ((\<exists>old. find_inventory account (ho_id h) db = Some old \<and> si_json_checksum old = Some (le_sha256 env json))
       \<longrightarrow> ldb_repos db' = ldb_repos db \<and> ldb_system_repo db' = ldb_system_repo db)"
proof -
  obtain account db0 json ws tid ta tb net1 where
    acc: "get_or_create_account (le_faults env) (get_org_id h) db = (Inr account, db0)"
    and json: "le_encode_request env (upload_request env h) = Some json" and ws: "host_workspace env h = Inr ws"
    and tmpl: "host_template env account h (ltx_begin db0) net = (tid, ta, net1)" and tb: "lt_db tb = db'"
    and st: "store_system env now account h (uploaded_system env account h yum json ws tid) (le_sha256 env json)
       (le_sha256 env (get_raw_parsed yum)) (rq_repository_list (upload_request env h)) ta = (Inr sys, tb)"
    using run by (rule process_upload_run) blast
  have ta: "lt_db ta = db0" using host_template_db [OF tmpl] by (simp add: ltx_begin_def)
  have db0: "ldb_inventory db0 = ldb_inventory db" "ldb_patch db0 = ldb_patch db" "ldb_next_system db0 = ldb_next_system db"
    "ldb_repos db0 = ldb_repos db" "ldb_system_repo db0 = ldb_system_repo db"
    using get_or_create_account_Inr(2) [OF acc] by (metis listener_db.select_convs listener_db.surjective listener_db.update_convs(1,2))+
  have find0: "find_inventory a i db0 = find_inventory a i db" for a i by (rule find_inventory_cong [OF db0(1)])
  let ?new = "pl_inventory (uploaded_system env account h yum json ws tid)"
  obtain tm where sou: "store_or_update_sys_platform (le_faults env) now (uploaded_system env account h yum json ws tid)
       (changed_columns (prior_checksums (lt_db ta) account (ho_id h)) (le_sha256 env json)
          (le_sha256 env (get_raw_parsed yum))) ta = (Inr sys, tm)"
    and same: "ldb_inventory (lt_db tb) = ldb_inventory (lt_db tm)" "ldb_accounts (lt_db tb) = ldb_accounts (lt_db tm)"
      "ldb_patch (lt_db tb) = ldb_patch (lt_db tm)"
    and repos: "fst (prior_checksums (lt_db ta) account (ho_id h)) = le_sha256 env json \<longrightarrow> tb = tm"
    using st by (rule store_system_Inr) (metis update_repos_frame(1-3))
  obtain row db1 existing where
    ex: "existing = (case find_inventory (si_account ?new) (si_inventory_id ?new) (lt_db ta) of None \<Rightarrow> 0 | Some r \<Rightarrow> si_id r)"
    and up: "upsert_inventory now (changed_columns (prior_checksums (lt_db ta) account (ho_id h)) (le_sha256 env json)
       (le_sha256 env (get_raw_parsed yum))) (?new\<lparr>si_id := existing\<rparr>) (lt_db ta) = (row, db1)"
    and tm: "lt_db tm = snd (upsert_patch (si_account row) (si_id row) tid (if tid \<noteq> None then [''template_id''] else []) db1)"
    and sys: "pl_inventory sys = ?new\<lparr>si_id := si_id row, si_inventory_id := si_inventory_id row,
        si_account := si_account row, si_unchanged_since := si_unchanged_since row\<rparr>"
    using sou by (rule store_or_update_Inr) (simp add: uploaded_system_def)
  have stored: "host_columns env h yum ws row
      \<and> uploaded_row env now account h yum json (ldb_next_system db0) (find_inventory account (ho_id h) db0) row"
    by (rule uploaded_row_stored [OF up [unfolded ta]])
      (use hash ex ta in \<open>simp_all add: uploaded_inventory, simp add: uploaded_system_def\<close>)
  have row: "si_account row = account" using stored by (simp add: uploaded_row_def)
  have db1: "ldb_patch db1 = ldb_patch db0" "ldb_accounts db1 = ldb_accounts db0" "ldb_repos db1 = ldb_repos db0"
    "ldb_system_repo db1 = ldb_system_repo db0"
    using upsert_inventory_frame(1,3,4,6) [of now] up ta by (metis snd_conv)+
  have inv: "ldb_inventory db' = ldb_inventory db1" using same tb tm by (simp add: upsert_patch_frame)
  have "find_inventory account (ho_id h) db' = Some row"
    using upsert_inventory_find(1) [OF up] find_inventory_cong [OF inv] by (simp add: uploaded_inventory)
  moreover have "find_inventory a i db' = find_inventory a i db" if "(a, i) \<noteq> (account, ho_id h)" for a i
  proof -
    have "find_inventory a i db1 = find_inventory a i (lt_db ta)"
      by (rule upsert_inventory_other [OF up]) (use that in \<open>simp add: uploaded_inventory\<close>)
    then show ?thesis using find_inventory_cong [OF inv] find0 ta by simp
  qed
  moreover have "gm_get (ldb_patch db') k = (if k = (account, si_id row)
      then Some (uploaded_patch account (si_id row) tid (gm_get (ldb_patch db) k)) else gm_get (ldb_patch db) k)" for k
    using same(3) tb tm upsert_patch_get [of account "si_id row" tid db1 k] by (simp add: row db1 db0)
  moreover have "ldb_repos db' = ldb_repos db \<and> ldb_system_repo db' = ldb_system_repo db"
    if "find_inventory account (ho_id h) db = Some old" "si_json_checksum old = Some (le_sha256 env json)" for old
  proof -
    have "tb = tm" using repos that by (simp add: prior_checksums_def ta find0 str_of_def)
    then have "db' = lt_db tm" using tb by simp
    moreover have "ldb_repos (lt_db tm) = ldb_repos db" "ldb_system_repo (lt_db tm) = ldb_system_repo db"
      unfolding tm upsert_patch_frame db1 db0 by (rule refl)+
    ultimately show ?thesis by simp
  qed
  moreover have "gm_get (ldb_accounts db') (get_org_id h) = Some account"
    using get_or_create_account_Inr(1) [OF acc] same(2) tb tm by (simp add: upsert_patch_frame db1)
  moreover have "si_id row = si_id (pl_inventory sys)" by (simp add: sys)
  moreover have "uploaded_row env now account h yum json (ldb_next_system db) (find_inventory account (ho_id h) db) row"
    using stored by (simp add: db0 find0)
  ultimately show ?thesis using acc json ws stored tmpl by fastforce
qed

text \<open>A configuration whose services answer nothing, and a host with one package.\<close>

definition sample_listener_env :: "(kafka_message list, unit) listener_env" where
  "sample_listener_env = \<lparr>le_allowed = [(''puptoo'', True)], le_excluded = [(''edge'', True)],
     le_valid_reporters = [(''puptoo'', 1)], le_bypass = False, le_template_eval = False, le_deletion_threshold = 100,
     le_faults = (\<lambda>s. False), le_scan_ids = fill_rows, le_url_path = (\<lambda>u. None), le_valid_url = (\<lambda>u. False),
     le_parse_uuid = (\<lambda>u. None), le_sha256 = (\<lambda>t. ''h'' @ t), le_compare = (\<lambda>a b. 0),
     le_encode_request = (\<lambda>r. Some (concat (rq_package_list r))), le_parse_response = (\<lambda>t. None),
     le_encode_response = (\<lambda>r. None),
     le_s3 = (\<lambda>u n. (\<lparr>tr_dump_request = True, tr_do = (None, False), tr_dump_response = True, tr_decode = None\<rparr>, n)),
     le_candlepin = (\<lambda>u n. (\<lparr>tr_dump_request = True, tr_do = (Some 200, True), tr_dump_response = True,
        tr_decode = Some (Some [''env''])\<rparr>, n)),
     le_candlepin_retries = 1, le_error_text = (\<lambda>e. []), le_debug = False, le_batch_size = 1,
     le_shuffle = (\<lambda>m. m), le_enc_eval = (\<lambda>e. Some (concat (pe_requests e))), le_enc_pt = (\<lambda>e. Some (te_status_msg e)),
     le_tracker = True, le_eval_writer = append_writer, le_created_writer = append_writer, le_pt_writer = append_writer\<rparr>"

definition sample_host :: host where
  "sample_host = \<lparr>ho_id = ''u'', ho_display_name = Some ''host'', ho_org_id = Some ''org'', ho_stale_timestamp = Some 50,
     ho_stale_warning_timestamp = None, ho_culled_timestamp = None, ho_reporter = ''puptoo'',
     ho_profile = sample_profile\<lparr>pf_yum_repos := None\<rparr>, ho_per_reporter_staleness = [(''puptoo'', 7)], ho_groups = [],
     ho_tags = [], ho_created = 3\<rparr>"

theorem upload_stores_host_witness:
  "\<exists>row. find_inventory 1 ''u'' (fst (snd (process_upload sample_listener_env 10 sample_host None sample_db ()))) = Some row
     \<and> si_display_name row = ''host'' \<and> si_created row = 3 \<and> si_vmaas_json row = Some ''foo-0:1-1.x86_64''"
proof -
  have "case process_upload sample_listener_env 10 sample_host None sample_db () of (Inr (Some sys), db, net) \<Rightarrow> True | _ \<Rightarrow> False"
    by code_simp
  then obtain sys db net where run: "process_upload sample_listener_env 10 sample_host None sample_db () = (Inr (Some sys), db, net)"
    by (auto split: prod.splits sum.splits option.splits)
  have "\<forall>x. le_sha256 sample_listener_env x \<noteq> []" by (simp add: sample_listener_env_def)
  from upload_stores_host [OF run this] obtain account json ws row where
    acc: "gm_get (ldb_accounts db) (get_org_id sample_host) = Some account"
    and json: "le_encode_request sample_listener_env (upload_request sample_listener_env sample_host) = Some json"
    and row: "find_inventory account (ho_id sample_host) db = Some row"
    and cols: "host_columns sample_listener_env sample_host None ws row"
    and rest: "uploaded_row sample_listener_env 10 account sample_host None json (ldb_next_system sample_db)
       (find_inventory account (ho_id sample_host) sample_db) row" by blast
  have "gm_get (ldb_accounts (fst (snd (process_upload sample_listener_env 10 sample_host None sample_db ())))) (get_org_id sample_host) = Some 1"
    by code_simp
  then have "account = 1" using acc unfolding run by simp
  moreover have "le_encode_request sample_listener_env (upload_request sample_listener_env sample_host) = Some ''foo-0:1-1.x86_64''"
    by code_simp
  then have "json = ''foo-0:1-1.x86_64''" using json by simp
  moreover have "find_inventory 1 (ho_id sample_host) sample_db = None" by code_simp
  moreover have "ho_id sample_host = ''u''" "ho_created sample_host = 3" "ho_display_name sample_host = Some ''host''" "\<not> is_blank ''host''"
    by code_simp+
  ultimately show ?thesis using row cols rest unfolding run by (simp add: host_columns_def uploaded_row_def unless_empty_def)
qed

end
