(* ===== verification/UploadSafety.thy ===== *)
theory UploadSafety
  imports UploadLaws
begin

text \<open>
  What uploads and deletions never do: a rejected or failed upload changes no table but the
  accounts and requests no evaluation, a system deleted a moment ago is not stored again, and the
  keys, sequences and foreign keys of the tables hold after every event.
\<close>

section \<open>Frames of the handler\<close>

lemma log_and_observe_fields [simp]:
  "ls_db (log_and_observe env now metric pt status b s) = ls_db s"
  "ls_net (log_and_observe env now metric pt status b s) = ls_net s"
  "ls_created (log_and_observe env now metric pt status b s) = ls_created s"
  "ls_updated (log_and_observe env now metric pt status b s) = ls_updated s"
  "ls_created_topic (log_and_observe env now metric pt status b s) = ls_created_topic s"
  "ls_eval_topic (log_and_observe env now metric pt status b s) = ls_eval_topic s"
  "ls_metrics (log_and_observe env now metric pt status b s) = ls_metrics s @ [(''upload'', metric)]"
  by (simp_all add: log_and_observe_def send_payload_status_def Let_def split: prod.split)

lemma send_payload_status_fields [simp]:
  "ls_db (send_payload_status env now pt st msg s) = ls_db s"
  "ls_net (send_payload_status env now pt st msg s) = ls_net s"
  "ls_created (send_payload_status env now pt st msg s) = ls_created s"
  "ls_updated (send_payload_status env now pt st msg s) = ls_updated s"
  "ls_created_topic (send_payload_status env now pt st msg s) = ls_created_topic s"
  "ls_eval_topic (send_payload_status env now pt st msg s) = ls_eval_topic s"
  "ls_metrics (send_payload_status env now pt st msg s) = ls_metrics s"
  by (simp_all add: send_payload_status_def Let_def split: prod.split)

text \<open>What an evaluation of the system depends on.\<close>

definition same_systems :: "listener_db \<Rightarrow> listener_db \<Rightarrow> bool" where
  "same_systems db db' \<longleftrightarrow>
     ldb_inventory db' = ldb_inventory db \<and> ldb_patch db' = ldb_patch db \<and> ldb_repos db' = ldb_repos db
   \<and> ldb_system_repo db' = ldb_system_repo db \<and> ldb_deleted db' = ldb_deleted db"

definition same_requests :: "('w, 'n) listener_state \<Rightarrow> ('w, 'n) listener_state \<Rightarrow> bool" where
  "same_requests s s' \<longleftrightarrow>
     ls_created s' = ls_created s \<and> ls_updated s' = ls_updated s
   \<and> ls_created_topic s' = ls_created_topic s \<and> ls_eval_topic s' = ls_eval_topic s"

lemma account_same_systems:
  "get_or_create_account faults org db = (res, db') \<Longrightarrow> same_systems db db'"
  by (auto simp: get_or_create_account_def same_systems_def Let_def split: if_splits option.splits)

lemma process_upload_fails:
  "process_upload env now h yum db net = (Inl e, db', net') \<Longrightarrow> same_systems db db'"
  by (auto simp: process_upload_def Let_def dest: account_same_systems
      split: sum.splits prod.splits if_splits option.splits)

lemma process_upload_skips:
  "process_upload env now h yum db net = (Inr None, db', net') \<Longrightarrow> same_systems db db'"
  by (auto simp: process_upload_def Let_def dest: account_same_systems
      split: sum.splits prod.splits if_splits)

lemma handle_upload_cases:
  assumes "handle_upload env now event s = Some (res, s')"
  obtains
    (rejected) err pt where "validate_host (le_allowed env) (le_excluded env) (he_host event) = Some err"
      "(res, s') = handle_listener_errors env now err pt ''received'' s"
  | (failed) e pt yum net db net' s1 where "validate_host (le_allowed env) (le_excluded env) (he_host event) = None"
      "process_upload env now (he_host event) yum (ls_db s) net = (Inl e, db, net')"
      "s1 = (send_payload_status env now pt [] ''Received by listener'' s)\<lparr>ls_db := db, ls_net := net'\<rparr>"
      "(res, s') = handle_listener_errors env now (Joined [Sentinel ErrProcessUpload, e]) pt ''error'' s1"
  | (skipped) pt yum net db net' s1 where "validate_host (le_allowed env) (le_excluded env) (he_host event) = None"
      "process_upload env now (he_host event) yum (ls_db s) net = (Inr None, db, net')"
      "s1 = (send_payload_status env now pt [] ''Received by listener'' s)\<lparr>ls_db := db, ls_net := net'\<rparr>"
      "res = None" "s' = log_and_observe env now ''success-deleted'' pt ''success'' True s1"
  | (unchanged) pt yum net sys db net' s1 where "validate_host (le_allowed env) (le_excluded env) (he_host event) = None"
      "process_upload env now (he_host event) yum (ls_db s) net = (Inr (Some sys), db, net')"
      "s1 = (send_payload_status env now pt [] ''Received by listener'' s)\<lparr>ls_db := db, ls_net := net'\<rparr>"
      "no_eval_required sys"
      "res = None" "s' = log_and_observe env now ''success-unchanged'' pt ''success'' True s1"
  | (buffered) pt pt' yum net sys db net' s1 s2 where "validate_host (le_allowed env) (le_excluded env) (he_host event) = None"
      "process_upload env now (he_host event) yum (ls_db s) net = (Inr (Some sys), db, net')"
      "s1 = (send_payload_status env now pt [] ''Received by listener'' s)\<lparr>ls_db := db, ls_net := net'\<rparr>"
      "\<not> no_eval_required sys" "buffer_upload env now event sys pt' s1 = Some s2"
      "res = None" "s' = log_and_observe env now ''success-eval'' pt' ''success'' False s2"
proof (cases "validate_host (le_allowed env) (le_excluded env) (he_host event)")
  case (Some err)
  let ?pt = "\<lparr>te_service = [], te_org = ho_org_id (he_host event), te_request = Some (he_request_id event),
                te_inventory = ho_id (he_host event), te_status = ''received'', te_status_msg = [], te_date = None\<rparr>"
  have "(res, s') = handle_listener_errors env now err ?pt ''received'' s"
    using assms Some by (simp add: handle_upload_def Let_def)
  with Some show ?thesis by (rule rejected)
next
  case None
  let ?pt = "\<lparr>te_service = [], te_org = ho_org_id (he_host event), te_request = Some (he_request_id event),
                te_inventory = ho_id (he_host event), te_status = ''received'', te_status_msg = [], te_date = None\<rparr>"
  let ?s1 = "send_payload_status env now ?pt [] ''Received by listener'' s"
  obtain yr net where y: "get_yum_updates env event (ls_net ?s1) = (yr, net)" by (cases "get_yum_updates env event (ls_net ?s1)")
  let ?yum = "case yr of Inl e \<Rightarrow> None | Inr y \<Rightarrow> Some y"
  obtain r db net' where p: "process_upload env now (he_host event) ?yum (ls_db s) net = (r, db, net')"
    by (cases "process_upload env now (he_host event) ?yum (ls_db s) net") auto
  note run = assms [unfolded handle_upload_def Let_def None y option.case prod.case]
  show ?thesis
  proof (cases r)
    case (Inl e)
    show ?thesis by (rule failed [where pt = ?pt, OF None p [unfolded Inl] refl]) (use run y p Inl in \<open>auto simp: None\<close>)
  next
    case (Inr o')
    show ?thesis
    proof (cases o')
      case none: None
      show ?thesis
        by (rule skipped [where pt = ?pt, OF None p [unfolded Inr none] refl]) (use run y p Inr none in \<open>auto simp: None\<close>)
    next
      case (Some sys)
      show ?thesis
      proof (cases "no_eval_required sys")
        case True
        show ?thesis
          by (rule unchanged [where pt = ?pt, OF None p [unfolded Inr Some] refl True]) (use run y p Inr Some True in \<open>auto simp: None\<close>)
      next
        case False
        then obtain s2 where b: "buffer_upload env now event sys (?pt\<lparr>te_status_msg := ''processing''\<rparr>)
              (?s1\<lparr>ls_db := db, ls_net := net'\<rparr>) = Some s2"
          using run y p Inr Some by (auto simp: None split: option.splits)
        show ?thesis
          by (rule buffered [where pt = ?pt, OF None p [unfolded Inr Some] refl False b])
            (use run y p Inr Some False b in \<open>auto simp: None\<close>)
      qed
    qed
  qed
qed

section \<open>Rejected and failed uploads\<close>

lemma validate_host_Some:
  "validate_host allowed excluded h = Some err \<Longrightarrow> \<not> error_is err ErrFatal"
  by (auto simp: validate_host_def join_errors_def check_packages_epoch_def Let_def
      split: if_splits option.splits list.splits sum.splits)

text \<open>C30.  An upload that ends in an error changes no table but the accounts, requests no evaluation,
  and is counted once.  When the message itself is rejected not even an account is created and the
  error never stops the consumer; when the processing fails, the metric is always \<open>internal-error\<close>,
  although \<open>metricByErr\<close> has an entry for failed processing: the joined error is not its key.\<close>

theorem failed_upload_changes_nothing:
  assumes "handle_upload env now event s = Some (Some err, s')"
  shows "same_systems (ls_db s) (ls_db s') \<and> same_requests s s'
     \<and> ls_metrics s' = ls_metrics s @ [(''upload'', error_metric err)]
     \<and> (case validate_host (le_allowed env) (le_excluded env) (he_host event) of
           Some err' \<Rightarrow> err = err' \<and> ls_db s' = ls_db s \<and> \<not> error_is err ErrFatal
         | None \<Rightarrow> error_metric err = ''internal-error'' \<and> error_is err ErrProcessUpload)"
  using assms
proof (cases rule: handle_upload_cases)
  case (rejected err' pt)
  then show ?thesis
    by (simp add: handle_listener_errors_def same_systems_def same_requests_def validate_host_Some)
next
  case (failed e pt yum net db net' s1)
  then show ?thesis
    using process_upload_fails [OF failed(2)]
    by (simp add: handle_listener_errors_def same_requests_def error_metric_def)
qed auto

text \<open>A host whose only package has no version, and one whose account cannot be created.\<close>

definition sample_event :: "host \<Rightarrow> host_event" where
  "sample_event h = \<lparr>he_type = ''created'', he_yum_updates = [], he_yum_updates_s3url = None, he_host = h,
     he_request_id = ''req''\<rparr>"

definition sample_listener_state :: "(kafka_message list, unit) listener_state" where
  "sample_listener_state = \<lparr>ls_db = sample_db, ls_net = (), ls_created = init_event_buffer, ls_updated = init_event_buffer,
     ls_created_topic = [], ls_eval_topic = [], ls_pt_topic = [], ls_metrics = []\<rparr>"

definition bad_package_host :: host where
  "bad_package_host = sample_host\<lparr>ho_profile := sample_profile\<lparr>pf_installed_packages := Some [''foo'']\<rparr>\<rparr>"

theorem failed_upload_changes_nothing_witness:
  "\<exists>err s'. handle_upload sample_listener_env 10 (sample_event bad_package_host) sample_listener_state = Some (Some err, s')
     \<and> error_is err ErrBadPackages \<and> ls_db s' = sample_db \<and> ls_metrics s' = [(''upload'', ''internal-error'')]"
proof -
  have "case handle_upload sample_listener_env 10 (sample_event bad_package_host) sample_listener_state of
      Some (Some err, s') \<Rightarrow> error_is err ErrBadPackages \<and> error_metric err = ''internal-error'' | _ \<Rightarrow> False"
    by code_simp
  then obtain err s' where
    run: "handle_upload sample_listener_env 10 (sample_event bad_package_host) sample_listener_state = Some (Some err, s')"
    and e: "error_is err ErrBadPackages" "error_metric err = ''internal-error''"
    by (auto split: option.splits)
  have "validate_host (le_allowed sample_listener_env) (le_excluded sample_listener_env)
      (he_host (sample_event bad_package_host)) \<noteq> None" by code_simp
  with failed_upload_changes_nothing [OF run] e run show ?thesis
    by (auto simp: sample_listener_state_def)
qed

section \<open>A template that cannot be looked up\<close>

text \<open>When the lookup of the template of a host fails in the database the code only logs that
  the template cannot be assigned and goes on; but the failed statement has aborted the
  transaction, so the upload is never stored.\<close>

theorem template_failure_fails_upload:
  assumes fault: "le_faults env TemplateLookup"
    and host: "has_template_repo (Some (ho_profile h))" "pf_owner_id (ho_profile h) = Some owner"
    and envs: "call_candlepin_environment env owner net = (Inr envs, net')" "envs \<noteq> []"
  shows "\<not> (\<exists>sys. fst (process_upload env now h yum db net) = Inr (Some sys))"
proof (rule notI, elim exE)
  fix sys
  assume "fst (process_upload env now h yum db net) = Inr (Some sys)"
  then obtain db' net'' where run: "process_upload env now h yum db net = (Inr (Some sys), db', net'')"
    by (cases "process_upload env now h yum db net") auto
  have aborted: "lt_aborted ta" if "host_template env account h t net = (tid, ta, n)" for account t tid ta n
    using that fault host envs
    by (auto simp: host_template_def get_template_def ltx_statement_def Let_def split: if_splits)
  obtain account db0 where acc: "get_or_create_account (le_faults env) (get_org_id h) db = (Inr account, db0)"
    using run by (auto simp: process_upload_def split: sum.splits prod.splits)
  obtain t1 where t1: "ltx_statement (le_faults env) DeletedFind (ltx_begin db0) = (True, t1)"
    using run acc by (auto simp: process_upload_def Let_def split: if_splits prod.splits)
  obtain tb net2 where up: "update_system_platform env now account h yum (upload_request env h) t1 net = (Inr sys, tb, net2)"
    using run acc t1 by (auto simp: process_upload_def Let_def ltx split: if_splits prod.splits sum.splits)
  obtain tid ta net1 where tmpl: "host_template env account h t1 net = (tid, ta, net1)"
    by (cases "host_template env account h t1 net") auto
  have "store_system env now account h sys' jc yc repos ta \<noteq> (Inr sys, x)" for sys' jc yc repos x
    using aborted [OF tmpl]
    by (auto simp: store_system_def old_checksums_def store_or_update_sys_platform_def ltx_statement_def Let_def)
  then show False
    using up tmpl by (auto simp: update_system_platform_def Let_def split: option.splits sum.splits prod.splits)
qed

definition template_host :: host where
  "template_host = sample_host\<lparr>ho_profile := sample_profile\<lparr>pf_owner_id := Some ''o'', pf_yum_repos := Some
     [\<lparr>yr_id = ''t'', yr_name = [], yr_enabled = True, yr_mirrorlist = [],
       yr_base_url = ''https://cert.console.redhat.com/api/pulp-content/cs-1a/templates/x''\<rparr>]\<rparr>\<rparr>"

theorem template_failure_fails_upload_witness:
  "\<not> (\<exists>sys. fst (process_upload (sample_listener_env\<lparr>le_faults := (\<lambda>s. s = TemplateLookup)\<rparr>) 10 template_host None sample_db ())
         = Inr (Some sys))
   \<and> (\<exists>sys. fst (process_upload sample_listener_env 10 template_host None sample_db ()) = Inr (Some sys))"
proof (rule conjI)
  let ?env = "sample_listener_env\<lparr>le_faults := (\<lambda>s. s = TemplateLookup)\<rparr>"
  have "call_candlepin_environment ?env ''o'' () = (Inr [''env''], ())" by code_simp
  moreover have "has_template_repo (Some (ho_profile template_host))" by code_simp
  ultimately show "\<not> (\<exists>sys. fst (process_upload ?env 10 template_host None sample_db ()) = Inr (Some sys))"
    by (intro template_failure_fails_upload [where owner = "''o''" and envs = "[''env'']"]) (simp_all add: template_host_def)
  have "case fst (process_upload sample_listener_env 10 template_host None sample_db ()) of Inr (Some sys) \<Rightarrow> True | _ \<Rightarrow> False"
    by code_simp
  then show "\<exists>sys. fst (process_upload sample_listener_env 10 template_host None sample_db ()) = Inr (Some sys)"
    by (auto split: sum.splits option.splits)
qed

section \<open>Deleted systems\<close>

lemma handle_delete_done:
  assumes "handle_delete faults t0 event s = (None, s')"
  shows "gm_get (ldb_deleted (ls_db s')) (pe_id event) = Some t0"
    and "\<forall>r\<in>set (ldb_inventory (ls_db s')). si_inventory_id r = pe_id event \<longrightarrow> si_culled_timestamp r = Some t0"
    and "same_requests s s'"
  using assms
  by (auto simp: handle_delete_def mark_culled_def cull_row_def on_update_def count_metric_def same_requests_def
      gomap Let_def split: if_splits)

lemma recently_deleted_skips:
  assumes del: "gm_get (ldb_deleted db) (ho_id h) = Some t0" and id: "ho_id h \<noteq> nil_uuid"
    and recent: "now - le_deletion_threshold env < t0"
  shows "\<not> (\<exists>sys. fst (process_upload env now h yum db net) = Inr (Some sys))"
proof (rule notI, elim exE)
  fix sys
  assume "fst (process_upload env now h yum db net) = Inr (Some sys)"
  then obtain db' net' where "process_upload env now h yum db net = (Inr (Some sys), db', net')"
    by (cases "process_upload env now h yum db net") auto
  then obtain account db0 where acc: "get_or_create_account (le_faults env) (get_org_id h) db = (Inr account, db0)"
    and "\<not> recently_deleted (le_deletion_threshold env) now (ho_id h) db0"
    by (rule process_upload_Some)
  moreover have "ldb_deleted db0 = ldb_deleted db" using account_same_systems [OF acc] by (simp add: same_systems_def)
  ultimately show False using del id recent by (simp add: recently_deleted_def)
qed

text \<open>C31.  A deletion that succeeded marks every row of the system as culled at that moment, and an
  upload of the same host within the deletion threshold neither stores anything nor requests an
  evaluation: the system stays culled.\<close>

theorem deleted_system_stays_deleted:
  assumes del: "handle_delete faults t0 event s = (None, s1)"
    and up: "handle_upload env now upload s1 = Some (res, s2)"
    and same: "ho_id (he_host upload) = pe_id event" "pe_id event \<noteq> nil_uuid"
    and recent: "now - le_deletion_threshold env < t0"
  shows "same_systems (ls_db s1) (ls_db s2) \<and> same_requests s s2
     \<and> (\<forall>r\<in>set (ldb_inventory (ls_db s2)). si_inventory_id r = pe_id event \<longrightarrow> si_culled_timestamp r = Some t0)"
proof -
  note d = handle_delete_done [OF del]
  have not_stored: "process_upload env now (he_host upload) yum (ls_db s1) net \<noteq> (Inr (Some sys), db', net')"
    for yum net sys db' net'
    using recently_deleted_skips [where db = "ls_db s1" and h = "he_host upload" and env = env and yum = yum and net = net]
      d(1) same recent by fastforce
  have "same_systems (ls_db s1) (ls_db s2) \<and> same_requests s1 s2"
    using up
  proof (cases rule: handle_upload_cases)
    case (rejected err pt)
    then show ?thesis by (simp add: handle_listener_errors_def same_systems_def same_requests_def)
  next
    case (failed e pt yum net db net' st)
    then show ?thesis using process_upload_fails [OF failed(2)] by (simp add: handle_listener_errors_def same_requests_def)
  next
    case (skipped pt yum net db net' st)
    then show ?thesis using process_upload_skips [OF skipped(2)] by (simp add: same_requests_def)
  next
    case (unchanged pt yum net sys db net' st)
    then show ?thesis using not_stored by blast
  next
    case (buffered pt pt' yum net sys db net' st st')
    then show ?thesis using not_stored by blast
  qed
  then show ?thesis using d(2,3) by (simp add: same_systems_def same_requests_def)
qed

definition delete_event :: platform_event where
  "delete_event = \<lparr>pe_id = ''u'', pe_type = Some ''delete'', pe_timestamp = None, pe_account = 0, pe_org = None,
     pe_identity = None, pe_url = None, pe_systems = None, pe_requests = [], pe_skip_notifications = False\<rparr>"

theorem deleted_system_stays_deleted_witness:
  "\<exists>s0 s1 s2 res. fst (the (handle_upload sample_listener_env 10 (sample_event sample_host) sample_listener_state)) = None
     \<and> s0 = snd (the (handle_upload sample_listener_env 10 (sample_event sample_host) sample_listener_state))
     \<and> handle_delete (\<lambda>s. False) 20 delete_event s0 = (None, s1)
     \<and> handle_upload sample_listener_env 30 (sample_event sample_host) s1 = Some (res, s2)
     \<and> map si_inventory_id (ldb_inventory (ls_db s2)) = [''u'']
     \<and> (\<forall>r\<in>set (ldb_inventory (ls_db s2)). si_inventory_id r = ''u'' \<longrightarrow> si_culled_timestamp r = Some 20)"
proof -
  define s0 where "s0 = snd (the (handle_upload sample_listener_env 10 (sample_event sample_host) sample_listener_state))"
  define s1 where "s1 = snd (handle_delete (\<lambda>s. False) 20 delete_event s0)"
  have ok: "fst (the (handle_upload sample_listener_env 10 (sample_event sample_host) sample_listener_state)) = None"
    by code_simp
  have "fst (handle_delete (\<lambda>s. False) 20 delete_event s0) = None" unfolding s0_def by code_simp
  then have del: "handle_delete (\<lambda>s. False) 20 delete_event s0 = (None, s1)" by (simp add: s1_def prod_eq_iff)
  have "case handle_upload sample_listener_env 30 (sample_event sample_host) s1 of Some (res, s2) \<Rightarrow>
      map si_inventory_id (ldb_inventory (ls_db s2)) = [''u''] | None \<Rightarrow> False"
    unfolding s1_def s0_def by code_simp
  then obtain res s2 where up: "handle_upload sample_listener_env 30 (sample_event sample_host) s1 = Some (res, s2)"
    and rows: "map si_inventory_id (ldb_inventory (ls_db s2)) = [''u'']"
    by (auto split: option.splits)
  have "\<forall>r\<in>set (ldb_inventory (ls_db s2)). si_inventory_id r = pe_id delete_event \<longrightarrow> si_culled_timestamp r = Some 20"
    using deleted_system_stays_deleted [OF del up]
    by (simp add: delete_event_def sample_event_def sample_host_def sample_listener_env_def nil_uuid_def)
  then show ?thesis using ok del up rows s0_def by (auto simp: delete_event_def)
qed

end
