(* ===== verification/ListenerInvariant.thy ===== *)
theory ListenerInvariant
  imports UploadSafety
begin

text \<open>
  The constraints of the listener's tables (primary and unique keys, sequences ahead of every id,
  foreign keys) as an invariant of the database, kept by uploads and deletions whatever
  statements fail.
\<close>

section \<open>Well-formed tables\<close>

text \<open>A table of names with generated ids.\<close>

definition seq_table :: "('k, int) gomap \<Rightarrow> int \<Rightarrow> bool" where
  "seq_table m n \<longleftrightarrow> wf_gomap m \<and> distinct (map snd m) \<and> 0 < n \<and> (\<forall>i\<in>snd ` set m. 0 < i \<and> i < n)"

definition wf_inventory :: "system_inventory list \<Rightarrow> int \<Rightarrow> bool" where
  "wf_inventory rows n \<longleftrightarrow>
     distinct (map (\<lambda>r. (si_account r, si_inventory_id r)) rows) \<and> distinct (map si_id rows)
   \<and> 0 < n \<and> (\<forall>r\<in>set rows. 0 < si_id r \<and> si_id r < n)"

definition system_keys :: "system_inventory list \<Rightarrow> (int \<times> int) set" where
  "system_keys rows = (\<lambda>r. (si_account r, si_id r)) ` set rows"

definition wf_ldb :: "listener_db \<Rightarrow> bool" where
  "wf_ldb db \<longleftrightarrow>
     seq_table (ldb_accounts db) (ldb_next_account db)
   \<and> wf_inventory (ldb_inventory db) (ldb_next_system db)
   \<and> si_account ` set (ldb_inventory db) \<subseteq> snd ` set (ldb_accounts db)
   \<and> wf_gomap (ldb_patch db) \<and> fst ` set (ldb_patch db) \<subseteq> system_keys (ldb_inventory db)
   \<and> seq_table (ldb_repos db) (ldb_next_repo db)
   \<and> distinct (ldb_system_repo db)
   \<and> (\<forall>(a, s, r)\<in>set (ldb_system_repo db). (a, s) \<in> system_keys (ldb_inventory db) \<and> r \<in> snd ` set (ldb_repos db))"

lemma gm_put_new: "gm_get m k = None \<Longrightarrow> gm_put k v m = m @ [(k, v)]"
  by (induction m) auto

lemma seq_table_put: "seq_table m n \<Longrightarrow> gm_get m k = None \<Longrightarrow> seq_table (gm_put k n m) (n + 1)"
  by (auto simp: seq_table_def gm_put_new map_of_eq_None_iff)

section \<open>Statements keep the tables well-formed\<close>

lemma wf_ldbD:
  assumes "wf_ldb db"
  shows "seq_table (ldb_accounts db) (ldb_next_account db)"
    and "wf_inventory (ldb_inventory db) (ldb_next_system db)"
    and "si_account ` set (ldb_inventory db) \<subseteq> snd ` set (ldb_accounts db)"
    and "wf_gomap (ldb_patch db)" and "fst ` set (ldb_patch db) \<subseteq> system_keys (ldb_inventory db)"
    and "seq_table (ldb_repos db) (ldb_next_repo db)" and "distinct (ldb_system_repo db)"
    and "(a, s, r) \<in> set (ldb_system_repo db) \<Longrightarrow> (a, s) \<in> system_keys (ldb_inventory db)"
    and "(a, s, r) \<in> set (ldb_system_repo db) \<Longrightarrow> r \<in> snd ` set (ldb_repos db)"
proof -
  note w = assms [unfolded wf_ldb_def]
  show "seq_table (ldb_accounts db) (ldb_next_account db)"
    "wf_inventory (ldb_inventory db) (ldb_next_system db)"
    "si_account ` set (ldb_inventory db) \<subseteq> snd ` set (ldb_accounts db)"
    "wf_gomap (ldb_patch db)" "fst ` set (ldb_patch db) \<subseteq> system_keys (ldb_inventory db)"
    "seq_table (ldb_repos db) (ldb_next_repo db)" "distinct (ldb_system_repo db)"
    by (simp_all only: w)
  have k: "\<forall>(a, s, r)\<in>set (ldb_system_repo db). (a, s) \<in> system_keys (ldb_inventory db) \<and> r \<in> snd ` set (ldb_repos db)"
    using w by (elim conjE)
  show "(a, s) \<in> system_keys (ldb_inventory db)" if "(a, s, r) \<in> set (ldb_system_repo db)"
    using bspec [OF k that] by simp
  show "r \<in> snd ` set (ldb_repos db)" if "(a, s, r) \<in> set (ldb_system_repo db)"
    using bspec [OF k that] by simp
qed

lemma wf_ldbI:
  assumes "seq_table (ldb_accounts db) (ldb_next_account db)"
    and "wf_inventory (ldb_inventory db) (ldb_next_system db)"
    and "si_account ` set (ldb_inventory db) \<subseteq> snd ` set (ldb_accounts db)"
    and "wf_gomap (ldb_patch db)" and "fst ` set (ldb_patch db) \<subseteq> system_keys (ldb_inventory db)"
    and "seq_table (ldb_repos db) (ldb_next_repo db)" and "distinct (ldb_system_repo db)"
    and "\<And>a s r. (a, s, r) \<in> set (ldb_system_repo db) \<Longrightarrow> (a, s) \<in> system_keys (ldb_inventory db)"
    and "\<And>a s r. (a, s, r) \<in> set (ldb_system_repo db) \<Longrightarrow> r \<in> snd ` set (ldb_repos db)"
  shows "wf_ldb db"
  unfolding wf_ldb_def by (intro conjI assms ballI) (use assms(8,9) in \<open>fast\<close>)

lemma wf_more_accounts:
  assumes "wf_ldb db" "seq_table m n" "snd ` set (ldb_accounts db) \<subseteq> snd ` set m"
  shows "wf_ldb (db\<lparr>ldb_accounts := m, ldb_next_account := n\<rparr>)"
  by (rule wf_ldbI)
    (use assms(2) wf_ldbD [OF assms(1)] subset_trans [OF wf_ldbD(3) [OF assms(1)] assms(3)] in simp_all)

lemma wf_more_repos:
  assumes "wf_ldb db" "seq_table m n" "snd ` set (ldb_repos db) \<subseteq> snd ` set m"
  shows "wf_ldb (db\<lparr>ldb_repos := m, ldb_next_repo := n\<rparr>)"
  by (rule wf_ldbI)
    (use assms(2) wf_ldbD [OF assms(1)] subsetD [OF assms(3) wf_ldbD(9) [OF assms(1)]] in simp_all)

lemma account_wf:
  assumes "wf_ldb db" "get_or_create_account faults org db = (Inr account, db')"
  shows "wf_ldb db'" and "account \<in> snd ` set (ldb_accounts db')"
proof -
  have "account \<in> snd ` set (ldb_accounts db')"
    using get_or_create_account_Inr(1) [OF assms(2)] by (metis imageI map_of_SomeD snd_conv)
  moreover have "wf_ldb db'"
  proof (cases "db' = db")
    case False
    then have new: "gm_get (ldb_accounts db) org = None"
      and db': "db' = db\<lparr>ldb_accounts := gm_put org (ldb_next_account db) (ldb_accounts db),
          ldb_next_account := ldb_next_account db + 1\<rparr>"
      using assms(2) by (auto simp: get_or_create_account_def Let_def split: if_splits option.splits)
    have "seq_table (gm_put org (ldb_next_account db) (ldb_accounts db)) (ldb_next_account db + 1)"
      using assms(1) new by (simp add: wf_ldb_def seq_table_put)
    then show ?thesis unfolding db' by (rule wf_more_accounts [OF assms(1)]) (auto simp: gm_put_new [OF new])
  qed (use assms in simp)
  ultimately show "wf_ldb db'" "account \<in> snd ` set (ldb_accounts db')" by simp_all
qed

lemma account_fail_same: "get_or_create_account faults org db = (Inl e, db') \<Longrightarrow> db' = db"
  by (auto simp: get_or_create_account_def Let_def split: if_splits option.splits)

lemma insert_repos_wf:
  "insert_repos ns db = (ids, db') \<Longrightarrow> seq_table (ldb_repos db) (ldb_next_repo db) \<Longrightarrow>
     seq_table (ldb_repos db') (ldb_next_repo db') \<and> snd ` set (ldb_repos db) \<subseteq> snd ` set (ldb_repos db')"
proof (induction ns arbitrary: db ids)
  case Nil
  then show ?case by simp
next
  case (Cons n ns)
  show ?case
  proof (cases "gm_has (ldb_repos db) n")
    case True
    then show ?thesis using Cons by simp
  next
    case False
    let ?db1 = "db\<lparr>ldb_repos := gm_put n (ldb_next_repo db) (ldb_repos db), ldb_next_repo := ldb_next_repo db + 1\<rparr>"
    obtain ids' where r: "insert_repos ns ?db1 = (ids', db')" using Cons.prems(1) False by (auto split: prod.splits)
    have "seq_table (ldb_repos ?db1) (ldb_next_repo ?db1)" using Cons.prems(2) False by (simp add: seq_table_put)
    then show ?thesis using Cons.IH [OF r] False by (simp add: gm_put_new)
  qed
qed

lemma insert_repos_keeps_wf:
  assumes "wf_ldb db" "insert_repos ns db = (ids, db')"
  shows "wf_ldb db'"
proof -
  have "seq_table (ldb_repos db') (ldb_next_repo db')" "snd ` set (ldb_repos db) \<subseteq> snd ` set (ldb_repos db')"
    using insert_repos_wf [OF assms(2)] assms(1) by (simp_all add: wf_ldb_def)
  then show ?thesis by (subst insert_repos_frame [OF assms(2)]) (rule wf_more_repos [OF assms(1)])
qed

lemma insert_rows_distinct: "distinct t \<Longrightarrow> distinct (insert_rows ks t)"
  by (induction ks t rule: insert_rows.induct) auto

lemma update_system_repos_wf:
  assumes "wf_ldb (lt_db t)" "(a, s) \<in> system_keys (ldb_inventory (lt_db t))"
    "update_system_repos faults a s ids t = (Inr counts, t')"
  shows "wf_ldb (lt_db t')"
proof -
  let ?rows = "insert_rows (map (\<lambda>r. (a, s, r)) ids) (ldb_system_repo (lt_db t))"
  let ?gone = "\<lambda>(a', s', r). a' = a \<and> s' = s \<and> (ids = [] \<or> r \<notin> set ids)"
  have db: "lt_db t' = (lt_db t)\<lparr>ldb_system_repo := filter (\<lambda>k. \<not> ?gone k) ?rows\<rparr>"
    and fk: "\<forall>i\<in>set ids. i \<in> snd ` set (ldb_repos (lt_db t))"
    using assms(3)
    by (auto simp: update_system_repos_def delete_other_system_repos_def ltx_statement_def Let_def
        list_all_iff split: if_splits)
  have old: "k \<in> (\<lambda>r. (a, s, r)) ` set ids \<or> k \<in> set (ldb_system_repo (lt_db t))"
    if "k \<in> set (filter (\<lambda>k. \<not> ?gone k) ?rows)" for k
    using that by (auto simp: insert_rows_set)
  show ?thesis unfolding db
  proof (rule wf_ldbI)
    show "distinct (ldb_system_repo ((lt_db t)\<lparr>ldb_system_repo := filter (\<lambda>k. \<not> ?gone k) ?rows\<rparr>))"
      using wf_ldbD(7) [OF assms(1)] by (simp add: insert_rows_distinct)
  next
    fix a' s' r
    assume "(a', s', r) \<in> set (ldb_system_repo ((lt_db t)\<lparr>ldb_system_repo := filter (\<lambda>k. \<not> ?gone k) ?rows\<rparr>))"
    then have k: "(a', s', r) \<in> (\<lambda>r. (a, s, r)) ` set ids \<or> (a', s', r) \<in> set (ldb_system_repo (lt_db t))"
      using old by simp
    then have "(a', s') \<in> system_keys (ldb_inventory (lt_db t))"
      using assms(2) wf_ldbD(8) [OF assms(1)] by blast
    then show "(a', s') \<in> system_keys (ldb_inventory ((lt_db t)\<lparr>ldb_system_repo := filter (\<lambda>k. \<not> ?gone k) ?rows\<rparr>))"
      by simp
    have "r \<in> snd ` set (ldb_repos (lt_db t))" using k fk wf_ldbD(9) [OF assms(1)] by blast
    then show "r \<in> snd ` set (ldb_repos ((lt_db t)\<lparr>ldb_system_repo := filter (\<lambda>k. \<not> ?gone k) ?rows\<rparr>))" by simp
  qed (use wf_ldbD(1-6) [OF assms(1)] in simp_all)
qed

lemma update_repos_wf:
  assumes "wf_ldb (lt_db t)" "(a, s) \<in> system_keys (ldb_inventory (lt_db t))"
    "update_repos faults scan_ids profile a s repos t = (Inr counts, t')"
  shows "wf_ldb (lt_db t')"
proof -
  obtain ids added tm counts' where
    e: "ensure_repos_in_db faults scan_ids (fix_epel_repos (Some profile) repos) t = (Inr (ids, added), tm)"
    and u: "update_system_repos faults a s ids tm = (Inr counts', t')"
    using assms(3) by (rule update_repos_Inr)
  obtain new where
    i: "insert_repos (missing_repos (lt_db t) (fix_epel_repos (Some profile) repos)) (lt_db t) = (new, lt_db tm)"
    using e by (rule ensure_repos_Inr)
  show ?thesis
    by (rule update_system_repos_wf [OF insert_repos_keeps_wf [OF assms(1) i] _ u])
      (use assms(2) in \<open>simp add: insert_repos_fields [OF i]\<close>)
qed

text \<open>An upsert of a row with id 0, or with the id of the row it finds.\<close>

lemma keys_map_row:
  assumes "distinct (map (\<lambda>r. (si_account r, si_inventory_id r)) rows)" "old \<in> set rows"
    "si_account old = a" "si_inventory_id old = i" "si_account row = a" "si_inventory_id row = i" "si_id row = si_id old"
  shows "map (\<lambda>r. (si_account r, si_inventory_id r, si_id r)) (map (\<lambda>r. if is_row a i r then row else r) rows)
       = map (\<lambda>r. (si_account r, si_inventory_id r, si_id r)) rows"
proof -
  have "r = old" if "r \<in> set rows" "is_row a i r" for r
  proof -
    have "inj_on (\<lambda>r. (si_account r, si_inventory_id r)) (set rows)" using assms(1) by (simp add: distinct_map)
    from inj_onD [OF this _ that(1) assms(2)] show ?thesis using that(2) assms(3,4) by (simp add: is_row_def)
  qed
  then have "si_id r = si_id row" if "r \<in> set rows" "is_row a i r" for r using that assms(7) by simp
  then have "(si_account (if is_row a i r then row else r), si_inventory_id (if is_row a i r then row else r),
      si_id (if is_row a i r then row else r)) = (si_account r, si_inventory_id r, si_id r)" if "r \<in> set rows" for r
    using that assms(5,6) by (simp add: is_row_def)
  then show ?thesis unfolding map_map by (intro map_cong refl) (simp only: comp_def)
qed

lemma triples_determine:
  assumes "map (\<lambda>r. (si_account r, si_inventory_id r, si_id r)) xs = map (\<lambda>r. (si_account r, si_inventory_id r, si_id r)) ys"
  shows "wf_inventory xs n = wf_inventory ys n" and "system_keys xs = system_keys ys"
    and "si_account ` set xs = si_account ` set ys"
proof -
  let ?t = "\<lambda>r. (si_account r, si_inventory_id r, si_id r)"
  have m: "map (g \<circ> ?t) xs = map (g \<circ> ?t) ys" for g
    using arg_cong [OF assms, of "map g"] by (simp only: map_map)
  have k: "map (\<lambda>r. (si_account r, si_inventory_id r)) xs = map (\<lambda>r. (si_account r, si_inventory_id r)) ys"
    using m [of "\<lambda>(a, i, d). (a, i)"] by (simp add: comp_def)
  have ids: "map si_id xs = map si_id ys" using m [of "\<lambda>(a, i, d). d"] by (simp add: comp_def)
  have "si_id ` set xs = si_id ` set ys" using arg_cong [OF ids, of set] by simp
  then have "(\<forall>i\<in>si_id ` set xs. 0 < i \<and> i < n) = (\<forall>i\<in>si_id ` set ys. 0 < i \<and> i < n)" by simp
  then show "wf_inventory xs n = wf_inventory ys n" unfolding wf_inventory_def k ids by simp
  have "map (\<lambda>r. (si_account r, si_id r)) xs = map (\<lambda>r. (si_account r, si_id r)) ys"
    using m [of "\<lambda>(a, i, d). (a, d)"] by (simp add: comp_def)
  from arg_cong [OF this, of set] show "system_keys xs = system_keys ys" by (simp add: system_keys_def)
  have "map si_account xs = map si_account ys" using m [of "\<lambda>(a, i, d). a"] by (simp add: comp_def)
  from arg_cong [OF this, of set] show "si_account ` set xs = si_account ` set ys" by simp
qed

lemma wf_same_keys:
  assumes "wf_ldb db" "wf_inventory rows (ldb_next_system db)" "system_keys rows = system_keys (ldb_inventory db)"
    "si_account ` set rows = si_account ` set (ldb_inventory db)"
  shows "wf_ldb (db\<lparr>ldb_inventory := rows\<rparr>)"
  by (rule wf_ldbI) (use wf_ldbD [OF assms(1)] assms(2-4) in simp_all)

lemma wf_deleted: "wf_ldb (db\<lparr>ldb_deleted := d\<rparr>) = wf_ldb db"
  by (simp add: wf_ldb_def)

lemma upsert_inventory_wf:
  assumes wf: "wf_ldb db" and up: "upsert_inventory now cols new db = (row, db')"
    and id: "si_id new = (case find_inventory (si_account new) (si_inventory_id new) db of None \<Rightarrow> 0 | Some r \<Rightarrow> si_id r)"
    and acc: "si_account new \<in> snd ` set (ldb_accounts db)"
  shows "wf_ldb db'" and "(si_account row, si_id row) \<in> system_keys (ldb_inventory db')"
proof -
  have "row \<in> set (ldb_inventory db')" using find_inventory_Some [OF upsert_inventory_find(1) [OF up]] by simp
  then show "(si_account row, si_id row) \<in> system_keys (ldb_inventory db')" by (auto simp: system_keys_def)
  show "wf_ldb db'"
  proof (cases "find_inventory (si_account new) (si_inventory_id new) db")
    case (Some old)
    note old = find_inventory_Some [OF Some]
    let ?row = "on_update now old (fold (set_column new) cols old)"
    let ?rows = "map (\<lambda>r. if is_row (si_account new) (si_inventory_id new) r then ?row else r) (ldb_inventory db)"
    have db': "db' = db\<lparr>ldb_inventory := ?rows\<rparr>" using upsert_found [OF Some refl refl, of now cols] up by simp
    have "map (\<lambda>r. (si_account r, si_inventory_id r, si_id r)) ?rows
        = map (\<lambda>r. (si_account r, si_inventory_id r, si_id r)) (ldb_inventory db)"
      by (rule keys_map_row [where old = old])
        (use wf_ldbD(2) [OF wf] old in \<open>simp_all add: wf_inventory_def\<close>)
    note same = triples_determine [OF this]
    show ?thesis unfolding db'
      by (rule wf_same_keys [OF wf]) (simp_all only: same wf_ldbD(2) [OF wf])
  next
    case None
    let ?row = "on_insert now (new\<lparr>si_id := ldb_next_system db\<rparr>)"
    have db': "db' = db\<lparr>ldb_inventory := ldb_inventory db @ [?row], ldb_next_system := ldb_next_system db + 1\<rparr>"
      using up None id by (auto simp: upsert_inventory_def Let_def)
    have "(si_account new, si_inventory_id new) \<notin> set (map (\<lambda>r. (si_account r, si_inventory_id r)) (ldb_inventory db))"
      using None by (auto simp: find_inventory_def find_None_iff is_row_def)
    moreover have "ldb_next_system db \<notin> si_id ` set (ldb_inventory db)"
      using wf_ldbD(2) [OF wf] by (auto simp: wf_inventory_def)
    ultimately have inv: "wf_inventory (ldb_inventory db @ [?row]) (ldb_next_system db + 1)"
      using wf_ldbD(2) [OF wf] by (auto simp: wf_inventory_def)
    have keys: "system_keys (ldb_inventory db) \<subseteq> system_keys (ldb_inventory db @ [?row])"
      by (auto simp: system_keys_def)
    show ?thesis unfolding db'
    proof (rule wf_ldbI)
      show "fst ` set (ldb_patch (db\<lparr>ldb_inventory := ldb_inventory db @ [?row], ldb_next_system := ldb_next_system db + 1\<rparr>))
          \<subseteq> system_keys (ldb_inventory (db\<lparr>ldb_inventory := ldb_inventory db @ [?row], ldb_next_system := ldb_next_system db + 1\<rparr>))"
        using subset_trans [OF wf_ldbD(5) [OF wf] keys] by simp
    qed (use inv acc wf_ldbD [OF wf] subsetD [OF keys] in simp_all)
  qed
qed

lemma upsert_patch_wf:
  assumes wf: "wf_ldb db" and key: "(a, s) \<in> system_keys (ldb_inventory db)"
  shows "wf_ldb (snd (upsert_patch a s tid cols db))"
proof -
  have put: "wf_ldb (db\<lparr>ldb_patch := gm_put (a, s) p (ldb_patch db)\<rparr>)" for p
  proof (rule wf_ldbI)
    show "fst ` set (ldb_patch (db\<lparr>ldb_patch := gm_put (a, s) p (ldb_patch db)\<rparr>))
        \<subseteq> system_keys (ldb_inventory (db\<lparr>ldb_patch := gm_put (a, s) p (ldb_patch db)\<rparr>))"
      using key wf_ldbD(5) [OF wf] by (simp add: dom_update)
  qed (use wf_ldbD [OF wf] in simp_all)
  show ?thesis
  proof (cases "gm_get (ldb_patch db) (a, s)")
    case None
    then show ?thesis using put by (simp add: upsert_patch_def)
  next
    case (Some p)
    then show ?thesis using put wf by (cases "cols = []") (simp_all add: upsert_patch_def)
  qed
qed

section \<open>Events keep the tables well-formed\<close>

lemma process_upload_wf:
  assumes wf: "wf_ldb db" and run: "process_upload env now h yum db net = (Inr (Some sys), db', net')"
  shows "wf_ldb db'"
proof -
  obtain account db0 json ws tid ta tb where
    acc: "get_or_create_account (le_faults env) (get_org_id h) db = (Inr account, db0)"
    and ta: "lt_db ta = db0" and tb: "lt_db tb = db'"
    and st: "store_system env now account h (uploaded_system env account h yum json ws tid) (le_sha256 env json)
       (le_sha256 env (get_raw_parsed yum)) (rq_repository_list (upload_request env h)) ta = (Inr sys, tb)"
    using run by (rule process_upload_Some)
  let ?u = "uploaded_system env account h yum json ws tid"
  have wf0: "wf_ldb (lt_db ta)" "account \<in> snd ` set (ldb_accounts (lt_db ta))"
    using account_wf [OF wf acc] ta by simp_all
  obtain tm cols where sou: "store_or_update_sys_platform (le_faults env) now ?u cols ta = (Inr sys, tm)"
    and rest: "tb = tm \<or> (\<exists>counts. update_repos (le_faults env) (le_scan_ids env) (ho_profile h) account
        (si_id (pl_inventory sys)) (rq_repository_list (upload_request env h)) tm = (Inr counts, tb))"
    using st by (rule store_system_Inr) blast
  obtain row db1 existing where
    ex: "existing = (case find_inventory (si_account (pl_inventory ?u)) (si_inventory_id (pl_inventory ?u)) (lt_db ta)
           of None \<Rightarrow> 0 | Some r \<Rightarrow> si_id r)"
    and up: "upsert_inventory now cols ((pl_inventory ?u)\<lparr>si_id := existing\<rparr>) (lt_db ta) = (row, db1)"
    and tm: "lt_db tm = snd (upsert_patch (si_account row) (si_id row) (sp_template_id (pl_patch ?u))
        (if sp_template_id (pl_patch ?u) \<noteq> None then [''template_id''] else []) db1)"
    and sys: "pl_inventory sys = (pl_inventory ?u)\<lparr>si_id := si_id row, si_inventory_id := si_inventory_id row,
        si_account := si_account row, si_unchanged_since := si_unchanged_since row\<rparr>"
    using sou by (rule store_or_update_Inr)
  have wf1: "wf_ldb db1" and key: "(si_account row, si_id row) \<in> system_keys (ldb_inventory db1)"
    using upsert_inventory_wf [OF wf0(1) up] ex wf0(2) by (simp_all add: uploaded_inventory)
  have wfm: "wf_ldb (lt_db tm)" unfolding tm by (rule upsert_patch_wf [OF wf1 key])
  have a: "si_account row = account" using upsert_inventory_find(2) [OF up] by (simp add: uploaded_inventory)
  have "(account, si_id (pl_inventory sys)) \<in> system_keys (ldb_inventory (lt_db tm))"
    using key a by (simp add: sys tm upsert_patch_frame)
  then show ?thesis using rest wfm update_repos_wf [OF wfm] tb by auto
qed

lemma same_systems_wf:
  assumes "wf_ldb db" "process_upload env now h yum db net = (r, db', net')" "\<forall>sys. r \<noteq> Inr (Some sys)"
  shows "wf_ldb db'"
proof (cases "get_or_create_account (le_faults env) (get_org_id h) db")
  case (Pair acc db0)
  then have "db' = db0"
    using assms(2,3) by (auto simp: process_upload_def Let_def split: sum.splits prod.splits if_splits option.splits)
  then show ?thesis
    using Pair assms(1) account_wf(1) [OF assms(1)] account_fail_same [of "le_faults env" "get_org_id h" db]
    by (cases acc) auto
qed

lemma buffer_upload_db: "buffer_upload env now event sys pt s = Some s' \<Longrightarrow> ls_db s' = ls_db s"
  by (auto simp: buffer_upload_def Let_def split: if_splits option.splits)

lemma handle_delete_wf:
  assumes "wf_ldb (ls_db s)" "handle_delete faults now event s = (res, s')"
  shows "wf_ldb (ls_db s')"
proof -
  let ?rows = "map (\<lambda>r. if si_inventory_id r = pe_id event then cull_row now r else r) (ldb_inventory (ls_db s))"
  have "map (\<lambda>r. (si_account r, si_inventory_id r, si_id r)) ?rows
      = map (\<lambda>r. (si_account r, si_inventory_id r, si_id r)) (ldb_inventory (ls_db s))"
    by (simp add: cull_row_def)
  note same = triples_determine [OF this]
  obtain d rows where db: "ls_db s' = (ls_db s)\<lparr>ldb_deleted := d, ldb_inventory := rows\<rparr>"
    and rows: "rows = ldb_inventory (ls_db s) \<or> rows = ?rows"
  proof -
    have "ls_db s' = (ls_db s)\<lparr>ldb_deleted := ldb_deleted (ls_db s'), ldb_inventory := ldb_inventory (ls_db s')\<rparr>
      \<and> (ldb_inventory (ls_db s') = ldb_inventory (ls_db s) \<or> ldb_inventory (ls_db s') = ?rows)"
      using assms(2)
      by (auto simp: handle_delete_def mark_culled_def count_metric_def Let_def split: if_splits)
    then show thesis using that by blast
  qed
  have r: "wf_inventory rows n = wf_inventory (ldb_inventory (ls_db s)) n" for n using rows same(1) by auto
  have k: "system_keys rows = system_keys (ldb_inventory (ls_db s))" using rows same(2) by auto
  have a: "si_account ` set rows = si_account ` set (ldb_inventory (ls_db s))" using rows same(3) by auto
  have "wf_ldb ((ls_db s)\<lparr>ldb_deleted := d\<rparr>)" using assms(1) by (simp add: wf_deleted)
  then show ?thesis unfolding db
    by (rule wf_same_keys) (simp_all add: r k a wf_ldbD(2) [OF assms(1)])
qed

lemma handle_upload_wf:
  assumes "wf_ldb (ls_db s)" "handle_upload env now event s = Some (res, s')"
  shows "wf_ldb (ls_db s')"
  using assms(2)
proof (cases rule: handle_upload_cases)
  case (rejected err pt)
  then show ?thesis using assms(1) by (simp add: handle_listener_errors_def)
next
  case (failed e pt yum net db net' s1)
  then show ?thesis using same_systems_wf [OF assms(1) failed(2)] by (simp add: handle_listener_errors_def)
next
  case (skipped pt yum net db net' s1)
  then show ?thesis using same_systems_wf [OF assms(1) skipped(2)] by simp
next
  case (unchanged pt yum net sys db net' s1)
  then show ?thesis using process_upload_wf [OF assms(1) unchanged(2)] by simp
next
  case (buffered pt pt' yum net sys db net' s1 s2)
  then show ?thesis using process_upload_wf [OF assms(1) buffered(2)] buffer_upload_db [OF buffered(5)] by simp
qed

text \<open>Any number of messages, with statements failing as the environment of each one says.\<close>

inductive listener_run :: "event_codec \<Rightarrow> ('w, 'n) listener_state \<Rightarrow> ('w, 'n) listener_state \<Rightarrow> bool"
  for codec where
  no_message: "listener_run codec s s"
| message: "listener_run codec s s1 \<Longrightarrow> events_message_handler env codec now msg s1 = Some (res, s2) \<Longrightarrow> listener_run codec s s2"

text \<open>C11.  The keys, sequences and foreign keys of the tables hold after any run of event messages,
  whatever they say and whichever statements fail on the way.\<close>

theorem listener_tables_wf:
  assumes "listener_run codec s s'" "wf_ldb (ls_db s)"
  shows "wf_ldb (ls_db s')"
  using assms
proof (induction rule: listener_run.induct)
  case (no_message s)
  then show ?case .
next
  case (message s s1 env now msg res s2)
  note wf = message.IH [OF message.prems]
  from message.hyps(2) show ?case
    using wf handle_upload_wf [OF wf] handle_delete_wf [OF wf]
    by (auto simp: events_message_handler_def count_metric_def split: option.splits json_field.splits if_splits)
qed

definition sample_codec :: event_codec where
  "sample_codec = \<lparr>ec_type = (\<lambda>m. Some (FieldString m)), ec_platform = (\<lambda>m. (True, delete_event)),
     ec_host = (\<lambda>m. Some (sample_event sample_host))\<rparr>"

theorem listener_tables_wf_witness:
  "\<exists>s'. listener_run sample_codec (sample_listener_state\<lparr>ls_db := sample_db\<lparr>ldb_system_repo := []\<rparr>\<rparr>) s'
     \<and> length (ldb_inventory (ls_db s')) = 1 \<and> wf_ldb (ls_db s')"
proof -
  let ?s = "sample_listener_state\<lparr>ls_db := sample_db\<lparr>ldb_system_repo := []\<rparr>\<rparr>"
  have "case events_message_handler sample_listener_env sample_codec 10 ''created'' ?s of
      Some (res, s') \<Rightarrow> length (ldb_inventory (ls_db s')) = 1 | None \<Rightarrow> False"
    by code_simp
  then obtain res s' where step: "events_message_handler sample_listener_env sample_codec 10 ''created'' ?s = Some (res, s')"
    and len: "length (ldb_inventory (ls_db s')) = 1"
    by (auto split: option.splits)
  have run: "listener_run sample_codec ?s s'" by (rule message [OF no_message step])
  have "wf_ldb (ls_db ?s)"
    by (simp add: wf_ldb_def seq_table_def wf_inventory_def sample_db_def)
  from listener_tables_wf [OF run this] run len show ?thesis by blast
qed

end
