(* ===== verification/EventBuffer.thy ===== *)
theory EventBuffer
  imports UploadLaws KafkaEventsLaws "HOL-Library.Sublist"
begin

text \<open>
  The event buffer under concurrency (\<open>listener/event_buffers.go\<close>): consumers append under the
  lock, a consumer that filled the buffer flushes it in a second critical section, and the timer,
  which every append resets, flushes it when nothing arrives.  A step is one critical section,
  \<open>Idle\<close> is anything else the process does.  What has been sent is read from the topic the writer
  appends to, by decoding its messages.
\<close>

section \<open>The topic\<close>











section \<open>Steps\<close>

datatype buffer_label = Appended eval_data | Flushed | Idle

text \<open>\<open>bs_given\<close> are the requests given to the buffer, \<open>bs_full\<close> counts the consumers between their two
  critical sections and \<open>bs_refused\<close> the flushes whose write failed, which the code only logs.\<close>

record 'w buffer_state =
  bs_buffer :: event_buffer
  bs_full :: nat
  bs_out :: 'w
  bs_pt :: 'w
  bs_given :: "eval_data list"
  bs_refused :: nat


definition appended :: "uuid \<Rightarrow> int \<Rightarrow> tracker_event \<Rightarrow> eval_data" where
  "appended i account pt = \<lparr>ed_inventory = i, ed_account = account, ed_request = the (te_request pt), ed_org = te_org pt\<rparr>"

definition write_refused :: "('w, 'n) listener_env \<Rightarrow> timestamp \<Rightarrow> 'w writer \<Rightarrow> eval_data list \<Rightarrow> 'w \<Rightarrow> bool" where
  "write_refused env now writer evals out =
     (case eval_write_events (le_batch_size env) now (le_shuffle env) (le_enc_eval env) writer evals out of
        Some (Some e, _) \<Rightarrow> True | _ \<Rightarrow> False)"

definition flushed :: "bool \<Rightarrow> 'w buffer_state \<Rightarrow> event_buffer \<Rightarrow> 'w \<Rightarrow> 'w \<Rightarrow> 'w buffer_state" where
  "flushed refused s b out pt = s\<lparr>bs_buffer := b, bs_out := out, bs_pt := pt,
     bs_refused := (if refused then Suc (bs_refused s) else bs_refused s)\<rparr>"

inductive buffer_step :: "('w, 'n) listener_env \<Rightarrow> 'w writer \<Rightarrow> 'w buffer_state \<Rightarrow> buffer_label \<Rightarrow> 'w buffer_state \<Rightarrow> bool"
  for env writer where
  append: "buffer_append env i account pt (bs_buffer s) = Some (full, b) \<Longrightarrow>
     buffer_step env writer s (Appended (appended i account pt))
       (s\<lparr>bs_buffer := b, bs_full := (if full then Suc (bs_full s) else bs_full s),
          bs_given := bs_given s @ [appended i account pt]\<rparr>)"
| flush_full: "bs_full s = Suc n \<Longrightarrow> flush_eval_events env now writer (bs_buffer s) (bs_out s) (bs_pt s) = Some (b, out, pt) \<Longrightarrow>
     buffer_step env writer s Flushed
       ((flushed (write_refused env now writer (eb_eval (bs_buffer s)) (bs_out s)) s b out pt)\<lparr>bs_full := n\<rparr>)"
| flush_timer: "flush_eval_events env now writer (bs_buffer s) (bs_out s) (bs_pt s) = Some (b, out, pt) \<Longrightarrow>
     buffer_step env writer s Flushed (flushed (write_refused env now writer (eb_eval (bs_buffer s)) (bs_out s)) s b out pt)"
| idle: "buffer_step env writer s Idle s"

inductive_cases step_appended: "buffer_step env writer s (Appended e) s'"
inductive_cases step_flushed: "buffer_step env writer s Flushed s'"
inductive_cases step_idle: "buffer_step env writer s Idle s'"






section \<open>Safety\<close>


















section \<open>Liveness\<close>









end
