(* ===== verification/Templates.thy ===== *)
theory Templates
  imports ListenerEvents
begin

text \<open>
  The templates topic (\<open>listener/templates.go\<close>): content sources create, update and delete templates;
  the advisories of a template are fetched and kept in \<open>template_advisory\<close>
  (\<open>template_advisories.go\<close>), and systems whose template changed are evaluated again
  (\<open>template_recalc.go\<close>).  Outside a transaction every statement commits by itself, so a failure
  leaves the ones before it.  \<open>TemplateUpdate\<close> and the rest return their error; the handler logs it.
\<close>

record template_response =
  tm_uuid :: string
  tm_name :: string
  tm_org_id :: string
  tm_description :: "string option"
  tm_arch :: string
  tm_version :: string
  tm_date :: timestamp
  tm_repository_uuids :: "string list"
  tm_environment_id :: string

record template_event =
  tv_id :: string
  tv_type :: string
  tv_source :: string
  tv_subject :: string
  tv_time :: timestamp
  tv_org_id :: string
  tv_data :: "template_response list"

record ('w, 'n) template_env =
  tn_listener :: "('w, 'n) listener_env"
  tn_parse_event :: "string \<Rightarrow> template_event option"
  tn_configured :: bool
  tn_has_client :: bool
  tn_encode_identity :: "string \<Rightarrow> string option"
  tn_exchange :: "string \<Rightarrow> 'n \<Rightarrow> string list transport \<times> 'n"
  tn_retries :: nat

section \<open>Evaluating the systems of a template again\<close>

definition lookup_template_system_inventory_ids :: "ls_faults \<Rightarrow> listener_db \<Rightarrow> int \<Rightarrow> int \<Rightarrow> ls_err + uuid list" where
  "lookup_template_system_inventory_ids faults db account template_id =
     (if faults TemplateSystems then Inl (Wrapped ''looking up template systems'' (sql_failed TemplateSystems))
      else Inr (concat (map (\<lambda>((a, s), p).
        map si_inventory_id (filter (\<lambda>r. si_id r = s \<and> si_account r = a) (ldb_inventory db)))
        (filter (\<lambda>((a, s), p). a = account \<and> sp_template_id p = Some template_id) (ldb_patch db)))))"

definition inventory_ids_to_eval_data :: "int \<Rightarrow> string \<Rightarrow> uuid list \<Rightarrow> eval_data list" where
  "inventory_ids_to_eval_data account org ids =
     map (\<lambda>i. \<lparr>ed_inventory = i, ed_account = account, ed_request = [], ed_org = Some org\<rparr>) ids"

text \<open>The error of the writer is logged; an outer \<open>None\<close> is a panic.\<close>

definition send_template_systems_recalc :: "('w, 'n) listener_env \<Rightarrow> timestamp \<Rightarrow> int \<Rightarrow> string \<Rightarrow> uuid list
    \<Rightarrow> ('w, 'n) listener_state \<Rightarrow> ('w, 'n) listener_state option" where
  "send_template_systems_recalc env now account org ids s =
     (if \<not> le_template_eval env then Some s
      else if org = [] then Some s
      else if ids = [] then Some s
      else (case eval_write_events (le_batch_size env) now (le_shuffle env) (le_enc_eval env) (le_created_writer env)
                   (inventory_ids_to_eval_data account org ids) (ls_created_topic s) of
              None \<Rightarrow> None
            | Some (err, out) \<Rightarrow> Some (s\<lparr>ls_created_topic := out\<rparr>)))"

definition send_template_recalc :: "('w, 'n) listener_env \<Rightarrow> timestamp \<Rightarrow> int \<Rightarrow> string \<Rightarrow> int
    \<Rightarrow> ('w, 'n) listener_state \<Rightarrow> (ls_err option \<times> ('w, 'n) listener_state) option" where
  "send_template_recalc env now account org template_id s =
     (if \<not> le_template_eval env then Some (None, s)
      else if org = [] then Some (None, s)
      else (case lookup_template_system_inventory_ids (le_faults env) (ls_db s) account template_id of
              Inl e \<Rightarrow> Some (Some e, s)
            | Inr ids \<Rightarrow>
                (case send_template_systems_recalc env now account org ids s of
                   None \<Rightarrow> None | Some s \<Rightarrow> Some (None, s))))"

section \<open>The advisories of a template\<close>

text \<open>\<open>Preload("Advisory")\<close> joins the name; the map holds the id of the advisory under its name.\<close>

definition advisory_name :: "listener_db \<Rightarrow> int \<Rightarrow> string" where
  "advisory_name db i = (case find (\<lambda>(n, j). j = i) (ldb_metadata db) of None \<Rightarrow> [] | Some (n, j) \<Rightarrow> n)"

definition template_rows :: "listener_db \<Rightarrow> int \<Rightarrow> int \<Rightarrow> int list" where
  "template_rows db account template_id =
     map (\<lambda>(a, t, i). i) (filter (\<lambda>(a, t, i). a = account \<and> t = template_id) (ldb_template_advisories db))"

definition look_up_template_advisories :: "ls_faults \<Rightarrow> listener_db \<Rightarrow> int \<Rightarrow> int \<Rightarrow> ls_err + (string, int) gomap" where
  "look_up_template_advisories faults db account template_id =
     (if faults StoredAdvisories then Inl (sql_failed StoredAdvisories)
      else Inr (fold (\<lambda>i m. gm_put (advisory_name db i) i m) (template_rows db account template_id) []))"

definition diff_template_advisories :: "string list \<Rightarrow> (string, int) gomap \<Rightarrow> string list \<times> int list" where
  "diff_template_advisories current stored =
     (let current_set = fold (\<lambda>n m. gm_put n () m) current [];
          to_remove = map snd (filter (\<lambda>(n, i). \<not> gm_has current_set n) stored);
          to_add = map fst (filter (\<lambda>(n, u). \<not> gm_has stored n) current_set)
      in (to_add, to_remove))"

definition look_up_advisory_metadata_ids :: "ls_faults \<Rightarrow> listener_db \<Rightarrow> string list \<Rightarrow> ls_err + (string, int) gomap" where
  "look_up_advisory_metadata_ids faults db names =
     (if faults AdvisoryIds then Inl (sql_failed AdvisoryIds)
      else Inr (fold (\<lambda>(n, i) m. gm_put n i m) (filter (\<lambda>(n, i). n \<in> set names) (ldb_metadata db)) []))"

fun build_template_advisory_rows :: "int \<Rightarrow> int \<Rightarrow> string list \<Rightarrow> (string, int) gomap \<Rightarrow> (int \<times> int \<times> int) list" where
  "build_template_advisory_rows account template_id [] name_to_id = []"
| "build_template_advisory_rows account template_id (n # ns) name_to_id =
     (case gm_get name_to_id n of
        None \<Rightarrow> build_template_advisory_rows account template_id ns name_to_id
      | Some i \<Rightarrow> (account, template_id, i) # build_template_advisory_rows account template_id ns name_to_id)"

definition delete_old_template_advisories :: "ls_faults \<Rightarrow> int \<Rightarrow> int \<Rightarrow> int list \<Rightarrow> ltx \<Rightarrow> ls_err option \<times> ltx" where
  "delete_old_template_advisories faults account template_id ids t =
     (if ids = [] then (None, t)
      else (let (ok, t) = ltx_statement faults OldAdvisoriesDelete t
            in if \<not> ok then (Some (sql_failed OldAdvisoriesDelete), t)
               else (None, t\<lparr>lt_db := (lt_db t)\<lparr>ldb_template_advisories :=
                      filter (\<lambda>(a, tm, i). \<not> (a = account \<and> tm = template_id \<and> i \<in> set ids))
                        (ldb_template_advisories (lt_db t))\<rparr>\<rparr>)))"

definition http_call_cs_template_advisories :: "('w, 'n) template_env \<Rightarrow> string \<Rightarrow> string \<Rightarrow> 'n
    \<Rightarrow> string list http_outcome \<times> 'n" where
  "http_call_cs_template_advisories env org uuid net =
     (case tn_encode_identity env org of
        None \<Rightarrow> (([], None, Some (Leaf NoHeader)), net)
      | Some header \<Rightarrow>
          if \<not> tn_has_client env then (([], None, Some (Leaf NoClient)), net)
          else (let (t, net) = tn_exchange env uuid net;
                    (data, resp, err) = client_request True True (le_debug (tn_listener env)) t []
                in (case err of
                      Some e \<Rightarrow>
                        if resp = Some 404
                        then ((data, resp, Some (Wrapped (le_error_text (tn_listener env) e) (Sentinel ErrTemplateNotFound))), net)
                        else ((data, resp, Some e), net)
                    | None \<Rightarrow> ((data, resp, None), net))))"

definition call_cs_template_advisories :: "('w, 'n) template_env \<Rightarrow> string \<Rightarrow> string \<Rightarrow> 'n
    \<Rightarrow> (http_error go_error + string list) \<times> 'n" where
  "call_cs_template_advisories env org uuid net =
     (case http_call_retry (http_call_cs_template_advisories env org uuid) [503] (tn_retries env) 0 net of
        (Inl e, net) \<Rightarrow> (Inl (Wrapped ''content sources template advisories call failed'' e), net)
      | (Inr data, net) \<Rightarrow> (Inr data, net))"

text \<open>The transaction of \<open>syncTemplateAdvisories\<close>: delete, insert, commit.\<close>

definition store_template_advisories :: "ls_faults \<Rightarrow> int \<Rightarrow> int \<Rightarrow> int list \<Rightarrow> (int \<times> int \<times> int) list \<Rightarrow> listener_db
    \<Rightarrow> ls_err + listener_db" where
  "store_template_advisories faults account template_id to_remove to_insert db =
     (case delete_old_template_advisories faults account template_id to_remove (ltx_begin db) of
        (Some e, t) \<Rightarrow> Inl (Wrapped ''deleting old template advisories'' e)
      | (None, t) \<Rightarrow>
          (let (ok, t) = (if to_insert = [] then (True, t) else ltx_statement faults NewAdvisoriesInsert t)
           in if \<not> ok then Inl (Wrapped ''bulk inserting added template advisories'' (sql_failed NewAdvisoriesInsert))
              else (let t = t\<lparr>lt_db := (lt_db t)\<lparr>ldb_template_advisories :=
                          insert_rows to_insert (ldb_template_advisories (lt_db t))\<rparr>\<rparr>;
                        (ok, t) = ltx_statement faults SyncCommit t
                    in if \<not> ok then Inl (sql_failed SyncCommit) else Inr (lt_db t))))"

definition sync_template_advisories :: "('w, 'n) template_env \<Rightarrow> timestamp \<Rightarrow> int \<Rightarrow> int \<Rightarrow> string \<Rightarrow> string
    \<Rightarrow> ('w, 'n) listener_state \<Rightarrow> (ls_err option \<times> ('w, 'n) listener_state) option" where
  "sync_template_advisories env now account template_id uuid org s =
     (let faults = le_faults (tn_listener env);
          (res, net) = call_cs_template_advisories env org uuid (ls_net s);
          s = s\<lparr>ls_net := net\<rparr>
      in (case res of
            Inl e \<Rightarrow>
              if error_is e ErrTemplateNotFound then Some (None, s)
              else Some (Some (Wrapped ''fetching current template advisories from content-sources'' (Leaf HttpFailed)), s)
          | Inr current \<Rightarrow>
              (case look_up_template_advisories faults (ls_db s) account template_id of
                 Inl e \<Rightarrow> Some (Some (Wrapped ''looking up stored template advisories'' e), s)
               | Inr stored \<Rightarrow>
                   (let (to_add, to_remove) = diff_template_advisories current stored
                    in if to_add = [] \<and> to_remove = [] then Some (None, s)
                       else (case look_up_advisory_metadata_ids faults (ls_db s) to_add of
                               Inl e \<Rightarrow> Some (Some (Wrapped ''looking up advisory metadata IDs'' e), s)
                             | Inr name_to_id \<Rightarrow>
                                 (case store_template_advisories faults account template_id to_remove
                                         (build_template_advisory_rows account template_id to_add name_to_id) (ls_db s) of
                                    Inl e \<Rightarrow> Some (Some e, s)
                                  | Inr db \<Rightarrow>
                                      (case send_template_recalc (tn_listener env) now account org template_id
                                              (s\<lparr>ls_db := db\<rparr>) of
                                         None \<Rightarrow> None
                                       | Some (err, s) \<Rightarrow> Some (None, s))))))))"

section \<open>Template events\<close>

text \<open>The three statements that remove a template; each one commits by itself.\<close>

definition unassign_template :: "int \<Rightarrow> int \<Rightarrow> listener_db \<Rightarrow> listener_db" where
  "unassign_template account template_id db = db\<lparr>ldb_patch := map (\<lambda>((a, i), p).
     ((a, i), if a = account \<and> sp_template_id p = Some template_id then p\<lparr>sp_template_id := None\<rparr> else p)) (ldb_patch db)\<rparr>"

definition remove_template :: "ls_faults \<Rightarrow> int \<Rightarrow> int \<Rightarrow> listener_db \<Rightarrow> ls_err option \<times> listener_db" where
  "remove_template faults account template_id db =
     (if faults TemplateUnassign
      then (Some (Wrapped ''removing systems from template'' (sql_failed TemplateUnassign)), db)
      else (let db = unassign_template account template_id db
            in if faults TemplateAdvisoriesDelete
               then (Some (Wrapped ''deleting template advisory relationships'' (sql_failed TemplateAdvisoriesDelete)), db)
               else (let db = db\<lparr>ldb_template_advisories := filter (\<lambda>(a, tm, i).
                           \<not> (tm = template_id \<and> a = account)) (ldb_template_advisories db)\<rparr>
                     in if faults TemplateDeleteRow
                        then (Some (Wrapped ''deleting template'' (sql_failed TemplateDeleteRow)), db)
                        else (None, db\<lparr>ldb_templates := filter (\<lambda>r.
                                \<not> (tr_id r = template_id \<and> tr_account r = account)) (ldb_templates db)\<rparr>))))"

definition find_template :: "int \<Rightarrow> string \<Rightarrow> listener_db \<Rightarrow> template_row option" where
  "find_template account uuid db = find (\<lambda>r. tr_account r = account \<and> tr_uuid r = uuid) (ldb_templates db)"

definition template_delete :: "('w, 'n) template_env \<Rightarrow> timestamp \<Rightarrow> template_response \<Rightarrow> ('w, 'n) listener_state
    \<Rightarrow> (ls_err option \<times> ('w, 'n) listener_state) option" where
  "template_delete env now template s =
     (let faults = le_faults (tn_listener env) in
      (case get_or_create_account faults (tm_org_id template) (ls_db s) of
         (Inl e, db) \<Rightarrow> Some (Some (Wrapped ''when getting account'' e), s\<lparr>ls_db := db\<rparr>)
       | (Inr account, db) \<Rightarrow>
           (let s = s\<lparr>ls_db := db\<rparr> in
            if faults TemplateFind then Some (Some (Wrapped ''getting template_id'' (sql_failed TemplateFind)), s)
            else (let template_id = (case find_template account (tm_uuid template) db of None \<Rightarrow> 0 | Some r \<Rightarrow> tr_id r)
                  in if template_id = 0 then Some (None, s)
                     else (case send_template_recalc (tn_listener env) now account (tm_org_id template) template_id s of
                             None \<Rightarrow> None
                           | Some (Some e, s) \<Rightarrow> Some (Some (Wrapped ''sending template recalc'' e), s)
                           | Some (None, s) \<Rightarrow>
                               (let (err, db) = remove_template faults account template_id (ls_db s)
                                in Some (err, s\<lparr>ls_db := db\<rparr>)))))))"

text \<open>\<open>INSERT .. ON CONFLICT (rh_account_id, uuid) DO UPDATE\<close> of name, environment, description, creator
  and date; the id of the row.\<close>

definition upsert_template :: "template_row \<Rightarrow> listener_db \<Rightarrow> int \<times> listener_db" where
  "upsert_template row db =
     (case find_template (tr_account row) (tr_uuid row) db of
        Some old \<Rightarrow> (tr_id old, db\<lparr>ldb_templates := map (\<lambda>r.
            if tr_account r = tr_account row \<and> tr_uuid r = tr_uuid row
            then r\<lparr>tr_name := tr_name row, tr_environment_id := tr_environment_id row, tr_description := tr_description row,
                   tr_creator := tr_creator row, tr_published := tr_published row\<rparr> else r) (ldb_templates db)\<rparr>)
      | None \<Rightarrow> (ldb_next_template db, db\<lparr>ldb_templates := ldb_templates db @ [row\<lparr>tr_id := ldb_next_template db\<rparr>],
            ldb_next_template := ldb_next_template db + 1\<rparr>))"

definition template_row_of :: "int \<Rightarrow> template_response \<Rightarrow> template_row" where
  "template_row_of account template =
     (let environment = (if tm_environment_id template = [] then replace_all ''-'' [] (tm_uuid template)
                         else tm_environment_id template)
      in \<lparr>tr_id = 0, tr_account = account, tr_uuid = tm_uuid template, tr_name = tm_name template,
          tr_environment_id = environment, tr_arch = tm_arch template, tr_version = tm_version template,
          tr_description = tm_description template, tr_creator = None, tr_published = Some (tm_date template)\<rparr>)"

definition template_update :: "('w, 'n) template_env \<Rightarrow> timestamp \<Rightarrow> template_response \<Rightarrow> string
    \<Rightarrow> ('w, 'n) listener_state \<Rightarrow> (ls_err option \<times> ('w, 'n) listener_state) option" where
  "template_update env now template event_type s =
     (let faults = le_faults (tn_listener env) in
      if tm_org_id template = [] then Some (None, count_metric event_type ''error-identity'' s)
      else (case get_or_create_account faults (tm_org_id template) (ls_db s) of
              (Inl e, db) \<Rightarrow> Some (Some (Wrapped ''saving account into the database'' e), s\<lparr>ls_db := db\<rparr>)
            | (Inr account, db) \<Rightarrow>
                if faults TemplateUpsert
                then Some (Some (Wrapped ''creating/updating template from message'' (sql_failed TemplateUpsert)), s\<lparr>ls_db := db\<rparr>)
                else (let (template_id, db) = upsert_template (template_row_of account template) db; s = s\<lparr>ls_db := db\<rparr>
                      in if tn_configured env \<and> event_type = ''template-updated''
                         then (case sync_template_advisories env now account template_id (tm_uuid template)
                                      (tm_org_id template) s of
                                 None \<Rightarrow> None
                               | Some (Some e, s) \<Rightarrow> Some (Some (Wrapped ''syncing template advisories'' e), s)
                               | Some (None, s) \<Rightarrow> Some (None, s))
                         else Some (None, s))))"

definition process_template_event :: "('w, 'n) template_env \<Rightarrow> string \<Rightarrow> ls_err + string \<times> template_event" where
  "process_template_event env value =
     (case tn_parse_event env value of
        None \<Rightarrow> Inl (Wrapped ''message is not a valid JSON'' (Leaf BadTemplateJson))
      | Some event \<Rightarrow>
          Inr (trim_prefix ''com.redhat.console.repositories.'' (tv_type event),
               event\<lparr>tv_data := map (\<lambda>d. case tm_description d of
                   Some t \<Rightarrow> if is_blank t then d\<lparr>tm_description := None\<rparr> else d
                 | None \<Rightarrow> d) (tv_data event)\<rparr>))"

text \<open>The loop over the templates of an event: errors are logged, the next template is handled.\<close>

fun templates_loop :: "('w, 'n) template_env \<Rightarrow> timestamp \<Rightarrow> string \<Rightarrow> template_response list
    \<Rightarrow> ('w, 'n) listener_state \<Rightarrow> ('w, 'n) listener_state option" where
  "templates_loop env now event_type [] s = Some s"
| "templates_loop env now event_type (t # ts) s =
     (if le_bypass (tn_listener env) then templates_loop env now event_type ts (count_metric event_type ''bypassed'' s)
      else (let outcome = (if event_type = ''template-deleted'' then template_delete env now t s
                           else if event_type = ''template-updated'' \<or> event_type = ''template-created''
                           then template_update env now t event_type s
                           else Some (None, s))
            in (case outcome of None \<Rightarrow> None | Some (err, s) \<Rightarrow> templates_loop env now event_type ts s)))"

definition templates_message_handler :: "('w, 'n) template_env \<Rightarrow> timestamp \<Rightarrow> string \<Rightarrow> ('w, 'n) listener_state
    \<Rightarrow> (ls_err option \<times> ('w, 'n) listener_state) option" where
  "templates_message_handler env now msg s =
     (case process_template_event env msg of
        Inl e \<Rightarrow> Some (None, s)
      | Inr (event_type, event) \<Rightarrow>
          (case templates_loop env now event_type (tv_data event) s of
             None \<Rightarrow> None | Some s \<Rightarrow> Some (None, s)))"

end
