(* ===== verification/TemplatesLaws.thy ===== *)
theory TemplatesLaws
  imports Templates ListenerInvariant
begin

text \<open>
  What a template event leaves behind: the advisories of a synchronised template are exactly the
  known ones of content sources, and systems and advisories never refer to a template that is gone.
\<close>

section \<open>Synchronising advisories\<close>

definition metadata_ok :: "listener_db \<Rightarrow> bool" where
  "metadata_ok db \<longleftrightarrow> wf_gomap (ldb_metadata db) \<and> distinct (map snd (ldb_metadata db))
     \<and> (\<forall>(a, t, i)\<in>set (ldb_template_advisories db). i \<in> snd ` set (ldb_metadata db))"

lemma template_rows_set: "i \<in> set (template_rows db a t) \<longleftrightarrow> (a, t, i) \<in> set (ldb_template_advisories db)"
  by (force simp: template_rows_def)

lemma metadata_inj: "distinct (map snd m) \<Longrightarrow> (n, i) \<in> set m \<Longrightarrow> (n', i) \<in> set m \<Longrightarrow> n = n'"
  by (metis distinct_map inj_onD prod.inject snd_conv)

lemma advisory_name_get:
  assumes "metadata_ok db" "gm_get (ldb_metadata db) n = Some i"
  shows "advisory_name db i = n"
proof -
  have m: "(n, i) \<in> set (ldb_metadata db)" using assms(2) by (rule map_of_SomeD)
  then obtain e where e: "find (\<lambda>(n, j). j = i) (ldb_metadata db) = Some e"
    by (metis (mono_tags, lifting) case_prodI find_None_iff option.exhaust)
  then have "e \<in> set (ldb_metadata db)" "snd e = i" by (auto simp: find_Some_iff case_prod_beta)
  then have "fst e = n" using metadata_inj [of "ldb_metadata db" n i "fst e"] m assms(1) by (auto simp: metadata_ok_def)
  then show ?thesis using e by (auto simp: advisory_name_def split: prod.split)
qed

lemma row_name:
  assumes "metadata_ok db" "(a, t, i) \<in> set (ldb_template_advisories db)"
  shows "gm_get (ldb_metadata db) (advisory_name db i) = Some i"
proof -
  have "i \<in> snd ` set (ldb_metadata db)" using assms by (auto simp: metadata_ok_def)
  then obtain n where "gm_get (ldb_metadata db) n = Some i" using assms(1) by (auto simp: metadata_ok_def)
  then show ?thesis using advisory_name_get [OF assms(1)] by simp
qed

lemma stored_get:
  "gm_get (fold (\<lambda>i m. gm_put (f i) i m) is m) n = Some i \<Longrightarrow> i \<in> set is \<and> f i = n \<or> gm_get m n = Some i"
proof (induction "is" arbitrary: m)
  case (Cons j js)
  then have "i \<in> set js \<and> f i = n \<or> gm_get (gm_put (f j) j m) n = Some i" by simp
  then show ?case by (auto simp: gomap split: if_splits)
qed simp

lemma stored_map:
  assumes "inj_on f (set is)"
  shows "gm_get (fold (\<lambda>i m. gm_put (f i) i m) is []) n = Some i \<longleftrightarrow> i \<in> set is \<and> f i = n"
proof
  assume "gm_get (fold (\<lambda>i m. gm_put (f i) i m) is []) n = Some i"
  from stored_get [OF this] show "i \<in> set is \<and> f i = n" by (elim disjE) simp_all
next
  assume i: "i \<in> set is \<and> f i = n"
  then have "gm_has (fold (\<lambda>i m. gm_put (f i) i m) is []) n"
  proof -
    have "n \<in> f ` set is \<Longrightarrow> gm_has (fold (\<lambda>i m. gm_put (f i) i m) is m) n" for m
    proof (induction "is" arbitrary: m rule: rev_induct)
      case (snoc j js)
      then show ?case by (auto simp: gomap)
    qed simp
    then show ?thesis using i by blast
  qed
  then obtain j where j: "gm_get (fold (\<lambda>i m. gm_put (f i) i m) is []) n = Some j" by (meson not_None_eq)
  from stored_get [OF j] have "j \<in> set is \<and> f j = n" by (elim disjE) simp_all
  with j show "gm_get (fold (\<lambda>i m. gm_put (f i) i m) is []) n = Some i"
    using i inj_onD [OF assms, of j i] by simp
qed

lemma stored_wf: "wf_gomap m \<Longrightarrow> wf_gomap (fold (\<lambda>i m. gm_put (f i) (g i) m) is m)"
  by (induction "is" arbitrary: m) simp_all

lemma look_up_stored:
  assumes ok: "metadata_ok db" and run: "look_up_template_advisories faults db a t = Inr stored"
  shows "gm_get stored n = Some i \<longleftrightarrow> i \<in> set (template_rows db a t) \<and> advisory_name db i = n" and "wf_gomap stored"
proof -
  have st: "stored = fold (\<lambda>i m. gm_put (advisory_name db i) i m) (template_rows db a t) []"
    using run by (simp add: look_up_template_advisories_def split: if_splits)
  have "inj_on (advisory_name db) (set (template_rows db a t))"
  proof (rule inj_onI)
    fix i j
    assume "i \<in> set (template_rows db a t)" "j \<in> set (template_rows db a t)" and n: "advisory_name db i = advisory_name db j"
    then have i: "(a, t, i) \<in> set (ldb_template_advisories db)" and j: "(a, t, j) \<in> set (ldb_template_advisories db)"
      by (simp_all add: template_rows_set)
    have "Some i = Some j"
      by (rule trans [OF row_name [OF ok i, symmetric] row_name [OF ok j, folded n]])
    then show "i = j" by simp
  qed
  then show "gm_get stored n = Some i \<longleftrightarrow> i \<in> set (template_rows db a t) \<and> advisory_name db i = n"
    unfolding st by (rule stored_map)
  show "wf_gomap stored" unfolding st by (rule stored_wf) simp
qed

lemma current_set: "fst ` set (fold (\<lambda>n m. gm_put n () m) ns m) = fst ` set m \<union> set ns"
  by (induction ns arbitrary: m) (auto simp: dom_update)

lemma current_has: "gm_has (fold (\<lambda>n m. gm_put n () m) ns []) n \<longleftrightarrow> n \<in> set ns"
  unfolding gm_has_mem current_set by simp

lemma diff_spec:
  assumes "diff_template_advisories current stored = (to_add, to_remove)" "wf_gomap stored"
  shows "set to_add = {n \<in> set current. gm_get stored n = None}"
    and "set to_remove = {i. \<exists>n. gm_get stored n = Some i \<and> n \<notin> set current}"
proof -
  let ?cs = "fold (\<lambda>n m. gm_put n () m) current []"
  have "to_add = map fst (filter (\<lambda>(n, u). \<not> gm_has stored n) ?cs)"
    and rem: "to_remove = map snd (filter (\<lambda>(n, i). \<not> gm_has ?cs n) stored)"
    using assms(1) by (simp_all add: diff_template_advisories_def Let_def)
  then have "set to_add = {n \<in> fst ` set ?cs. gm_get stored n = None}" by force
  then show "set to_add = {n \<in> set current. gm_get stored n = None}" by (simp add: current_set)
  have "set to_remove = {i. \<exists>n. (n, i) \<in> set stored \<and> n \<notin> set current}"
  proof -
    have "filter (\<lambda>(n, i). \<not> gm_has ?cs n) stored = filter (\<lambda>(n, i). n \<notin> set current) stored"
      unfolding current_has ..
    then show ?thesis unfolding rem by force
  qed
  then show "set to_remove = {i. \<exists>n. gm_get stored n = Some i \<and> n \<notin> set current}"
    using assms(2) by simp
qed

lemma put_all_get:
  "gm_get (fold (\<lambda>(n, i) m. gm_put n i m) es m) n = (case map_of (rev es) n of Some i \<Rightarrow> Some i | None \<Rightarrow> gm_get m n)"
  by (induction es arbitrary: m) (auto simp: gomap map_add_def split: option.splits)

lemma look_up_ids:
  assumes "metadata_ok db" "look_up_advisory_metadata_ids faults db names = Inr ids" "n \<in> set names"
  shows "gm_get ids n = gm_get (ldb_metadata db) n"
proof -
  let ?es = "filter (\<lambda>(n, i). n \<in> set names) (ldb_metadata db)"
  have ids: "ids = fold (\<lambda>(n, i) m. gm_put n i m) ?es []"
    using assms(2) by (simp add: look_up_advisory_metadata_ids_def split: if_splits)
  have wf: "wf_gomap ?es" using assms(1) by (simp add: metadata_ok_def distinct_map_filter)
  have "map_of (rev ?es) n = map_of ?es n"
  proof (rule option_eqI)
    fix i
    have "wf_gomap (rev ?es)" using wf by (simp only: rev_map [symmetric] distinct_rev)
    then have "(map_of (rev ?es) n = Some i) = ((n, i) \<in> set (rev ?es))" by (rule gm_get_mem)
    also have "\<dots> = (map_of ?es n = Some i)" using gm_get_mem [OF wf, of n i] by simp
    finally show "(map_of (rev ?es) n = Some i) = (map_of ?es n = Some i)" .
  qed
  also have "\<dots> = gm_get (ldb_metadata db) n"
  proof (rule option_eqI)
    fix i
    show "(map_of ?es n = Some i) = (gm_get (ldb_metadata db) n = Some i)"
      using wf assms(1,3) by (simp add: metadata_ok_def)
  qed
  finally show ?thesis by (simp add: ids put_all_get split: option.split)
qed

lemma build_rows_set:
  "set (build_template_advisory_rows a t ns m) = {(a, t, i) | i. \<exists>n\<in>set ns. gm_get m n = Some i}"
  by (induction ns) (auto split: option.splits)

lemma store_advisories_Inr:
  assumes "store_template_advisories faults a t to_remove to_insert db = Inr db'"
  shows "set (ldb_template_advisories db') =
      {k \<in> set (ldb_template_advisories db). \<not> (\<exists>i\<in>set to_remove. k = (a, t, i))} \<union> set to_insert"
    and "db' = db\<lparr>ldb_template_advisories := ldb_template_advisories db'\<rparr>"
proof -
  let ?kept = "filter (\<lambda>(a', t', i). \<not> (a' = a \<and> t' = t \<and> i \<in> set to_remove)) (ldb_template_advisories db)"
  have "filter (\<lambda>(a', t', i). True) xs = xs" for xs :: "(int \<times> int \<times> int) list" by (induction xs) auto
  then have db': "db' = db\<lparr>ldb_template_advisories := insert_rows to_insert ?kept\<rparr>"
    using assms
    by (auto simp: store_template_advisories_def delete_old_template_advisories_def ltx ltx_begin_def
        ltx_statement_def Let_def split: if_splits)
  show "set (ldb_template_advisories db') =
      {k \<in> set (ldb_template_advisories db). \<not> (\<exists>i\<in>set to_remove. k = (a, t, i))} \<union> set to_insert"
    by (auto simp: db' insert_rows_set)
  show "db' = db\<lparr>ldb_template_advisories := ldb_template_advisories db'\<rparr>" by (simp add: db')
qed

lemma send_template_recalc_db:
  "send_template_recalc env now account org t s = Some (err, s') \<Longrightarrow> ls_db s' = ls_db s"
  by (auto simp: send_template_recalc_def send_template_systems_recalc_def
      split: if_splits sum.splits option.splits prod.splits)

text \<open>A synchronisation that ends without an error either found nothing to do or stored its rows.\<close>

lemma sync_done:
  assumes run: "sync_template_advisories env now a t uuid org s = Some (None, s')"
    and cs: "call_cs_template_advisories env org uuid (ls_net s) = (Inr current, net')"
  obtains stored to_add to_remove where
    "look_up_template_advisories (le_faults (tn_listener env)) (ls_db s) a t = Inr stored"
    "diff_template_advisories current stored = (to_add, to_remove)"
    "to_add = [] \<and> to_remove = [] \<and> ls_db s' = ls_db s
     \<or> (\<exists>ids. look_up_advisory_metadata_ids (le_faults (tn_listener env)) (ls_db s) to_add = Inr ids
          \<and> store_template_advisories (le_faults (tn_listener env)) a t to_remove
               (build_template_advisory_rows a t to_add ids) (ls_db s) = Inr (ls_db s'))"
proof -
  obtain stored where st: "look_up_template_advisories (le_faults (tn_listener env)) (ls_db s) a t = Inr stored"
    using run cs by (auto simp: sync_template_advisories_def Let_def split: sum.splits)
  obtain to_add to_remove where d: "diff_template_advisories current stored = (to_add, to_remove)"
    by (cases "diff_template_advisories current stored")
  show ?thesis
  proof (rule that [OF st d])
    show "to_add = [] \<and> to_remove = [] \<and> ls_db s' = ls_db s
     \<or> (\<exists>ids. look_up_advisory_metadata_ids (le_faults (tn_listener env)) (ls_db s) to_add = Inr ids
          \<and> store_template_advisories (le_faults (tn_listener env)) a t to_remove
               (build_template_advisory_rows a t to_add ids) (ls_db s) = Inr (ls_db s'))"
      using run cs st d
      by (auto simp: sync_template_advisories_def Let_def dest!: send_template_recalc_db
          split: sum.splits option.splits if_splits prod.splits)
  qed
qed

lemma stored_rows_after:
  assumes ok: "metadata_ok db" and ids: "\<And>n. n \<in> set to_add \<Longrightarrow> gm_get ids n = gm_get (ldb_metadata db) n"
    and add: "set to_add = {n \<in> set current. gm_get stored n = None}"
    and rem: "set to_remove = {i. \<exists>n. gm_get stored n = Some i \<and> n \<notin> set current}"
    and stored: "\<And>n i. gm_get stored n = Some i \<longleftrightarrow> i \<in> set (template_rows db a t) \<and> advisory_name db i = n"
  shows "(set (template_rows db a t) - set to_remove) \<union> {i. \<exists>n\<in>set to_add. gm_get ids n = Some i}
       = {i. \<exists>n\<in>set current. gm_get (ldb_metadata db) n = Some i}"
proof (intro set_eqI iffI)
  fix i
  assume "i \<in> (set (template_rows db a t) - set to_remove) \<union> {i. \<exists>n\<in>set to_add. gm_get ids n = Some i}"
  then consider (kept) "i \<in> set (template_rows db a t)" "i \<notin> set to_remove"
    | (new) n where "n \<in> set to_add" "gm_get ids n = Some i" by blast
  then show "i \<in> {i. \<exists>n\<in>set current. gm_get (ldb_metadata db) n = Some i}"
  proof cases
    case kept
    then have st: "gm_get stored (advisory_name db i) = Some i" using stored [THEN iffD2, OF conjI [OF _ refl]] by iprover
    have "advisory_name db i \<in> set current"
    proof (rule ccontr)
      assume "advisory_name db i \<notin> set current"
      then have "i \<in> set to_remove" using st unfolding rem by (intro CollectI exI conjI)
      then show False using kept(2) by contradiction
    qed
    moreover have "gm_get (ldb_metadata db) (advisory_name db i) = Some i"
      using row_name [OF ok] kept(1) by (simp add: template_rows_set)
    ultimately show ?thesis by blast
  next
    case new
    then show ?thesis using ids add by auto
  qed
next
  fix i
  assume "i \<in> {i. \<exists>n\<in>set current. gm_get (ldb_metadata db) n = Some i}"
  then obtain n where n: "n \<in> set current" "gm_get (ldb_metadata db) n = Some i" by blast
  show "i \<in> (set (template_rows db a t) - set to_remove) \<union> {i. \<exists>n\<in>set to_add. gm_get ids n = Some i}"
  proof (cases "i \<in> set (template_rows db a t)")
    case True
    have "i \<notin> set to_remove"
    proof
      assume "i \<in> set to_remove"
      then obtain m where "gm_get stored m = Some i" "m \<notin> set current" unfolding rem by blast
      moreover from this(1) have "advisory_name db i = m" using stored [THEN iffD1] by iprover
      ultimately show False using advisory_name_get [OF ok n(2)] n(1) by simp
    qed
    then show ?thesis using True by blast
  next
    case False
    have "gm_get stored n = None"
    proof (rule ccontr)
      assume "gm_get stored n \<noteq> None"
      then obtain j where "gm_get stored n = Some j" by blast
      then have j: "j \<in> set (template_rows db a t)" "advisory_name db j = n" using stored [THEN iffD1] by iprover+
      then have "gm_get (ldb_metadata db) n = Some j" using row_name [OF ok] by (auto simp: template_rows_set)
      then show False using n(2) j(1) False by simp
    qed
    then have "n \<in> set to_add" using n(1) add by blast
    then show ?thesis using ids n(2) by auto
  qed
qed

text \<open>C13.  After content sources answered and the synchronisation ended without an error, the template
  holds exactly the advisories content sources listed that are known in \<open>advisory_metadata\<close>; the
  advisories of other templates and every other table are as before.\<close>

theorem template_sync_exact:
  assumes run: "sync_template_advisories env now a t uuid org s = Some (None, s')"
    and cs: "call_cs_template_advisories env org uuid (ls_net s) = (Inr current, net')"
    and ok: "metadata_ok (ls_db s)"
  shows "set (template_rows (ls_db s') a t) = {i. \<exists>n\<in>set current. gm_get (ldb_metadata (ls_db s)) n = Some i}
     \<and> (\<forall>a' t'. (a', t') \<noteq> (a, t) \<longrightarrow> set (template_rows (ls_db s') a' t') = set (template_rows (ls_db s) a' t'))
     \<and> ls_db s' = (ls_db s)\<lparr>ldb_template_advisories := ldb_template_advisories (ls_db s')\<rparr>"
proof -
  obtain stored to_add to_remove where
    st: "look_up_template_advisories (le_faults (tn_listener env)) (ls_db s) a t = Inr stored"
    and d: "diff_template_advisories current stored = (to_add, to_remove)"
    and c: "to_add = [] \<and> to_remove = [] \<and> ls_db s' = ls_db s
     \<or> (\<exists>ids. look_up_advisory_metadata_ids (le_faults (tn_listener env)) (ls_db s) to_add = Inr ids
          \<and> store_template_advisories (le_faults (tn_listener env)) a t to_remove
               (build_template_advisory_rows a t to_add ids) (ls_db s) = Inr (ls_db s'))"
    using run cs by (rule sync_done)
  note stored = look_up_stored(1) [OF ok st] and sets = diff_spec [OF d look_up_stored(2) [OF ok st]]
  from c show ?thesis
  proof (elim disjE exE conjE)
    assume none: "to_add = []" "to_remove = []" and same: "ls_db s' = ls_db s"
    have "set (template_rows (ls_db s) a t) = {i. \<exists>n\<in>set current. gm_get (ldb_metadata (ls_db s)) n = Some i}"
      using stored_rows_after [OF ok _ sets stored, of "[]"] none by simp
    then show ?thesis by (simp add: same)
  next
    fix ids
    assume l: "look_up_advisory_metadata_ids (le_faults (tn_listener env)) (ls_db s) to_add = Inr ids"
      and sto: "store_template_advisories (le_faults (tn_listener env)) a t to_remove
               (build_template_advisory_rows a t to_add ids) (ls_db s) = Inr (ls_db s')"
    note rows = store_advisories_Inr(1) [OF sto]
    have "set (template_rows (ls_db s') a t)
        = (set (template_rows (ls_db s) a t) - set to_remove) \<union> {i. \<exists>n\<in>set to_add. gm_get ids n = Some i}"
      by (auto simp: template_rows_set rows build_rows_set)
    then have "set (template_rows (ls_db s') a t) = {i. \<exists>n\<in>set current. gm_get (ldb_metadata (ls_db s)) n = Some i}"
      using stored_rows_after [OF ok look_up_ids [OF ok l] sets stored] by simp
    moreover have "set (template_rows (ls_db s') a' t') = set (template_rows (ls_db s) a' t')"
      if "(a', t') \<noteq> (a, t)" for a' t'
      using that by (auto simp: template_rows_set rows build_rows_set)
    ultimately show ?thesis using store_advisories_Inr(2) [OF sto] by blast
  qed
qed

definition sample_template_env :: "(kafka_message list, unit) template_env" where
  "sample_template_env = \<lparr>tn_listener = sample_listener_env,
     tn_parse_event = (\<lambda>m. Some \<lparr>tv_id = ''1'', tv_type = ''com.redhat.console.repositories.template-deleted'', tv_source = [],
        tv_subject = [], tv_time = 0, tv_org_id = ''org'', tv_data = [\<lparr>tm_uuid = m, tm_name = [], tm_org_id = ''org'',
          tm_description = None, tm_arch = [], tm_version = [], tm_date = 0, tm_repository_uuids = [],
          tm_environment_id = []\<rparr>]\<rparr>),
     tn_configured = True, tn_has_client = True, tn_encode_identity = Some,
     tn_exchange = (\<lambda>u n. (\<lparr>tr_dump_request = True, tr_do = (Some 200, True), tr_dump_response = True,
        tr_decode = Some (Some [''RHSA-2'', ''RHSA-3'', ''unknown''])\<rparr>, n)),
     tn_retries = 1\<rparr>"

definition sample_template :: "int \<Rightarrow> string \<Rightarrow> template_row" where
  "sample_template i u = \<lparr>tr_id = i, tr_account = 1, tr_uuid = u, tr_name = u, tr_environment_id = u, tr_arch = [],
     tr_version = [], tr_description = None, tr_creator = None, tr_published = None\<rparr>"

definition template_state :: "(kafka_message list, unit) listener_state" where
  "template_state = sample_listener_state\<lparr>ls_db := sample_db\<lparr>ldb_templates := [sample_template 5 ''t5'', sample_template 6 ''t6''],
     ldb_next_template := 7, ldb_template_advisories := [(1, 5, 7), (1, 5, 8), (1, 6, 7)],
     ldb_metadata := [(''RHSA-1'', 7), (''RHSA-2'', 8), (''RHSA-3'', 9)],
     ldb_patch := [((1, 1), zero_patch\<lparr>sp_template_id := Some 5\<rparr>), ((1, 2), zero_patch\<lparr>sp_template_id := Some 6\<rparr>)]\<rparr>\<rparr>"

theorem template_sync_exact_witness:
  "\<exists>s'. sync_template_advisories sample_template_env 0 1 5 ''t5'' ''org'' template_state = Some (None, s')
     \<and> set (template_rows (ls_db s') 1 5) = {8, 9}"
proof -
  have "case sync_template_advisories sample_template_env 0 1 5 ''t5'' ''org'' template_state of
      Some (None, s') \<Rightarrow> True | _ \<Rightarrow> False" by code_simp
  then obtain s' where run: "sync_template_advisories sample_template_env 0 1 5 ''t5'' ''org'' template_state = Some (None, s')"
    by (auto split: option.splits)
  have cs: "call_cs_template_advisories sample_template_env ''org'' ''t5'' (ls_net template_state)
      = (Inr [''RHSA-2'', ''RHSA-3'', ''unknown''], ())" by code_simp
  have db: "ldb_metadata (ls_db template_state) = [(''RHSA-1'', 7), (''RHSA-2'', 8), (''RHSA-3'', 9)]"
    "ldb_template_advisories (ls_db template_state) = [(1, 5, 7), (1, 5, 8), (1, 6, 7)]"
    by (simp_all add: template_state_def)
  then have "metadata_ok (ls_db template_state)" by (simp add: metadata_ok_def)
  note template_sync_exact [OF run cs this, THEN conjunct1]
  then show ?thesis using run by (auto simp: db)
qed

section \<open>References to templates\<close>

definition template_live :: "listener_db \<Rightarrow> int \<Rightarrow> int \<Rightarrow> bool" where
  "template_live db a t \<longleftrightarrow> (\<exists>r\<in>set (ldb_templates db). tr_account r = a \<and> tr_id r = t)"

definition templates_ok :: "listener_db \<Rightarrow> bool" where
  "templates_ok db \<longleftrightarrow> distinct (map (\<lambda>r. (tr_account r, tr_uuid r)) (ldb_templates db))
     \<and> distinct (map tr_id (ldb_templates db)) \<and> (\<forall>r\<in>set (ldb_templates db). 0 < tr_id r \<and> tr_id r < ldb_next_template db)
     \<and> 0 < ldb_next_template db"

definition template_refs :: "listener_db \<Rightarrow> bool" where
  "template_refs db \<longleftrightarrow> templates_ok db
     \<and> (\<forall>((a, s), p)\<in>set (ldb_patch db). \<forall>t. sp_template_id p = Some t \<longrightarrow> template_live db a t)
     \<and> (\<forall>(a, t, i)\<in>set (ldb_template_advisories db). template_live db a t)"

lemma template_refsI:
  assumes "templates_ok db"
    and "\<And>a s p t. ((a, s), p) \<in> set (ldb_patch db) \<Longrightarrow> sp_template_id p = Some t \<Longrightarrow> template_live db a t"
    and "\<And>a t i. (a, t, i) \<in> set (ldb_template_advisories db) \<Longrightarrow> template_live db a t"
  shows "template_refs db"
  using assms by (fastforce simp: template_refs_def)

lemma template_refsD:
  assumes "template_refs db"
  shows "templates_ok db"
    and "((a, s), p) \<in> set (ldb_patch db) \<Longrightarrow> sp_template_id p = Some t \<Longrightarrow> template_live db a t"
    and "(a, t, i) \<in> set (ldb_template_advisories db) \<Longrightarrow> template_live db a t"
  using assms by (fastforce simp: template_refs_def)+

text \<open>The part of the tables the references are about.\<close>

definition template_part :: "listener_db \<Rightarrow> _" where
  "template_part db = (ldb_templates db, ldb_next_template db, ldb_template_advisories db, ldb_patch db)"

lemma template_part_refs: "template_part db' = template_part db \<Longrightarrow> template_refs db' = template_refs db"
  by (simp add: template_part_def template_refs_def templates_ok_def template_live_def)

lemma account_part: "get_or_create_account faults org db = (r, db') \<Longrightarrow> template_part db' = template_part db"
  by (auto simp: get_or_create_account_def template_part_def Let_def split: if_splits option.splits)

lemma unassign_fields [simp]:
  "ldb_templates (unassign_template a t db) = ldb_templates db"
  "ldb_next_template (unassign_template a t db) = ldb_next_template db"
  "ldb_template_advisories (unassign_template a t db) = ldb_template_advisories db"
  by (simp_all add: unassign_template_def)

lemma unassign_patch:
  assumes "((b, s), p) \<in> set (ldb_patch (unassign_template a t db))" "sp_template_id p = Some u"
  obtains p' where "((b, s), p') \<in> set (ldb_patch db)" "sp_template_id p' = Some u" "(b, u) \<noteq> (a, t)"
  using assms by (fastforce simp: unassign_template_def split: if_splits)

lemma unassign_refs:
  assumes "template_refs db"
  shows "template_refs (unassign_template a t db)"
proof (rule template_refsI)
  fix b s p u
  assume "((b, s), p) \<in> set (ldb_patch (unassign_template a t db))" "sp_template_id p = Some u"
  then show "template_live (unassign_template a t db) b u"
    by (rule unassign_patch) (use template_refsD(2) [OF assms] in \<open>simp add: template_live_def\<close>)
qed (use template_refsD(1,3) [OF assms] in \<open>simp_all add: templates_ok_def template_live_def\<close>)

lemma fewer_advisories_refs:
  assumes "template_refs db" "set adv \<subseteq> set (ldb_template_advisories db)"
  shows "template_refs (db\<lparr>ldb_template_advisories := adv\<rparr>)"
  by (rule template_refsI)
    (use template_refsD [OF assms(1)] assms(2) in \<open>auto simp: templates_ok_def template_live_def\<close>)

lemma drop_template_refs:
  assumes "template_refs db"
    and "\<And>s p. ((a, s), p) \<in> set (ldb_patch db) \<Longrightarrow> sp_template_id p \<noteq> Some t"
    and "\<And>i. (a, t, i) \<notin> set (ldb_template_advisories db)"
  shows "template_refs (db\<lparr>ldb_templates := filter (\<lambda>r. \<not> (tr_id r = t \<and> tr_account r = a)) (ldb_templates db)\<rparr>)"
    (is "template_refs ?db")
proof -
  have live: "template_live ?db b u" if "template_live db b u" "(b, u) \<noteq> (a, t)" for b u
    using that by (auto simp: template_live_def)
  show ?thesis
  proof (rule template_refsI)
    show "templates_ok ?db" using template_refsD(1) [OF assms(1)] by (simp add: templates_ok_def distinct_map_filter)
  next
    fix b s p u
    assume "((b, s), p) \<in> set (ldb_patch ?db)" "sp_template_id p = Some u"
    then show "template_live ?db b u" using template_refsD(2) [OF assms(1)] assms(2) live by fastforce
  next
    fix b u i
    assume "(b, u, i) \<in> set (ldb_template_advisories ?db)"
    then show "template_live ?db b u" using template_refsD(3) [OF assms(1)] assms(3) live by fastforce
  qed
qed

lemma remove_template_refs:
  assumes refs: "template_refs db" and run: "remove_template faults a t db = (err, db')"
  shows "template_refs db'" and "err = None \<Longrightarrow> \<not> template_live db' a t"
proof -
  let ?un = "unassign_template a t db"
  let ?del = "?un\<lparr>ldb_template_advisories := filter (\<lambda>(a', tm, i). \<not> (tm = t \<and> a' = a)) (ldb_template_advisories ?un)\<rparr>"
  let ?all = "?del\<lparr>ldb_templates := filter (\<lambda>r. \<not> (tr_id r = t \<and> tr_account r = a)) (ldb_templates ?del)\<rparr>"
  have db': "db' = db \<and> err \<noteq> None \<or> db' = ?un \<and> err \<noteq> None \<or> db' = ?del \<and> err \<noteq> None \<or> db' = ?all"
    using run by (auto simp: remove_template_def Let_def split: if_splits)
  have un: "template_refs ?un" using refs by (rule unassign_refs)
  have del: "template_refs ?del" by (rule fewer_advisories_refs [OF un]) auto
  have "template_refs ?all"
    by (rule drop_template_refs [OF del]) (auto elim!: unassign_patch)
  then show "template_refs db'" using db' refs un del by auto
  show "\<not> template_live db' a t" if "err = None" using db' that by (auto simp: template_live_def)
qed

text \<open>An upsert of a template, and the rows of a synchronisation.\<close>

lemma find_template_Some:
  "find_template a u db = Some r \<Longrightarrow> r \<in> set (ldb_templates db) \<and> tr_account r = a \<and> tr_uuid r = u"
  by (auto simp: find_template_def find_Some_iff)

lemma find_template_None: "find_template a u db = None \<Longrightarrow> (a, u) \<notin> (\<lambda>r. (tr_account r, tr_uuid r)) ` set (ldb_templates db)"
  by (auto simp: find_template_def find_None_iff)

lemma upsert_template_part:
  assumes "upsert_template row db = (i, db')"
  shows "ldb_patch db' = ldb_patch db" and "ldb_template_advisories db' = ldb_template_advisories db"
  using assms by (auto simp: upsert_template_def split: option.splits)

lemma upsert_template_cases:
  assumes "upsert_template row db = (i, db')"
  obtains (found) old f where "find_template (tr_account row) (tr_uuid row) db = Some old" "i = tr_id old"
      "ldb_templates db' = map f (ldb_templates db)" "ldb_next_template db' = ldb_next_template db"
      "\<And>r. tr_account (f r) = tr_account r" "\<And>r. tr_uuid (f r) = tr_uuid r" "\<And>r. tr_id (f r) = tr_id r"
    | (new) "find_template (tr_account row) (tr_uuid row) db = None" "i = ldb_next_template db"
      "ldb_templates db' = ldb_templates db @ [row\<lparr>tr_id := i\<rparr>]" "ldb_next_template db' = i + 1"
proof (cases "find_template (tr_account row) (tr_uuid row) db")
  case (Some old)
  let ?f = "\<lambda>r. if tr_account r = tr_account row \<and> tr_uuid r = tr_uuid row
    then r\<lparr>tr_name := tr_name row, tr_environment_id := tr_environment_id row, tr_description := tr_description row,
           tr_creator := tr_creator row, tr_published := tr_published row\<rparr> else r"
  have "i = tr_id old" "ldb_templates db' = map ?f (ldb_templates db)" "ldb_next_template db' = ldb_next_template db"
    using assms Some by (auto simp: upsert_template_def)
  then show ?thesis by (rule found [OF Some]) simp_all
next
  case None
  show ?thesis by (rule new [OF None]) (use assms None in \<open>auto simp: upsert_template_def\<close>)
qed

lemma upsert_template_live:
  assumes "upsert_template row db = (i, db')"
  shows "template_live db' (tr_account row) i" and "template_live db b t \<Longrightarrow> template_live db' b t"
proof -
  show "template_live db' (tr_account row) i"
    using assms
  proof (cases rule: upsert_template_cases)
    case (found old f)
    then show ?thesis using find_template_Some [OF found(1)] unfolding template_live_def found(3) set_map bex_simps found(5,7)
      by blast
  qed (simp add: template_live_def)
  show "template_live db' b t" if "template_live db b t"
    using assms
  proof (cases rule: upsert_template_cases)
    case (found old f)
    show ?thesis using that unfolding template_live_def found(3) set_map bex_simps found(5,7) .
  qed (use that in \<open>simp add: template_live_def\<close>)
qed

lemma upsert_template_ok:
  assumes ok: "templates_ok db" and up: "upsert_template row db = (i, db')"
  shows "templates_ok db'"
  using up
proof (cases rule: upsert_template_cases)
  case (found old f)
  then show ?thesis using ok by (simp add: templates_ok_def comp_def)
next
  case new
  then show ?thesis using ok find_template_None [OF new(1)] by (auto simp: templates_ok_def)
qed

lemma upsert_template_refs:
  assumes refs: "template_refs db" and up: "upsert_template row db = (i, db')"
  shows "template_refs db'"
proof (rule template_refsI)
  show "templates_ok db'" using template_refsD(1) [OF refs] up by (rule upsert_template_ok)
next
  fix a s p t
  assume "((a, s), p) \<in> set (ldb_patch db')" "sp_template_id p = Some t"
  then show "template_live db' a t"
    using upsert_template_live(2) [OF up template_refsD(2) [OF refs]] upsert_template_part(1) [OF up] by simp
next
  fix a t j
  assume "(a, t, j) \<in> set (ldb_template_advisories db')"
  then show "template_live db' a t"
    using upsert_template_live(2) [OF up template_refsD(3) [OF refs]] upsert_template_part(2) [OF up] by simp
qed

lemma sync_part:
  assumes "sync_template_advisories env now a t uuid org s = Some (err, s')"
  obtains (same) "ls_db s' = ls_db s"
    | (stored) to_remove names ids db where
      "store_template_advisories (le_faults (tn_listener env)) a t to_remove
         (build_template_advisory_rows a t names ids) (ls_db s) = Inr db" "ls_db s' = db"
  using assms
  by (auto simp: sync_template_advisories_def Let_def dest!: send_template_recalc_db
      split: sum.splits option.splits if_splits prod.splits)

lemma sync_refs:
  assumes refs: "template_refs (ls_db s)" and live: "template_live (ls_db s) a t"
    and run: "sync_template_advisories env now a t uuid org s = Some (err, s')"
  shows "template_refs (ls_db s')"
  using run
proof (cases rule: sync_part)
  case same
  then show ?thesis using refs by simp
next
  case (stored to_remove names ids db)
  note D = template_refsD [OF refs]
  note db = store_advisories_Inr [OF stored(1)]
  have l: "template_live db b u = template_live (ls_db s) b u" for b u by (subst db(2)) (simp add: template_live_def)
  have "templates_ok db" using D(1) by (subst db(2)) (simp add: templates_ok_def)
  moreover have "ldb_patch db = ldb_patch (ls_db s)" by (subst db(2)) simp
  moreover have "b = a \<and> u = t \<or> (b, u, j) \<in> set (ldb_template_advisories (ls_db s))"
    if "(b, u, j) \<in> set (ldb_template_advisories db)" for b u j
    using that unfolding db(1) build_rows_set by auto
  ultimately show ?thesis unfolding stored(2) using D(2,3) live l by (auto intro!: template_refsI) blast
qed

lemma template_delete_refs:
  assumes refs: "template_refs (ls_db s)" and run: "template_delete env now tm s = Some (err, s')"
  shows "template_refs (ls_db s')"
proof (cases "get_or_create_account (le_faults (tn_listener env)) (tm_org_id tm) (ls_db s)")
  case (Pair acc db)
  have db: "template_refs db" using template_part_refs [OF account_part [OF Pair]] refs by simp
  show ?thesis using run Pair db remove_template_refs(1)
    by (auto simp: template_delete_def Let_def dest!: send_template_recalc_db
        split: sum.splits if_splits option.splits prod.splits)
qed

lemma template_update_refs:
  assumes refs: "template_refs (ls_db s)" and run: "template_update env now tm event_type s = Some (err, s')"
  shows "template_refs (ls_db s')"
proof (cases "get_or_create_account (le_faults (tn_listener env)) (tm_org_id tm) (ls_db s)")
  case (Pair acc db)
  have db: "template_refs db" using template_part_refs [OF account_part [OF Pair]] refs by simp
  show ?thesis
  proof (cases acc)
    case (Inl e)
    then show ?thesis using run Pair db refs
      by (auto simp: template_update_def count_metric_def Let_def split: if_splits)
  next
    case (Inr a)
    obtain i db2 where up: "upsert_template (template_row_of a tm) db = (i, db2)"
      by (cases "upsert_template (template_row_of a tm) db")
    have r2: "template_refs db2" using db up by (rule upsert_template_refs)
    have "template_live db2 a i" using upsert_template_live(1) [OF up] by (simp add: template_row_of_def Let_def)
    then have "template_refs (ls_db s2)"
      if "sync_template_advisories env now a i u org (s\<lparr>ls_db := db2\<rparr>) = Some (e, s2)" for u org e s2
      using sync_refs [OF _ _ that] r2 by simp
    then show ?thesis using run Pair Inr up r2 db refs
      by (auto simp: template_update_def count_metric_def Let_def split: if_splits option.splits prod.splits)
  qed
qed

lemma templates_loop_refs:
  "templates_loop env now event_type ts s = Some s' \<Longrightarrow> template_refs (ls_db s) \<Longrightarrow> template_refs (ls_db s')"
proof (induction ts arbitrary: s)
  case (Cons t ts)
  show ?case
  proof (cases "le_bypass (tn_listener env)")
    case True
    then show ?thesis using Cons.IH [of "count_metric event_type ''bypassed'' s"] Cons.prems by (simp add: count_metric_def)
  next
    case False
    then obtain err s1 where "err = None \<and> s1 = s \<or> template_delete env now t s = Some (err, s1)
        \<or> template_update env now t event_type s = Some (err, s1)" "templates_loop env now event_type ts s1 = Some s'"
      using Cons.prems(1) by (auto simp: Let_def split: option.splits prod.splits if_splits)
    then show ?thesis using Cons.IH Cons.prems(2) template_delete_refs template_update_refs by blast
  qed
qed simp

lemma templates_handler_refs:
  "templates_message_handler env now msg s = Some (res, s') \<Longrightarrow> template_refs (ls_db s) \<Longrightarrow> template_refs (ls_db s')"
  by (auto simp: templates_message_handler_def split: sum.splits option.splits dest: templates_loop_refs)

lemma gm_put_set: "x \<in> set (gm_put k v m) \<Longrightarrow> x = (k, v) \<or> x \<in> set m"
  by (induction m) (auto split: if_splits)

text \<open>An upload only ever assigns a template of the account that exists.\<close>

lemma host_template_live:
  assumes "host_template env account h t net = (Some i, t', net')"
  shows "template_live (lt_db t) account i"
  using assms
  by (auto simp: host_template_def get_template_def ltx template_live_def Let_def filter_eq_Cons_iff
      split: if_splits option.splits sum.splits prod.splits list.splits)

lemma upsert_patch_refs:
  assumes refs: "template_refs db" and live: "\<And>i. tid = Some i \<Longrightarrow> template_live db a i"
  shows "template_refs (snd (upsert_patch a s tid cols db))"
proof -
  let ?db = "snd (upsert_patch a s tid cols db)"
  note D = template_refsD [OF refs]
  have l: "template_live ?db b u = template_live db b u" for b u by (simp add: template_live_def upsert_patch_frame)
  have "template_live db b u" if "((b, s'), p) \<in> set (ldb_patch ?db)" "sp_template_id p = Some u" for b s' p u
  proof -
    have "((b, s'), p) \<in> set (ldb_patch db) \<or> b = a \<and> (sp_template_id p = tid
        \<or> (\<exists>q. ((a, s), q) \<in> set (ldb_patch db) \<and> sp_template_id p = sp_template_id q))"
      using that(1) by (auto simp: upsert_patch_def split: option.splits if_splits dest!: gm_put_set map_of_SomeD)
    then show ?thesis using that(2) D(2) live by auto
  qed
  then show ?thesis using D(1,3)
    by (auto intro!: template_refsI simp: l templates_ok_def upsert_patch_frame)
qed

lemma process_upload_refs:
  assumes refs: "template_refs db" and run: "process_upload env now h yum db net = (Inr (Some sys), db', net')"
  shows "template_refs db'"
proof -
  obtain account db0 json ws tid ta tb t1 net0 net1 where
    acc: "get_or_create_account (le_faults env) (get_org_id h) db = (Inr account, db0)"
    and ht: "host_template env account h t1 net0 = (tid, ta, net1)" and t1: "lt_db t1 = db0" and tb: "lt_db tb = db'"
    and st: "store_system env now account h (uploaded_system env account h yum json ws tid) (le_sha256 env json)
       (le_sha256 env (get_raw_parsed yum)) (rq_repository_list (upload_request env h)) ta = (Inr sys, tb)"
    using run by (rule process_upload_template) blast
  let ?u = "uploaded_system env account h yum json ws tid"
  have ta: "lt_db ta = db0" using host_template_db [OF ht] t1 by simp
  obtain tm cols where sou: "store_or_update_sys_platform (le_faults env) now ?u cols ta = (Inr sys, tm)"
    and rest: "tb = tm \<or> (\<exists>counts. update_repos (le_faults env) (le_scan_ids env) (ho_profile h) account
        (si_id (pl_inventory sys)) (rq_repository_list (upload_request env h)) tm = (Inr counts, tb))"
    using st by (rule store_system_Inr) blast
  obtain row db1 existing where
    up: "upsert_inventory now cols ((pl_inventory ?u)\<lparr>si_id := existing\<rparr>) (lt_db ta) = (row, db1)"
    and tm: "lt_db tm = snd (upsert_patch (si_account row) (si_id row) (sp_template_id (pl_patch ?u))
        (if sp_template_id (pl_patch ?u) \<noteq> None then [''template_id''] else []) db1)"
    using sou by (rule store_or_update_Inr)
  have part: "template_part db1 = template_part db"
    using up account_part [OF acc] upsert_inventory_frame [of now cols "(pl_inventory ?u)\<lparr>si_id := existing\<rparr>" "lt_db ta"] ta
    by (simp add: template_part_def)
  have "si_account row = account" using upsert_inventory_find(2) [OF up] by (simp add: uploaded_inventory)
  moreover have "template_live db1 account i" if "tid = Some i" for i
    using host_template_live [of env account h t1 net0 i ta net1] ht that part t1 account_part [OF acc]
    by (simp add: template_live_def template_part_def)
  moreover have "sp_template_id (pl_patch ?u) = tid" by (simp add: uploaded_system_def)
  ultimately have "template_refs (lt_db tm)"
    unfolding tm using template_part_refs [OF part] refs by (intro upsert_patch_refs) simp_all
  then show ?thesis
    using rest update_repos_frame template_part_refs [of "lt_db tb" "lt_db tm"] tb
    by (auto simp: template_part_def)
qed

lemma same_systems_refs:
  assumes "template_refs db" "process_upload env now h yum db net = (r, db', net')" "\<forall>sys. r \<noteq> Inr (Some sys)"
  shows "template_refs db'"
proof (cases "get_or_create_account (le_faults env) (get_org_id h) db")
  case (Pair acc db0)
  then have "db' = db0 \<or> db' = db"
    using assms(2,3) by (auto simp: process_upload_def Let_def split: sum.splits prod.splits if_splits option.splits)
  then show ?thesis using template_part_refs [OF account_part [OF Pair]] assms(1) by auto
qed

lemma handle_upload_refs:
  assumes "template_refs (ls_db s)" "handle_upload env now event s = Some (res, s')"
  shows "template_refs (ls_db s')"
  using assms(2)
proof (cases rule: handle_upload_cases)
  case (rejected err pt)
  then show ?thesis using assms(1) by (simp add: handle_listener_errors_def)
next
  case (failed e pt yum net db net' s1)
  then show ?thesis using same_systems_refs [OF assms(1) failed(2)] by (simp add: handle_listener_errors_def)
next
  case (skipped pt yum net db net' s1)
  then show ?thesis using same_systems_refs [OF assms(1) skipped(2)] by simp
next
  case (unchanged pt yum net sys db net' s1)
  then show ?thesis using process_upload_refs [OF assms(1) unchanged(2)] by simp
next
  case (buffered pt pt' yum net sys db net' s1 s2)
  then show ?thesis using process_upload_refs [OF assms(1) buffered(2)] buffer_upload_db [OF buffered(5)] by simp
qed

lemma handle_delete_part: "handle_delete faults now event s = (res, s') \<Longrightarrow> template_part (ls_db s') = template_part (ls_db s)"
  by (auto simp: handle_delete_def mark_culled_def count_metric_def template_part_def Let_def split: if_splits)

lemma handle_delete_refs:
  "handle_delete faults now event s = (res, s') \<Longrightarrow> template_refs (ls_db s) \<Longrightarrow> template_refs (ls_db s')"
  by (simp add: template_part_refs [OF handle_delete_part])

text \<open>Messages of both topics, in any order.\<close>

inductive topics_run :: "event_codec \<Rightarrow> ('w, 'n) listener_state \<Rightarrow> ('w, 'n) listener_state \<Rightarrow> bool"
  for codec where
  topics_start: "topics_run codec s s"
| topics_event: "topics_run codec s s1 \<Longrightarrow> events_message_handler env codec now msg s1 = Some (res, s2) \<Longrightarrow> topics_run codec s s2"
| topics_template: "topics_run codec s s1 \<Longrightarrow> templates_message_handler tenv now msg s1 = Some (res, s2) \<Longrightarrow> topics_run codec s s2"

text \<open>C12.  Whatever events and template messages arrive in whatever order, and whichever statements fail
  on the way (template statements commit one by one), every template a system is assigned to and every
  template that has advisories exists in that account, and template ids and uuids stay unique.\<close>

theorem template_references_hold:
  assumes "topics_run codec s s'" "template_refs (ls_db s)"
  shows "template_refs (ls_db s')"
  using assms
proof (induction rule: topics_run.induct)
  case (topics_start s)
  then show ?case .
next
  case (topics_event s s1 env now msg res s2)
  note refs = topics_event.IH [OF topics_event.prems]
  from topics_event.hyps(2) show ?case
    using refs handle_upload_refs [OF refs] handle_delete_refs [OF _ refs]
    by (auto simp: events_message_handler_def count_metric_def split: option.splits json_field.splits if_splits)
next
  case (topics_template s s1 tenv now msg res s2)
  then show ?case using templates_handler_refs by blast
qed

lemma template_state_refs: "template_refs (ls_db template_state)"
  by (simp add: template_refs_def templates_ok_def template_live_def template_state_def sample_template_def)

theorem template_references_hold_witness:
  "\<exists>s'. topics_run sample_codec template_state s' \<and> map tr_uuid (ldb_templates (ls_db s')) = [''t6'']
     \<and> map (\<lambda>(k, p). sp_template_id p) (ldb_patch (ls_db s')) = [None, Some 6] \<and> template_refs (ls_db s')"
proof -
  have "case templates_message_handler sample_template_env 0 ''t5'' template_state of
      Some (res, s') \<Rightarrow> map tr_uuid (ldb_templates (ls_db s')) = [''t6'']
        \<and> map (\<lambda>(k, p). sp_template_id p) (ldb_patch (ls_db s')) = [None, Some 6] | _ \<Rightarrow> False" by code_simp
  then obtain res s' where step: "templates_message_handler sample_template_env 0 ''t5'' template_state = Some (res, s')"
    and s': "map tr_uuid (ldb_templates (ls_db s')) = [''t6'']"
      "map (\<lambda>(k, p). sp_template_id p) (ldb_patch (ls_db s')) = [None, Some 6]"
    by (auto split: option.splits)
  have run: "topics_run sample_codec template_state s'" by (rule topics_template [OF topics_start step])
  show ?thesis
    by (intro exI [of _ s'] conjI run s' template_references_hold [OF run template_state_refs])
qed

section \<open>A deleted template\<close>

lemma remove_template_done:
  assumes "remove_template faults a t db = (None, db')"
  shows "map fst (ldb_patch db') = map fst (ldb_patch db)"
    and "ldb_templates db' = filter (\<lambda>r. \<not> (tr_id r = t \<and> tr_account r = a)) (ldb_templates db)"
    and "((a, s), p) \<in> set (ldb_patch db') \<Longrightarrow> sp_template_id p \<noteq> Some t"
    and "(a, t, i) \<notin> set (ldb_template_advisories db')"
  using assms by (auto simp: remove_template_def unassign_template_def Let_def split: if_splits)

lemma find_template_id:
  assumes "templates_ok db" "find_template a u db = Some r"
  shows "0 < tr_id r"
    and "find (\<lambda>r'. tr_account r' = a \<and> tr_uuid r' = u)
       (filter (\<lambda>r'. \<not> (tr_id r' = tr_id r \<and> tr_account r' = a)) (ldb_templates db)) = None"
proof -
  note r = find_template_Some [OF assms(2)]
  show "0 < tr_id r" using assms(1) r by (auto simp: templates_ok_def)
  have "r' = r" if "r' \<in> set (ldb_templates db)" "tr_account r' = a" "tr_uuid r' = u" for r'
    using inj_onD [OF conjunct2 [OF assms(1) [unfolded templates_ok_def distinct_map, THEN conjunct1]], of r' r] that r by simp
  then show "find (\<lambda>r'. tr_account r' = a \<and> tr_uuid r' = u)
       (filter (\<lambda>r'. \<not> (tr_id r' = tr_id r \<and> tr_account r' = a)) (ldb_templates db)) = None"
    by (auto simp: find_None_iff)
qed

text \<open>A deletion that ends without an error leaves no template under that organisation and uuid,
  no system assigned to it and no advisory of it; the systems that were assigned keep their rows, and only
  when template evaluation is on are evaluation requests sent for them.\<close>

theorem deleted_template_gone:
  assumes refs: "template_refs (ls_db s)" and run: "template_delete env now tm s = Some (None, s')"
    and acc: "gm_get (ldb_accounts (ls_db s)) (tm_org_id tm) = Some a"
  shows "find_template a (tm_uuid tm) (ls_db s') = None
     \<and> (\<forall>r. find_template a (tm_uuid tm) (ls_db s) = Some r \<longrightarrow>
          (\<forall>i p. ((a, i), p) \<in> set (ldb_patch (ls_db s')) \<longrightarrow> sp_template_id p \<noteq> Some (tr_id r))
        \<and> (\<forall>i. (a, tr_id r, i) \<notin> set (ldb_template_advisories (ls_db s'))))
     \<and> map fst (ldb_patch (ls_db s')) = map fst (ldb_patch (ls_db s))
     \<and> (\<not> le_template_eval (tn_listener env) \<longrightarrow> ls_created_topic s' = ls_created_topic s)"
proof -
  have a: "get_or_create_account (le_faults (tn_listener env)) (tm_org_id tm) (ls_db s) = (Inr a, ls_db s)"
    and f: "\<not> le_faults (tn_listener env) TemplateFind"
    using run acc by (auto simp: template_delete_def get_or_create_account_def Let_def split: if_splits)
  show ?thesis
  proof (cases "find_template a (tm_uuid tm) (ls_db s)")
    case None
    then show ?thesis using run a f by (auto simp: template_delete_def Let_def)
  next
    case (Some r)
    note r = find_template_id [OF template_refsD(1) [OF refs] Some]
    obtain s1 where rc: "send_template_recalc (tn_listener env) now a (tm_org_id tm) (tr_id r) s = Some (None, s1)"
      and rm: "remove_template (le_faults (tn_listener env)) a (tr_id r) (ls_db s1) = (None, ls_db s')"
      and s': "ls_created_topic s' = ls_created_topic s1"
      using run a f Some r(1)
      by (auto simp: template_delete_def Let_def split: if_splits option.splits prod.splits)
    have db: "ls_db s1 = ls_db s" using rc by (rule send_template_recalc_db)
    have "ls_created_topic s1 = ls_created_topic s" if "\<not> le_template_eval (tn_listener env)"
      using rc that by (simp add: send_template_recalc_def)
    moreover note gone = remove_template_done [OF rm [unfolded db]]
    have "find_template a (tm_uuid tm) (ls_db s') = None"
      using r(2) by (simp add: find_template_def gone(2))
    ultimately show ?thesis using gone(1,3,4) Some s' by auto
  qed
qed

theorem deleted_template_gone_witness:
  "\<exists>s' t. template_delete sample_template_env 0 t template_state = Some (None, s')
     \<and> find_template 1 ''t5'' (ls_db s') = None \<and> find_template 1 ''t5'' (ls_db template_state) \<noteq> None"
proof -
  let ?t = "\<lparr>tm_uuid = ''t5'', tm_name = [], tm_org_id = ''org'', tm_description = None, tm_arch = [], tm_version = [],
     tm_date = 0, tm_repository_uuids = [], tm_environment_id = []\<rparr>"
  have "case template_delete sample_template_env 0 ?t template_state of Some (None, s') \<Rightarrow> True | _ \<Rightarrow> False" by code_simp
  then obtain s' where run: "template_delete sample_template_env 0 ?t template_state = Some (None, s')"
    by (auto split: option.splits)
  have acc: "gm_get (ldb_accounts (ls_db template_state)) (tm_org_id ?t) = Some 1" by code_simp
  have old: "find_template 1 ''t5'' (ls_db template_state) \<noteq> None" by code_simp
  have "find_template 1 ''t5'' (ls_db s') = None"
    using deleted_template_gone [OF template_state_refs run acc] by simp
  then show ?thesis using run old by blast
qed

end
