(* ===== verification/Access.thy ===== *)
theory Access
  imports ListenerStore Retry
begin

text \<open>
  Who may see which systems: the RBAC and Kessel checks, the authentication of users and systems
  (\<open>manager/middlewares\<close>, types of \<open>base/rbac/rbac.go\<close>) and the query that every handler starts
  from (\<open>Systems\<close> in \<open>base/database/utils.go\<close>).  A middleware is a function on the request's
  context and the manager's state; \<open>None\<close> is a panic.  The identity header, the answers of RBAC
  and Kessel and the UUID parser are parameters.
\<close>

section \<open>Permissions\<close>

record attribute_filter =
  af_key :: string
  af_value :: "string option list"
  af_operation :: string

record access =
  ac_permission :: string
  ac_definitions :: "attribute_filter list"

text \<open>\<open>AttributeFilterValue.UnmarshalJSON\<close>: \<open>parse_array\<close> and \<open>parse_value\<close> are the decoder at the two
  types, \<open>None\<close> an error, \<open>Some None\<close> a JSON null.\<close>

definition unmarshal_filter_value :: "('d \<Rightarrow> string option list option option) \<Rightarrow> ('d \<Rightarrow> string option option)
    \<Rightarrow> 'd \<Rightarrow> string option list option" where
  "unmarshal_filter_value parse_array parse_value data =
     (case parse_array data of
        Some None \<Rightarrow> Some [None]
      | Some (Some array) \<Rightarrow> Some array
      | None \<Rightarrow>
          (case parse_value data of
             None \<Rightarrow> None
           | Some None \<Rightarrow> Some [None]
           | Some (Some v) \<Rightarrow> Some [Some v]))"

text \<open>\<open>strings.SplitAfterN(s, ":", n)\<close> for a positive \<open>n\<close>.\<close>

fun split_after_n :: "char \<Rightarrow> string \<Rightarrow> nat \<Rightarrow> string list" where
  "split_after_n c s 0 = []"
| "split_after_n c s (Suc 0) = [s]"
| "split_after_n c s (Suc (Suc n)) =
     (case cut_at c s of None \<Rightarrow> [s] | Some (a, b) \<Rightarrow> (a @ [c]) # split_after_n c b (Suc n))"

text \<open>A permission of fewer than three parts makes the index panic.\<close>

definition expanded_permission :: "string \<Rightarrow> string list option" where
  "expanded_permission perm =
     (case split_after_n (CHR '':'') perm 3 of
        [c0, c1, c2] \<Rightarrow> Some
          [perm, c0 @ c1 @ ''*'', c0 @ ''*:'' @ c2, ''*:'' @ c1 @ c2, c0 @ ''*:*'', ''*:'' @ c1 @ ''*'',
           ''*:*:'' @ c2, ''*:*:*'']
      | _ \<Rightarrow> None)"

definition inventory_hosts_read_perm :: string where "inventory_hosts_read_perm = ''inventory:hosts:read''"

definition patch_read_perm :: string where "patch_read_perm = ''patch:*:read''"

definition patch_write_perm :: string where "patch_write_perm = ''patch:*:write''"

definition granular_perms :: "(string, string) gomap" where
  "granular_perms = [(''TemplateSystemsUpdateHandler'', ''content-sources:templates:write''),
     (''TemplateSystemsDeleteHandler'', ''content-sources:templates:write''),
     (''SystemDeleteHandler'', ''patch:system:write'')]"

definition needed_permission :: "string \<Rightarrow> string \<Rightarrow> string option" where
  "needed_permission handler_name method =
     (case gm_get granular_perms handler_name of
        Some p \<Rightarrow> Some p
      | None \<Rightarrow>
          if method = ''GET'' \<or> method = ''POST'' then Some patch_read_perm
          else if method = ''PUT'' \<or> method = ''DELETE'' then Some patch_write_perm
          else None)"

definition expand :: "string option \<Rightarrow> string list" where
  "expand p = (case p of None \<Rightarrow> [] | Some p \<Rightarrow> the (expanded_permission p))"

fun permissions_loop :: "string list \<Rightarrow> string list \<Rightarrow> access list \<Rightarrow> bool \<Rightarrow> bool \<Rightarrow> bool" where
  "permissions_loop inventory patch [] granted_inventory granted_patch = False"
| "permissions_loop inventory patch (a # access) granted_inventory granted_patch =
     (let granted_inventory = (granted_inventory \<or> ac_permission a \<in> set inventory);
          granted_patch = (granted_patch \<or> ac_permission a \<in> set patch)
      in if granted_patch \<and> granted_inventory then True
         else permissions_loop inventory patch access granted_inventory granted_patch)"

definition check_permissions :: "access list \<Rightarrow> string \<Rightarrow> string \<Rightarrow> bool" where
  "check_permissions access handler_name method =
     permissions_loop (expand (Some inventory_hosts_read_perm)) (expand (needed_permission handler_name method))
       access False False"

section \<open>Workspaces\<close>

definition root_workspace_id :: string where
  "root_workspace_id = ''00000000-0000-0000-0000-999999999999''"

fun value_ids :: "(string \<Rightarrow> string option) \<Rightarrow> string option list \<Rightarrow> string list" where
  "value_ids parse_uuid [] = []"
| "value_ids parse_uuid (v # vs) =
     (case v of
        None \<Rightarrow> root_workspace_id # value_ids parse_uuid vs
      | Some text \<Rightarrow>
          (case parse_uuid text of
             None \<Rightarrow> value_ids parse_uuid vs
           | Some i \<Rightarrow> i # value_ids parse_uuid vs))"

text \<open>\<open>None\<close>: an operation that is neither \<open>in\<close> nor \<open>equal\<close>.\<close>

fun definition_ids :: "(string \<Rightarrow> string option) \<Rightarrow> attribute_filter list \<Rightarrow> string list option" where
  "definition_ids parse_uuid [] = Some []"
| "definition_ids parse_uuid (rd # rds) =
     (if af_key rd \<noteq> ''group.id'' then definition_ids parse_uuid rds
      else if af_operation rd \<noteq> ''in'' \<and> af_operation rd \<noteq> ''equal'' then None
      else map_option (\<lambda>ids. value_ids parse_uuid (af_value rd) @ ids) (definition_ids parse_uuid rds))"

text \<open>The loop of \<open>findInventoryWorkspaces\<close>: an error, or the list; \<open>None\<close> is the nil slice.\<close>

fun workspaces_loop :: "(string \<Rightarrow> string option) \<Rightarrow> access list \<Rightarrow> string list \<Rightarrow> (unit + string list option)" where
  "workspaces_loop parse_uuid [] ids = Inr (Some ids)"
| "workspaces_loop parse_uuid (a # access) ids =
     (if ac_permission a \<notin> set (expand (Some inventory_hosts_read_perm)) then workspaces_loop parse_uuid access ids
      else if ac_definitions a = [] then Inr None
      else (case definition_ids parse_uuid (ac_definitions a) of
              None \<Rightarrow> Inl ()
            | Some new \<Rightarrow> workspaces_loop parse_uuid access (ids @ new)))"

definition find_inventory_workspaces :: "(string \<Rightarrow> string option) \<Rightarrow> access list \<Rightarrow> (unit + string list option)" where
  "find_inventory_workspaces parse_uuid access =
     (if access = [] then Inr None else workspaces_loop parse_uuid access [])"

section \<open>Requests\<close>

record identity_user =
  iu_first :: string
  iu_last :: string
  iu_user_id :: string

record service_account =
  sv_username :: string
  sv_user_id :: string

record identity_system =
  is_cert_type :: string
  is_common_name :: string

record identity =
  id_type :: string
  id_org :: string
  id_user :: "identity_user option"
  id_service :: "service_account option"
  id_system :: "identity_system option"

record gin_context =
  gc_identity :: string
  gc_headers :: nat
  gc_handler :: string
  gc_method :: string
  gc_account :: "int option"
  gc_org :: "string option"
  gc_user :: "string option"
  gc_system :: "string option"
  gc_workspaces :: "string list option"
  gc_abort :: "(int \<times> string) option"

record manager_state =
  ms_db :: listener_db
  ms_account_cache :: "(string, int) gomap"

record access_env =
  ae_faults :: ls_faults
  ae_check_rbac :: bool
  ae_kessel :: bool
  ae_debug :: bool
  ae_parse_xrhid :: "string \<Rightarrow> identity option"
  ae_parse_uuid :: "string \<Rightarrow> string option"
  ae_rbac :: "string \<Rightarrow> access list transport"
  ae_kessel_client :: bool
  ae_list_workspaces :: "string \<Rightarrow> string \<Rightarrow> string option list"

type_synonym request_state = "gin_context \<times> manager_state"

type_synonym middleware = "request_state \<Rightarrow> request_state option"

definition abort_with :: "int \<Rightarrow> string \<Rightarrow> gin_context \<Rightarrow> gin_context" where
  "abort_with code message c = c\<lparr>gc_abort := Some (code, message)\<rparr>"

definition handler_base_name :: "gin_context \<Rightarrow> string" where
  "handler_base_name c = last (split_on (CHR ''.'') (gc_handler c))"

definition limit_request_headers :: "nat \<Rightarrow> middleware" where
  "limit_request_headers max_header_count = (\<lambda>(c, s).
     Some (if max_header_count < gc_headers c then abort_with 413 ''too many headers'' c else c, s))"

section \<open>RBAC\<close>

definition is_access_granted :: "access_env \<Rightarrow> gin_context \<Rightarrow> bool \<times> gin_context" where
  "is_access_granted env c =
     (let (access, resp, err) = client_request True True (ae_debug env) (ae_rbac env (gc_identity c)) []
      in (case err of
            Some e \<Rightarrow> (False, c)
          | None \<Rightarrow>
              if check_permissions access (handler_base_name c) (gc_method c)
              then (case find_inventory_workspaces (ae_parse_uuid env) access of
                      Inl e \<Rightarrow> (False, c\<lparr>gc_workspaces := None\<rparr>)
                    | Inr workspaces \<Rightarrow> (True, c\<lparr>gc_workspaces := workspaces\<rparr>))
              else (False, c)))"

definition rbac :: "access_env \<Rightarrow> middleware" where
  "rbac env = (\<lambda>(c, s).
     if \<not> ae_check_rbac env then Some (c, s)
     else (let (granted, c) = is_access_granted env c
           in Some (if granted then c else abort_with 401 ''You don't have access to this application'' c, s)))"

section \<open>Kessel\<close>

definition build_permission :: "gin_context \<Rightarrow> string" where
  "build_permission c =
     (let permission = (if has_prefix (handler_base_name c) ''Template'' then ''patch_template_'' else ''patch_system_'')
      in if gc_method c = ''GET'' \<or> gc_method c = ''POST'' then permission @ ''view''
         else if gc_method c = ''PATCH'' \<or> gc_method c = ''PUT'' \<or> gc_method c = ''DELETE'' then permission @ ''edit''
         else permission)"

text \<open>The stream of workspaces ends with its first error.\<close>

fun collect_stream :: "string option list \<Rightarrow> string list option" where
  "collect_stream [] = Some []"
| "collect_stream (None # rs) = None"
| "collect_stream (Some r # rs) = map_option (Cons r) (collect_stream rs)"

definition use_streamed_list_objects :: "access_env \<Rightarrow> identity \<Rightarrow> string \<Rightarrow> string list option" where
  "use_streamed_list_objects env xrhid permission =
     (let user = (case id_user xrhid of Some u \<Rightarrow> iu_user_id u | None \<Rightarrow> []);
          service = (case id_service xrhid of Some u \<Rightarrow> sv_user_id u | None \<Rightarrow> [])
      in if user \<noteq> [] then collect_stream (ae_list_workspaces env user permission)
         else if service \<noteq> [] then collect_stream (ae_list_workspaces env service permission)
         else None)"

definition has_permission_kessel :: "access_env \<Rightarrow> middleware" where
  "has_permission_kessel env = (\<lambda>(c, s). Some (
     if \<not> ae_kessel_client env then abort_with 500 ''Unexpected server error'' c
     else (case ae_parse_xrhid env (gc_identity c) of
             None \<Rightarrow> abort_with 401 ''Invalid x-rh-identity header'' c
           | Some xrhid \<Rightarrow>
               (case use_streamed_list_objects env xrhid (build_permission c) of
                  None \<Rightarrow> abort_with 500 ''Communication with RBAC failed'' c
                | Some ids \<Rightarrow>
                    if ids = [] then abort_with 401 ''Missing permission'' c
                    else c\<lparr>gc_workspaces := Some ids\<rparr>)), s))"

section \<open>Authentication\<close>

definition get_xrhid :: "access_env \<Rightarrow> gin_context \<Rightarrow> identity option \<times> gin_context" where
  "get_xrhid env c =
     (if gc_identity c = [] then (None, abort_with 401 ''Missing x-rh-identity header'' c)
      else (case ae_parse_xrhid env (gc_identity c) of
              None \<Rightarrow> (None, abort_with 401 ''Invalid x-rh-identity header'' c)
            | Some xrhid \<Rightarrow> (Some xrhid, c)))"

definition find_account :: "access_env \<Rightarrow> string \<Rightarrow> request_state \<Rightarrow> bool \<times> request_state" where
  "find_account env org = (\<lambda>(c, s).
     case gm_get (ms_account_cache s) org of
       Some i \<Rightarrow> (True, c\<lparr>gc_account := Some i, gc_org := Some org\<rparr>, s)
     | None \<Rightarrow>
         (case get_or_create_account (ae_faults env) org (ms_db s) of
            (Inl e, db) \<Rightarrow> (False, c, s\<lparr>ms_db := db\<rparr>)
          | (Inr i, db) \<Rightarrow> (True, c\<lparr>gc_account := Some i, gc_org := Some org\<rparr>,
              s\<lparr>ms_db := db, ms_account_cache := gm_put org i (ms_account_cache s)\<rparr>)))"

text \<open>A failed lookup of the account neither aborts the request nor sets an account.\<close>

definition public_authenticator :: "access_env \<Rightarrow> middleware" where
  "public_authenticator env = (\<lambda>(c, s).
     case get_xrhid env c of
       (None, c) \<Rightarrow> Some (c, s)
     | (Some xrhid, c) \<Rightarrow>
         (let (found, c, s) = find_account env (id_org xrhid) (c, s)
          in if \<not> found then Some (c, s)
             else (case id_user xrhid of
                     Some u \<Rightarrow> Some (c\<lparr>gc_user := Some (iu_first u @ '' '' @ iu_last u)\<rparr>, s)
                   | None \<Rightarrow>
                       (case id_service xrhid of
                          Some sv \<Rightarrow> Some (c\<lparr>gc_user := Some (sv_username sv)\<rparr>, s)
                        | None \<Rightarrow> Some (c, s)))))"

definition valid_system_cert_types :: "string list" where
  "valid_system_cert_types = [''system'', ''satellite'', ''hypervisor'', ''rhui'', ''sam'']"

definition system_cert_authenticator :: "access_env \<Rightarrow> middleware" where
  "system_cert_authenticator env = (\<lambda>(c, s).
     case get_xrhid env c of
       (None, c) \<Rightarrow> Some (c, s)
     | (Some xrhid, c) \<Rightarrow>
         if id_type xrhid \<noteq> ''System'' then Some (abort_with 401 ''Invalid system identity header'' c, s)
         else (case id_system xrhid of
                 None \<Rightarrow> None
               | Some sys \<Rightarrow>
                   if is_cert_type sys \<notin> set valid_system_cert_types
                   then Some (abort_with 401 ''Invalid system identity header'' c, s)
                   else (let (found, c, s) = find_account env (id_org xrhid) (c, s)
                         in if \<not> found then Some (abort_with 401 ''Invalid system identity header'' c, s)
                            else Some (c\<lparr>gc_system := Some (is_common_name sys)\<rparr>, s))))"

text \<open>The middlewares of \<open>InitAPI\<close> in front of the handlers for users and for systems.\<close>

definition user_auth :: "access_env \<Rightarrow> middleware list" where
  "user_auth env = [if ae_kessel env then has_permission_kessel env else rbac env, public_authenticator env]"

definition system_auth :: "access_env \<Rightarrow> middleware list" where
  "system_auth env = [system_cert_authenticator env]"

section \<open>The systems a request works on\<close>

text \<open>\<open>c.GetInt\<close> and \<open>c.GetStringSlice\<close>: zero values when the key is not set.\<close>

definition context_account :: "gin_context \<Rightarrow> int" where
  "context_account c = (case gc_account c of None \<Rightarrow> 0 | Some i \<Rightarrow> i)"

definition context_workspaces :: "gin_context \<Rightarrow> string list" where
  "context_workspaces c = (case gc_workspaces c of None \<Rightarrow> [] | Some ids \<Rightarrow> ids)"

definition apply_inventory_workspace_filter :: "string list \<Rightarrow> (system_inventory \<times> system_patch) list
    \<Rightarrow> (system_inventory \<times> system_patch) list" where
  "apply_inventory_workspace_filter workspace_ids rows =
     (if workspace_ids = [] then rows
      else filter (\<lambda>(si, sp). case si_workspace_id si of None \<Rightarrow> False | Some w \<Rightarrow> w \<in> set workspace_ids) rows)"

definition systems :: "listener_db \<Rightarrow> int \<Rightarrow> string list \<Rightarrow> (system_inventory \<times> system_patch) list" where
  "systems db account workspace_ids = apply_inventory_workspace_filter workspace_ids
     (concat (map (\<lambda>si. map (\<lambda>(k, sp). (si, sp)) (filter (\<lambda>((a, i), sp). i = si_id si \<and> a = si_account si) (ldb_patch db)))
       (filter (\<lambda>si. si_account si = account) (ldb_inventory db))))"

end
