(* ===== verification/AccessLaws.thy ===== *)
theory AccessLaws
  imports Access UploadLaws
begin

text \<open>
  What the access checks promise: the wildcards of a permission, which requests RBAC lets through,
  and which systems such a request can see - including the cases in which the restriction to
  workspaces is lost.
\<close>

section \<open>Permissions\<close>

text \<open>A granted permission covers a needed one when each of its three parts is the same or a star.\<close>

definition permission_covers :: "string \<Rightarrow> string \<Rightarrow> bool" where
  "permission_covers p q \<longleftrightarrow>
     length (split_on (CHR '':'') q) = 3
   \<and> list_all2 (\<lambda>x a. x = a \<or> x = ''*'') (split_on (CHR '':'') p) (split_on (CHR '':'') q)"

lemma split3:
  assumes "split_on (CHR '':'') q = [a, b, c]"
  shows "q = a @ '':'' @ b @ '':'' @ c" and "CHR '':'' \<notin> set a" and "CHR '':'' \<notin> set b" and "CHR '':'' \<notin> set c"
  using join_split [of "CHR '':''" q] split_on_no_sep [of _ "CHR '':''" q] assms by auto

lemma split3_eq:
  assumes "CHR '':'' \<notin> set a" "CHR '':'' \<notin> set b" "CHR '':'' \<notin> set c"
  shows "split_on (CHR '':'') p = [a, b, c] \<longleftrightarrow> p = a @ '':'' @ b @ '':'' @ c"
proof
  assume "p = a @ '':'' @ b @ '':'' @ c"
  then show "split_on (CHR '':'') p = [a, b, c]" using assms by (simp add: split_on_append split_on_single)
qed (use split3(1) in blast)

lemma expanded_covers:
  assumes "split_on (CHR '':'') q = [a, b, c]"
  shows "p \<in> set (expand (Some q)) \<longleftrightarrow> permission_covers p q"
proof -
  note q = split3 [OF assms]
  have e: "split_after_n (CHR '':'') q 3 = [a @ '':'', b @ '':'', c]"
    using q(2,3) by (simp add: q(1) numeral_3_eq_3 cut_at_append [of "CHR '':''", simplified])
  have l: "expand (Some q) = [q, a @ '':'' @ b @ '':'' @ ''*'', a @ '':'' @ ''*:'' @ c, ''*:'' @ b @ '':'' @ c,
      a @ '':'' @ ''*:*'', ''*:'' @ b @ '':'' @ ''*'', ''*:*:'' @ c, ''*:*:*'']"
    unfolding expand_def expanded_permission_def by (simp add: e)
  have star: "CHR '':'' \<notin> set ''*''" by simp
  have "permission_covers p q \<longleftrightarrow> (\<exists>x\<in>{a, ''*''}. \<exists>y\<in>{b, ''*''}. \<exists>z\<in>{c, ''*''}. split_on (CHR '':'') p = [x, y, z])"
    by (auto simp: permission_covers_def assms list_all2_Cons2)
  also have "\<dots> \<longleftrightarrow> (\<exists>x\<in>{a, ''*''}. \<exists>y\<in>{b, ''*''}. \<exists>z\<in>{c, ''*''}. p = x @ '':'' @ y @ '':'' @ z)"
    using q(2-4) star by (intro bex_cong refl split3_eq) auto
  also have "\<dots> \<longleftrightarrow> p \<in> set (expand (Some q))"
    unfolding l by (auto simp: q(1))
  finally show ?thesis by blast
qed

lemma inventory_split: "split_on (CHR '':'') inventory_hosts_read_perm = [''inventory'', ''hosts'', ''read'']"
  by code_simp

lemma needed_split:
  assumes "needed_permission handler method = Some p"
  obtains a b c where "split_on (CHR '':'') p = [a, b, c]"
proof -
  have "p \<in> {''content-sources:templates:write'', ''patch:system:write'', patch_read_perm, patch_write_perm}"
    using assms by (auto simp: needed_permission_def granular_perms_def split: if_splits)
  then show thesis
    by (auto simp: patch_read_perm_def patch_write_perm_def intro: that)
qed

lemma permissions_loop_eq:
  "permissions_loop ivs pts access gi gp \<longleftrightarrow> access \<noteq> []
     \<and> (gi \<or> (\<exists>a\<in>set access. ac_permission a \<in> set ivs)) \<and> (gp \<or> (\<exists>a\<in>set access. ac_permission a \<in> set pts))"
  by (induction access arbitrary: gi gp) (auto simp: Let_def)

text \<open>C38.  RBAC grants a request exactly when one of the user's permissions covers
  \<open>inventory:hosts:read\<close> and one covers what the handler needs; a handler without a permission of
  its own is never granted to a method other than GET, POST, PUT and DELETE.\<close>

theorem permissions_exact:
  "check_permissions access handler method \<longleftrightarrow>
     (\<exists>a\<in>set access. permission_covers (ac_permission a) ''inventory:hosts:read'')
   \<and> (\<exists>p. needed_permission handler method = Some p \<and> (\<exists>a\<in>set access. permission_covers (ac_permission a) p))"
proof -
  have i: "x \<in> set (expand (Some inventory_hosts_read_perm)) \<longleftrightarrow> permission_covers x ''inventory:hosts:read''" for x
    using expanded_covers [OF inventory_split] by (simp add: inventory_hosts_read_perm_def)
  have n: "x \<in> set (expand (needed_permission handler method)) \<longleftrightarrow>
      (\<exists>p. needed_permission handler method = Some p \<and> permission_covers x p)" for x
  proof (cases "needed_permission handler method")
    case (Some p)
    then obtain a b c where "split_on (CHR '':'') p = [a, b, c]" by (rule needed_split)
    then show ?thesis by (simp add: Some expanded_covers)
  qed (simp add: expand_def)
  show ?thesis unfolding check_permissions_def permissions_loop_eq i n by auto
qed

section \<open>Workspaces\<close>

definition reads_hosts :: "access \<Rightarrow> bool" where
  "reads_hosts a \<longleftrightarrow> permission_covers (ac_permission a) ''inventory:hosts:read''"

definition unrestricted :: "access list \<Rightarrow> bool" where
  "unrestricted access \<longleftrightarrow> (\<exists>a\<in>set access. reads_hosts a \<and> ac_definitions a = [])"

definition granted_ids :: "(string \<Rightarrow> string option) \<Rightarrow> access list \<Rightarrow> string list" where
  "granted_ids parse_uuid access = concat (map (\<lambda>a. concat (map (\<lambda>rd. value_ids parse_uuid (af_value rd))
     (filter (\<lambda>rd. af_key rd = ''group.id'') (ac_definitions a)))) (filter reads_hosts access))"

definition filters_valid :: "access list \<Rightarrow> bool" where
  "filters_valid access \<longleftrightarrow> (\<forall>a\<in>set access. reads_hosts a \<longrightarrow>
     (\<forall>rd\<in>set (ac_definitions a). af_key rd = ''group.id'' \<longrightarrow> af_operation rd = ''in'' \<or> af_operation rd = ''equal''))"

lemma reads_hosts_expand: "ac_permission a \<in> set (expand (Some inventory_hosts_read_perm)) \<longleftrightarrow> reads_hosts a"
  using expanded_covers [OF inventory_split] by (simp add: reads_hosts_def inventory_hosts_read_perm_def)

lemma check_reads: "check_permissions access handler method \<Longrightarrow> \<exists>a\<in>set access. reads_hosts a"
  by (auto simp: check_permissions_def permissions_loop_eq reads_hosts_expand)

lemma definition_ids_eq:
  "definition_ids parse_uuid rds = (if \<forall>rd\<in>set rds. af_key rd = ''group.id'' \<longrightarrow> af_operation rd = ''in'' \<or> af_operation rd = ''equal''
     then Some (concat (map (\<lambda>rd. value_ids parse_uuid (af_value rd)) (filter (\<lambda>rd. af_key rd = ''group.id'') rds))) else None)"
  by (induction rds) auto

lemma workspaces_loop_Some:
  "workspaces_loop parse_uuid access ids = Inr (Some ws) \<Longrightarrow>
     \<not> unrestricted access \<and> ws = ids @ granted_ids parse_uuid access"
proof (induction access arbitrary: ids)
  case (Cons a access)
  then show ?case
    by (cases "reads_hosts a")
      (fastforce simp: reads_hosts_expand unrestricted_def granted_ids_def definition_ids_eq split: if_splits)+
qed (simp add: unrestricted_def granted_ids_def)

lemma workspaces_loop_None: "workspaces_loop parse_uuid access ids = Inr None \<Longrightarrow> unrestricted access"
  by (induction access arbitrary: ids) (auto simp: reads_hosts_expand unrestricted_def split: if_splits option.splits)

lemma workspaces_loop_restricted:
  "\<not> unrestricted access \<Longrightarrow> filters_valid access \<Longrightarrow>
     workspaces_loop parse_uuid access ids = Inr (Some (ids @ granted_ids parse_uuid access))"
  by (induction access arbitrary: ids)
    (auto simp: reads_hosts_expand unrestricted_def granted_ids_def filters_valid_def definition_ids_eq)

lemma find_workspaces_cases:
  assumes "find_inventory_workspaces parse_uuid access = Inr ws" "access \<noteq> []"
  shows "unrestricted access \<or> ws = Some (granted_ids parse_uuid access)"
  using assms workspaces_loop_Some [of parse_uuid access "[]"] workspaces_loop_None [of parse_uuid access "[]"]
  by (cases ws) (auto simp: find_inventory_workspaces_def)

lemma systems_mem:
  "(si, sp) \<in> set (systems db account ws) \<longleftrightarrow>
     si \<in> set (ldb_inventory db) \<and> si_account si = account \<and> ((account, si_id si), sp) \<in> set (ldb_patch db)
   \<and> (ws = [] \<or> (\<exists>w\<in>set ws. si_workspace_id si = Some w))"
  by (auto simp: systems_def apply_inventory_workspace_filter_def split: option.splits)

section \<open>Requests\<close>

text \<open>Documented behaviour of gin: the middlewares run in order until one of them aborts; one that merely
  returns lets the next one run.\<close>

definition gin_contract :: "(middleware list \<Rightarrow> middleware) \<Rightarrow> bool" where
  "gin_contract serve \<longleftrightarrow> (\<forall>r. serve [] r = Some r)
     \<and> (\<forall>h hs r. serve (h # hs) r = (case h r of None \<Rightarrow> None
          | Some (c, s) \<Rightarrow> if gc_abort c \<noteq> None then Some (c, s) else serve hs (c, s)))"

lemma gin_contractD:
  assumes "gin_contract serve"
  shows "serve [] r = Some r"
    and "h r = Some (c, s) \<Longrightarrow> gc_abort c = None \<Longrightarrow> serve (h # hs) r = serve hs (c, s)"
    and "serve (h # hs) r = Some (c', s') \<Longrightarrow> gc_abort c' = None \<Longrightarrow>
      \<exists>c s. h r = Some (c, s) \<and> gc_abort c = None \<and> serve hs (c, s) = Some (c', s')"
proof -
  have n: "serve [] r = Some r" for r using assms unfolding gin_contract_def by blast
  have s: "serve (h # hs) r = (case h r of None \<Rightarrow> None
      | Some (c, s) \<Rightarrow> if gc_abort c \<noteq> None then Some (c, s) else serve hs (c, s))" for h hs r
    using assms unfolding gin_contract_def by blast
  show "serve [] r = Some r" by (rule n)
  show "serve (h # hs) r = serve hs (c, s)" if "h r = Some (c, s)" "gc_abort c = None" using that by (simp add: s)
  show "\<exists>c s. h r = Some (c, s) \<and> gc_abort c = None \<and> serve hs (c, s) = Some (c', s')"
    if "serve (h # hs) r = Some (c', s')" "gc_abort c' = None"
  proof (cases "h r")
    case (Some p)
    then show ?thesis using that by (cases p; cases "gc_abort (fst p)") (simp_all add: s)
  qed (use that in \<open>simp add: s\<close>)
qed

lemma serve_two:
  assumes gin: "gin_contract serve" and run: "serve [h1, h2] r = Some (c, s)" and go: "gc_abort c = None"
  obtains c1 s1 where "h1 r = Some (c1, s1)" "gc_abort c1 = None" "h2 (c1, s1) = Some (c, s)"
proof -
  obtain c1 s1 where h1: "h1 r = Some (c1, s1)" "gc_abort c1 = None" "serve [h2] (c1, s1) = Some (c, s)"
    using gin_contractD(3) [OF gin run go] by blast
  then obtain c2 s2 where "h2 (c1, s1) = Some (c2, s2)" "serve [] (c2, s2) = Some (c, s)"
    using gin_contractD(3) [OF gin h1(3) go] by blast
  then have "h2 (c1, s1) = Some (c, s)" by (simp add: gin_contractD(1) [OF gin])
  with h1 show thesis by (intro that)
qed

text \<open>The cached account ids are those of the table.\<close>

definition cache_ok :: "manager_state \<Rightarrow> bool" where
  "cache_ok s \<longleftrightarrow> (\<forall>org i. gm_get (ms_account_cache s) org = Some i \<longrightarrow> gm_get (ldb_accounts (ms_db s)) org = Some i)"

lemma find_account_found:
  assumes "cache_ok s" "find_account env org (c, s) = (True, c', s')"
  shows "gm_get (ldb_accounts (ms_db s')) org = gc_account c'" and "gc_account c' \<noteq> None"
    and "gc_org c' = Some org" and "c' = c\<lparr>gc_account := gc_account c', gc_org := gc_org c'\<rparr>" and "cache_ok s'"
proof -
  show "gm_get (ldb_accounts (ms_db s')) org = gc_account c'" "gc_account c' \<noteq> None" "gc_org c' = Some org"
    "c' = c\<lparr>gc_account := gc_account c', gc_org := gc_org c'\<rparr>"
    using assms by (auto simp: find_account_def cache_ok_def dest: get_or_create_account_Inr(1)
        split: option.splits prod.splits sum.splits)
  have "gm_get (ldb_accounts db') o' = Some i"
    if "get_or_create_account faults org db = (Inr a, db')" "gm_get (ldb_accounts db) o' = Some i" for faults db db' a o' i
    using that by (auto simp: get_or_create_account_def Let_def gomap split: if_splits option.splits)
  then show "cache_ok s'"
    using assms by (auto simp: find_account_def cache_ok_def gomap dest: get_or_create_account_Inr(1)
        split: option.splits prod.splits sum.splits if_splits)
qed

lemma public_authenticator_cases:
  assumes ok: "cache_ok s" and run: "public_authenticator env (c, s) = Some (c', s')" and go: "gc_abort c' = None"
    and c: "gc_account c = None"
  obtains xrhid where "ae_parse_xrhid env (gc_identity c) = Some xrhid" "gc_workspaces c' = gc_workspaces c"
    "gc_account c' = None \<or> gm_get (ldb_accounts (ms_db s')) (id_org xrhid) = gc_account c'"
proof -
  obtain xrhid where x: "ae_parse_xrhid env (gc_identity c) = Some xrhid" "gc_identity c \<noteq> []"
    using run go by (auto simp: public_authenticator_def get_xrhid_def abort_with_def split: if_splits option.splits)
  obtain found c1 s1 where f: "find_account env (id_org xrhid) (c, s) = (found, c1, s1)"
    by (cases "find_account env (id_org xrhid) (c, s)") auto
  have s': "s' = s1" "gc_account c' = gc_account c1" "gc_workspaces c' = gc_workspaces c1"
    using run x f by (auto simp: public_authenticator_def get_xrhid_def split: option.splits if_splits)
  show thesis
  proof (cases found)
    case True
    with f have "find_account env (id_org xrhid) (c, s) = (True, c1, s1)" by simp
    note f = find_account_found [OF ok this]
    have "gc_workspaces c1 = gc_workspaces c" by (subst f(4)) simp
    then show ?thesis using that x f(1) s' by simp
  next
    case False
    then have "c1 = c" using f by (auto simp: find_account_def split: option.splits prod.splits sum.splits)
    then show ?thesis using that x s' c by simp
  qed
qed

lemma rbac_passes:
  assumes "rbac env (c, s) = Some (c', s')" "gc_abort c' = None" "ae_check_rbac env"
  obtains access ws where "fst (client_request True True (ae_debug env) (ae_rbac env (gc_identity c)) []) = access"
    "check_permissions access (handler_base_name c) (gc_method c)"
    "find_inventory_workspaces (ae_parse_uuid env) access = Inr ws" "c' = c\<lparr>gc_workspaces := ws\<rparr>" "s' = s"
  using assms
  by (auto simp: rbac_def is_access_granted_def abort_with_def Let_def
      split: prod.splits option.splits if_splits sum.splits)

text \<open>C5.  A request that RBAC and the authentication let through works on systems of one account
  only - that of the organisation in its identity, when the account is found - and, unless one of the
  user's permissions to read hosts is unrestricted or none of them names a workspace, only on systems
  in a workspace that those permissions name.\<close>

theorem visible_systems_authorised:
  assumes gin: "gin_contract serve" and run: "serve (user_auth env) (c, s) = Some (c', s')" and go: "gc_abort c' = None"
    and check: "ae_check_rbac env" "\<not> ae_kessel env" and fresh: "gc_account c = None" and ok: "cache_ok s"
  shows "\<exists>access xrhid. fst (client_request True True (ae_debug env) (ae_rbac env (gc_identity c)) []) = access
     \<and> ae_parse_xrhid env (gc_identity c) = Some xrhid
     \<and> (\<exists>a\<in>set access. reads_hosts a)
     \<and> (gc_account c' = None \<or> gm_get (ldb_accounts (ms_db s')) (id_org xrhid) = gc_account c')
     \<and> (\<forall>(si, sp)\<in>set (systems (ms_db s') (context_account c') (context_workspaces c')).
          si_account si = context_account c'
        \<and> (unrestricted access \<or> granted_ids (ae_parse_uuid env) access = []
           \<or> (\<exists>w\<in>set (granted_ids (ae_parse_uuid env) access). si_workspace_id si = Some w)))"
proof -
  obtain c1 s1 where r: "rbac env (c, s) = Some (c1, s1)" "gc_abort c1 = None"
    and p: "public_authenticator env (c1, s1) = Some (c', s')"
    using serve_two [OF gin run [unfolded user_auth_def] go] check(2) by auto
  obtain access ws where access: "fst (client_request True True (ae_debug env) (ae_rbac env (gc_identity c)) []) = access"
    and perm: "check_permissions access (handler_base_name c) (gc_method c)"
    and ws: "find_inventory_workspaces (ae_parse_uuid env) access = Inr ws"
    and c1: "c1 = c\<lparr>gc_workspaces := ws\<rparr>" "s1 = s"
    using r check(1) by (rule rbac_passes)
  obtain xrhid where x: "ae_parse_xrhid env (gc_identity c1) = Some xrhid" "gc_workspaces c' = gc_workspaces c1"
    "gc_account c' = None \<or> gm_get (ldb_accounts (ms_db s')) (id_org xrhid) = gc_account c'"
    using public_authenticator_cases [OF _ p go] ok c1 fresh by auto
  have reads: "\<exists>a\<in>set access. reads_hosts a" using perm by (rule check_reads)
  then have "unrestricted access \<or> ws = Some (granted_ids (ae_parse_uuid env) access)"
    using find_workspaces_cases [OF ws] by fastforce
  then have "\<forall>(si, sp)\<in>set (systems (ms_db s') (context_account c') (context_workspaces c')).
          si_account si = context_account c'
        \<and> (unrestricted access \<or> granted_ids (ae_parse_uuid env) access = []
           \<or> (\<exists>w\<in>set (granted_ids (ae_parse_uuid env) access). si_workspace_id si = Some w))"
    using x(2) c1 by (auto simp: systems_mem context_workspaces_def)
  then show ?thesis using access x(1,3) reads c1 by auto
qed

text \<open>A server as gin's documentation describes it, and a request of a user of one workspace.\<close>

fun serve_in_order :: "middleware list \<Rightarrow> middleware" where
  "serve_in_order [] r = Some r"
| "serve_in_order (h # hs) r = (case h r of None \<Rightarrow> None
     | Some (c, s) \<Rightarrow> if gc_abort c \<noteq> None then Some (c, s) else serve_in_order hs (c, s))"

lemma serve_in_order_contract: "gin_contract serve_in_order"
  by (simp add: gin_contract_def)

definition answer :: "'a \<Rightarrow> 'a transport" where
  "answer v = \<lparr>tr_dump_request = True, tr_do = (Some 200, True), tr_dump_response = True, tr_decode = Some (Some v)\<rparr>"

definition read_access :: "attribute_filter list \<Rightarrow> access list" where
  "read_access rds = [\<lparr>ac_permission = ''inventory:*:read'', ac_definitions = rds\<rparr>,
     \<lparr>ac_permission = ''patch:*:*'', ac_definitions = []\<rparr>]"

definition sample_access_env :: "access list \<Rightarrow> ls_faults \<Rightarrow> access_env" where
  "sample_access_env access faults = \<lparr>ae_faults = faults, ae_check_rbac = True, ae_kessel = False, ae_debug = False,
     ae_parse_xrhid = (\<lambda>t. Some \<lparr>id_type = ''User'', id_org = ''org'', id_user = None, id_service = None, id_system = None\<rparr>),
     ae_parse_uuid = (\<lambda>t. if t = [] then None else Some t), ae_rbac = (\<lambda>i. answer access), ae_kessel_client = True,
     ae_list_workspaces = (\<lambda>u p. [Some ''w1''])\<rparr>"

definition sample_context :: gin_context where
  "sample_context = \<lparr>gc_identity = ''id'', gc_headers = 1, gc_handler = ''controllers.SystemsListHandler'', gc_method = ''GET'',
     gc_account = None, gc_org = None, gc_user = None, gc_system = None, gc_workspaces = None, gc_abort = None\<rparr>"

definition workspace_system :: "int \<Rightarrow> string \<Rightarrow> system_inventory" where
  "workspace_system i w = zero_inventory\<lparr>si_id := i, si_account := 1, si_inventory_id := w, si_workspace_id := Some w\<rparr>"

definition sample_manager :: manager_state where
  "sample_manager = \<lparr>ms_db = sample_db\<lparr>ldb_inventory := [workspace_system 1 ''w1'', workspace_system 2 ''w2''],
     ldb_patch := [((1, 1), zero_patch), ((1, 2), zero_patch)]\<rparr>, ms_account_cache = []\<rparr>"

definition group_filter :: "string option list \<Rightarrow> attribute_filter" where
  "group_filter values = \<lparr>af_key = ''group.id'', af_value = values, af_operation = ''in''\<rparr>"

lemma sample_request:
  "\<exists>c s. serve_in_order (user_auth (sample_access_env (read_access [group_filter [Some ''w1'']]) (\<lambda>x. False)))
      (sample_context, sample_manager) = Some (c, s) \<and> gc_abort c = None
    \<and> map (\<lambda>(si, sp). si_inventory_id si) (systems (ms_db s) (context_account c) (context_workspaces c)) = [''w1'']"
proof -
  have "case serve_in_order (user_auth (sample_access_env (read_access [group_filter [Some ''w1'']]) (\<lambda>x. False)))
      (sample_context, sample_manager) of
      Some (c, s) \<Rightarrow> gc_abort c = None
        \<and> map (\<lambda>(si, sp). si_inventory_id si) (systems (ms_db s) (context_account c) (context_workspaces c)) = [''w1'']
    | None \<Rightarrow> False" by code_simp
  then show ?thesis by (auto split: option.splits)
qed

theorem visible_systems_authorised_witness:
  "\<exists>c s access. serve_in_order (user_auth (sample_access_env (read_access [group_filter [Some ''w1'']]) (\<lambda>x. False)))
      (sample_context, sample_manager) = Some (c, s)
    \<and> systems (ms_db s) (context_account c) (context_workspaces c) \<noteq> []
    \<and> (\<forall>(si, sp)\<in>set (systems (ms_db s) (context_account c) (context_workspaces c)).
         si_account si = context_account c \<and> (unrestricted access \<or> granted_ids (\<lambda>t. if t = [] then None else Some t) access = []
           \<or> (\<exists>w\<in>set (granted_ids (\<lambda>t. if t = [] then None else Some t) access). si_workspace_id si = Some w)))"
proof -
  let ?env = "sample_access_env (read_access [group_filter [Some ''w1'']]) (\<lambda>x. False)"
  obtain c s where run: "serve_in_order (user_auth ?env) (sample_context, sample_manager) = Some (c, s)" and go: "gc_abort c = None"
    and some: "systems (ms_db s) (context_account c) (context_workspaces c) \<noteq> []"
    using sample_request by force
  have "ae_check_rbac ?env" "\<not> ae_kessel ?env" "gc_account sample_context = None" "cache_ok sample_manager"
    by (simp_all add: sample_access_env_def sample_context_def cache_ok_def sample_manager_def)
  from visible_systems_authorised [OF serve_in_order_contract run go this] run some show ?thesis
    by (auto simp: sample_access_env_def)
qed

section \<open>Restrictions that are lost\<close>

lemma systems_no_filter: "systems db account [] = concat (map (\<lambda>si. map (\<lambda>(k, sp). (si, sp))
     (filter (\<lambda>((a, i), sp). i = si_id si \<and> a = si_account si) (ldb_patch db)))
   (filter (\<lambda>si. si_account si = account) (ldb_inventory db)))"
  by (simp add: systems_def apply_inventory_workspace_filter_def)

text \<open>C37.  A user whose permissions to read hosts are all restricted, but to no workspace that can be
  read (an empty list, names that are no UUIDs, other keys than \<open>group.id\<close>), is granted access and sees
  every system of the account: the empty list of workspaces is taken for no restriction.\<close>

theorem empty_restriction_sees_all:
  assumes perm: "check_permissions access (handler_base_name c) (gc_method c)"
    and answer: "client_request True True (ae_debug env) (ae_rbac env (gc_identity c)) [] = (access, resp, None)"
    and restricted: "\<not> unrestricted access" "filters_valid access" "granted_ids (ae_parse_uuid env) access = []"
    and check: "ae_check_rbac env"
  shows "rbac env (c, s) = Some (c\<lparr>gc_workspaces := Some []\<rparr>, s)
     \<and> (\<forall>db account si sp. (si, sp) \<in> set (systems db account (context_workspaces (c\<lparr>gc_workspaces := Some []\<rparr>))) \<longleftrightarrow>
          si \<in> set (ldb_inventory db) \<and> si_account si = account \<and> ((account, si_id si), sp) \<in> set (ldb_patch db))"
proof -
  have "access \<noteq> []" using check_reads [OF perm] by auto
  then have "find_inventory_workspaces (ae_parse_uuid env) access = Inr (Some [])"
    using workspaces_loop_restricted [OF restricted(1,2), of "ae_parse_uuid env" "[]"] restricted(3)
    by (simp add: find_inventory_workspaces_def)
  then show ?thesis
    using perm answer check by (simp add: rbac_def is_access_granted_def context_workspaces_def systems_mem)
qed

theorem empty_restriction_sees_all_witness:
  "\<exists>c s. rbac (sample_access_env (read_access [group_filter []]) (\<lambda>x. False)) (sample_context, sample_manager) = Some (c, s)
     \<and> gc_abort c = None \<and> (workspace_system 2 ''w2'', zero_patch) \<in> set (systems (ms_db s) 1 (context_workspaces c))"
proof -
  let ?access = "read_access [group_filter []]"
  let ?env = "sample_access_env ?access (\<lambda>x. False)"
  have perm: "check_permissions ?access (handler_base_name sample_context) (gc_method sample_context)" by code_simp
  have answer: "client_request True True (ae_debug ?env) (ae_rbac ?env (gc_identity sample_context)) [] = (?access, Some 200, None)"
    by code_simp
  have r: "\<not> unrestricted ?access" "filters_valid ?access" "granted_ids (ae_parse_uuid ?env) ?access = []"
    and check: "ae_check_rbac ?env" by code_simp+
  note all = empty_restriction_sees_all [OF perm answer r check]
  have "rbac ?env (sample_context, sample_manager) = Some (sample_context\<lparr>gc_workspaces := Some []\<rparr>, sample_manager)"
    using all by blast
  moreover have "(workspace_system 2 ''w2'', zero_patch)
      \<in> set (systems (ms_db sample_manager) 1 (context_workspaces (sample_context\<lparr>gc_workspaces := Some []\<rparr>)))"
    using all by (simp add: sample_manager_def workspace_system_def)
  moreover have "gc_abort (sample_context\<lparr>gc_workspaces := Some []\<rparr>) = None" by (simp add: sample_context_def)
  ultimately show ?thesis by blast
qed

text \<open>Kessel has no such gap: a request it lets through carries a non-empty list of workspaces,
  all of them granted to the user for the handler's permission, and works only on systems in them.\<close>

theorem kessel_restricts:
  assumes gin: "gin_contract serve" and run: "serve (user_auth env) (c, s) = Some (c', s')" and go: "gc_abort c' = None"
    and kessel: "ae_kessel env" and fresh: "gc_account c = None" and ok: "cache_ok s"
  shows "\<exists>user ws. collect_stream (ae_list_workspaces env user (build_permission c)) = Some ws \<and> ws \<noteq> [] \<and> user \<noteq> []
     \<and> context_workspaces c' = ws
     \<and> (\<forall>(si, sp)\<in>set (systems (ms_db s') (context_account c') (context_workspaces c')).
          si_account si = context_account c' \<and> (\<exists>w\<in>set ws. si_workspace_id si = Some w))"
proof -
  obtain c1 s1 where k: "has_permission_kessel env (c, s) = Some (c1, s1)" "gc_abort c1 = None"
    and p: "public_authenticator env (c1, s1) = Some (c', s')"
    using serve_two [OF gin run [unfolded user_auth_def] go] kessel by auto
  obtain user ws where u: "collect_stream (ae_list_workspaces env user (build_permission c)) = Some ws" "ws \<noteq> []" "user \<noteq> []"
    and c1: "c1 = c\<lparr>gc_workspaces := Some ws\<rparr>" "s1 = s"
    using k by (auto simp: has_permission_kessel_def use_streamed_list_objects_def abort_with_def Let_def
        split: if_splits option.splits)
  obtain xrhid where "gc_workspaces c' = gc_workspaces c1"
    using public_authenticator_cases [OF _ p go] ok c1 fresh by auto
  then have w: "context_workspaces c' = ws" using c1 by (simp add: context_workspaces_def)
  show ?thesis
    by (intro exI [of _ user] exI [of _ ws]) (use u w in \<open>auto simp: systems_mem\<close>)
qed

theorem kessel_restricts_witness:
  "\<exists>c s. serve_in_order (user_auth ((sample_access_env [] (\<lambda>x. False))\<lparr>ae_kessel := True,
         ae_parse_xrhid := (\<lambda>t. Some \<lparr>id_type = ''User'', id_org = ''org'', id_user = None,
           id_service = Some \<lparr>sv_username = ''svc'', sv_user_id = ''1''\<rparr>, id_system = None\<rparr>)\<rparr>))
      (sample_context, sample_manager) = Some (c, s) \<and> context_workspaces c \<noteq> []"
proof -
  let ?env = "(sample_access_env [] (\<lambda>x. False))\<lparr>ae_kessel := True,
         ae_parse_xrhid := (\<lambda>t. Some \<lparr>id_type = ''User'', id_org = ''org'', id_user = None,
           id_service = Some \<lparr>sv_username = ''svc'', sv_user_id = ''1''\<rparr>, id_system = None\<rparr>)\<rparr>"
  have "case serve_in_order (user_auth ?env) (sample_context, sample_manager) of
      Some (c, s) \<Rightarrow> gc_abort c = None | None \<Rightarrow> False" by code_simp
  then obtain c s where run: "serve_in_order (user_auth ?env) (sample_context, sample_manager) = Some (c, s)"
    and go: "gc_abort c = None" by (auto split: option.splits)
  have "ae_kessel ?env" "gc_account sample_context = None" "cache_ok sample_manager"
    by (simp_all add: sample_context_def cache_ok_def sample_manager_def)
  from kessel_restricts [OF serve_in_order_contract run go this] run show ?thesis by auto
qed

text \<open>When the account of a user cannot be looked up, the request is neither refused nor given an
  account: it reaches its handler with account 0 and an empty list of systems instead of an error.  The
  authentication of systems refuses it.\<close>

theorem failed_account_reaches_handler:
  assumes miss: "gm_get (ms_account_cache s) (id_org xrhid) = None" "gm_get (ldb_accounts (ms_db s)) (id_org xrhid) = None"
    and fault: "ae_faults env AccountCreate"
    and x: "ae_parse_xrhid env (gc_identity c) = Some xrhid" "gc_identity c \<noteq> []"
    and fresh: "gc_account c = None" "gc_abort c = None"
    and pos: "\<forall>si\<in>set (ldb_inventory (ms_db s)). 0 < si_account si"
    and sys: "id_type xrhid = ''System''" "id_system xrhid = Some cert"
  shows "public_authenticator env (c, s) = Some (c, s) \<and> context_account c = 0
     \<and> systems (ms_db s) (context_account c) ws = []
     \<and> system_cert_authenticator env (c, s) = Some (abort_with 401 ''Invalid system identity header'' c, s)"
proof -
  have "find_account env (id_org xrhid) (c, s) = (False, c, s)"
    using miss fault by (auto simp: find_account_def get_or_create_account_def Let_def)
  moreover have "context_account c = 0" using fresh by (simp add: context_account_def)
  moreover have "systems (ms_db s) 0 ws = []"
  proof (rule ccontr)
    assume "systems (ms_db s) 0 ws \<noteq> []"
    then obtain si sp where "(si, sp) \<in> set (systems (ms_db s) 0 ws)"
      by (cases "hd (systems (ms_db s) 0 ws)") (metis list.set_sel(1))
    then show False using pos by (auto simp: systems_mem)
  qed
  ultimately show ?thesis
    using x sys by (simp add: public_authenticator_def system_cert_authenticator_def get_xrhid_def)
qed

theorem failed_account_reaches_handler_witness:
  "\<exists>env s. public_authenticator env (sample_context, s) = Some (sample_context, s)"
proof -
  let ?x = "\<lparr>id_type = ''System'', id_org = ''org'', id_user = None, id_service = None,
     id_system = Some \<lparr>is_cert_type = ''system'', is_common_name = ''cn''\<rparr>\<rparr>"
  let ?env = "(sample_access_env [] (\<lambda>x. True))\<lparr>ae_parse_xrhid := (\<lambda>t. Some ?x)\<rparr>"
  let ?s = "sample_manager\<lparr>ms_db := sample_db\<lparr>ldb_accounts := []\<rparr>\<rparr>"
  have "gm_get (ms_account_cache ?s) (id_org ?x) = None" "gm_get (ldb_accounts (ms_db ?s)) (id_org ?x) = None"
    "ae_faults ?env AccountCreate" "ae_parse_xrhid ?env (gc_identity sample_context) = Some ?x"
    "gc_identity sample_context \<noteq> []" "gc_account sample_context = None" "gc_abort sample_context = None"
    "\<forall>si\<in>set (ldb_inventory (ms_db ?s)). 0 < si_account si" "id_type ?x = ''System''"
    "id_system ?x = Some \<lparr>is_cert_type = ''system'', is_common_name = ''cn''\<rparr>"
    by (simp_all add: sample_manager_def sample_access_env_def sample_context_def sample_db_def)
  from failed_account_reaches_handler [OF this] show ?thesis by blast
qed

end
