(* ===== verification/Filters.thy ===== *)
theory Filters
  imports GoRegexp GoText
begin

text \<open>
  The queries of the manager's list endpoints: which columns an endpoint can filter and sort by
  (\<open>base/database/query.go\<close>), the filters of a request (\<open>manager/controllers/filter.go\<close>) and the sort,
  search and tag parameters (\<open>utils.go\<close>).  A query under construction is the list of clauses
  added to it.  The parsers of UUIDs and times, \<open>strconv.Unquote\<close> and the JSON encoder are parameters.
  An outer \<open>None\<close> is a panic.
\<close>

section \<open>Columns of an endpoint\<close>

datatype sql_value = SqlText string | SqlBool bool | SqlInt int | SqlUuid string | SqlTime int

type_synonym attr_parser = "string \<Rightarrow> sql_value option"

record attr_info =
  ai_data_query :: string
  ai_order_query :: string
  ai_parser :: "attr_parser option"

type_synonym attr_map = "(string, attr_info) gomap"

text \<open>The types of the fields \<open>parserForType\<close> tells apart.\<close>

datatype go_kind = KindString | KindBool | KindInt | KindPtr go_kind | KindUuid | KindTime | KindOther

record value_parsers =
  vp_uuid :: "string \<Rightarrow> string option"
  vp_time :: "string \<Rightarrow> int option"

text \<open>\<open>RemoveInvalidChars\<close> drops the characters PostgreSQL refuses, on UTF-8 text.\<close>

definition remove_invalid_chars :: "string \<Rightarrow> string" where
  "remove_invalid_chars s = filter (\<lambda>c. c \<noteq> CHR 0x00) s"

definition parse_bool :: "string \<Rightarrow> bool option" where
  "parse_bool s =
     (if s \<in> set [''1'', ''t'', ''T'', ''TRUE'', ''true'', ''True''] then Some True
      else if s \<in> set [''0'', ''f'', ''F'', ''FALSE'', ''false'', ''False''] then Some False
      else None)"

fun parser_for_type :: "value_parsers \<Rightarrow> go_kind \<Rightarrow> attr_parser option" where
  "parser_for_type vp KindString = Some (\<lambda>s. Some (SqlText (remove_invalid_chars s)))"
| "parser_for_type vp KindBool = Some (\<lambda>s. map_option SqlBool (parse_bool s))"
| "parser_for_type vp KindInt = Some (\<lambda>s. map_option SqlInt (go_atoi s))"
| "parser_for_type vp (KindPtr k) = parser_for_type vp k"
| "parser_for_type vp KindUuid = Some (\<lambda>s. map_option SqlUuid (vp_uuid vp s))"
| "parser_for_type vp KindTime = Some (\<lambda>s. map_option SqlTime (vp_time vp s))"
| "parser_for_type vp KindOther = None"

text \<open>A field of a struct: an embedded struct (one named like its type), or a column with its tags.\<close>

datatype struct_field =
    Embedded "struct_field list"
  | Column (sf_name: string) (sf_kind: go_kind) (sf_gorm: "string option") (sf_query: "string option")
      (sf_order: "string option")

definition is_word_char :: "char \<Rightarrow> bool" where
  "is_word_char c \<longleftrightarrow> (CHR ''a'' \<le> c \<and> c \<le> CHR ''z'') \<or> (CHR ''A'' \<le> c \<and> c \<le> CHR ''Z'') \<or> is_digit c \<or> c = CHR ''_''"

fun literal :: "string \<Rightarrow> re" where
  "literal [] = Many 0 (\<lambda>c. False)"
| "literal [c] = Chars (\<lambda>x. x = c)"
| "literal (c # d # s) = Seq (Chars (\<lambda>x. x = c)) (literal (d # s))"

definition column_name_re :: re where
  "column_name_re = Seq (literal ''column:'') (Grp 1 (Many 1 is_word_char))"

text \<open>\<open>strings.ToLower\<close> on ASCII text (field names, and the comparison with \<open>null\<close>).\<close>

definition lower_char :: "char \<Rightarrow> char" where
  "lower_char c = (if CHR ''A'' \<le> c \<and> c \<le> CHR ''Z'' then char_of (of_char c + 32 :: nat) else c)"

definition column_name :: "string \<Rightarrow> string option \<Rightarrow> string" where
  "column_name name gorm =
     (case gorm of
        None \<Rightarrow> map lower_char name
      | Some expr \<Rightarrow>
          (case find_submatch column_name_re expr of
             None \<Rightarrow> map lower_char name
           | Some cs \<Rightarrow> group cs 1))"

fun get_query_from_tags :: "value_parsers \<Rightarrow> struct_field list \<Rightarrow> attr_map \<times> string list \<Rightarrow> attr_map \<times> string list" where
  "get_query_from_tags vp [] acc = acc"
| "get_query_from_tags vp (Embedded fs # r) (res, names) =
     (let (nested, more_names) = get_query_from_tags vp fs ([], [])
      in get_query_from_tags vp r (fold (\<lambda>(k, v) m. gm_put k v m) nested res, names @ more_names))"
| "get_query_from_tags vp (Column name kind gorm query order # r) (res, names) =
     (let column = column_name name gorm;
          data = (case query of None \<Rightarrow> column | Some expr \<Rightarrow> expr);
          info = \<lparr>ai_data_query = data, ai_order_query = (case order of None \<Rightarrow> data | Some expr \<Rightarrow> expr),
                  ai_parser = parser_for_type vp kind\<rparr>;
          res = gm_put column info res;
          res = (if column = ''inventory_id'' then gm_put ''id'' info res else res)
      in get_query_from_tags vp r (res, names @ [column]))"

definition get_query_attrs :: "value_parsers \<Rightarrow> struct_field list \<Rightarrow> attr_map" where
  "get_query_attrs vp fs = fst (get_query_from_tags vp fs ([], []))"

definition must_get_select :: "value_parsers \<Rightarrow> struct_field list \<Rightarrow> string" where
  "must_get_select vp fs =
     (let (attrs, names) = get_query_from_tags vp fs ([], [])
      in join_with '', '' (map (\<lambda>n. (case gm_get attrs n of None \<Rightarrow> [] | Some i \<Rightarrow> ai_data_query i) @ '' as '' @ n) names))"

section \<open>Filters\<close>

datatype filter_type = ColumnFilter | InventoryFilter | WorkloadFilter | TagFilter

record filter_data =
  fd_type :: filter_type
  fd_operator :: string
  fd_values :: "string list"

type_synonym filters = "(string, filter_data) gomap"

datatype sql_arg = One sql_value | Many_of "sql_value list" | Text string | Texts "string list"

datatype clause =
    Where string "sql_arg list"
  | WhereAny "(string \<times> sql_arg list) list"
  | WhereIn string "clause list"
  | OrderBy string
  | LimitTo int
  | OffsetBy int

type_synonym tx = "clause list"

datatype query_error =
    UnknownField string
  | InvalidValue string string
  | InvalidCount nat string
  | UnknownFilter string
  | InvalidFilterName string
  | InvalidSort string
  | InvalidTag string
  | InvalidParam string
  | InvalidOffset

definition parse_filter_value :: "filter_type \<Rightarrow> string \<Rightarrow> filter_data" where
  "parse_filter_value ftype val =
     (let (operator, value) = (case cut_at (CHR '':'') val of None \<Rightarrow> (''eq'', val) | Some (a, b) \<Rightarrow> (a, b))
      in \<lparr>fd_type = ftype, fd_operator = operator, fd_values = split_on (CHR '','') value\<rparr>)"

definition check_value_count :: "string \<Rightarrow> nat \<Rightarrow> bool" where
  "check_value_count operator n =
     (if operator = ''between'' then n = 2
      else if operator = ''in'' \<or> operator = ''notin'' then 0 < n
      else n = 1)"

definition separate_null_from_values :: "string list \<Rightarrow> string list \<times> bool" where
  "separate_null_from_values values =
     (let regular = filter (\<lambda>v. v \<noteq> ''null'') values; has_null = (''null'' \<in> set values)
      in if has_null \<and> regular = [] then ([''0''], False)
         else if has_null then (regular, True)
         else (regular, False))"

definition transform_params :: "string list \<Rightarrow> filter_data \<Rightarrow> string \<Rightarrow> string \<times> string list \<times> bool" where
  "transform_params other_types t field =
     (if fd_values t = [''null''] \<or> fd_values t = [''notnull''] then (hd (fd_values t), [''0''], False)
      else (let transformed = concat (map (\<lambda>v. if v = ''other'' then other_types else [v]) (fd_values t));
                expanded = (field = ''advisory_type_name'' \<and> length transformed \<noteq> length (fd_values t));
                values = (if expanded then transformed else fd_values t);
                operator = (if expanded
                            then (if fd_operator t = ''eq'' then ''in''
                                  else if fd_operator t = ''neq'' then ''notin'' else fd_operator t)
                            else fd_operator t);
                (values, has_null) =
                  (if field = ''severity'' \<and> (fd_operator t = ''in'' \<or> fd_operator t = ''notin'')
                   then separate_null_from_values values else (values, False))
            in (operator, values, has_null)))"

fun parse_values :: "attr_map \<Rightarrow> string \<Rightarrow> string list \<Rightarrow> (query_error + sql_value list) option" where
  "parse_values attributes field [] = Some (Inr [])"
| "parse_values attributes field (v # vs) =
     (case gm_get attributes field of
        None \<Rightarrow> Some (Inl (UnknownField field))
      | Some info \<Rightarrow>
          (case ai_parser info of
             None \<Rightarrow> None
           | Some parser \<Rightarrow>
               (case parser v of
                  None \<Rightarrow> Some (Inl (InvalidValue v field))
                | Some x \<Rightarrow>
                    (case parse_values attributes field vs of
                       None \<Rightarrow> None
                     | Some (Inl e) \<Rightarrow> Some (Inl e)
                     | Some (Inr xs) \<Rightarrow> Some (Inr (x # xs))))))"

definition data_query :: "attr_map \<Rightarrow> string \<Rightarrow> string" where
  "data_query attributes field = (case gm_get attributes field of None \<Rightarrow> [] | Some info \<Rightarrow> ai_data_query info)"

text \<open>The clause of an operator over the column expression \<open>q\<close>.\<close>

definition operator_clause :: "string \<Rightarrow> bool \<Rightarrow> string \<Rightarrow> sql_value list \<Rightarrow> (string \<times> sql_arg list) option" where
  "operator_clause operator has_null q values =
     (if operator = ''eq'' then Some (q @ '' = ? '', map One values)
      else if operator = ''neq'' then Some (q @ '' <> ? '', map One values)
      else if operator = ''gt'' then Some (q @ '' > ? '', map One values)
      else if operator = ''lt'' then Some (q @ '' < ? '', map One values)
      else if operator = ''gte'' then Some (q @ '' >= ? '', map One values)
      else if operator = ''lte'' then Some (q @ '' <= ? '', map One values)
      else if operator = ''between'' then Some (q @ '' BETWEEN ? AND ? '', map One values)
      else if operator = ''in'' then
        (if has_null then Some (''('' @ q @ '' IN ? OR '' @ q @ '' IS NULL) '', [Many_of values])
         else Some (q @ '' IN (?) '', [Many_of values]))
      else if operator = ''notin'' then
        (if has_null then Some (''('' @ q @ '' NOT IN ? AND '' @ q @ '' IS NOT NULL) '', [Many_of values])
         else Some (q @ '' NOT IN (?) '', [Many_of values]))
      else if operator = ''null'' then Some (q @ '' IS NULL '', [])
      else if operator = ''notnull'' then Some (q @ '' IS NOT NULL '', [])
      else None)"

definition to_where :: "string list \<Rightarrow> filter_data \<Rightarrow> string \<Rightarrow> attr_map \<Rightarrow> (query_error + string \<times> sql_arg list) option" where
  "to_where other_types t field attributes =
     (let (operator, values, has_null) = transform_params other_types t field
      in (case parse_values attributes field values of
            None \<Rightarrow> None
          | Some (Inl e) \<Rightarrow> Some (Inl e)
          | Some (Inr parsed) \<Rightarrow>
              if \<not> check_value_count operator (length values)
              then Some (Inl (InvalidCount (length (fd_values t)) (fd_operator t)))
              else (case operator_clause operator has_null (data_query attributes field) parsed of
                      None \<Rightarrow> Some (Inl (UnknownFilter (fd_operator t)))
                    | Some c \<Rightarrow> Some (Inr c))))"

definition filter_param :: "string \<times> filter_data \<Rightarrow> string" where
  "filter_param f = (let (name, v) = f; values = join_with '','' (fd_values v)
     in if fd_type v = TagFilter then ''tags='' @ name @ ''='' @ values
        else ''filter['' @ name @ '']='' @ fd_operator v @ '':'' @ values)"

definition filters_to_query_params :: "filters \<Rightarrow> string" where
  "filters_to_query_params t = join_with ''&'' (map filter_param t)"

fun filters_apply :: "string list \<Rightarrow> filters \<Rightarrow> attr_map \<Rightarrow> tx \<Rightarrow> (query_error + tx) option" where
  "filters_apply other_types [] attrs tx = Some (Inr tx)"
| "filters_apply other_types ((name, f) # t) attrs tx =
     (if fd_type f \<noteq> ColumnFilter then filters_apply other_types t attrs tx
      else (case to_where other_types f name attrs of
              None \<Rightarrow> None
            | Some (Inl e) \<Rightarrow> Some (Inl e)
            | Some (Inr (query, args)) \<Rightarrow> filters_apply other_types t attrs (tx @ [Where query args])))"

definition filters_update :: "filter_type \<Rightarrow> string \<Rightarrow> string \<Rightarrow> filters \<Rightarrow> filters" where
  "filters_update ftype key value t =
     (let data = parse_filter_value ftype value
      in (case gm_get t key of
            None \<Rightarrow> gm_put key data t
          | Some old \<Rightarrow> gm_put key (data\<lparr>fd_values := fd_values data @ fd_values old\<rparr>) t))"

section \<open>Requests\<close>

text \<open>\<open>ar_params\<close> is \<open>URL.Query()\<close>; a parameter that is given has at least one value.\<close>

record api_request =
  ar_path :: string
  ar_url :: string
  ar_params :: "(string, string list) gomap"
  ar_accept :: string

definition query_param :: "api_request \<Rightarrow> string \<Rightarrow> string option" where
  "query_param r key = (case gm_get (ar_params r) key of Some (v # vs) \<Rightarrow> Some v | _ \<Rightarrow> None)"

definition query_array :: "api_request \<Rightarrow> string \<Rightarrow> string list" where
  "query_array r key = (case gm_get (ar_params r) key of Some vs \<Rightarrow> vs | None \<Rightarrow> [])"

fun sort_loop :: "attr_map \<Rightarrow> string list \<Rightarrow> tx \<Rightarrow> string list \<Rightarrow> query_error + tx \<times> string list" where
  "sort_loop exprs [] tx applied = Inr (tx, applied)"
| "sort_loop exprs (entered # fs) tx applied =
     (let desc = has_prefix entered ''-'';
          field = (if desc then tl entered else entered);
          order = (case gm_get exprs field of None \<Rightarrow> [] | Some info \<Rightarrow> ai_order_query info)
      in if field \<noteq> ''id'' \<and> \<not> gm_has exprs field then Inl (InvalidSort field)
         else sort_loop exprs fs
           (tx @ [OrderBy (order @ '' '' @ (if desc then ''DESC'' else ''ASC'') @ '' NULLS LAST'')]) (applied @ [entered]))"

definition apply_sort :: "api_request \<Rightarrow> tx \<Rightarrow> attr_map \<Rightarrow> string \<Rightarrow> string \<Rightarrow> query_error + tx \<times> string list" where
  "apply_sort r tx exprs default_sort stable_sort =
     (let query = (case query_param r ''sort'' of None \<Rightarrow> default_sort | Some q \<Rightarrow> q)
      in (case sort_loop exprs (split_on (CHR '','') query) tx [] of
            Inl e \<Rightarrow> Inl e
          | Inr (tx, applied) \<Rightarrow> Inr (tx @ [OrderBy (stable_sort @ '' ASC'')], applied)))"

definition workload_filters :: "(string, string) gomap" where
  "workload_filters = [
     (''system_profile][sap_system'', ''(si.sap_workload)''),
     (''system_profile][sap_sids'', ''(si.sap_workload_sids)''),
     (''system_profile][sap_sids][in]'', ''(si.sap_workload_sids)''),
     (''system_profile][ansible'', ''(si.ansible_workload)''),
     (''system_profile][ansible][controller_version'', ''(si.ansible_workload_controller_version)''),
     (''system_profile][mssql'', ''(si.mssql_workload)''),
     (''system_profile][mssql][version'', ''(si.mssql_workload_version)''),
     (''system_profile][crowdstrike'', ''(si.crowdstrike_workload)''),
     (''system_profile][ibm_db2'', ''(si.ibm_db2_workload)''),
     (''system_profile][intersystems'', ''(si.intersystems_workload)''),
     (''system_profile][oracle_db'', ''(si.oracle_db_workload)''),
     (''system_profile][rhel_ai'', ''(si.rhel_ai_workload)''),
     (''system_profile][satellite'', ''(si.satellite_workload)'')]"

definition inventory_filters :: "(string, string) gomap" where
  "inventory_filters = [(''group_name'', ''si.workspace_name'')]"

fun filter_values_loop :: "attr_map \<Rightarrow> string \<Rightarrow> string list \<Rightarrow> filters \<Rightarrow> query_error + filters" where
  "filter_values_loop allowed subject [] filters = Inr filters"
| "filter_values_loop allowed subject (v # vs) filters =
     (if gm_has workload_filters subject
      then filter_values_loop allowed subject vs (filters_update WorkloadFilter subject v filters)
      else if gm_has inventory_filters subject
      then filter_values_loop allowed subject vs (filters_update InventoryFilter subject v filters)
      else if \<not> gm_has allowed subject then Inl (InvalidFilterName subject)
      else filter_values_loop allowed subject vs (filters_update ColumnFilter subject v filters))"

text \<open>The slice \<open>name[7 : len(name)-1]\<close> panics for the name \<open>filter[\<close> itself.\<close>

fun params_loop :: "attr_map \<Rightarrow> (string \<times> string list) list \<Rightarrow> filters \<Rightarrow> (query_error + filters) option" where
  "params_loop allowed [] filters = Some (Inr filters)"
| "params_loop allowed ((name, values) # ps) filters =
     (if \<not> has_prefix name ''filter['' then params_loop allowed ps filters
      else if length name = 7 then None
      else (case filter_values_loop allowed (butlast (drop 7 name)) values filters of
              Inl e \<Rightarrow> Some (Inl e)
            | Inr filters \<Rightarrow> params_loop allowed ps filters))"

definition parse_filters :: "api_request \<Rightarrow> attr_map \<Rightarrow> filters \<Rightarrow> filters \<Rightarrow> (query_error + filters) option" where
  "parse_filters r allowed default_filters filters =
     (case params_loop allowed (ar_params r) filters of
        None \<Rightarrow> None
      | Some (Inl e) \<Rightarrow> Some (Inl e)
      | Some (Inr filters) \<Rightarrow>
          Some (Inr (fold (\<lambda>(n, v) m. if gm_has m n then m else gm_put n v m) default_filters filters)))"

definition apply_search :: "api_request \<Rightarrow> tx \<Rightarrow> string list \<Rightarrow> tx \<times> string" where
  "apply_search r tx columns =
     (let search = remove_invalid_chars (case query_param r ''search'' of None \<Rightarrow> [] | Some s \<Rightarrow> s)
      in if search = [] then (tx, [])
         else if columns = [] then (tx, [])
         else (tx @ [Where (''LOWER(CONCAT('' @ join_with [CHR '','', CHR 0x27, CHR '' '', CHR 0x27, CHR '',''] columns @ '')) LIKE LOWER(?)'') [Text (''%'' @ search @ ''%'')]],
               ''search='' @ search))"

section \<open>Tags and inventory filters\<close>

record tag =
  tg_namespace :: "string option"
  tg_key :: string
  tg_value :: "string option"

definition not_slash_eq :: "char \<Rightarrow> bool" where
  "not_slash_eq c \<longleftrightarrow> c \<noteq> CHR ''/'' \<and> c \<noteq> CHR ''=''"

definition tag_regex :: re where
  "tag_regex = Seq (Grp 1 (Many 1 not_slash_eq)) (Seq (Chars (\<lambda>c. c = CHR ''/'')) (Seq (Grp 2 (Many 1 not_slash_eq))
     (Opt (Grp 3 (Seq (Chars (\<lambda>c. c = CHR ''='')) (Grp 4 (Many 1 not_slash_eq)))))))"

definition trim_quotes :: "string \<Rightarrow> string" where
  "trim_quotes s =
     (if 2 \<le> length s \<and> hd s = last s \<and> (hd s = CHR 0x22 \<or> hd s = CHR 0x27) then butlast (tl s) else s)"

definition parse_tag :: "string \<Rightarrow> query_error + tag" where
  "parse_tag t =
     (case find_submatch tag_regex (trim_quotes t) of
        None \<Rightarrow> Inl (InvalidTag t)
      | Some cs \<Rightarrow> Inr
          \<lparr>tg_namespace = (if map lower_char (group cs 1) = ''null'' then None else Some (group cs 1)),
           tg_key = group cs 2,
           tg_value = (if group cs 4 = [] then None else Some (group cs 4))\<rparr>)"

record tag_codec =
  tc_unquote :: "string \<Rightarrow> string option"
  tc_encode :: "tag \<Rightarrow> string"

definition apply_tag :: "tag_codec \<Rightarrow> tag option \<Rightarrow> tx \<Rightarrow> tx" where
  "apply_tag codec t tx =
     (case t of None \<Rightarrow> tx | Some t \<Rightarrow> tx @ [Where ''si.tags @> ?::jsonb'' [Text (tc_encode codec t)]])"

definition tag_values :: "tag_codec \<Rightarrow> tag \<Rightarrow> string list" where
  "tag_values codec t =
     (case tg_value t of
        None \<Rightarrow> []
      | Some v \<Rightarrow> split_on (CHR '','') (case tc_unquote codec v of None \<Rightarrow> v | Some u \<Rightarrow> u))"

definition tag_filter_key :: "tag \<Rightarrow> string" where
  "tag_filter_key t = (case tg_namespace t of None \<Rightarrow> tg_key t | Some ns \<Rightarrow> ns @ ''/'' @ tg_key t)"

fun parse_tags :: "tag_codec \<Rightarrow> string list \<Rightarrow> filters \<Rightarrow> query_error + filters" where
  "parse_tags codec [] filters = Inr filters"
| "parse_tags codec (t # ts) filters =
     (case parse_tag t of
        Inl e \<Rightarrow> Inl e
      | Inr tg \<Rightarrow> parse_tags codec ts (gm_put (tag_filter_key tg)
          \<lparr>fd_type = TagFilter, fd_operator = ''eq'', fd_values = tag_values codec tg\<rparr> filters))"

definition parse_all_filters :: "tag_codec \<Rightarrow> api_request \<Rightarrow> attr_map \<Rightarrow> filters \<Rightarrow> (query_error + filters) option" where
  "parse_all_filters codec r attrs default_filters =
     (case parse_tags codec (query_array r ''tags'') [] of
        Inl e \<Rightarrow> Some (Inl e)
      | Inr filters \<Rightarrow> parse_filters r attrs default_filters filters)"

definition has_inventory_filter :: "filters \<Rightarrow> bool" where
  "has_inventory_filter filters \<longleftrightarrow> list_ex (\<lambda>(k, d). fd_type d \<noteq> ColumnFilter) filters"

text \<open>\<open>None\<close>: \<open>values[0]\<close> of an empty slice.\<close>

definition build_inventory_clause :: "string \<Rightarrow> string list \<Rightarrow> (string, string) gomap \<Rightarrow> (string \<times> sql_arg list) option" where
  "build_inventory_clause key values key_map =
     (let column = (case gm_get key_map key of None \<Rightarrow> [] | Some c \<Rightarrow> c)
      in (case values of
            [] \<Rightarrow> None
          | v # vs \<Rightarrow> Some
              (if v = ''not_nil'' then (column @ '' is not null'', [])
               else if str_contains key ''[sap_sids'' then (column @ '' && ?::text[]'', [Texts values])
               else if vs \<noteq> [] then (column @ '' in (?)'', [Texts values])
               else (column @ '' = ?'', [Text v]))))"

fun inventory_loop :: "tag_codec \<Rightarrow> filters \<Rightarrow> tx \<Rightarrow> (string \<times> sql_arg list) list \<Rightarrow> bool
    \<Rightarrow> (tx \<times> (string \<times> sql_arg list) list \<times> bool) option" where
  "inventory_loop codec [] tx workload applied = Some (tx, workload, applied)"
| "inventory_loop codec ((key, val) # fs) tx workload applied =
     (case fd_type val of
        TagFilter \<Rightarrow> inventory_loop codec fs
          (apply_tag codec (case parse_tag (key @ ''='' @ join_with '','' (fd_values val)) of Inl e \<Rightarrow> None | Inr t \<Rightarrow> Some t) tx)
          workload True
      | InventoryFilter \<Rightarrow>
          (case build_inventory_clause key (fd_values val) inventory_filters of
             None \<Rightarrow> None
           | Some (q, args) \<Rightarrow> inventory_loop codec fs (tx @ [Where q args]) workload True)
      | WorkloadFilter \<Rightarrow>
          (case build_inventory_clause key (fd_values val) workload_filters of
             None \<Rightarrow> None
           | Some c \<Rightarrow> inventory_loop codec fs tx (workload @ [c]) applied)
      | ColumnFilter \<Rightarrow> inventory_loop codec fs tx workload applied)"

definition apply_inventory_where :: "tag_codec \<Rightarrow> filters \<Rightarrow> tx \<Rightarrow> (tx \<times> bool) option" where
  "apply_inventory_where codec filters tx =
     (case inventory_loop codec filters tx [] False of
        None \<Rightarrow> None
      | Some (tx, workload, applied) \<Rightarrow>
          Some (if workload \<noteq> [] then (tx @ [WhereAny workload], True) else (tx, applied)))"

definition apply_inventory_filter :: "tag_codec \<Rightarrow> filters \<Rightarrow> tx \<Rightarrow> string \<Rightarrow> (tx \<times> bool) option" where
  "apply_inventory_filter codec filters tx system_id_expr =
     (case apply_inventory_where codec filters [] of
        None \<Rightarrow> None
      | Some (subq, applied) \<Rightarrow>
          Some (if \<not> applied then (tx, False) else (tx @ [WhereIn (system_id_expr @ ''::uuid in (?)'') subq], True)))"

end
