(* ===== verification/Paging.thy ===== *)
theory Paging
  imports Filters
begin

text \<open>
  Pages of the manager's lists: limit and offset (\<open>base/utils/gin.go\<close>), the links to other pages
  (\<open>manager/controllers/paging.go\<close>) and the steps all list endpoints share (\<open>utils.go\<close>).  An error is
  answered with status 400 and returned; an outer \<open>None\<close> is a panic.
\<close>

section \<open>Limit and offset\<close>

definition load_param_int :: "string option \<Rightarrow> int \<Rightarrow> int option" where
  "load_param_int param default_value =
     (case param of None \<Rightarrow> Some default_value | Some v \<Rightarrow> if v = [] then Some default_value else go_atoi v)"

definition check_limit_offset :: "bool \<Rightarrow> int \<Rightarrow> int \<Rightarrow> string option" where
  "check_limit_offset limit_page_size limit offset =
     (if offset < 0 then Some ''offset must not be negative''
      else if limit_page_size \<and> (limit < 1 \<or> limit > 100) then Some ''limit must be in [1, 100]''
      else if limit < 1 \<and> limit \<noteq> -1
      then Some ''limit must not be less than 1, or should be -1 to return all items''
      else None)"

definition load_limit_offset :: "bool \<Rightarrow> api_request \<Rightarrow> int \<Rightarrow> query_error + int \<times> int" where
  "load_limit_offset limit_page_size r default_limit =
     (case load_param_int (query_param r ''offset'') 0 of
        None \<Rightarrow> Inl (InvalidParam ''offset'')
      | Some offset \<Rightarrow>
          (case load_param_int (query_param r ''limit'') default_limit of
             None \<Rightarrow> Inl (InvalidParam ''limit'')
           | Some limit \<Rightarrow>
               (case check_limit_offset limit_page_size limit offset of
                  Some e \<Rightarrow> Inl (InvalidParam e)
                | None \<Rightarrow> Inr (limit, offset))))"

text \<open>\<open>^\s+$\<close> of \<open>regexp\<close>: the ASCII white space without the vertical tab.\<close>

definition regexp_space :: "char \<Rightarrow> bool" where
  "regexp_space c \<longleftrightarrow> c \<in> set [CHR 0x09, CHR 0x0A, CHR 0x0C, CHR 0x0D, CHR 0x20]"

definition is_param_valid :: "string option \<Rightarrow> bool \<Rightarrow> bool \<Rightarrow> bool" where
  "is_param_valid param nullable empty_allowed =
     (case param of
        None \<Rightarrow> nullable
      | Some p \<Rightarrow> \<not> (p = [] \<and> \<not> empty_allowed)
          \<and> \<not> match_string (Seq Bol (Seq (Many 1 regexp_space) Eol)) p)"

section \<open>Links\<close>

record pager =
  pg_path :: string
  pg_offset :: int
  pg_limit :: int
  pg_total :: int
  pg_other_params :: string

record links =
  ln_first :: string
  ln_last :: string
  ln_next :: "string option"
  ln_previous :: "string option"

definition create_link :: "pager \<Rightarrow> int \<Rightarrow> string" where
  "create_link p link_offset =
     pg_path p @ ''?offset='' @ show_int link_offset @ ''&limit='' @ show_int (pg_limit p) @ pg_other_params p"

text \<open>The offsets of the links; division by a zero limit panics.\<close>

definition last_offset :: "pager \<Rightarrow> int option" where
  "last_offset p =
     (case go_div (pg_total p) (pg_limit p) of
        None \<Rightarrow> None
      | Some pages \<Rightarrow> (let off = wrap64 (wrap64 (pages - 1) * pg_limit p) in Some (if off < 0 then 0 else off)))"

definition next_offset :: "pager \<Rightarrow> int option" where
  "next_offset p = (let n = wrap64 (pg_offset p + pg_limit p) in if pg_total p \<le> n then None else Some n)"

definition previous_offset :: "pager \<Rightarrow> int option option" where
  "previous_offset p =
     (if pg_offset p = 0 then Some None
      else (case go_div (pg_offset p) (pg_limit p) of
              None \<Rightarrow> None
            | Some cur \<Rightarrow> Some (Some (if cur > 0 then wrap64 (wrap64 (cur - 1) * pg_limit p) else 0))))"

definition create_links :: "string \<Rightarrow> int \<Rightarrow> int \<Rightarrow> int \<Rightarrow> string list \<Rightarrow> links option" where
  "create_links path offset limit total_items other_params =
     (let query = concat (map (\<lambda>param. if param = [] then [] else ''&'' @ param) other_params);
          p = \<lparr>pg_path = path, pg_offset = offset, pg_limit = limit, pg_total = total_items, pg_other_params = query\<rparr>
      in (case (last_offset p, previous_offset p) of
            (Some last_off, Some prev) \<Rightarrow> Some \<lparr>ln_first = create_link p 0, ln_last = create_link p last_off,
              ln_next = map_option (create_link p) (next_offset p), ln_previous = map_option (create_link p) prev\<rparr>
          | _ \<Rightarrow> None))"

section \<open>Lists\<close>

record list_meta =
  lm_limit :: int
  lm_offset :: int
  lm_sort :: "string list"
  lm_search :: string
  lm_filter :: filters
  lm_total_items :: int
  lm_sub_totals :: "(string, int) gomap"
  lm_has_systems :: "bool option"

record list_opts =
  lo_fields :: attr_map
  lo_default_filters :: filters
  lo_default_sort :: string
  lo_stable_sort :: string
  lo_search_fields :: "string list"

record api_config =
  cfg_limit_page_size :: bool
  cfg_other_types :: "string list"

definition default_limit :: int where "default_limit = 20"

definition list_common_no_limit_offset :: "api_config \<Rightarrow> api_request \<Rightarrow> tx \<Rightarrow> filters \<Rightarrow> list_opts \<Rightarrow> string list
    \<Rightarrow> (query_error + tx \<times> list_meta \<times> string list) option" where
  "list_common_no_limit_offset cfg r tx filters opts params =
     (case load_limit_offset (cfg_limit_page_size cfg) r default_limit of
        Inl e \<Rightarrow> Some (Inl e)
      | Inr (limit, offset) \<Rightarrow>
          (let (tx, search_q) = apply_search r tx (lo_search_fields opts)
           in (case filters_apply (cfg_other_types cfg) filters (lo_fields opts) tx of
                 None \<Rightarrow> None
               | Some (Inl e) \<Rightarrow> Some (Inl e)
               | Some (Inr tx) \<Rightarrow>
                   (case apply_sort r tx (lo_fields opts) (lo_default_sort opts) (lo_stable_sort opts) of
                      Inl e \<Rightarrow> Some (Inl e)
                    | Inr (tx, sort_fields) \<Rightarrow>
                        (let sort_q = (if sort_fields = [] then [] else ''sort='' @ join_with '','' sort_fields);
                             meta = \<lparr>lm_limit = limit, lm_offset = offset, lm_sort = sort_fields,
                               lm_search = remove_invalid_chars (case query_param r ''search'' of None \<Rightarrow> [] | Some s \<Rightarrow> s),
                               lm_filter = filters, lm_total_items = 0, lm_sub_totals = [], lm_has_systems = Some True\<rparr>
                         in Some (Inr (tx, meta, params @ [filters_to_query_params filters, sort_q, search_q])))))))"

definition apply_limit_offset :: "tx \<Rightarrow> list_meta \<Rightarrow> tx" where
  "apply_limit_offset tx meta =
     (if lm_limit meta \<noteq> -1 then tx @ [LimitTo (lm_limit meta)] else tx) @ [OffsetBy (lm_offset meta)]"

definition list_common :: "api_config \<Rightarrow> api_request \<Rightarrow> tx \<Rightarrow> filters \<Rightarrow> list_opts \<Rightarrow> string list
    \<Rightarrow> (query_error + tx \<times> list_meta \<times> string list) option" where
  "list_common cfg r tx filters opts params =
     (case list_common_no_limit_offset cfg r tx filters opts params of
        Some (Inr (tx, meta, params)) \<Rightarrow> Some (Inr (apply_limit_offset tx meta, meta, params))
      | res \<Rightarrow> res)"

definition export_list_common :: "api_config \<Rightarrow> api_request \<Rightarrow> tx \<Rightarrow> list_opts \<Rightarrow> (query_error + tx) option" where
  "export_list_common cfg r tx opts =
     (case parse_filters r (lo_fields opts) (lo_default_filters opts) [] of
        None \<Rightarrow> None
      | Some (Inl e) \<Rightarrow> Some (Inl e)
      | Some (Inr filters) \<Rightarrow>
          (let (tx, search_q) = apply_search r tx (lo_search_fields opts)
           in (case filters_apply (cfg_other_types cfg) filters (lo_fields opts) tx of
                 None \<Rightarrow> None
               | Some (Inl e) \<Rightarrow> Some (Inl e)
               | Some (Inr tx) \<Rightarrow>
                   (case apply_sort r tx (lo_fields opts) (lo_default_sort opts) (lo_stable_sort opts) of
                      Inl e \<Rightarrow> Some (Inl e)
                    | Inr (tx, fs) \<Rightarrow> Some (Inr tx)))))"

text \<open>\<open>has_systems\<close> is what the query over the account's systems answers.\<close>

definition update_meta_links :: "api_request \<Rightarrow> bool \<Rightarrow> list_meta \<Rightarrow> int \<Rightarrow> (string, int) gomap \<Rightarrow> string list
    \<Rightarrow> (query_error + list_meta \<times> links) option" where
  "update_meta_links r has_systems meta total_items sub_totals params =
     (if lm_offset meta > total_items then Some (Inl InvalidOffset)
      else (case create_links (ar_path r) (lm_offset meta) (lm_limit meta) total_items params of
              None \<Rightarrow> None
            | Some links \<Rightarrow>
                (let meta = meta\<lparr>lm_total_items := total_items, lm_sub_totals := sub_totals\<rparr>;
                     meta = (if total_items = 0 then meta\<lparr>lm_has_systems := Some has_systems\<rparr> else meta)
                 in Some (Inr (meta, links)))))"

section \<open>Identifiers of a list\<close>

record id_row =
  ix_id :: string
  ix_total :: int

record ids_plain =
  ip_ids :: "string list"
  ip_data :: "string list"

definition systems_ids :: "id_row list option \<Rightarrow> list_meta \<Rightarrow> query_error + ids_plain" where
  "systems_ids systems meta =
     (let total = (case systems of Some (s # ss) \<Rightarrow> ix_total s | _ \<Rightarrow> 0)
      in if lm_offset meta > total then Inl InvalidOffset
         else (case systems of
                 None \<Rightarrow> Inr \<lparr>ip_ids = [], ip_data = []\<rparr>
               | Some ss \<Rightarrow> Inr \<lparr>ip_ids = map ix_id ss, ip_data = map ix_id ss\<rparr>))"

definition is_filter_in_url_valid :: "api_request \<Rightarrow> bool" where
  "is_filter_in_url_valid r \<longleftrightarrow> \<not> str_contains (ar_url r) ''filter''"

definition template_systems_update_limit :: nat where "template_systems_update_limit = 1000"

definition check_template_systems_limit :: "nat \<Rightarrow> bool" where
  "check_template_systems_limit num_systems \<longleftrightarrow> num_systems \<le> template_systems_update_limit"

datatype export_format = ExportJson | ExportCsv | ExportUnsupported

definition output_export_format :: "api_request \<Rightarrow> export_format" where
  "output_export_format r =
     (if str_contains (ar_accept r) ''application/json'' then ExportJson
      else if str_contains (ar_accept r) ''text/csv'' then ExportCsv
      else ExportUnsupported)"

end
