(* ===== verification/FilterLaws.thy ===== *)
theory FilterLaws
  imports Paging
begin

text \<open>
  Laws of the list queries: whatever a request asks for, its clauses are added to the query the
  handler starts from and their text comes from the endpoint's columns; what becomes of tags and of
  null filters; and that the links between pages visit every item.
\<close>

section \<open>Text of the clauses\<close>

definition operator_texts :: "string \<Rightarrow> string list" where
  "operator_texts q = [q @ '' = ? '', q @ '' <> ? '', q @ '' > ? '', q @ '' < ? '', q @ '' >= ? '', q @ '' <= ? '',
     q @ '' BETWEEN ? AND ? '', ''('' @ q @ '' IN ? OR '' @ q @ '' IS NULL) '', q @ '' IN (?) '',
     ''('' @ q @ '' NOT IN ? AND '' @ q @ '' IS NOT NULL) '', q @ '' NOT IN (?) '', q @ '' IS NULL '', q @ '' IS NOT NULL '']"

definition slots :: "string \<Rightarrow> nat" where
  "slots q = count_list q (CHR ''?'')"

lemma slots_append [simp]: "slots (a @ b) = slots a + slots b"
  by (simp add: slots_def)

lemma parse_values_length: "parse_values attrs field vs = Some (Inr xs) \<Longrightarrow> length xs = length vs"
  by (induction vs arbitrary: xs) (auto split: option.splits sum.splits)

lemma operator_clause_text:
  assumes "operator_clause operator has_null q values = Some (t, args)" "check_value_count operator (length values)"
  shows "t \<in> set (operator_texts q)" and "slots q = 0 \<Longrightarrow> slots t = length args"
  using assms by (auto simp: operator_clause_def operator_texts_def check_value_count_def slots_def split: if_splits)

lemma to_where_text:
  assumes "to_where other t field attrs = Some (Inr (q, args))"
  shows "\<exists>info. (field, info) \<in> set attrs \<and> q \<in> set (operator_texts (ai_data_query info))
     \<and> (slots (ai_data_query info) = 0 \<longrightarrow> slots q = length args)"
proof -
  obtain oper vals has_null where tr: "transform_params other t field = (oper, vals, has_null)"
    by (cases "transform_params other t field") auto
  obtain parsed where p: "parse_values attrs field vals = Some (Inr parsed)"
    and n: "check_value_count oper (length vals)"
    and c: "operator_clause oper has_null (data_query attrs field) parsed = Some (q, args)"
    using assms by (auto simp: to_where_def tr split: option.splits sum.splits if_splits)
  have "vals \<noteq> []" using n by (auto simp: check_value_count_def split: if_splits)
  then obtain info where i: "gm_get attrs field = Some info" using p by (cases vals) (auto split: option.splits)
  have "data_query attrs field = ai_data_query info" using i by (simp add: data_query_def)
  then show ?thesis
    using map_of_SomeD [OF i] operator_clause_text [OF c] n parse_values_length [OF p] by (intro exI [of _ info]) simp
qed

text \<open>The clauses an endpoint may add: over its own columns, the search over its own fields, its sort
  orders, a limit and an offset.\<close>

definition search_text :: "list_opts \<Rightarrow> string" where
  "search_text opts = ''LOWER(CONCAT('' @ join_with [CHR '','', CHR 0x27, CHR '' '', CHR 0x27, CHR '',''] (lo_search_fields opts)
     @ '')) LIKE LOWER(?)''"

fun trusted :: "list_opts \<Rightarrow> clause \<Rightarrow> bool" where
  "trusted opts (Where q args) \<longleftrightarrow> q = search_text opts \<and> length args = 1
     \<or> list_ex (\<lambda>(n, i). q \<in> set (operator_texts (ai_data_query i)) \<and> (slots (ai_data_query i) = 0 \<longrightarrow> slots q = length args))
         (lo_fields opts)"
| "trusted opts (OrderBy q) \<longleftrightarrow> q = lo_stable_sort opts @ '' ASC''
     \<or> q \<in> {'' ASC NULLS LAST'', '' DESC NULLS LAST''}
     \<or> list_ex (\<lambda>(n, i). q \<in> {ai_order_query i @ '' ASC NULLS LAST'', ai_order_query i @ '' DESC NULLS LAST''}) (lo_fields opts)"
| "trusted opts (LimitTo n) \<longleftrightarrow> 1 \<le> n"
| "trusted opts (OffsetBy n) \<longleftrightarrow> 0 \<le> n"
| "trusted opts (WhereAny cs) \<longleftrightarrow> False"
| "trusted opts (WhereIn e cs) \<longleftrightarrow> False"

definition grows :: "list_opts \<Rightarrow> tx \<Rightarrow> tx \<Rightarrow> bool" where
  "grows opts tx tx' \<longleftrightarrow> (\<exists>extra. tx' = tx @ extra \<and> (\<forall>c\<in>set extra. trusted opts c))"

lemma grows_refl [simp]: "grows opts tx tx"
  by (simp add: grows_def)

lemma grows_trans: "grows opts a b \<Longrightarrow> grows opts b c \<Longrightarrow> grows opts a c"
  by (auto simp: grows_def)

lemma grows_one: "trusted opts c \<Longrightarrow> grows opts tx (tx @ [c])"
  by (simp add: grows_def)

lemma filters_apply_grows:
  "filters_apply other fs (lo_fields opts) tx = Some (Inr tx') \<Longrightarrow> grows opts tx tx'"
proof (induction fs arbitrary: tx)
  case (Cons f fs)
  obtain name d where f: "f = (name, d)" by (cases f)
  show ?case
  proof (cases "fd_type d = ColumnFilter")
    case True
    then obtain q args where w: "to_where other d name (lo_fields opts) = Some (Inr (q, args))"
      and r: "filters_apply other fs (lo_fields opts) (tx @ [Where q args]) = Some (Inr tx')"
      using Cons.prems by (auto simp: f split: option.splits sum.splits)
    have "trusted opts (Where q args)" using to_where_text [OF w] by (auto simp: list_ex_iff)
    then show ?thesis using Cons.IH [OF r] grows_trans grows_one by blast
  next
    case False
    then show ?thesis using Cons by (simp add: f)
  qed
qed simp

lemma sort_loop_grows:
  "sort_loop (lo_fields opts) fs tx applied = Inr (tx', applied') \<Longrightarrow> grows opts tx tx'"
proof (induction fs arbitrary: tx applied)
  case (Cons e fs)
  define field where "field = (if has_prefix e ''-'' then tl e else e)"
  define order where "order = (case gm_get (lo_fields opts) field of None \<Rightarrow> [] | Some info \<Rightarrow> ai_order_query info)"
  let ?c = "OrderBy (order @ '' '' @ (if has_prefix e ''-'' then ''DESC'' else ''ASC'') @ '' NULLS LAST'')"
  have r: "sort_loop (lo_fields opts) fs (tx @ [?c]) (applied @ [e]) = Inr (tx', applied')"
    using Cons.prems by (simp add: Let_def field_def [symmetric] order_def [symmetric] split: if_splits)
  have "trusted opts ?c"
    by (cases "gm_get (lo_fields opts) field")
      (auto simp: order_def list_ex_iff dest!: map_of_SomeD intro!: bexI)
  then show ?case using Cons.IH [OF r] grows_trans grows_one by blast
qed simp

lemma apply_search_grows: "grows opts tx (fst (apply_search r tx (lo_search_fields opts)))"
  by (auto simp: apply_search_def Let_def search_text_def intro!: grows_one)

text \<open>C6. Whatever a list request asks for, the query that is run is the one its handler started from -
  restricted to the account and the workspaces - with clauses added: their text is made of the endpoint's own
  column expressions and fixed operators, never of text of the request, and they have one argument for
  each placeholder; limit and offset are in range.\<close>

theorem list_query_trusted:
  assumes "list_common cfg r tx filters opts params = Some (Inr (tx', meta, params'))"
  shows "\<exists>extra. tx' = tx @ extra \<and> (\<forall>c\<in>set extra. trusted opts c)"
proof -
  obtain tx3 where n: "list_common_no_limit_offset cfg r tx filters opts params = Some (Inr (tx3, meta, params'))"
    and tx': "tx' = apply_limit_offset tx3 meta"
    using assms by (auto simp: list_common_def split: sum.splits option.splits prod.splits)
  obtain limit offset where lo: "load_limit_offset (cfg_limit_page_size cfg) r default_limit = Inr (limit, offset)"
    using n by (auto simp: list_common_no_limit_offset_def split: sum.splits)
  obtain tx1 search_q where se: "apply_search r tx (lo_search_fields opts) = (tx1, search_q)"
    by (cases "apply_search r tx (lo_search_fields opts)")
  note n = n [unfolded list_common_no_limit_offset_def lo se sum.case prod.case Let_def]
  obtain tx2 where f: "filters_apply (cfg_other_types cfg) filters (lo_fields opts) tx1 = Some (Inr tx2)"
    using n by (cases "filters_apply (cfg_other_types cfg) filters (lo_fields opts) tx1") (auto split: sum.splits)
  obtain sorted where s: "apply_sort r tx2 (lo_fields opts) (lo_default_sort opts) (lo_stable_sort opts) = Inr (tx3, sorted)"
    and m: "lm_limit meta = limit" "lm_offset meta = offset"
    using n unfolding f
    by (cases "apply_sort r tx2 (lo_fields opts) (lo_default_sort opts) (lo_stable_sort opts)") auto
  have t1: "grows opts tx tx1" using apply_search_grows [of opts tx r] se by simp
  obtain tx4 where tx3: "tx3 = tx4 @ [OrderBy (lo_stable_sort opts @ '' ASC'')]" and sl: "grows opts tx2 tx4"
    using s sort_loop_grows by (auto simp: apply_sort_def Let_def split: sum.splits)
  have "0 \<le> offset" "limit = -1 \<or> 1 \<le> limit"
    using lo by (auto simp: load_limit_offset_def check_limit_offset_def split: option.splits if_splits)
  then have "grows opts tx3 tx'" using m by (auto simp: tx' apply_limit_offset_def grows_def)
  moreover have "grows opts tx4 tx3" unfolding tx3 by (rule grows_one) simp
  ultimately have "grows opts tx tx'"
    using t1 filters_apply_grows [OF f] sl grows_trans by blast
  then show ?thesis by (simp add: grows_def)
qed

definition sample_opts :: list_opts where
  "sample_opts = \<lparr>lo_fields = get_query_attrs \<lparr>vp_uuid = Some, vp_time = (\<lambda>t. if t = ''0'' then None else Some 1)\<rparr>
       [Column ''InventoryID'' KindUuid (Some ''column:inventory_id'') (Some ''si.inventory_id'') None,
        Column ''Seen'' (KindPtr KindTime) None (Some ''si.seen'') None,
        Column ''Count'' KindInt None None None],
     lo_default_filters = [], lo_default_sort = ''-id'', lo_stable_sort = ''id'', lo_search_fields = [''si.name'']\<rparr>"

definition sample_list_request :: api_request where
  "sample_list_request = \<lparr>ar_path = ''/systems'', ar_url = [], ar_params = [(''filter[count]'', [''in:1,2'']),
     (''limit'', [''10'']), (''search'', [''x''])], ar_accept = []\<rparr>"

theorem list_query_trusted_witness:
  "\<exists>extra. (\<forall>c\<in>set extra. trusted sample_opts c) \<and> extra =
     [Where (search_text sample_opts) [Text ''%x%''], Where ''count IN (?) '' [Many_of [SqlInt 1, SqlInt 2]],
      OrderBy ''si.inventory_id DESC NULLS LAST'', OrderBy ''id ASC'', LimitTo 10, OffsetBy 0]"
proof -
  let ?fs = "[(''count'', parse_filter_value ColumnFilter ''in:1,2'')]"
  let ?cfg = "\<lparr>cfg_limit_page_size = True, cfg_other_types = []\<rparr>"
  have "case list_common ?cfg sample_list_request [] ?fs sample_opts [] of
      Some (Inr (tx', meta, params')) \<Rightarrow> tx' = [Where (search_text sample_opts) [Text ''%x%''],
        Where ''count IN (?) '' [Many_of [SqlInt 1, SqlInt 2]],
        OrderBy ''si.inventory_id DESC NULLS LAST'', OrderBy ''id ASC'', LimitTo 10, OffsetBy 0]
    | _ \<Rightarrow> False" by code_simp
  then obtain tx' meta params' where run: "list_common ?cfg sample_list_request [] ?fs sample_opts [] = Some (Inr (tx', meta, params'))"
    and tx': "tx' = [Where (search_text sample_opts) [Text ''%x%''], Where ''count IN (?) '' [Many_of [SqlInt 1, SqlInt 2]],
        OrderBy ''si.inventory_id DESC NULLS LAST'', OrderBy ''id ASC'', LimitTo 10, OffsetBy 0]"
    by (auto split: option.splits sum.splits prod.splits)
  from list_query_trusted [OF run] tx' show ?thesis by auto
qed

section \<open>Null filters\<close>

text \<open>The filters \<open>null\<close> and \<open>notnull\<close> carry the value \<open>0\<close> through the parser of the column: on a
  column whose type does not accept it, as times and UUIDs do not, both are rejected as invalid values.\<close>

theorem null_filter_rejected:
  assumes "gm_get attrs field = Some info" "ai_parser info = Some parser" "parser ''0'' = None"
    and "fd_values t = [''null''] \<or> fd_values t = [''notnull'']"
  shows "to_where other t field attrs = Some (Inl (InvalidValue ''0'' field))"
  using assms by (auto simp: to_where_def transform_params_def)

theorem null_filter_rejected_witness:
  "to_where [] (parse_filter_value ColumnFilter ''null'') ''seen'' (lo_fields sample_opts) = Some (Inl (InvalidValue ''0'' ''seen''))"
proof -
  have p: "(case gm_get (lo_fields sample_opts) ''seen'' of Some i \<Rightarrow>
      (case ai_parser i of Some p \<Rightarrow> p ''0'' = None | None \<Rightarrow> False) | None \<Rightarrow> False)" by code_simp
  then obtain info parser where "gm_get (lo_fields sample_opts) ''seen'' = Some info" "ai_parser info = Some parser" "parser ''0'' = None"
    by (auto split: option.splits)
  moreover have "fd_values (parse_filter_value ColumnFilter ''null'') = [''null'']" by code_simp
  ultimately show ?thesis by (simp add: null_filter_rejected)
qed

section \<open>Tags\<close>

lemma many_run:
  assumes "lo \<le> length a" "\<forall>x\<in>set a. p x" "s' = [] \<or> \<not> p (hd s')" "k (i + length a, s') cs = Some r"
  shows "rx (Many lo p) (i, a @ s') cs k = Some r"
proof -
  have "takeWhile p s' = []" using assms(3) by (cases s') auto
  then have "length (takeWhile p (a @ s')) = length a" using assms(2) by (simp add: takeWhile_append2)
  then show ?thesis using assms(1,4) by (auto intro: try_down_top)
qed

definition plain :: "string \<Rightarrow> bool" where
  "plain s \<longleftrightarrow> s \<noteq> [] \<and> (\<forall>c\<in>set s. c \<noteq> CHR ''/'' \<and> c \<noteq> CHR ''='' \<and> c \<noteq> CHR 0x22 \<and> c \<noteq> CHR 0x27)"

definition tag_text :: "string \<Rightarrow> string \<Rightarrow> string option \<Rightarrow> string" where
  "tag_text ns k v = ns @ ''/'' @ k @ (case v of None \<Rightarrow> [] | Some v \<Rightarrow> ''='' @ v)"

lemma plainD:
  assumes "plain s"
  shows "1 \<le> length s" and "\<forall>x\<in>set s. not_slash_eq x"
  using assms unfolding plain_def not_slash_eq_def by (cases s; simp; blast)+

lemma trim_plain: "plain a \<Longrightarrow> trim_quotes (a @ s) = a @ s"
  by (cases a) (auto simp: trim_quotes_def plain_def)

lemma rx_seq_char: "rx (Seq (Chars p) r) (i, x # t) cs k = (if p x then rx r (Suc i, t) cs k else None)"
  by simp

lemma rx_seq_grp: "rx (Seq (Grp n a) r) (i, s) cs k
    = rx a (i, s) cs (\<lambda>(j, s') cs'. rx r (j, s') ((n, take (j - i) s) # cs') k)"
  by simp

lemma tag_value_match:
  assumes "v = [] \<or> plain v"
  shows "\<exists>cs'. rx (Opt (Grp 3 (Seq (Chars (\<lambda>c. c = CHR ''='')) (Grp 4 (Many 1 not_slash_eq))))) (i, ''='' @ v) cs
      (\<lambda>(j, t) cs. Some ((0, f j) # cs)) = Some cs' \<and> (\<exists>n m. cs' = (0, n) # (if v = [] then [] else [(3, m), (4, v)]) @ cs)"
proof (cases "v = []")
  case True
  then show ?thesis by (simp add: try_down.simps)
next
  case False
  then have p: "plain v" using assms by blast
  let ?k = "\<lambda>(j, s') cs'. Some ((0, f j) # (3, take (j - i) (''='' @ v)) # (4, take (j - Suc i) v) # cs')"
  have "rx (Many 1 not_slash_eq) (Suc i, v) cs ?k
      = Some ((0, f (Suc i + length v)) # (3, take (Suc i + length v - i) (''='' @ v)) # (4, v) # cs)"
    by (rule many_end) (use plainD [OF p] in simp_all)
  then show ?thesis using False by (simp add: case_prod_beta')
qed

lemma tag_match:
  assumes "plain ns" "plain k" "v = None \<or> v = Some [] \<or> (\<exists>w. v = Some w \<and> plain w)"
  shows "\<exists>cs. find_submatch tag_regex (tag_text ns k v) = Some cs \<and> group cs 1 = ns \<and> group cs 2 = k
     \<and> group cs 4 = (case v of None \<Rightarrow> [] | Some w \<Rightarrow> w)"
proof -
  let ?v = "case v of None \<Rightarrow> [] | Some w \<Rightarrow> ''='' @ w"
  let ?w = "case v of None \<Rightarrow> [] | Some w \<Rightarrow> w"
  let ?s = "tag_text ns k v"
  let ?K = "\<lambda>(j, t) cs. Some ((0, take j ?s) # cs)"
  let ?opt = "Opt (Grp 3 (Seq (Chars (\<lambda>c. c = CHR ''='')) (Grp 4 (Many 1 not_slash_eq))))"
  let ?i = "Suc (length ns) + length k"
  have "\<exists>cs'. rx ?opt (?i, ?v) [(2, k), (1, ns)] ?K = Some cs'
     \<and> (\<exists>n m. cs' = (0, n) # (if ?w = [] then [] else [(3, m), (4, ?w)]) @ [(2, k), (1, ns)])"
  proof (cases v)
    case None
    then show ?thesis by simp
  next
    case (Some w)
    then have "w = [] \<or> plain w" using assms(3) by auto
    then show ?thesis unfolding Some option.case by (rule tag_value_match)
  qed
  then obtain cs' n m where opt: "rx ?opt (?i, ?v) [(2, k), (1, ns)] ?K = Some cs'"
    and cs': "cs' = (0, n) # (if ?w = [] then [] else [(3, m), (4, ?w)]) @ [(2, k), (1, ns)]" by blast
  have stop: "?v = [] \<or> \<not> not_slash_eq (hd ?v)" by (cases v) (auto simp: not_slash_eq_def)
  have two: "rx (Many 1 not_slash_eq) (Suc (length ns), k @ ?v) [(1, ns)]
      (\<lambda>(j, s') cs'. rx ?opt (j, s') ((2, take (j - Suc (length ns)) (k @ ?v)) # cs') ?K) = Some cs'"
  proof (rule many_run)
    have t: "take (?i - Suc (length ns)) (k @ ?v) = k" by simp
    show "(case (?i, ?v) of (j, s') \<Rightarrow> \<lambda>cs'. rx ?opt (j, s') ((2, take (j - Suc (length ns)) (k @ ?v)) # cs') ?K) [(1, ns)]
        = Some cs'"
      unfolding prod.case t by (rule opt)
  qed (use plainD [OF assms(2)] stop in simp_all)
  have "rx (Many 1 not_slash_eq) (0, ns @ (''/'' @ k @ ?v)) []
      (\<lambda>(j, s') cs'. rx (Seq (Chars (\<lambda>c. c = CHR ''/'')) (Seq (Grp 2 (Many 1 not_slash_eq)) ?opt)) (j, s')
         ((1, take (j - 0) (ns @ (''/'' @ k @ ?v))) # cs') ?K) = Some cs'"
  proof (rule many_run)
    have t: "take (0 + length ns - 0) (ns @ (''/'' @ k @ ?v)) = ns" "''/'' @ k @ ?v = CHR ''/'' # k @ ?v" "0 + length ns = length ns"
      by simp_all
    show "(case (0 + length ns, ''/'' @ k @ ?v) of (j, s') \<Rightarrow> \<lambda>cs'.
        rx (Seq (Chars (\<lambda>c. c = CHR ''/'')) (Seq (Grp 2 (Many 1 not_slash_eq)) ?opt)) (j, s')
         ((1, take (j - 0) (ns @ (''/'' @ k @ ?v))) # cs') ?K) [] = Some cs'"
      unfolding prod.case t(1) unfolding t(2,3) rx_seq_char rx_seq_grp simp_thms if_True by (rule two)
  qed (use plainD [OF assms(1)] in \<open>simp_all add: not_slash_eq_def\<close>)
  then have "rx tag_regex (0, ?s) [] ?K = Some cs'" unfolding tag_regex_def rx_seq_grp unfolding tag_text_def .
  then have "find_submatch tag_regex ?s = Some cs'" by (rule find_submatch_at_start)
  then show ?thesis using cs' by (auto simp: group_def)
qed

lemma parse_plain_tag:
  assumes "plain ns" "plain k" "v = None \<or> v = Some [] \<or> (\<exists>w. v = Some w \<and> plain w)"
  shows "parse_tag (tag_text ns k v) = Inr \<lparr>tg_namespace = (if map lower_char ns = ''null'' then None else Some ns), tg_key = k,
     tg_value = (if v = Some [] then None else v)\<rparr>"
proof -
  have t: "trim_quotes (tag_text ns k v) = tag_text ns k v" using trim_plain [OF assms(1)] by (simp add: tag_text_def)
  obtain cs where cs: "find_submatch tag_regex (tag_text ns k v) = Some cs" "group cs 1 = ns" "group cs 2 = k"
    "group cs 4 = (case v of None \<Rightarrow> [] | Some w \<Rightarrow> w)" using tag_match [OF assms] by blast
  have "(if (case v of None \<Rightarrow> [] | Some w \<Rightarrow> w) = [] then None else Some (case v of None \<Rightarrow> [] | Some w \<Rightarrow> w))
      = (if v = Some [] then None else v)" by (cases v) auto
  then show ?thesis by (simp only: parse_tag_def t cs option.case)
qed

lemma tag_needs_slash:
  assumes "CHR ''/'' \<notin> set s"
  shows "find_submatch tag_regex s = None"
proof -
  have "rx_find tag_regex i s = None" for i
    using assms
  proof (induction s arbitrary: i)
    case Nil
    then show ?case by (simp add: rx_find.simps tag_regex_def try_down.simps)
  next
    case (Cons a s)
    have "rx tag_regex (i, a # s) [] (\<lambda>(j, t) cs. Some ((0, take (j - i) (a # s)) # cs)) = None"
      unfolding tag_regex_def rx.simps(3,5)
    proof (rule many_no_sep [where c = "CHR ''/''"], goal_cases)
      case (1 j s')
      then show ?case by (cases s') simp_all
    qed (use Cons.prems in simp_all)
    then show ?case using Cons by (subst rx_find.simps) simp
  qed
  then show ?thesis by (simp add: find_submatch_def)
qed

lemma trim_no_quote: "plain a \<Longrightarrow> s = a @ b \<Longrightarrow> trim_quotes s = s"
  by (simp add: trim_plain)

text \<open>C28. A tag parameter \<open>namespace/key=value\<close> becomes one clause with exactly that tag - except that for
  the namespace \<open>null\<close>, which the program accepts and stores as no namespace, no clause is added at all while
  the filter counts as applied: the list is not restricted.\<close>

theorem tag_filter_applied:
  assumes t: "plain ns" "plain k" "v = None \<or> (\<exists>w. v = Some w \<and> plain w \<and> tc_unquote codec w = None)"
    and parsed: "parse_tags codec [tag_text ns k v] [] = Inr fs"
  shows "apply_inventory_where codec fs tx = Some (
     (if map lower_char ns = ''null'' then tx
      else tx @ [Where ''si.tags @> ?::jsonb'' [Text (tc_encode codec \<lparr>tg_namespace = Some ns, tg_key = k, tg_value = v\<rparr>)]]), True)"
proof -
  let ?null = "map lower_char ns = ''null''"
  let ?ns = "if ?null then None else Some ns"
  let ?val = "case v of None \<Rightarrow> [] | Some w \<Rightarrow> w"
  have v: "v = None \<or> v = Some [] \<or> (\<exists>w. v = Some w \<and> plain w)" "v \<noteq> Some []" using t(3) by (auto simp: plain_def)
  have p: "parse_tag (tag_text ns k v) = Inr \<lparr>tg_namespace = ?ns, tg_key = k, tg_value = v\<rparr>"
    using parse_plain_tag [OF t(1,2) v(1)] v(2) by simp
  let ?tag = "\<lparr>tg_namespace = ?ns, tg_key = k, tg_value = v\<rparr>"
  have fs: "fs = [(tag_filter_key ?tag, \<lparr>fd_type = TagFilter, fd_operator = ''eq'', fd_values = tag_values codec ?tag\<rparr>)]"
    using parsed by (simp add: p)
  have val: "join_with '','' (tag_values codec ?tag) = ?val"
    using t(3) by (auto simp: tag_values_def join_split)
  have "apply_inventory_where codec fs tx = Some (apply_tag codec
      (case parse_tag (tag_filter_key ?tag @ ''='' @ ?val) of Inl e \<Rightarrow> None | Inr t \<Rightarrow> Some t) tx, True)"
    by (simp add: apply_inventory_where_def fs val)
  also have "\<dots> = Some (if ?null then tx else tx @ [Where ''si.tags @> ?::jsonb''
      [Text (tc_encode codec \<lparr>tg_namespace = Some ns, tg_key = k, tg_value = v\<rparr>)]], True)"
  proof (cases ?null)
    case True
    have "CHR ''/'' \<notin> set (k @ ''='' @ ?val)" using t(2) v by (auto simp: plain_def)
    then have "find_submatch tag_regex (k @ ''='' @ ?val) = None" by (rule tag_needs_slash)
    moreover have "trim_quotes (k @ ''='' @ ?val) = k @ ''='' @ ?val" using t(2) by (rule trim_plain)
    ultimately show ?thesis using True by (simp add: tag_filter_key_def parse_tag_def apply_tag_def)
  next
    case False
    have "tag_filter_key ?tag @ ''='' @ ?val = tag_text ns k (Some ?val)"
      using False by (simp add: tag_filter_key_def tag_text_def)
    moreover have "Some ?val = None \<or> Some ?val = Some [] \<or> (\<exists>w. Some ?val = Some w \<and> plain w)"
      using v by (auto split: option.split)
    moreover have "(if Some ?val = Some [] then None else Some ?val) = v" using v by (auto simp: plain_def split: option.splits)
    ultimately show ?thesis using parse_plain_tag [OF t(1,2), of "Some ?val"] False by (simp add: apply_tag_def)
  qed
  finally show ?thesis .
qed

theorem tag_filter_applied_witness:
  "apply_inventory_where \<lparr>tc_unquote = (\<lambda>s. None), tc_encode = (\<lambda>t. tg_key t)\<rparr>
     [(''os'', \<lparr>fd_type = TagFilter, fd_operator = ''eq'', fd_values = [''rhel'']\<rparr>)] [] = Some ([], True)"
proof -
  let ?codec = "\<lparr>tc_unquote = (\<lambda>s. None), tc_encode = (\<lambda>t. tg_key t)\<rparr>"
  have plain: "plain ''NULL''" "plain ''os''" "plain ''rhel''" by code_simp+
  then have v: "Some ''rhel'' = None \<or> (\<exists>w. Some ''rhel'' = Some w \<and> plain w \<and> tc_unquote ?codec w = None)" by simp
  have p: "parse_tags ?codec [tag_text ''NULL'' ''os'' (Some ''rhel'')] []
      = Inr [(''os'', \<lparr>fd_type = TagFilter, fd_operator = ''eq'', fd_values = [''rhel'']\<rparr>)]" by code_simp
  have "map lower_char ''NULL'' = ''null''" by code_simp
  then show ?thesis using tag_filter_applied [OF plain(1,2) v p, of "[]"] by simp
qed

end
