(* ===== verification/PagingLaws.thy ===== *)
theory PagingLaws
  imports FilterLaws
begin

text \<open>
  The links between the pages of a list: following them from the first page visits every item once,
  which page the link to the last one leads to, what the links of an unlimited list are worth, and
  what is left of the filters printed into a link when it is followed.
\<close>

section \<open>Walking through the pages\<close>

fun visit :: "nat \<Rightarrow> pager \<Rightarrow> int list" where
  "visit 0 p = []"
| "visit (Suc fuel) p = pg_offset p # (case next_offset p of None \<Rightarrow> [] | Some n \<Rightarrow> visit fuel (p\<lparr>pg_offset := n\<rparr>))"

definition pages_from :: "pager \<Rightarrow> int \<Rightarrow> nat" where
  "pages_from p off = nat (max 1 ((pg_total p - off + pg_limit p - 1) div pg_limit p))"

lemma next_offset_small:
  assumes "0 < pg_limit p" "0 \<le> pg_offset p" "pg_offset p \<le> max 0 (pg_total p)" "pg_total p + pg_limit p < 2 ^ 63" "pg_limit p < 2 ^ 63"
  shows "next_offset p = (if pg_total p \<le> pg_offset p + pg_limit p then None else Some (pg_offset p + pg_limit p))"
proof -
  have "in_int64 (pg_offset p + pg_limit p)" using assms by (auto simp: in_int64_def max_def split: if_splits)
  then show ?thesis by (simp add: next_offset_def wrap64_id Let_def)
qed

lemma pages_step:
  assumes "0 < l" "off + l < t"
  shows "max 1 ((t - off + l - 1) div l) = 1 + max 1 ((t - (off + l) + l - 1) div (l::int))"
proof -
  have "(t - off + l - 1) div l = 1 + (t - (off + l) + l - 1) div l"
    using assms(1) div_add_self2 [of l "t - (off + l) + l - 1"] by (simp add: algebra_simps)
  moreover have "1 \<le> (t - (off + l) + l - 1) div l"
    using zdiv_mono1 [of l "t - (off + l) + l - 1" l] assms by simp
  ultimately show ?thesis by simp
qed

lemma pages_last:
  assumes "0 < l" "t \<le> off + l"
  shows "max 1 ((t - off + l - 1) div l) = (1::int)"
proof -
  have "(t - off + l - 1) div l \<le> (2 * l - 1) div l" using assms by (intro zdiv_mono1) simp_all
  moreover have "(2 * l - 1) div l = 1" using assms(1) int_div_pos_eq [of "2 * l - 1" l 1 "l - 1"] by simp
  ultimately have "(t - off + l - 1) div l < 2" by simp
  then show ?thesis by simp
qed

lemma visit_from:
  assumes "0 < pg_limit p" "pg_total p + pg_limit p < 2 ^ 63" "pg_limit p < 2 ^ 63"
  shows "0 \<le> pg_offset p \<Longrightarrow> pg_offset p \<le> max 0 (pg_total p) \<Longrightarrow> nat (pg_total p - pg_offset p) < fuel \<Longrightarrow>
    visit fuel p = map (\<lambda>k. pg_offset p + int k * pg_limit p) [0..<pages_from p (pg_offset p)]"
  using assms
proof (induction fuel arbitrary: p)
  case (Suc fuel)
  note nx = next_offset_small [OF Suc.prems(4,1,2,5,6)]
  show ?case
  proof (cases "pg_total p \<le> pg_offset p + pg_limit p")
    case True
    then show ?thesis using nx pages_last [OF Suc.prems(4) True] by (simp add: pages_from_def)
  next
    case False
    let ?q = "p\<lparr>pg_offset := pg_offset p + pg_limit p\<rparr>"
    have "visit fuel ?q = map (\<lambda>k. pg_offset ?q + int k * pg_limit ?q) [0..<pages_from ?q (pg_offset ?q)]"
      by (rule Suc.IH) (use Suc.prems False in auto)
    moreover have "pages_from p (pg_offset p) = Suc (pages_from ?q (pg_offset ?q))"
      using pages_step [OF Suc.prems(4), of "pg_offset p" "pg_total p"] False by (simp add: pages_from_def)
    ultimately show ?thesis using nx False
      by (simp add: map_upt_Suc distrib_right add.assoc del: upt_Suc)
  qed
qed simp

lemma page_of_item:
  assumes "0 < (l::int)" "0 \<le> i" "i < t"
  shows "\<exists>!k. k < nat (max 1 ((t + l - 1) div l)) \<and> int k * l \<le> i \<and> i < int k * l + l"
proof (rule ex1I [of _ "nat (i div l)"])
  have "0 \<le> i div l" using assms by (simp add: pos_imp_zdiv_nonneg_iff)
  moreover have "i div l < (t + l - 1) div l"
    using zdiv_mono1 [of "i + l" "t + l - 1" l] div_add_self2 [of l i] assms by simp
  moreover have "i div l * l \<le> i" "i < i div l * l + l"
    using div_mult_mod_eq [of i l] pos_mod_sign [of l i] pos_mod_bound [of l i] assms(1) by linarith+
  ultimately show "nat (i div l) < nat (max 1 ((t + l - 1) div l)) \<and> int (nat (i div l)) * l \<le> i
      \<and> i < int (nat (i div l)) * l + l" by auto
next
  fix k
  assume "k < nat (max 1 ((t + l - 1) div l)) \<and> int k * l \<le> i \<and> i < int k * l + l"
  then have "i div l = int k" using assms(1) by (intro int_div_pos_eq [of i l "int k" "i - int k * l"]) auto
  then show "k = nat (i div l)" by simp
qed

lemma last_offset_eq:
  assumes "0 < pg_limit p" "0 \<le> pg_total p" "pg_total p < 2 ^ 63" "pg_limit p < 2 ^ 63"
  shows "last_offset p = Some (max 0 ((pg_total p div pg_limit p - 1) * pg_limit p))"
proof -
  let ?q = "pg_total p div pg_limit p"
  have q: "0 \<le> ?q" "?q * pg_limit p \<le> pg_total p" "?q \<le> pg_total p"
  proof -
    show "0 \<le> ?q" using assms by (simp add: pos_imp_zdiv_nonneg_iff)
    show "?q * pg_limit p \<le> pg_total p"
      using div_mult_mod_eq [of "pg_total p" "pg_limit p"] pos_mod_sign [of "pg_limit p" "pg_total p"] assms(1) by linarith
    show "?q \<le> pg_total p" using assms zdiv_mono2 [of "pg_total p" 1 "pg_limit p"] by simp
  qed
  have m: "(?q - 1) * pg_limit p = ?q * pg_limit p - pg_limit p" by (simp add: left_diff_distrib)
  have q0: "0 \<le> ?q * pg_limit p" using q(1) assms(1) by simp
  have "in_int64 (?q - 1)" "in_int64 ((?q - 1) * pg_limit p)"
    using q q0 assms unfolding m in_int64_def by linarith+
  then show ?thesis using assms by (simp add: last_offset_def go_div_nonneg wrap64_id Let_def max_def)
qed

text \<open>C7. Following the \<open>next\<close> links of a list from its first page ends after as many pages as the total
  fills, and every item is on exactly one of them; but the link to the last page leads there only when
  the total fills its pages exactly, or there is only one page: otherwise the last items are not on it.\<close>

theorem page_links_cover:
  assumes "0 < pg_limit p" "0 \<le> pg_total p" "pg_total p + pg_limit p < 2 ^ 63" "pg_offset p = 0" "nat (pg_total p) < fuel"
  shows "visit fuel p = map (\<lambda>k. int k * pg_limit p) [0..<pages_from p 0]
     \<and> (\<forall>i. 0 \<le> i \<and> i < pg_total p \<longrightarrow> (\<exists>!k. k < pages_from p 0 \<and> int k * pg_limit p \<le> i \<and> i < int k * pg_limit p + pg_limit p))
     \<and> (last_offset p = Some (last (visit fuel p)) \<longleftrightarrow> pg_limit p dvd pg_total p \<or> pg_total p < pg_limit p)"
proof -
  let ?l = "pg_limit p" and ?t = "pg_total p"
  let ?n = "pages_from p 0"
  have walk: "visit fuel p = map (\<lambda>k. int k * ?l) [0..<?n]"
    using visit_from [of p fuel] assms by simp
  have n: "int ?n = max 1 ((?t + ?l - 1) div ?l)" by (simp add: pages_from_def)
  then have "?n \<noteq> 0" by (auto simp: pages_from_def)
  then have last: "last (visit fuel p) = (int ?n - 1) * ?l" by (simp add: walk last_map of_nat_diff)
  have lo: "last_offset p = Some (max 0 ((?t div ?l - 1) * ?l))" using assms by (intro last_offset_eq) simp_all
  have "last_offset p = Some (last (visit fuel p)) \<longleftrightarrow> ?l dvd ?t \<or> ?t < ?l"
  proof (cases "?t < ?l")
    case True
    then have "?t div ?l = 0" "max 1 ((?t + ?l - 1) div ?l) = 1"
      using assms pages_last [of ?l ?t 0] by (simp_all add: div_pos_pos_trivial)
    then show ?thesis using True n assms(1) by (simp add: lo last)
  next
    case False
    have q: "1 \<le> ?t div ?l" using False assms(1) zdiv_mono1 [of ?l ?t ?l] by simp
    have c: "(?t + ?l - 1) div ?l = ?t div ?l + (if ?l dvd ?t then 0 else 1)"
    proof (cases "?l dvd ?t")
      case True
      then obtain m where "?t = ?l * m" by blast
      then show ?thesis using assms(1) int_div_pos_eq [of "?t + ?l - 1" ?l m "?l - 1"] by simp
    next
      case False
      then have "0 < ?t mod ?l" using assms(1) pos_mod_sign [of ?l ?t] by (simp add: dvd_eq_mod_eq_0 less_le)
      moreover have "?t + ?l - 1 = ?l * (?t div ?l + 1) + (?t mod ?l - 1)"
        using mult_div_mod_eq [of ?l ?t] by (simp add: distrib_left)
      moreover have "?t mod ?l < ?l" using assms(1) by (rule pos_mod_bound)
      ultimately have "(?t + ?l - 1) div ?l = ?t div ?l + 1"
        using assms(1) by (intro int_div_pos_eq [of _ _ _ "?t mod ?l - 1"]) linarith+
      then show ?thesis using False by simp
    qed
    have "max 0 ((?t div ?l - 1) * ?l) = (?t div ?l - 1) * ?l" using q assms(1) by simp
    then show ?thesis using n c q assms(1) False by (auto simp: lo last)
  qed
  then show ?thesis using walk page_of_item [OF assms(1), of _ ?t] by (simp add: pages_from_def)
qed

theorem page_links_cover_witness:
  "visit 30 \<lparr>pg_path = ''/systems'', pg_offset = 0, pg_limit = 10, pg_total = 25, pg_other_params = []\<rparr> = [0, 10, 20]
   \<and> last_offset \<lparr>pg_path = ''/systems'', pg_offset = 0, pg_limit = 10, pg_total = 25, pg_other_params = []\<rparr> \<noteq> Some 20"
proof -
  let ?p = "\<lparr>pg_path = ''/systems'', pg_offset = 0, pg_limit = 10, pg_total = 25, pg_other_params = []\<rparr>"
  have "0 < pg_limit ?p" "0 \<le> pg_total ?p" "pg_total ?p + pg_limit ?p < 2 ^ 63" "pg_offset ?p = 0" "nat (pg_total ?p) < 30"
    by simp_all
  note links = page_links_cover [OF this]
  have v: "visit 30 ?p = [0, 10, 20]" unfolding conjunct1 [OF links] by code_simp
  have "last_offset ?p = Some (last (visit 30 ?p)) \<longleftrightarrow> pg_limit ?p dvd pg_total ?p \<or> pg_total ?p < pg_limit ?p"
    by (rule conjunct2 [OF conjunct2 [OF links]])
  then show ?thesis using v by simp
qed

text \<open>A list without a limit (\<open>limit=-1\<close>) still carries links, and none but the first can be followed: the
  next one asks for a negative offset and the last one for an offset beyond the end; both are refused.\<close>

theorem unlimited_links_refused:
  assumes "pg_limit p = -1" "pg_offset p = 0" "0 \<le> pg_total p" "pg_total p < 2 ^ 62"
    and meta: "lm_offset meta = the (last_offset p)"
  shows "next_offset p = Some (-1) \<and> check_limit_offset paged (pg_limit p) (the (next_offset p)) \<noteq> None
     \<and> last_offset p = Some (pg_total p + 1)
     \<and> update_meta_links r has_systems meta (pg_total p) sub_totals params = Some (Inl InvalidOffset)"
proof -
  have "go_div (pg_total p) (pg_limit p) = Some (wrap64 (- pg_total p))"
    using assms(1,3) by (cases "pg_total p = 0") (simp_all add: go_div_def sgn_if)
  moreover have "in_int64 (- pg_total p)" using assms(3,4) by (simp add: in_int64_def)
  ultimately have "go_div (pg_total p) (pg_limit p) = Some (- pg_total p)" by (simp add: wrap64_id)
  then have l: "last_offset p = Some (pg_total p + 1)"
    using assms(1,3,4) by (simp add: last_offset_def wrap64_id in_int64_def Let_def)
  moreover have "next_offset p = Some (-1)" using assms by (simp add: next_offset_def wrap64_id in_int64_def)
  ultimately show ?thesis using meta by (simp add: check_limit_offset_def update_meta_links_def)
qed

theorem unlimited_links_refused_witness:
  "\<exists>p. pg_limit p = -1 \<and> next_offset p = Some (-1)"
proof -
  let ?p = "\<lparr>pg_path = [], pg_offset = 0, pg_limit = -1, pg_total = 3, pg_other_params = []\<rparr>"
  let ?m = "\<lparr>lm_limit = -1, lm_offset = the (last_offset ?p), lm_sort = [], lm_search = [], lm_filter = [],
     lm_total_items = 0, lm_sub_totals = [], lm_has_systems = None\<rparr>"
  have "pg_limit ?p = -1" "pg_offset ?p = 0" "0 \<le> pg_total ?p" "pg_total ?p < 2 ^ 62"
    "lm_offset ?m = the (last_offset ?p)" by simp_all
  from unlimited_links_refused [OF this] show ?thesis by (intro exI [of _ ?p]) simp
qed

section \<open>Filters in links\<close>






text \<open>Texts that survive in a link, up to a plus sign, and names that do altogether.\<close>

definition link_text :: "string \<Rightarrow> bool" where
  "link_text s \<longleftrightarrow> set s \<inter> set ''&;%#'' = {}"

definition link_name :: "string \<Rightarrow> bool" where
  "link_name s \<longleftrightarrow> set s \<inter> set ''&;%#+='' = {}"

definition blanks :: "string \<Rightarrow> string" where
  "blanks s = map (\<lambda>c. if c = CHR ''+'' then CHR '' '' else c) s"


lemma blanks_append [simp]: "blanks (a @ b) = blanks a @ blanks b"
  by (simp add: blanks_def)









lemma link_name_parts: "link_name a \<Longrightarrow> link_name b \<Longrightarrow> link_name (a @ b)" "link_text a \<Longrightarrow> link_text b \<Longrightarrow> link_text (a @ b)"
  by (auto simp: link_name_def link_text_def)



















end
