(* ===== verification/TemplateAssign.thy ===== *)
theory TemplateAssign
  imports Access KafkaEvents GoRegexp
begin

text \<open>
  Putting systems into templates and taking them out, over the API: the handlers of
  \<open>template_systems_update.go\<close>, \<open>template_systems_delete.go\<close> and
  \<open>template_subscribed_systems_update.go\<close> in \<open>manager/controllers\<close>, with the queue of systems to
  evaluate again (\<open>manager/kafka/kafka.go\<close>).  A handler is a function on the request's context, the
  tables, the state of Candlepin and the batches handed to the queue.  A database call that fails
  gives the driver's error text (\<open>as_faults\<close>); Candlepin is a parameter.
\<close>

section \<open>Error texts\<close>

definition sentinel_text :: "sentinel \<Rightarrow> string" where
  "sentinel_text s =
     (case s of
        ErrDatabase \<Rightarrow> ''database error'' | ErrKafka \<Rightarrow> ''kafka error'' | ErrBadRequest \<Rightarrow> ''bad request''
      | ErrNotFound \<Rightarrow> ''not found'' | ErrFatal \<Rightarrow> ''fatal error restarting pod''
      | ErrVmaasBadRequest \<Rightarrow> ''vmaas bad request'' | ErrNoPackages \<Rightarrow> ''skipping profile with no packages''
      | ErrReporter \<Rightarrow> ''skipping excluded reporter'' | ErrHostType \<Rightarrow> ''skipping excluded host type''
      | ErrBadPackages \<Rightarrow> ''skipping profile with malformed packages''
      | ErrNoAccountProvided \<Rightarrow> ''no account provided in host message''
      | ErrKafkaSend \<Rightarrow> ''unable to send evaluation message'' | ErrProcessUpload \<Rightarrow> ''unable to process upload''
      | ErrCandlepin \<Rightarrow> ''candlepin error'' | ErrTemplateNotFound \<Rightarrow> ''content sources template not found'')"

text \<open>\<open>err.Error()\<close> of errors whose leaves are texts.\<close>

fun error_text :: "string go_error \<Rightarrow> string" where
  "error_text (Leaf m) = m"
| "error_text (Sentinel s) = sentinel_text s"
| "error_text (Joined es) = join_with [CHR 0x0A] (map error_text es)"
| "error_text (Wrapped m e) = m @ '': '' @ error_text e"

text \<open>A slice of UUIDs printed with \<open>%v\<close>.\<close>

definition show_uuids :: "uuid list \<Rightarrow> string" where
  "show_uuids ids = ''['' @ join_with '' '' ids @ '']''"

section \<open>State and parameters\<close>

datatype assign_site =
    TemplateLookup | SystemsCheck | ArchVersions | ConsumersLookup | AssignUpdate | AssignCommit | SubscribedLookup

record consumers_request =
  cq_consumers :: "string list"
  cq_environments :: "string list"

record 'n assign_env =
  as_faults :: "assign_site \<Rightarrow> string option"
  as_satellite :: bool
  as_template_eval :: bool
  as_debug :: bool
  as_cast_uuid :: "string \<Rightarrow> uuid"
  as_parse_uuid :: "string \<Rightarrow> uuid option"
  as_candlepin_address :: string
  as_valid_url :: "string \<Rightarrow> bool"
  as_candlepin :: "string \<Rightarrow> consumers_request \<Rightarrow> 'n \<Rightarrow> string transport \<times> 'n"
  as_retries :: nat
  as_error_text :: "http_error go_error \<Rightarrow> string"

record 'n assign_state =
  an_db :: listener_db
  an_net :: 'n
  an_recalc :: "eval_data list list"

section \<open>Templates and limits\<close>

definition hex_digit :: "char \<Rightarrow> bool" where
  "hex_digit c \<longleftrightarrow> c \<in> set ''0123456789abcdefABCDEF''"

primrec times_then :: "nat \<Rightarrow> re \<Rightarrow> re \<Rightarrow> re" where
  "times_then 0 r k = k"
| "times_then (Suc n) r k = Seq r (times_then n r k)"

definition uuid_regex :: re where
  "uuid_regex =
     (let hex = Chars hex_digit; dash = Chars (\<lambda>c. c = CHR ''-'')
      in Seq Bol (times_then 8 hex (Seq dash (times_then 4 hex (Seq dash (times_then 4 hex
           (Seq dash (times_then 4 hex (Seq dash (times_then 12 hex Eol))))))))))"

definition is_valid_uuid :: "string \<Rightarrow> bool" where
  "is_valid_uuid uuid = match_string uuid_regex uuid"

definition template_systems_update_limit :: int where "template_systems_update_limit = 1000"

definition check_template_systems_limit :: "int \<Rightarrow> gin_context \<Rightarrow> string go_error option \<times> gin_context" where
  "check_template_systems_limit num_systems c =
     (if num_systems > template_systems_update_limit
      then (let msg = ''Cannot process more than '' @ show_int template_systems_update_limit @ '' systems at once''
            in (Some (Leaf msg), abort_with 400 msg c))
      else (None, c))"

definition get_template_row :: "'n assign_env \<Rightarrow> listener_db \<Rightarrow> int \<Rightarrow> string \<Rightarrow> gin_context
    \<Rightarrow> (string go_error + template_row) \<times> gin_context" where
  "get_template_row env db account uuid c =
     (if \<not> is_valid_uuid uuid
      then (let e = Leaf (''Invalid template uuid: '' @ uuid) in (Inl e, abort_with 404 (error_text e) c))
      else (case as_faults env TemplateLookup of
              Some e \<Rightarrow> (Inl (Leaf e), abort_with 500 ''database error'' c)
            | None \<Rightarrow>
                (case find (\<lambda>r. tr_account r = account \<and> tr_uuid r = as_cast_uuid env uuid) (ldb_templates db) of
                   None \<Rightarrow> (let e = Leaf ''Template not found'' in (Inl e, abort_with 404 (error_text e) c))
                 | Some r \<Rightarrow>
                     if tr_id r = 0 then (let e = Leaf ''Template not found'' in (Inl e, abort_with 404 (error_text e) c))
                     else (Inr r, c))))"

section \<open>Checking the systems\<close>

definition requested_systems :: "listener_db \<Rightarrow> int \<Rightarrow> string list \<Rightarrow> uuid list \<Rightarrow> system_inventory list" where
  "requested_systems db account workspace_ids inventory_ids =
     filter (\<lambda>si. si_inventory_id si \<in> set inventory_ids) (map fst (systems db account workspace_ids))"

text \<open>The satellite check comes first, then bootc, then the unknown systems.\<close>

definition check_inventory_ids :: "'n assign_env \<Rightarrow> listener_db \<Rightarrow> int \<Rightarrow> uuid list \<Rightarrow> string list
    \<Rightarrow> string go_error option" where
  "check_inventory_ids env db account inventory_ids workspace_ids =
     (case as_faults env SystemsCheck of
        Some e \<Rightarrow> join_errors [Some (Sentinel ErrDatabase), Some (Leaf e)]
      | None \<Rightarrow>
          (let containing = requested_systems db account workspace_ids inventory_ids;
               known = fold (\<lambda>si m. gm_put (si_inventory_id si) True m) containing [];
               satellite_ids = sort (map si_inventory_id (filter si_satellite_managed containing));
               bootc_ids = sort (map si_inventory_id (filter si_bootc containing));
               missing_ids = sort (filter (\<lambda>i. \<not> gm_has known i) inventory_ids)
           in if as_satellite env \<and> satellite_ids \<noteq> []
              then join_errors [None, Some (Sentinel ErrBadRequest),
                     Some (Leaf (''template can not contain satellite managed systems: '' @ show_uuids satellite_ids))]
              else if bootc_ids \<noteq> []
              then join_errors [None, Some (Sentinel ErrBadRequest),
                     Some (Leaf (''template can not contain bootc systems: '' @ show_uuids bootc_ids))]
              else if missing_ids \<noteq> []
              then join_errors [None, Some (Sentinel ErrNotFound),
                     Some (Leaf (''unknown inventory_ids: '' @ show_uuids missing_ids))]
              else None))"

text \<open>A NULL column is scanned into the empty string.\<close>

definition shown_version :: "system_inventory \<Rightarrow> string" where
  "shown_version si = (case si_os_major si of None \<Rightarrow> [] | Some v \<Rightarrow> show_int v)"

definition shown_arch :: "system_inventory \<Rightarrow> string" where
  "shown_arch si = (case si_arch si of None \<Rightarrow> [] | Some a \<Rightarrow> a)"

fun arch_version_loop :: "template_row \<Rightarrow> system_inventory list \<Rightarrow> string go_error option \<Rightarrow> string go_error option" where
  "arch_version_loop template [] err = err"
| "arch_version_loop template (si # sis) err =
     arch_version_loop template sis
       (if shown_version si \<noteq> tr_version template \<or> shown_arch si \<noteq> tr_arch template
        then join_errors [err, Some (Leaf (''system uuid: '' @ si_inventory_id si @ '', arch: '' @ shown_arch si
               @ '', version: '' @ shown_version si))]
        else err)"

definition template_arch_version_match :: "'n assign_env \<Rightarrow> listener_db \<Rightarrow> uuid list \<Rightarrow> template_row option \<Rightarrow> int
    \<Rightarrow> string list \<Rightarrow> string go_error option" where
  "template_arch_version_match env db inventory_ids template account workspace_ids =
     (case template of
        None \<Rightarrow> None
      | Some tpl \<Rightarrow>
          (case as_faults env ArchVersions of
             Some e \<Rightarrow> Some (Leaf e)
           | None \<Rightarrow>
               (case arch_version_loop tpl (requested_systems db account workspace_ids inventory_ids) None of
                  None \<Rightarrow> None
                | Some err \<Rightarrow> join_errors [Some (Leaf (''template arch: '' @ tr_arch tpl @ '', version: ''
                    @ tr_version tpl)), Some err])))"

definition invalid_inventory_ids_err :: string where
  "invalid_inventory_ids_err = ''invalid list of inventory IDs''"

definition check_template_systems :: "'n assign_env \<Rightarrow> listener_db \<Rightarrow> int \<Rightarrow> template_row option \<Rightarrow> uuid list
    \<Rightarrow> string list \<Rightarrow> gin_context \<Rightarrow> string go_error option \<times> gin_context" where
  "check_template_systems env db account template inventory_ids workspace_ids c =
     (if inventory_ids = []
      then (Some (Leaf invalid_inventory_ids_err), abort_with 400 invalid_inventory_ids_err c)
      else (case check_inventory_ids env db account inventory_ids workspace_ids of
              Some err \<Rightarrow>
                if error_is err ErrBadRequest then (Some err, abort_with 400 (error_text err) c)
                else if error_is err ErrNotFound then (Some err, abort_with 404 (error_text err) c)
                else (Some err, abort_with 500 ''Database error'' c)
            | None \<Rightarrow>
                (case template_arch_version_match env db inventory_ids template account workspace_ids of
                   Some err \<Rightarrow> (Some err, abort_with 400
                     (''Incompatible template and system version or architecture: '' @ error_text err) c)
                 | None \<Rightarrow> (None, c))))"

section \<open>Candlepin\<close>

definition candlepin_call :: "'n assign_env \<Rightarrow> string \<Rightarrow> consumers_request \<Rightarrow> 'n \<Rightarrow> string http_outcome \<times> 'n" where
  "candlepin_call env url request net =
     (let valid = as_valid_url env url;
          (t, sent) = as_candlepin env url request net;
          (out, resp, err) = client_request True valid (as_debug env) t [];
          net = (if valid \<and> (as_debug env \<longrightarrow> tr_dump_request t) then sent else net)
      in (case err of
            Some e \<Rightarrow> ((out, resp, Some (Wrapped (as_error_text env e) (Sentinel ErrCandlepin))), net)
          | None \<Rightarrow>
              (let status_code = try_get_status_code resp
               in ((out, resp, if status_code \<noteq> 200 \<and> status_code \<noteq> 204
                     then Some (Leaf (Non2xx status_code)) else None), net))))"

definition call_candlepin :: "'n assign_env \<Rightarrow> string \<Rightarrow> consumers_request \<Rightarrow> 'n
    \<Rightarrow> (http_error go_error + string) \<times> 'n" where
  "call_candlepin env owner request net =
     (let url = as_candlepin_address env @ ''/owners/'' @ owner @ ''/consumers/environments''
      in (case http_call_retry (candlepin_call env url request) [503] (as_retries env) 0 net of
            (Inl e, net) \<Rightarrow> (Inl (Wrapped (''candlepin call '' @ url @ '' failed'') e), net)
          | (Inr message, net) \<Rightarrow> (Inr message, net)))"

fun consumers_loop :: "system_inventory list \<Rightarrow> string go_error option \<Rightarrow> string list
    \<Rightarrow> string go_error option \<times> string list" where
  "consumers_loop [] err consumers = (err, consumers)"
| "consumers_loop (si # sis) err consumers =
     (case si_subscription_manager_id si of
        None \<Rightarrow> consumers_loop sis
          (join_errors [err, Some (Leaf (CHR 0x27 # si_inventory_id si @ [CHR 0x27]))]) consumers
      | Some consumer \<Rightarrow> consumers_loop sis err (consumers @ [consumer]))"

text \<open>\<open>callCandlepin\<close> returns no response with an error, so the answer has the fixed text.\<close>

definition assign_candlepin_environment :: "'n assign_env \<Rightarrow> int \<Rightarrow> string option \<Rightarrow> uuid list \<Rightarrow> string list
    \<Rightarrow> gin_context \<times> 'n assign_state \<Rightarrow> bool \<times> gin_context \<times> 'n assign_state" where
  "assign_candlepin_environment env account environment inventory_ids workspace_ids = (\<lambda>(c, s).
     case as_faults env ConsumersLookup of
       Some e \<Rightarrow> (False, abort_with 500 ''Database error'' c, s)
     | None \<Rightarrow>
         (case consumers_loop (requested_systems (an_db s) account workspace_ids inventory_ids) None [] of
            (Some e, consumers) \<Rightarrow>
              (False, abort_with 400 (error_text (Joined [Leaf ''missing owner_id for systems'', e])) c, s)
          | (None, consumers) \<Rightarrow>
              (let request = \<lparr>cq_consumers = consumers,
                     cq_environments = (case environment of None \<Rightarrow> [] | Some e \<Rightarrow> [e])\<rparr>;
                   owner = (case gc_org c of None \<Rightarrow> [] | Some org \<Rightarrow> org);
                   (r, net) = call_candlepin env owner request (an_net s);
                   s = s\<lparr>an_net := net\<rparr>
               in (case r of
                     Inl e \<Rightarrow> (False, abort_with 400 ''call to candlepin failed'' c, s)
                   | Inr message \<Rightarrow> (True, c, s)))))"

section \<open>Assigning\<close>

definition assigned_system_ids :: "listener_db \<Rightarrow> int \<Rightarrow> uuid list \<Rightarrow> int list" where
  "assigned_system_ids db account inventory_ids =
     map si_id (filter (\<lambda>si. si_account si = account \<and> si_inventory_id si \<in> set inventory_ids) (ldb_inventory db))"

text \<open>The update and the number of rows it affects; a transaction that is not committed is rolled back.\<close>

definition assign_rows :: "int \<Rightarrow> int option \<Rightarrow> uuid list \<Rightarrow> listener_db \<Rightarrow> listener_db \<times> int" where
  "assign_rows account template_id inventory_ids db =
     (let ids = set (assigned_system_ids db account inventory_ids);
          hit = (\<lambda>((a, i), p). a = account \<and> i \<in> ids)
      in (db\<lparr>ldb_patch := map (\<lambda>((a, i), p). ((a, i), if hit ((a, i), p) then p\<lparr>sp_template_id := template_id\<rparr> else p))
            (ldb_patch db)\<rparr>, int (length (filter hit (ldb_patch db)))))"

definition assign_template_systems :: "'n assign_env \<Rightarrow> int \<Rightarrow> template_row option \<Rightarrow> uuid list
    \<Rightarrow> gin_context \<times> 'n assign_state \<Rightarrow> bool \<times> gin_context \<times> 'n assign_state" where
  "assign_template_systems env account template inventory_ids = (\<lambda>(c, s).
     let template_id = (case template of None \<Rightarrow> None | Some tpl \<Rightarrow> if tr_id tpl \<noteq> 0 then Some (tr_id tpl) else None);
         (db, rows) = assign_rows account template_id inventory_ids (an_db s)
     in if as_faults env AssignUpdate \<noteq> None then (False, abort_with 500 ''Database error'' c, s)
        else if rows \<noteq> int (length inventory_ids) then (False, abort_with 400 invalid_inventory_ids_err c, s)
        else if as_faults env AssignCommit \<noteq> None then (False, abort_with 500 ''Database error'' c, s)
        else (True, c, s\<lparr>an_db := db\<rparr>))"

section \<open>Evaluating again\<close>

definition inventory_ids2_eval_data :: "int \<Rightarrow> string \<Rightarrow> uuid list \<Rightarrow> eval_data list" where
  "inventory_ids2_eval_data account org ids =
     map (\<lambda>v. \<lparr>ed_inventory = v, ed_account = account, ed_request = [], ed_org = Some org\<rparr>) ids"

definition recalc_systems :: "eval_data list \<Rightarrow> 'n assign_state \<Rightarrow> 'n assign_state" where
  "recalc_systems batch s = s\<lparr>an_recalc := an_recalc s @ [batch]\<rparr>"

text \<open>The other end of the channel; an error of the writer is logged, \<open>None\<close> is a panic.\<close>

definition send_inventory_ids :: "int \<Rightarrow> timestamp \<Rightarrow> ((int \<times> uuid list) list \<Rightarrow> (int \<times> uuid list) list)
    \<Rightarrow> (platform_event \<Rightarrow> string option) \<Rightarrow> 'w writer \<Rightarrow> eval_data list \<Rightarrow> 'w \<Rightarrow> 'w option" where
  "send_inventory_ids default_size now shuffle enc w ids out =
     (if ids = [] then Some out else map_option snd (eval_write_events default_size now shuffle enc w ids out))"

fun run_recalc_loop :: "int \<Rightarrow> timestamp \<Rightarrow> ((int \<times> uuid list) list \<Rightarrow> (int \<times> uuid list) list)
    \<Rightarrow> (platform_event \<Rightarrow> string option) \<Rightarrow> 'w writer \<Rightarrow> eval_data list list \<Rightarrow> 'w \<Rightarrow> 'w option" where
  "run_recalc_loop default_size now shuffle enc w [] out = Some out"
| "run_recalc_loop default_size now shuffle enc w (batch # batches) out =
     (case send_inventory_ids default_size now shuffle enc w batch out of
        None \<Rightarrow> None
      | Some out \<Rightarrow> run_recalc_loop default_size now shuffle enc w batches out)"

section \<open>Handlers\<close>

text \<open>What the three handlers share after they know the template and the systems.\<close>

definition context_org :: "gin_context \<Rightarrow> string" where
  "context_org c = (case gc_org c of None \<Rightarrow> [] | Some org \<Rightarrow> org)"

definition move_systems :: "'n assign_env \<Rightarrow> int \<Rightarrow> string \<Rightarrow> template_row option \<Rightarrow> uuid list
    \<Rightarrow> gin_context \<times> 'n assign_state \<Rightarrow> gin_context \<times> 'n assign_state" where
  "move_systems env account org template ids = (\<lambda>(c, s).
     let workspace_ids = context_workspaces c;
         (err, c) = check_template_systems env (an_db s) account template ids workspace_ids c
     in if err \<noteq> None then (c, s)
        else (let (ok, c, s) = assign_candlepin_environment env account (map_option tr_environment_id template) ids
                workspace_ids (c, s)
              in if \<not> ok then (c, s)
                 else (let (ok, c, s) = assign_template_systems env account template ids (c, s)
                       in if \<not> ok then (c, s)
                          else (c, if as_template_eval env
                                   then recalc_systems (inventory_ids2_eval_data account org ids) s else s))))"

text \<open>\<open>body\<close> is the decoded list of systems, \<open>Inl\<close> the error of the decoder.\<close>

definition template_systems_update_handler :: "'n assign_env \<Rightarrow> string \<Rightarrow> string + uuid list
    \<Rightarrow> gin_context \<times> 'n assign_state \<Rightarrow> gin_context \<times> 'n assign_state" where
  "template_systems_update_handler env template_uuid body = (\<lambda>(c, s).
     case body of
       Inl e \<Rightarrow> (abort_with 400 (''Invalid template update request '' @ e) c, s)
     | Inr ids \<Rightarrow>
         (case check_template_systems_limit (int (length ids)) c of
            (Some e, c) \<Rightarrow> (c, s)
          | (None, c) \<Rightarrow>
              (case get_template_row env (an_db s) (context_account c) template_uuid c of
                 (Inl e, c) \<Rightarrow> (c, s)
               | (Inr template, c) \<Rightarrow>
                   move_systems env (context_account c) (context_org c) (Some template) ids (c, s))))"

definition template_systems_delete_handler :: "'n assign_env \<Rightarrow> string + uuid list
    \<Rightarrow> gin_context \<times> 'n assign_state \<Rightarrow> gin_context \<times> 'n assign_state" where
  "template_systems_delete_handler env body = (\<lambda>(c, s).
     case body of
       Inl e \<Rightarrow> (abort_with 400 (''Invalid template delete request '' @ e) c, s)
     | Inr ids \<Rightarrow>
         (case check_template_systems_limit (int (length ids)) c of
            (Some e, c) \<Rightarrow> (c, s)
          | (None, c) \<Rightarrow> move_systems env (context_account c) (context_org c) None ids (c, s)))"

definition get_subscribed_system :: "'n assign_env \<Rightarrow> listener_db \<Rightarrow> gin_context
    \<Rightarrow> (unit + int \<times> string \<times> uuid) \<times> gin_context" where
  "get_subscribed_system env db c =
     (let account = context_account c;
          system_cn = (case gc_system c of None \<Rightarrow> [] | Some cn \<Rightarrow> cn)
      in (case as_faults env SubscribedLookup of
            Some e \<Rightarrow> (Inl (), abort_with 500 ''database error'' c)
          | None \<Rightarrow>
              (let text = (case find (\<lambda>si. si_subscription_manager_id si = Some (as_cast_uuid env system_cn) \<and> si_account si = account)
                             (ldb_inventory db) of None \<Rightarrow> [] | Some si \<Rightarrow> si_inventory_id si);
                   inventory_id = (case as_parse_uuid env text of None \<Rightarrow> nil_uuid | Some i \<Rightarrow> i)
               in if inventory_id = nil_uuid
                  then (Inl (), abort_with 404 (''System '' @ system_cn @ '' not found'') c)
                  else (Inr (account, context_org c, inventory_id), c))))"

definition template_subscribed_systems_update_handler :: "'n assign_env \<Rightarrow> string
    \<Rightarrow> gin_context \<times> 'n assign_state \<Rightarrow> gin_context \<times> 'n assign_state" where
  "template_subscribed_systems_update_handler env template_uuid = (\<lambda>(c, s).
     case get_subscribed_system env (an_db s) c of
       (Inl e, c) \<Rightarrow> (c, s)
     | (Inr (account, org, system_uuid), c) \<Rightarrow>
         (case get_template_row env (an_db s) account template_uuid c of
            (Inl e, c) \<Rightarrow> (c, s)
          | (Inr template, c) \<Rightarrow> move_systems env account org (Some template) [system_uuid] (c, s)))"

end
