(* ===== verification/TemplateAssignLaws.thy ===== *)
theory TemplateAssignLaws
  imports TemplateAssign AccessLaws ListenerInvariant
begin

text \<open>
  A request to move systems into a template either moves exactly the systems it names, after every
  check, or changes no row; Candlepin has no part in that transaction.
\<close>

section \<open>The checks\<close>

lemma join_errors_None: "join_errors es = None \<longleftrightarrow> (\<forall>e\<in>set es. e = None)"
  by (induction es) (auto simp: join_errors_def Let_def split: option.splits if_splits)

lemma requested_mem: "si \<in> set (requested_systems db account ws ids) \<longleftrightarrow>
    si_inventory_id si \<in> set ids \<and> (\<exists>sp. (si, sp) \<in> set (systems db account ws))"
  by (force simp: requested_systems_def)

lemma known_ids: "gm_get (fold (\<lambda>si m. gm_put (si_inventory_id si) True m) sis m) i = None
    \<longleftrightarrow> gm_get m i = None \<and> (\<forall>si\<in>set sis. si_inventory_id si \<noteq> i)"
  by (induction sis arbitrary: m) (auto simp: gomap)

lemma sort_empty: "sort xs = [] \<longleftrightarrow> xs = []"
  by (metis set_empty set_sort)

lemma check_inventory_ids_None:
  "check_inventory_ids env db account ids ws = None \<longleftrightarrow>
     as_faults env SystemsCheck = None
   \<and> (\<forall>si\<in>set (requested_systems db account ws ids). \<not> si_bootc si \<and> (as_satellite env \<longrightarrow> \<not> si_satellite_managed si))
   \<and> (\<forall>i\<in>set ids. \<exists>si\<in>set (requested_systems db account ws ids). si_inventory_id si = i)"
  by (auto simp: check_inventory_ids_def Let_def join_errors_None sort_empty known_ids filter_empty_conv
      simp del: not_None_eq split: option.splits)

lemma arch_version_loop_None: "arch_version_loop t sis err = None \<longleftrightarrow>
    err = None \<and> (\<forall>si\<in>set sis. shown_version si = tr_version t \<and> shown_arch si = tr_arch t)"
  by (induction t sis err rule: arch_version_loop.induct) (auto simp: join_errors_None)

lemma consumers_loop_None: "consumers_loop sis err cs = (None, cs') \<longleftrightarrow>
    err = None \<and> (\<forall>si\<in>set sis. si_subscription_manager_id si \<noteq> None)
  \<and> cs' = cs @ map (\<lambda>si. the (si_subscription_manager_id si)) sis"
  by (induction sis err cs rule: consumers_loop.induct) (auto simp: join_errors_None split: option.splits)

definition fits_template :: "bool \<Rightarrow> template_row option \<Rightarrow> system_inventory \<Rightarrow> bool" where
  "fits_template satellite template si \<longleftrightarrow>
     \<not> si_bootc si \<and> (satellite \<longrightarrow> \<not> si_satellite_managed si)
   \<and> (case template of None \<Rightarrow> True | Some t \<Rightarrow> shown_version si = tr_version t \<and> shown_arch si = tr_arch t)"

lemma check_template_systems_None:
  assumes "check_template_systems env db account template ids ws c = (None, c')"
  shows "c' = c" and "ids \<noteq> []"
    and "\<forall>i\<in>set ids. \<exists>si\<in>set (requested_systems db account ws ids). si_inventory_id si = i"
    and "\<forall>si\<in>set (requested_systems db account ws ids). fits_template (as_satellite env) template si"
  using assms
  by (auto simp: check_template_systems_def fits_template_def check_inventory_ids_None template_arch_version_match_def
      arch_version_loop_None join_errors_None split: if_splits option.splits)

lemma check_template_systems_Some:
  "check_template_systems env db account template ids ws c = (Some e, c') \<Longrightarrow> gc_abort c' \<noteq> None"
  by (auto simp: check_template_systems_def abort_with_def split: if_splits option.splits)

lemma candlepin_step:
  assumes "assign_candlepin_environment env account environment ids ws (c, s) = (ok, c', s')"
  shows "an_db s' = an_db s" "an_recalc s' = an_recalc s" "ok \<longleftrightarrow> c' = c \<and> ok" "\<not> ok \<Longrightarrow> gc_abort c' \<noteq> None"
    and "ok \<Longrightarrow> \<forall>si\<in>set (requested_systems (an_db s) account ws ids). si_subscription_manager_id si \<noteq> None"
  using assms
  by (auto simp: assign_candlepin_environment_def abort_with_def consumers_loop_None Let_def
      split: if_splits option.splits prod.splits sum.splits)

section \<open>The rows\<close>

definition moved_keys :: "listener_db \<Rightarrow> int \<Rightarrow> uuid list \<Rightarrow> (int \<times> int) set" where
  "moved_keys db account ids = {(account, si_id si) | si. si \<in> set (ldb_inventory db) \<and> si_account si = account
     \<and> si_inventory_id si \<in> set ids}"

definition in_template :: "int option \<Rightarrow> (int \<times> int) set \<Rightarrow> listener_db \<Rightarrow> listener_db" where
  "in_template t keys db = db\<lparr>ldb_patch := map (\<lambda>(k, p). (k, if k \<in> keys then p\<lparr>sp_template_id := t\<rparr> else p)) (ldb_patch db)\<rparr>"

lemma assign_rows_eq:
  "assign_rows account t ids db = (in_template t (moved_keys db account ids) db,
     int (length (filter (\<lambda>(k, p). k \<in> moved_keys db account ids) (ldb_patch db))))"
proof -
  have "(\<lambda>((a, i), p). a = account \<and> i \<in> set (assigned_system_ids db account ids))
      = (\<lambda>(k, p). k \<in> moved_keys db account ids)"
    by (auto simp: moved_keys_def assigned_system_ids_def fun_eq_iff)
  then show ?thesis by (simp add: assign_rows_def in_template_def Let_def case_prod_beta' fun_eq_iff)
qed

lemma rows_at_most_ids:
  assumes "wf_ldb db"
  shows "length (filter (\<lambda>(k, p). k \<in> moved_keys db account ids) (ldb_patch db)) \<le> card (set ids)"
proof -
  let ?M = "{si \<in> set (ldb_inventory db). si_account si = account \<and> si_inventory_id si \<in> set ids}"
  let ?K = "moved_keys db account ids"
  have inv: "distinct (map (\<lambda>r. (si_account r, si_inventory_id r)) (ldb_inventory db))"
    using wf_ldbD(2) [OF assms] by (simp add: wf_inventory_def)
  have inj: "inj_on si_inventory_id ?M"
    using inv by (auto simp: distinct_map inj_on_def)
  have "distinct (map fst (filter (\<lambda>(k, p). k \<in> ?K) (ldb_patch db)))"
    using wf_ldbD(4) [OF assms] by (simp add: distinct_map_filter)
  then have "length (filter (\<lambda>(k, p). k \<in> ?K) (ldb_patch db)) = card (fst ` set (filter (\<lambda>(k, p). k \<in> ?K) (ldb_patch db)))"
    by (metis distinct_card length_map list.set_map)
  also have "\<dots> \<le> card ((\<lambda>si. (account, si_id si)) ` ?M)"
    by (rule card_mono) (auto simp: moved_keys_def)
  also have "\<dots> \<le> card ?M" by (rule card_image_le) simp
  also have "\<dots> = card (si_inventory_id ` ?M)" using inj by (simp add: card_image)
  also have "\<dots> \<le> card (set ids)" by (rule card_mono) auto
  finally show ?thesis .
qed

lemma all_rows_distinct:
  assumes "wf_ldb db" "length (filter (\<lambda>(k, p). k \<in> moved_keys db account ids) (ldb_patch db)) = length ids"
  shows "distinct ids"
  using rows_at_most_ids [OF assms(1), of account ids] assms(2) card_length [of ids]
  by (metis card_distinct le_antisym)

lemma assign_step:
  assumes "assign_template_systems env account template ids (c, s) = (ok, c', s')"
  shows "\<not> ok \<Longrightarrow> s' = s \<and> gc_abort c' \<noteq> None"
    and "ok \<Longrightarrow> c' = c \<and> as_faults env AssignUpdate = None \<and> as_faults env AssignCommit = None \<and> length (filter (\<lambda>(k, p). k \<in> moved_keys (an_db s) account ids) (ldb_patch (an_db s))) = length ids
       \<and> an_recalc s' = an_recalc s \<and> an_net s' = an_net s
       \<and> an_db s' = in_template (case template of None \<Rightarrow> None | Some t \<Rightarrow> if tr_id t \<noteq> 0 then Some (tr_id t) else None)
           (moved_keys (an_db s) account ids) (an_db s)"
  using assms by (auto simp: assign_template_systems_def assign_rows_eq abort_with_def Let_def split: if_splits)

section \<open>All three handlers\<close>

lemma get_template_row_cases:
  "(\<exists>t. get_template_row env db account uuid c = (Inr t, c) \<and> tr_id t \<noteq> 0
      \<and> t \<in> set (ldb_templates db) \<and> tr_account t = account \<and> tr_uuid t = as_cast_uuid env uuid)
 \<or> (\<exists>e c1. get_template_row env db account uuid c = (Inl e, c1) \<and> gc_abort c1 \<noteq> None)"
  by (auto simp: get_template_row_def abort_with_def Let_def find_Some_iff in_set_conv_nth split: option.splits)

lemma move_systems_rejected:
  assumes "move_systems env account org template ids (c, s) = (c', s')" "gc_abort c' \<noteq> None" "gc_abort c = None"
  shows "an_db s' = an_db s \<and> an_recalc s' = an_recalc s"
proof -
  obtain err c1 where c1: "check_template_systems env (an_db s) account template ids (context_workspaces c) c = (err, c1)"
    by fastforce
  show ?thesis
  proof (cases err)
    case None
    note c1 = c1 [unfolded None]
    have "c1 = c" using check_template_systems_None(1) [OF c1] .
    obtain ok c2 s2 where c2: "assign_candlepin_environment env account (map_option tr_environment_id template) ids
        (context_workspaces c) (c, s) = (ok, c2, s2)" by (metis prod_cases3)
    obtain ok' c3 s3 where c3: "assign_template_systems env account template ids (c2, s2) = (ok', c3, s3)" by (metis prod_cases3)
    show ?thesis
      using assms c1 c2 c3 \<open>c1 = c\<close> candlepin_step [OF c2] assign_step [OF c3]
      by (auto simp: move_systems_def split: if_splits)
  qed (use assms c1 in \<open>auto simp: move_systems_def\<close>)
qed

lemma move_systems_done:
  assumes run: "move_systems env account org template ids (c, s) = (c', s')" and ok: "gc_abort c' = None"
    and wf: "wf_ldb (an_db s)"
  shows "ids \<noteq> [] \<and> distinct ids
    \<and> (\<forall>i\<in>set ids. \<exists>(si, sp)\<in>set (systems (an_db s) account (context_workspaces c)). si_inventory_id si = i
         \<and> fits_template (as_satellite env) template si \<and> si_subscription_manager_id si \<noteq> None)
    \<and> an_db s' = in_template (case template of None \<Rightarrow> None | Some t \<Rightarrow> if tr_id t \<noteq> 0 then Some (tr_id t) else None)
        (moved_keys (an_db s) account ids) (an_db s)
    \<and> an_recalc s' = an_recalc s @ (if as_template_eval env then [inventory_ids2_eval_data account org ids] else [])"
proof -
  obtain err c1 where c1: "check_template_systems env (an_db s) account template ids (context_workspaces c) c = (err, c1)"
    by fastforce
  have "err = None"
    using run ok c1 by (cases err) (auto simp: move_systems_def dest: check_template_systems_Some)
  note c1 = c1 [unfolded this]
  note check = check_template_systems_None [OF c1]
  obtain ok2 c2 s2 where c2: "assign_candlepin_environment env account (map_option tr_environment_id template) ids
      (context_workspaces c) (c, s) = (ok2, c2, s2)" by (metis prod_cases3)
  obtain ok3 c3 s3 where c3: "assign_template_systems env account template ids (c2, s2) = (ok3, c3, s3)" by (metis prod_cases3)
  have oks: ok2 ok3
    using run ok c1 c2 c3 check(1) candlepin_step(4) [OF c2] assign_step(1) [OF c3]
    by (auto simp: move_systems_def split: if_splits)
  have s': "s' = (if as_template_eval env then recalc_systems (inventory_ids2_eval_data account org ids) s3 else s3)"
    using run c1 c2 c3 check(1) oks by (auto simp: move_systems_def split: if_splits)
  note st = candlepin_step(1,2) [OF c2] candlepin_step(5) [OF c2 oks(1)] assign_step(2) [OF c3 oks(2)]
  have "distinct ids" using all_rows_distinct wf st by metis
  moreover have "\<forall>i\<in>set ids. \<exists>(si, sp)\<in>set (systems (an_db s) account (context_workspaces c)). si_inventory_id si = i
      \<and> fits_template (as_satellite env) template si \<and> si_subscription_manager_id si \<noteq> None"
    using check(3,4) st(3) by (fastforce simp: requested_mem)
  ultimately show ?thesis
    using check(2) st s' by (auto simp: recalc_systems_def)
qed

section \<open>Properties\<close>

text \<open>C14.  A request to put systems into a template that is answered with success names at least one
  and at most 1000 systems, each once; every one of them is visible to the user, fits the template
  and is registered with Candlepin.  Then exactly their rows point to the template, every other row
  and table is as before, and exactly these systems are queued for evaluation.  A request answered
  with an error leaves tables and queue alone.\<close>

theorem assignment_exact:
  assumes wf: "wf_ldb (an_db s)" and fresh: "gc_abort c = None"
    and run: "template_systems_update_handler env template_uuid body (c, s) = (c', s')"
  shows "if gc_abort c' = None
    then \<exists>ids template. body = Inr ids \<and> template \<in> set (ldb_templates (an_db s))
      \<and> tr_account template = context_account c \<and> tr_uuid template = as_cast_uuid env template_uuid
      \<and> ids \<noteq> [] \<and> distinct ids \<and> length ids \<le> 1000
      \<and> (\<forall>i\<in>set ids. \<exists>(si, sp)\<in>set (systems (an_db s) (context_account c) (context_workspaces c)).
           si_inventory_id si = i \<and> fits_template (as_satellite env) (Some template) si
         \<and> si_subscription_manager_id si \<noteq> None)
      \<and> an_db s' = in_template (Some (tr_id template)) (moved_keys (an_db s) (context_account c) ids) (an_db s)
      \<and> an_recalc s' = an_recalc s @ (if as_template_eval env
           then [inventory_ids2_eval_data (context_account c) (context_org c) ids] else [])
    else an_db s' = an_db s \<and> an_recalc s' = an_recalc s"
proof (cases body)
  case (Inl e)
  then show ?thesis using run by (auto simp: template_systems_update_handler_def abort_with_def)
next
  case (Inr ids)
  have limit: "check_template_systems_limit (int (length ids)) c = (None, c) \<and> length ids \<le> 1000
      \<or> (\<exists>e c1. check_template_systems_limit (int (length ids)) c = (Some e, c1) \<and> gc_abort c1 \<noteq> None)"
    by (auto simp: check_template_systems_limit_def template_systems_update_limit_def abort_with_def Let_def)
  note template = get_template_row_cases [of env "an_db s" "context_account c" template_uuid c]
  show ?thesis
  proof (cases "\<exists>t. move_systems env (context_account c) (context_org c) (Some t) ids (c, s) = (c', s') \<and> length ids \<le> 1000
      \<and> tr_id t \<noteq> 0 \<and> t \<in> set (ldb_templates (an_db s)) \<and> tr_account t = context_account c
      \<and> tr_uuid t = as_cast_uuid env template_uuid")
    case True
    then obtain t where m: "move_systems env (context_account c) (context_org c) (Some t) ids (c, s) = (c', s')"
      and t: "length ids \<le> 1000" "tr_id t \<noteq> 0" "t \<in> set (ldb_templates (an_db s))" "tr_account t = context_account c"
        "tr_uuid t = as_cast_uuid env template_uuid" by blast
    show ?thesis
    proof (cases "gc_abort c'")
      case None
      note moved = move_systems_done [OF m None wf, unfolded option.case if_P [OF t(2)]]
      show ?thesis unfolding if_P [OF None]
        by (rule exI [of _ ids], rule exI [of _ t]) (use Inr t moved in blast)
    next
      case Some
      then show ?thesis using move_systems_rejected [OF m _ fresh] by simp
    qed
  next
    case False
    then show ?thesis using run limit template Inr by (auto simp: template_systems_update_handler_def)
  qed
qed

text \<open>Two systems of one account, one template, and a Candlepin that accepts everything.\<close>

definition accepting_candlepin :: "string \<Rightarrow> consumers_request \<Rightarrow> consumers_request list
    \<Rightarrow> string transport \<times> consumers_request list" where
  "accepting_candlepin url r net = (answer [], net @ [r])"

definition sample_assign_env :: "consumers_request list assign_env" where
  "sample_assign_env = \<lparr>as_faults = (\<lambda>x. None), as_satellite = True, as_template_eval = True, as_debug = False,
     as_cast_uuid = (\<lambda>t. t), as_parse_uuid = Some, as_candlepin_address = ''candlepin'', as_valid_url = (\<lambda>u. True),
     as_candlepin = accepting_candlepin, as_retries = 1, as_error_text = (\<lambda>e. [])\<rparr>"

definition template_uuid_1 :: string where "template_uuid_1 = ''99900000-0000-0000-0000-000000000001''"

definition assignable_system :: "int \<Rightarrow> string \<Rightarrow> system_inventory" where
  "assignable_system i w = (workspace_system i w)\<lparr>si_arch := Some ''x86_64'', si_os_major := Some 9,
     si_subscription_manager_id := Some w\<rparr>"

definition assign_db :: listener_db where
  "assign_db = sample_db\<lparr>ldb_inventory := [assignable_system 1 ''w1'', assignable_system 2 ''w2''], ldb_next_system := 3,
     ldb_patch := [((1, 1), zero_patch), ((1, 2), zero_patch)],
     ldb_templates := [\<lparr>tr_id = 5, tr_account = 1, tr_uuid = template_uuid_1, tr_name = [], tr_environment_id = ''env'',
       tr_arch = ''x86_64'', tr_version = ''9'', tr_description = None, tr_creator = None, tr_published = None\<rparr>]\<rparr>"

definition assign_context :: gin_context where
  "assign_context = sample_context\<lparr>gc_account := Some 1, gc_org := Some ''org''\<rparr>"

definition assign_sample :: "consumers_request list assign_state" where
  "assign_sample = \<lparr>an_db = assign_db, an_net = [], an_recalc = []\<rparr>"

lemma assign_db_wf: "wf_ldb assign_db"
  by (simp add: wf_ldb_def wf_inventory_def seq_table_def system_keys_def assign_db_def sample_db_def assignable_system_def
      workspace_system_def)

theorem assignment_exact_witness:
  "\<exists>c s. template_systems_update_handler sample_assign_env template_uuid_1 (Inr [''w2'']) (assign_context, assign_sample) = (c, s)
     \<and> gc_abort c = None \<and> an_db s = in_template (Some 5) (moved_keys assign_db 1 [''w2'']) assign_db"
proof -
  obtain c s where run: "template_systems_update_handler sample_assign_env template_uuid_1 (Inr [''w2'']) (assign_context, assign_sample) = (c, s)"
    by fastforce
  have go: "gc_abort (fst (template_systems_update_handler sample_assign_env template_uuid_1 (Inr [''w2''])
      (assign_context, assign_sample))) = None" by code_simp
  have "wf_ldb (an_db assign_sample)" "gc_abort assign_context = None" "context_account assign_context = 1"
    by (simp_all add: assign_sample_def assign_db_wf assign_context_def sample_context_def context_account_def)
  from assignment_exact [OF this(1,2) run] go run this(3) show ?thesis
    by (auto simp: assign_sample_def assign_db_def)
qed

text \<open>C40.  Candlepin is changed before the tables and nothing takes the change back: when it has
  accepted the systems and then the update names a system twice, or a statement of the transaction
  fails, the request is refused and the tables keep the old assignment while Candlepin has the new one.\<close>

theorem candlepin_keeps_refused_change:
  assumes wf: "wf_ldb (an_db s)"
    and limit: "length ids \<le> 1000"
    and checked: "check_template_systems env (an_db s) (context_account c) None ids (context_workspaces c) c = (None, c)"
    and consumers: "as_faults env ConsumersLookup = None"
      "consumers_loop (requested_systems (an_db s) (context_account c) (context_workspaces c) ids) None [] = (None, cs)"
    and accepted: "call_candlepin env (context_org c) \<lparr>cq_consumers = cs, cq_environments = []\<rparr> (an_net s) = (Inr m, net)"
    and refused: "\<not> distinct ids \<or> as_faults env AssignUpdate \<noteq> None \<or> as_faults env AssignCommit \<noteq> None"
  shows "\<exists>c'. template_systems_delete_handler env (Inr ids) (c, s) = (c', s\<lparr>an_net := net\<rparr>) \<and> gc_abort c' \<noteq> None"
proof -
  obtain ok c' s' where a: "assign_template_systems env (context_account c) None ids (c, s\<lparr>an_net := net\<rparr>) = (ok, c', s')"
    by (metis prod_cases3)
  have "\<not> ok" using assign_step(2) [OF a] all_rows_distinct [OF wf, of "context_account c" ids] refused by auto
  then have s': "\<not> ok" "s' = s\<lparr>an_net := net\<rparr>" "gc_abort c' \<noteq> None" using assign_step(1) [OF a] by auto
  have "assign_candlepin_environment env (context_account c) None ids (context_workspaces c) (c, s)
      = (True, c, s\<lparr>an_net := net\<rparr>)"
    using consumers accepted by (simp add: assign_candlepin_environment_def context_org_def)
  then have "template_systems_delete_handler env (Inr ids) (c, s) = (c', s\<lparr>an_net := net\<rparr>)"
    using limit checked a s'(1,2)
    by (simp add: template_systems_delete_handler_def check_template_systems_limit_def template_systems_update_limit_def
        move_systems_def)
  then show ?thesis using s'(3) by blast
qed

theorem candlepin_keeps_refused_change_witness:
  "\<exists>c. template_systems_delete_handler sample_assign_env (Inr [''w2'', ''w2'']) (assign_context, assign_sample)
       = (c, assign_sample\<lparr>an_net := [\<lparr>cq_consumers = [''w2''], cq_environments = []\<rparr>]\<rparr>) \<and> gc_abort c \<noteq> None"
proof (rule candlepin_keeps_refused_change)
  show "wf_ldb (an_db assign_sample)" by (simp add: assign_sample_def assign_db_wf)
  show "check_template_systems sample_assign_env (an_db assign_sample) (context_account assign_context) None [''w2'', ''w2'']
      (context_workspaces assign_context) assign_context = (None, assign_context)" by code_simp
  show "as_faults sample_assign_env ConsumersLookup = None" by (simp add: sample_assign_env_def)
  show "consumers_loop (requested_systems (an_db assign_sample) (context_account assign_context)
      (context_workspaces assign_context) [''w2'', ''w2'']) None [] = (None, [''w2''])" by code_simp
  show "call_candlepin sample_assign_env (context_org assign_context) \<lparr>cq_consumers = [''w2''], cq_environments = []\<rparr>
      (an_net assign_sample) = (Inr [], [\<lparr>cq_consumers = [''w2''], cq_environments = []\<rparr>])" by code_simp
qed simp_all

lemma get_subscribed_Inr:
  assumes "get_subscribed_system env db c = (Inr (a, org, i), c1)" "gc_system c = Some cn"
    and "as_parse_uuid env [] = None" "\<forall>t u. as_parse_uuid env t = Some u \<longrightarrow> t = u"
  shows "a = context_account c \<and> org = context_org c \<and> c1 = c \<and> (\<exists>si\<in>set (ldb_inventory db).
     si_account si = context_account c \<and> si_subscription_manager_id si = Some (as_cast_uuid env cn) \<and> si_inventory_id si = i)"
proof (cases "find (\<lambda>si. si_subscription_manager_id si = Some (as_cast_uuid env cn) \<and> si_account si = context_account c)
    (ldb_inventory db)")
  case None
  then show ?thesis using assms by (simp add: get_subscribed_system_def Let_def split: option.splits)
next
  case (Some si)
  then have "si \<in> set (ldb_inventory db)" "si_account si = context_account c"
    "si_subscription_manager_id si = Some (as_cast_uuid env cn)" by (auto simp: find_Some_iff)
  then show ?thesis using Some assms
    by (auto simp: get_subscribed_system_def Let_def split: option.splits if_splits)
qed

text \<open>A system that authenticates with its certificate moves no system of another registration.\<close>

theorem subscribed_system_moves_itself:
  assumes wf: "wf_ldb (an_db s)" and fresh: "gc_abort c = None" and cn: "gc_system c = Some cn"
    and parse: "as_parse_uuid env [] = None" "\<forall>t u. as_parse_uuid env t = Some u \<longrightarrow> t = u"
    and run: "template_subscribed_systems_update_handler env template_uuid (c, s) = (c', s')" and ok: "gc_abort c' = None"
  shows "\<exists>si\<in>set (ldb_inventory (an_db s)). \<exists>t\<in>set (ldb_templates (an_db s)).
     si_account si = context_account c \<and> si_subscription_manager_id si = Some (as_cast_uuid env cn)
   \<and> tr_account t = context_account c
   \<and> an_db s' = in_template (Some (tr_id t)) (moved_keys (an_db s) (context_account c) [si_inventory_id si]) (an_db s)"
proof -
  obtain r where r: "get_subscribed_system env (an_db s) c = (Inr r, c)"
    using run ok by (auto simp: template_subscribed_systems_update_handler_def get_subscribed_system_def abort_with_def Let_def
        split: option.splits if_splits)
  obtain i where g: "get_subscribed_system env (an_db s) c = (Inr (context_account c, context_org c, i), c)"
    and si: "\<exists>si\<in>set (ldb_inventory (an_db s)). si_account si = context_account c
        \<and> si_subscription_manager_id si = Some (as_cast_uuid env cn) \<and> si_inventory_id si = i"
    using get_subscribed_Inr [OF _ cn parse, of "an_db s"] r by (cases r) auto
  obtain t where t: "get_template_row env (an_db s) (context_account c) template_uuid c = (Inr t, c)" "tr_id t \<noteq> 0"
      "t \<in> set (ldb_templates (an_db s))" "tr_account t = context_account c"
    using get_template_row_cases [of env "an_db s" "context_account c" template_uuid c] run ok g
    by (auto simp: template_subscribed_systems_update_handler_def)
  have "move_systems env (context_account c) (context_org c) (Some t) [i] (c, s) = (c', s')"
    using run g t(1) by (simp add: template_subscribed_systems_update_handler_def)
  then have "an_db s' = in_template (Some (tr_id t)) (moved_keys (an_db s) (context_account c) [i]) (an_db s)"
    using move_systems_done [OF _ ok wf] t(2) by fastforce
  then show ?thesis using si t(3,4) by blast
qed

end
