(* ===== verification/SyncStore.thy ===== *)
theory SyncStore
  imports Nevra Models Retry Filters
begin

text \<open>
  What the VMaaS synchronisation keeps in the database: packages with their names and texts
  (\<open>storePkgListData\<close> of \<open>tasks/vmaas_sync/package_sync.go\<close>) and advisories (\<open>storeAdvisories\<close> of
  \<open>advisory_sync.go\<close>), with the time stamps of \<open>base/database/utils.go\<close>.  Each statement commits by
  itself; \<open>faults\<close> says which fail, a violated constraint being one reason.  SHA-256 and the parsers of
  times are parameters, \<open>strings.ToLower\<close> is taken on ASCII text.
\<close>

section \<open>Tables\<close>

record pkg_item =
  pi_nevra :: string
  pi_summary :: string
  pi_description :: string

record name_row =
  nr_id :: int
  nr_name :: string
  nr_summary :: "string option"

record stored_package =
  sk_id :: int
  sk_name_id :: int
  sk_evra :: string
  sk_description :: "string option"
  sk_summary :: "string option"
  sk_advisory :: "int option"
  sk_synced :: bool

record repo_row =
  rp_id :: int
  rp_name :: string
  rp_third_party :: bool

record sync_db =
  sd_strings :: "(string, string) gomap"
  sd_names :: "name_row list"
  sd_next_name :: int
  sd_packages :: "stored_package list"
  sd_next_package :: int
  sd_advisories :: "advisory_metadata list"
  sd_next_advisory :: int
  sd_types :: "(string \<times> int) list"
  sd_severities :: "(string \<times> int) list"
  sd_repos :: "repo_row list"
  sd_kv :: "(string, timestamp) gomap"
  sd_accounts :: "(int \<times> string) list"
  sd_inventory :: "system_inventory list"
  sd_system_repo :: "(int \<times> int \<times> int) list"
  sd_system_packages :: "(int \<times> int \<times> int) list"

datatype sync_site =
    StringsInsert | NamesLookup | NamesInsert | NameMapLoad | PackagesLookup | PackageUpdate int | PackagesInsert
  | SummaryUpdate | TypesLoad | SeveritiesLoad | AdvisoriesLookup | AdvisoryUpdate int | AdvisoriesInsert
  | RedhatRepos | ThirdPartyRepos | KvRead string | KvWrite string | RepoSystems | AllSystems

datatype sync_error =
    SyncDb sync_site
  | SyncHttp "http_error go_error"
  | IssuedDate string

type_synonym sync_faults = "sync_site \<Rightarrow> bool"
type_synonym sync_err = "sync_error go_error"

definition sync_db_error :: "sync_site \<Rightarrow> string \<Rightarrow> sync_err" where
  "sync_db_error site message = Wrapped message (Leaf (SyncDb site))"

section \<open>Updating and inserting rows of a keyed table\<close>

text \<open>\<open>overlay n r\<close> is the row \<open>r\<close> with the columns an update takes from \<open>n\<close>.  The identity column
  is drawn for every row of an insert, also for one that meets a conflict.\<close>

definition update_row :: "('r \<Rightarrow> int) \<Rightarrow> ('r \<Rightarrow> 'r \<Rightarrow> 'r) \<Rightarrow> int \<Rightarrow> 'r \<Rightarrow> 'r list \<Rightarrow> 'r list" where
  "update_row rid overlay i n rows = map (\<lambda>r. if rid r = i then overlay n r else r) rows"

fun update_loop :: "('r \<Rightarrow> int) \<Rightarrow> ('r \<Rightarrow> 'r \<Rightarrow> 'r) \<Rightarrow> (int \<Rightarrow> bool) \<Rightarrow> 'r list \<Rightarrow> bool \<Rightarrow> 'r list \<Rightarrow> bool \<times> 'r list" where
  "update_loop rid overlay fails [] failed rows = (failed, rows)"
| "update_loop rid overlay fails (u # us) failed rows =
     (if fails (rid u) then update_loop rid overlay fails us True rows
      else update_loop rid overlay fails us False (update_row rid overlay (rid u) u rows))"

fun insert_on_conflict_update :: "('r \<Rightarrow> 'k) \<Rightarrow> ('r \<Rightarrow> 'r \<Rightarrow> 'r) \<Rightarrow> (int \<Rightarrow> 'r \<Rightarrow> 'r) \<Rightarrow> 'r list \<Rightarrow> 'r list \<times> int
    \<Rightarrow> 'r list \<times> int" where
  "insert_on_conflict_update key overlay set_id [] t = t"
| "insert_on_conflict_update key overlay set_id (n # ns) (rows, next_id) =
     insert_on_conflict_update key overlay set_id ns
       (if key n \<in> key ` set rows then map (\<lambda>r. if key r = key n then overlay n r else r) rows else rows @ [set_id next_id n],
        next_id + 1)"

text \<open>Rows whose key is stored get the stored id and are updated, the others are inserted.\<close>

definition ids_by_key :: "('r \<Rightarrow> 'k) \<Rightarrow> ('r \<Rightarrow> int) \<Rightarrow> 'r list \<Rightarrow> ('k, int) gomap" where
  "ids_by_key key rid existing = fold (\<lambda>r m. gm_put (key r) (rid r) m) existing []"

fun split_stored :: "('r \<Rightarrow> 'k) \<Rightarrow> (int \<Rightarrow> 'r \<Rightarrow> 'r) \<Rightarrow> ('k, int) gomap \<Rightarrow> 'r list \<Rightarrow> 'r list \<times> 'r list" where
  "split_stored key set_id ids [] = ([], [])"
| "split_stored key set_id ids (n # ns) =
     (let (to_update, to_store) = split_stored key set_id ids ns
      in (case gm_get ids (key n) of
            Some i \<Rightarrow> (set_id i n # to_update, to_store)
          | None \<Rightarrow> (to_update, n # to_store)))"

section \<open>Packages\<close>

definition string_ptr2_hash :: "(string \<Rightarrow> string) \<Rightarrow> string option \<Rightarrow> string option" where
  "string_ptr2_hash sha256 str = (case str of None \<Rightarrow> None | Some s \<Rightarrow> if s = [] then None else Some (sha256 s))"

definition store_strings :: "(string \<Rightarrow> string) \<Rightarrow> sync_faults \<Rightarrow> pkg_item list \<Rightarrow> sync_db
    \<Rightarrow> sync_err option \<times> sync_db" where
  "store_strings sha256 faults items db =
     (let string_map = fold (\<lambda>it m. gm_put (sha256 (pi_summary it)) (pi_summary it)
            (gm_put (sha256 (pi_description it)) (pi_description it) m)) items [];
          strings = filter (\<lambda>(h, v). v \<noteq> []) string_map
      in if strings = [] then (None, db)
         else if faults StringsInsert then (Some (Leaf (SyncDb StringsInsert)), db)
         else (None, db\<lparr>sd_strings := fold (\<lambda>(h, v) m. if gm_has m h then m else gm_put h v m) strings (sd_strings db)\<rparr>))"

definition parsed_item :: "pkg_item \<Rightarrow> nevra option" where
  "parsed_item it = (case parse_nevra (pi_nevra it) of Inl e \<Rightarrow> None | Inr n \<Rightarrow> Some n)"

definition empty_ptr_to_nil :: "string option \<Rightarrow> string option" where
  "empty_ptr_to_nil s = (case s of None \<Rightarrow> None | Some t \<Rightarrow> if t = [] then None else Some t)"

definition get_package_arrays :: "sync_faults \<Rightarrow> sync_db \<Rightarrow> pkg_item list \<Rightarrow> string list \<times> (string \<times> string option) list" where
  "get_package_arrays faults db items =
     (let names_map = fold (\<lambda>it m. case parsed_item it of None \<Rightarrow> m | Some n \<Rightarrow> gm_put (nv_name n) (pi_summary it) m) items [];
          name_arr = map fst names_map;
          existing = (if faults NamesLookup then [] else filter (\<lambda>r. nr_name r \<in> set name_arr) (sd_names db));
          names_map = fold (\<lambda>r m. gm_del (nr_name r) m) existing names_map
      in (name_arr, map (\<lambda>(n, s). (n, empty_ptr_to_nil (Some s))) names_map))"

fun insert_names :: "(string \<times> string option) list \<Rightarrow> name_row list \<times> int \<Rightarrow> name_row list \<times> int" where
  "insert_names [] t = t"
| "insert_names ((n, s) # ns) (rows, next_id) =
     insert_names ns (if n \<in> nr_name ` set rows then rows
       else rows @ [\<lparr>nr_id = next_id, nr_name = n, nr_summary = s\<rparr>], next_id + 1)"

definition get_package_name_map :: "sync_faults \<Rightarrow> sync_db \<Rightarrow> string list \<Rightarrow> sync_err + (string, int) gomap" where
  "get_package_name_map faults db name_arr =
     (if faults NameMapLoad then Inl (sync_db_error NameMapLoad ''Unable to load package names data'')
      else Inr (fold (\<lambda>r m. gm_put (nr_name r) (nr_id r) m) (filter (\<lambda>r. nr_name r \<in> set name_arr) (sd_names db)) []))"

definition store_package_names :: "sync_faults \<Rightarrow> pkg_item list \<Rightarrow> sync_db
    \<Rightarrow> (sync_err + (string, int) gomap) \<times> sync_db" where
  "store_package_names faults items db =
     (let (name_arr, models) = get_package_arrays faults db items
      in if models \<noteq> [] \<and> faults NamesInsert
         then (Inl (sync_db_error NamesInsert ''Bulk insert of package names failed''), db)
         else (let (rows, next_id) = (if models = [] then (sd_names db, sd_next_name db)
                     else insert_names models (sd_names db, sd_next_name db));
                   db = db\<lparr>sd_names := rows, sd_next_name := next_id\<rparr>
               in (case get_package_name_map faults db name_arr of
                     Inl e \<Rightarrow> (Inl (Wrapped ''Unable to get package name map'' e), db)
                   | Inr m \<Rightarrow> (Inr m, db))))"

definition get_package_from_item :: "(string \<Rightarrow> string) \<Rightarrow> (string, int) gomap \<Rightarrow> pkg_item \<Rightarrow> stored_package option" where
  "get_package_from_item sha256 name_ids it =
     (case parsed_item it of
        None \<Rightarrow> None
      | Some n \<Rightarrow> Some
          \<lparr>sk_id = 0, sk_name_id = (case gm_get name_ids (nv_name n) of None \<Rightarrow> 0 | Some i \<Rightarrow> i), sk_evra = evra_string n,
           sk_description = string_ptr2_hash sha256 (Some (pi_description it)),
           sk_summary = string_ptr2_hash sha256 (Some (pi_summary it)), sk_advisory = None, sk_synced = True\<rparr>)"

definition package_key :: "stored_package \<Rightarrow> int \<times> string" where
  "package_key p = (sk_name_id p, sk_evra p)"

fun collect_packages :: "(pkg_item \<Rightarrow> stored_package option) \<Rightarrow> pkg_item list \<Rightarrow> (int \<times> string) list \<Rightarrow> stored_package list" where
  "collect_packages get [] seen = []"
| "collect_packages get (it # its) seen =
     (case get it of
        None \<Rightarrow> collect_packages get its seen
      | Some p \<Rightarrow>
          if package_key p \<in> set seen then collect_packages get its seen
          else p # collect_packages get its (package_key p # seen))"

text \<open>The columns \<open>description_hash\<close>, \<open>summary_hash\<close> and \<open>advisory_id\<close>.\<close>

definition package_overlay :: "stored_package \<Rightarrow> stored_package \<Rightarrow> stored_package" where
  "package_overlay n r = r\<lparr>sk_description := sk_description n, sk_summary := sk_summary n, sk_advisory := sk_advisory n\<rparr>"

definition package_set_id :: "int \<Rightarrow> stored_package \<Rightarrow> stored_package" where
  "package_set_id i p = p\<lparr>sk_id := i\<rparr>"

definition store_or_update :: "sync_faults \<Rightarrow> stored_package list \<Rightarrow> sync_db \<Rightarrow> sync_err option \<times> sync_db" where
  "store_or_update faults pkgs db =
     (let existing = (if faults PackagesLookup then []
            else filter (\<lambda>r. package_key r \<in> package_key ` set pkgs) (sd_packages db));
          update_ids = ids_by_key package_key sk_id existing;
          (to_update, to_store) = split_stored package_key package_set_id update_ids pkgs;
          (upd_failed, rows) = update_loop sk_id package_overlay (\<lambda>i. faults (PackageUpdate i)) to_update False (sd_packages db);
          db = db\<lparr>sd_packages := rows\<rparr>
      in if to_store \<noteq> [] \<and> faults PackagesInsert
         then (Some (sync_db_error PackagesInsert ''Packages bulk insert failed''), db)
         else (let (rows, next_id) = insert_on_conflict_update package_key package_overlay package_set_id to_store
                     (sd_packages db, sd_next_package db)
               in (if upd_failed then Some (sync_db_error (PackageUpdate 0) ''Packages update failed'') else None,
                   db\<lparr>sd_packages := rows, sd_next_package := next_id\<rparr>)))"

definition store_package_details :: "(string \<Rightarrow> string) \<Rightarrow> sync_faults \<Rightarrow> (string, int) gomap \<Rightarrow> pkg_item list \<Rightarrow> sync_db
    \<Rightarrow> sync_err option \<times> sync_db" where
  "store_package_details sha256 faults name_ids items db =
     store_or_update faults (collect_packages (get_package_from_item sha256 name_ids) items []) db"

text \<open>The newest package of a name that has a summary decides.\<close>

definition latest_summary :: "sync_db \<Rightarrow> int \<Rightarrow> string option" where
  "latest_summary db name_id =
     (case rev (sort_key sk_id (filter (\<lambda>p. sk_name_id p = name_id
          \<and> (case sk_summary p of None \<Rightarrow> False | Some h \<Rightarrow> gm_has (sd_strings db) h)) (sd_packages db))) of
        [] \<Rightarrow> None
      | p # ps \<Rightarrow> (case sk_summary p of None \<Rightarrow> None | Some h \<Rightarrow> gm_get (sd_strings db) h))"

definition update_package_name_summary :: "sync_faults \<Rightarrow> (string, int) gomap \<Rightarrow> sync_db \<Rightarrow> sync_err option \<times> sync_db" where
  "update_package_name_summary faults name_ids db =
     (if faults SummaryUpdate then (Some (Leaf (SyncDb SummaryUpdate)), db)
      else (None, db\<lparr>sd_names := map (\<lambda>r. if nr_id r \<in> snd ` set name_ids
             then (case latest_summary db (nr_id r) of None \<Rightarrow> r | Some s \<Rightarrow> r\<lparr>nr_summary := Some s\<rparr>) else r) (sd_names db)\<rparr>))"

definition store_pkg_list_data :: "(string \<Rightarrow> string) \<Rightarrow> sync_faults \<Rightarrow> pkg_item list \<Rightarrow> sync_db
    \<Rightarrow> sync_err option \<times> sync_db" where
  "store_pkg_list_data sha256 faults items db =
     (case store_strings sha256 faults items db of
        (Some e, db) \<Rightarrow> (Some (Wrapped ''Storing package strings failed'' e), db)
      | (None, db) \<Rightarrow>
          (case store_package_names faults items db of
             (Inl e, db) \<Rightarrow> (Some (Wrapped ''Storing package names failed'' e), db)
           | (Inr name_ids, db) \<Rightarrow>
               (case store_package_details sha256 faults name_ids items db of
                  (Some e, db) \<Rightarrow> (Some (Wrapped ''Storing package details failed'' e), db)
                | (None, db) \<Rightarrow>
                    (case update_package_name_summary faults name_ids db of
                       (Some e, db) \<Rightarrow> (Some (Wrapped ''Updating package name summaries failed'' e), db)
                     | (None, db) \<Rightarrow> (None, db)))))"

section \<open>Advisories\<close>

record erratum =
  er_updated :: string
  er_severity :: string
  er_issued :: string
  er_description :: string
  er_solution :: "string option"
  er_summary :: string
  er_url :: "string option"
  er_synopsis :: string
  er_cve_list :: "string list"
  er_package_list :: "string list"
  er_type :: string
  er_requires_reboot :: bool
  er_release_versions :: "string list"

record time_parsers =
  tp_no_tz :: "string \<Rightarrow> timestamp option"
  tp_rfc3339 :: "string \<Rightarrow> timestamp option"

definition parse_sync_time :: "time_parsers \<Rightarrow> string \<Rightarrow> timestamp option" where
  "parse_sync_time tp s = (case tp_no_tz tp s of Some t \<Rightarrow> Some t | None \<Rightarrow> tp_rfc3339 tp s)"

definition advisory_type_remap :: "(string, string) gomap" where
  "advisory_type_remap = [(''newpackage'', ''enhancement'')]"

definition id_or_zero :: "(string, int) gomap \<Rightarrow> string \<Rightarrow> int" where
  "id_or_zero m k = (case gm_get m k of None \<Rightarrow> 0 | Some i \<Rightarrow> i)"

definition get_advisory_types :: "sync_faults \<Rightarrow> sync_db \<Rightarrow> sync_err + (string, int) gomap" where
  "get_advisory_types faults db =
     (if faults TypesLoad then Inl (sync_db_error TypesLoad ''Loading advisory types'')
      else (let types = fold (\<lambda>(n, i) m. gm_put (map lower_char n) i m) (sd_types db) []
            in Inr (fold (\<lambda>(old, new) m. gm_put old (id_or_zero m new) m) advisory_type_remap types)))"

definition get_advisory_severities :: "sync_faults \<Rightarrow> sync_db \<Rightarrow> sync_err + (string, int) gomap" where
  "get_advisory_severities faults db =
     (if faults SeveritiesLoad then Inl (sync_db_error SeveritiesLoad ''Loading advisory types'')
      else Inr (fold (\<lambda>(n, i) m. gm_put (map lower_char n) i m) (sd_severities db) []))"

definition get_id_maps :: "sync_faults \<Rightarrow> sync_db \<Rightarrow> sync_err + (string, int) gomap \<times> (string, int) gomap" where
  "get_id_maps faults db =
     (case get_advisory_types faults db of
        Inl e \<Rightarrow> Inl (Wrapped ''advisory types map loading failed'' e)
      | Inr types \<Rightarrow>
          (case get_advisory_severities faults db of
             Inl e \<Rightarrow> Inl (Wrapped ''severities map loading failed'' e)
           | Inr severities \<Rightarrow> Inr (types, severities)))"

definition get_severity_id :: "erratum \<Rightarrow> (string, int) gomap \<Rightarrow> int option" where
  "get_severity_id e severities = (if er_severity e \<noteq> [] then gm_get severities (map lower_char (er_severity e)) else None)"

definition check_updated_summary_description :: "time_parsers \<Rightarrow> erratum \<Rightarrow> timestamp option" where
  "check_updated_summary_description tp e =
     (case parse_sync_time tp (er_updated e) of
        None \<Rightarrow> None
      | Some modified \<Rightarrow> if er_description e = [] \<or> er_summary e = [] then None else Some modified)"

definition vmaas_data2_advisory :: "time_parsers \<Rightarrow> string \<Rightarrow> erratum \<Rightarrow> (string, int) gomap \<Rightarrow> (string, int) gomap
    \<Rightarrow> sync_err + advisory_metadata option" where
  "vmaas_data2_advisory tp name e severities types =
     (case parse_sync_time tp (er_issued e) of
        None \<Rightarrow> Inl (Wrapped ''Invalid errata issued date'' (Leaf (IssuedDate (er_issued e))))
      | Some issued \<Rightarrow>
          (case check_updated_summary_description tp e of
             None \<Rightarrow> Inr None
           | Some modified \<Rightarrow> Inr (Some
               \<lparr>am_id = 0, am_name = name, am_description = er_description e, am_synopsis = er_synopsis e,
                am_summary = er_summary e, am_solution = empty_ptr_to_nil (er_solution e),
                am_type_id = id_or_zero types (map lower_char (er_type e)), am_public_date = Some issued,
                am_modified_date = Some modified, am_url = empty_ptr_to_nil (er_url e),
                am_severity_id = get_severity_id e severities, am_package_data = er_package_list e,
                am_cve_list = er_cve_list e, am_reboot_required = er_requires_reboot e,
                am_release_versions = er_release_versions e, am_synced = True\<rparr>)))"

fun parse_loop :: "time_parsers \<Rightarrow> (string, int) gomap \<Rightarrow> (string, int) gomap \<Rightarrow> (string, erratum) gomap
    \<Rightarrow> sync_err + advisory_metadata list" where
  "parse_loop tp severities types [] = Inr []"
| "parse_loop tp severities types ((name, e) # data) =
     (case vmaas_data2_advisory tp name e severities types of
        Inl err \<Rightarrow> Inl (Wrapped ''advisory metadata item creating failed'' err)
      | Inr advisory \<Rightarrow>
          (case parse_loop tp severities types data of
             Inl err \<Rightarrow> Inl err
           | Inr advisories \<Rightarrow> Inr ((case advisory of None \<Rightarrow> [] | Some a \<Rightarrow> [a]) @ advisories)))"

definition parse_advisories :: "time_parsers \<Rightarrow> sync_faults \<Rightarrow> sync_db \<Rightarrow> (string, erratum) gomap
    \<Rightarrow> sync_err + advisory_metadata list" where
  "parse_advisories tp faults db data =
     (case get_id_maps faults db of
        Inl e \<Rightarrow> Inl (Wrapped ''Unable to load IDs maps'' e)
      | Inr (types, severities) \<Rightarrow> parse_loop tp severities types data)"

text \<open>The updated columns are all but the id and the name.\<close>

definition advisory_overlay :: "advisory_metadata \<Rightarrow> advisory_metadata \<Rightarrow> advisory_metadata" where
  "advisory_overlay n r = n\<lparr>am_id := am_id r, am_name := am_name r\<rparr>"

definition advisory_set_id :: "int \<Rightarrow> advisory_metadata \<Rightarrow> advisory_metadata" where
  "advisory_set_id i a = a\<lparr>am_id := i\<rparr>"

definition store_advisories :: "time_parsers \<Rightarrow> sync_faults \<Rightarrow> (string, erratum) gomap \<Rightarrow> sync_db
    \<Rightarrow> sync_err option \<times> sync_db" where
  "store_advisories tp faults data db =
     (case parse_advisories tp faults db data of
        Inl e \<Rightarrow> (Some (Wrapped ''Parsing advisories'' e), db)
      | Inr advisories \<Rightarrow>
          if advisories = [] then (None, db)
          else (let existing = (if faults AdvisoriesLookup then []
                      else filter (\<lambda>r. am_name r \<in> am_name ` set advisories) (sd_advisories db));
                    in_db_ids = ids_by_key am_name am_id existing;
                    (to_update, to_store) = split_stored am_name advisory_set_id in_db_ids advisories;
                    (failed, rows) = update_loop am_id advisory_overlay (\<lambda>i. faults (AdvisoryUpdate i)) to_update False
                      (sd_advisories db);
                    db = db\<lparr>sd_advisories := rows\<rparr>
                in if to_store \<noteq> [] \<and> faults AdvisoriesInsert
                   then (Some (sync_db_error AdvisoriesInsert ''Storing advisories''), db)
                   else (let (rows, next_id) = insert_on_conflict_update am_name advisory_overlay advisory_set_id to_store
                               (sd_advisories db, sd_next_advisory db)
                         in (None, db\<lparr>sd_advisories := rows, sd_next_advisory := next_id\<rparr>))))"

section \<open>Time stamps\<close>

definition get_timestamp_kv :: "sync_faults \<Rightarrow> string \<Rightarrow> sync_db \<Rightarrow> sync_err + timestamp option" where
  "get_timestamp_kv faults key db =
     (if faults (KvRead key) then Inl (Leaf (SyncDb (KvRead key))) else Inr (gm_get (sd_kv db) key))"

text \<open>An error is logged; \<open>column\<close> rounds to what the column stores.\<close>

definition update_timestamp_kv :: "(timestamp \<Rightarrow> timestamp) \<Rightarrow> sync_faults \<Rightarrow> string \<Rightarrow> timestamp \<Rightarrow> sync_db \<Rightarrow> sync_db" where
  "update_timestamp_kv column faults key t db =
     (if faults (KvWrite key) then db else db\<lparr>sd_kv := gm_put key (column t) (sd_kv db)\<rparr>)"

end
