(* ===== verification/SyncRun.thy ===== *)
theory SyncRun
  imports SyncStore KafkaEvents
begin

text \<open>
  The VMaaS synchronisation job (\<open>tasks/vmaas_sync\<close>): pages of errata, packages and repositories are
  downloaded and stored, third-party repositories marked, and the systems with a changed repository
  sent to evaluation.  The VMaaS server is a parameter with an explicit state.  The page loops run with
  fuel, \<open>None\<close> when it is used up; an outer \<open>None\<close> in the sending of messages is a panic.  Logs,
  metrics and the refresh of the advisory caches are left out.
\<close>

section \<open>Messages and state\<close>

datatype json = JNull | JBool bool | JNumber string | JText string | JArray "json list" | JObject "(string \<times> json) list"

record page_request =
  rq_page :: int
  rq_page_size :: int
  rq_modified_since :: "string option"

record errata_response =
  el_pages :: int
  el_errata :: "(string, erratum) gomap"

record pkg_list_response =
  pl_pages :: int
  pl_packages :: "pkg_item list"

record repos_response =
  rr_pages :: int
  rr_list :: "(string, (string, json) gomap list) gomap"
  rr_latest_change :: "timestamp option"

record ('n, 'w) sync_env =
  sy_faults :: sync_faults
  sy_sha256 :: "string \<Rightarrow> string"
  sy_times :: time_parsers
  sy_format_time :: "timestamp \<Rightarrow> string"
  sy_column :: "timestamp \<Rightarrow> timestamp"
  sy_debug :: bool
  sy_retries :: nat
  sy_errata :: "page_request \<Rightarrow> 'n \<Rightarrow> errata_response transport \<times> 'n"
  sy_pkg_list :: "page_request \<Rightarrow> 'n \<Rightarrow> pkg_list_response transport \<times> 'n"
  sy_repos :: "page_request \<Rightarrow> bool \<Rightarrow> 'n \<Rightarrow> repos_response transport \<times> 'n"
  sy_db_change :: "'n \<Rightarrow> timestamp option transport \<times> 'n"
  sy_advisory_page_size :: int
  sy_packages_page_size :: int
  sy_modified_since_sync :: bool
  sy_advisories_sync :: bool
  sy_packages_sync :: bool
  sy_repos_sync :: bool
  sy_recalc_send :: bool
  sy_repo_based :: bool
  sy_full_sync_cadence :: int
  sy_batch_size :: int
  sy_shuffle :: "(int \<times> uuid list) list \<Rightarrow> (int \<times> uuid list) list"
  sy_enc :: "platform_event \<Rightarrow> string option"
  sy_writer :: "'w writer"

record ('n, 'w) sync_state =
  ss_db :: sync_db
  ss_net :: 'n
  ss_topic :: 'w

text \<open>A request that is sent again whatever the error was, within the number of tries.\<close>

definition vmaas_request :: "('n, 'w) sync_env \<Rightarrow> ('n \<Rightarrow> 'a transport \<times> 'n) \<Rightarrow> 'a \<Rightarrow> 'n \<Rightarrow> (http_error go_error + 'a) \<times> 'n" where
  "vmaas_request env exchange out net =
     http_call_retry (\<lambda>net. let (t, net) = exchange net in (client_request True True (sy_debug env) t out, net))
       [] (sy_retries env) 0 net"

section \<open>Pages of errata and packages\<close>

definition vmaas_errata_request :: "('n, 'w) sync_env \<Rightarrow> int \<Rightarrow> string option \<Rightarrow> int \<Rightarrow> 'n
    \<Rightarrow> (sync_err + errata_response) \<times> 'n" where
  "vmaas_errata_request env page modified_since page_size net =
     (case vmaas_request env (sy_errata env \<lparr>rq_page = page, rq_page_size = page_size, rq_modified_since = modified_since\<rparr>)
             \<lparr>el_pages = 0, el_errata = []\<rparr> net of
        (Inl e, net) \<Rightarrow> (Inl (Wrapped ''Downloading erratas'' (Leaf (SyncHttp e))), net)
      | (Inr r, net) \<Rightarrow> (Inr r, net))"

definition download_and_process_erratas_page :: "('n, 'w) sync_env \<Rightarrow> string option \<Rightarrow> int \<Rightarrow> ('n, 'w) sync_state
    \<Rightarrow> (sync_err + int) \<times> ('n, 'w) sync_state" where
  "download_and_process_erratas_page env modified_since page s =
     (case vmaas_errata_request env page modified_since (sy_advisory_page_size env) (ss_net s) of
        (Inl e, net) \<Rightarrow> (Inl (Wrapped ''Advisories sync failed on vmaas request'' e), s\<lparr>ss_net := net\<rparr>)
      | (Inr r, net) \<Rightarrow>
          (case store_advisories (sy_times env) (sy_faults env) (el_errata r) (ss_db s) of
             (Some e, db) \<Rightarrow> (Inl (Wrapped ''Storing advisories'' e), s\<lparr>ss_net := net, ss_db := db\<rparr>)
           | (None, db) \<Rightarrow> (Inr (el_pages r), s\<lparr>ss_net := net, ss_db := db\<rparr>)))"

definition vmaas_pkg_list_request :: "('n, 'w) sync_env \<Rightarrow> int \<Rightarrow> string option \<Rightarrow> 'n
    \<Rightarrow> (sync_err + pkg_list_response) \<times> 'n" where
  "vmaas_pkg_list_request env page modified_since net =
     (case vmaas_request env (sy_pkg_list env \<lparr>rq_page = page, rq_page_size = sy_packages_page_size env,
             rq_modified_since = modified_since\<rparr>) \<lparr>pl_pages = 0, pl_packages = []\<rparr> net of
        (Inl e, net) \<Rightarrow> (Inl (Wrapped ''Downloading pkglist response'' (Leaf (SyncHttp e))), net)
      | (Inr r, net) \<Rightarrow> (Inr r, net))"

definition download_and_process_pkg_list_page :: "('n, 'w) sync_env \<Rightarrow> string option \<Rightarrow> int \<Rightarrow> ('n, 'w) sync_state
    \<Rightarrow> (sync_err + int) \<times> ('n, 'w) sync_state" where
  "download_and_process_pkg_list_page env modified_since page s =
     (case vmaas_pkg_list_request env page modified_since (ss_net s) of
        (Inl e, net) \<Rightarrow> (Inl (Wrapped ''Packages sync failed on vmaas request'' e), s\<lparr>ss_net := net\<rparr>)
      | (Inr r, net) \<Rightarrow>
          (case store_pkg_list_data (sy_sha256 env) (sy_faults env) (pl_packages r) (ss_db s) of
             (Some e, db) \<Rightarrow> (Inl (Wrapped ''Packages data storing failed'' e), s\<lparr>ss_net := net, ss_db := db\<rparr>)
           | (None, db) \<Rightarrow> (Inr (pl_pages r), s\<lparr>ss_net := net, ss_db := db\<rparr>)))"

text \<open>The loop \<open>for iPage <= iPageMax\<close>.\<close>

fun pages_loop :: "(int \<Rightarrow> 's \<Rightarrow> (sync_err + int) \<times> 's) \<Rightarrow> string \<Rightarrow> nat \<Rightarrow> int \<Rightarrow> int \<Rightarrow> 's \<Rightarrow> (sync_err option \<times> 's) option" where
  "pages_loop process message 0 page max_page s = None"
| "pages_loop process message (Suc fuel) page max_page s =
     (if page \<le> max_page
      then (case process page s of
              (Inl e, s) \<Rightarrow> Some (Some (Wrapped message e), s)
            | (Inr pages, s) \<Rightarrow> pages_loop process message fuel (page + 1) pages s)
      else Some (None, s))"

definition sync_advisories :: "('n, 'w) sync_env \<Rightarrow> nat \<Rightarrow> string option \<Rightarrow> ('n, 'w) sync_state
    \<Rightarrow> (sync_err option \<times> ('n, 'w) sync_state) option" where
  "sync_advisories env fuel modified_since s =
     pages_loop (download_and_process_erratas_page env modified_since) ''Erratas page download and process failed'' fuel 0 1 s"

definition sync_packages :: "('n, 'w) sync_env \<Rightarrow> nat \<Rightarrow> string option \<Rightarrow> ('n, 'w) sync_state
    \<Rightarrow> (sync_err option \<times> ('n, 'w) sync_state) option" where
  "sync_packages env fuel modified_since s =
     pages_loop (download_and_process_pkg_list_page env modified_since) ''PkgList page download and process failed'' fuel 0 1 s"

section \<open>Repositories\<close>

definition get_repo_updated_packages :: "(string, json) gomap \<Rightarrow> string list" where
  "get_repo_updated_packages repo =
     (case gm_get repo ''updated_package_names'' of
        Some (JArray ps) \<Rightarrow> concat (map (\<lambda>p. case p of JText t \<Rightarrow> [t] | _ \<Rightarrow> []) ps)
      | _ \<Rightarrow> [])"

text \<open>The inner loop over a content set: the packages of a later entry replace those of an earlier one.\<close>

fun content_set_loop :: "string \<Rightarrow> (string, json) gomap list \<Rightarrow> (string, string list) gomap \<Rightarrow> (string, string list) gomap" where
  "content_set_loop k [] m = m"
| "content_set_loop k (repo # repos) m = content_set_loop k repos (gm_put k (get_repo_updated_packages repo) m)"

fun repository_list_loop :: "(string, (string, json) gomap list) gomap \<Rightarrow> (string, string list) gomap
    \<Rightarrow> (string, string list) gomap" where
  "repository_list_loop [] m = m"
| "repository_list_loop ((k, content_set) # rest) m =
     repository_list_loop rest (content_set_loop k content_set (gm_put k [] m))"

definition one_second :: timestamp where "one_second = 1000000000"

text \<open>The loop ends only on an answer without pages or without a change, or on the page that is also
  the number of pages.\<close>

fun vmaas_repos_loop :: "('n, 'w) sync_env \<Rightarrow> string option \<Rightarrow> bool \<Rightarrow> nat \<Rightarrow> int \<Rightarrow> (string, string list) gomap
    \<Rightarrow> timestamp option \<Rightarrow> 'n \<Rightarrow> ((http_error go_error + (string, string list) gomap \<times> timestamp option) \<times> 'n) option" where
  "vmaas_repos_loop env modified_since third_party 0 page repo_packages latest net = None"
| "vmaas_repos_loop env modified_since third_party (Suc fuel) page repo_packages latest net =
     (case vmaas_request env (sy_repos env \<lparr>rq_page = page, rq_page_size = sy_advisory_page_size env,
             rq_modified_since = modified_since\<rparr> third_party) \<lparr>rr_pages = 0, rr_list = [], rr_latest_change = None\<rparr> net of
        (Inl e, net) \<Rightarrow> Some (Inl e, net)
      | (Inr repos, net) \<Rightarrow>
          if rr_pages repos < 1 then Some (Inr (repo_packages, latest), net)
          else (case rr_latest_change repos of
                  None \<Rightarrow> Some (Inr (repo_packages, latest), net)
                | Some change \<Rightarrow>
                    (let latest = (case latest of
                           None \<Rightarrow> Some (change + one_second)
                         | Some l \<Rightarrow> if l < change then Some (change + one_second) else Some l);
                         repo_packages = repository_list_loop (rr_list repos) repo_packages
                     in if page = rr_pages repos then Some (Inr (repo_packages, latest), net)
                        else vmaas_repos_loop env modified_since third_party fuel (page + 1) repo_packages latest net)))"

definition get_vmaas_repos :: "('n, 'w) sync_env \<Rightarrow> nat \<Rightarrow> string option \<Rightarrow> bool \<Rightarrow> 'n
    \<Rightarrow> ((http_error go_error + (string, string list) gomap \<times> timestamp option) \<times> 'n) option" where
  "get_vmaas_repos env fuel modified_since third_party net = vmaas_repos_loop env modified_since third_party fuel 1 [] None net"

definition get_updated_repos :: "('n, 'w) sync_env \<Rightarrow> nat \<Rightarrow> 'n \<Rightarrow> ((http_error go_error + string list) \<times> 'n) option" where
  "get_updated_repos env fuel net =
     (case get_vmaas_repos env fuel None False net of
        None \<Rightarrow> None
      | Some (Inl e, net) \<Rightarrow> Some (Inl e, net)
      | Some (Inr (repo_map, change), net) \<Rightarrow> Some (Inr (map fst repo_map), net))"

definition mark_repos :: "(string \<Rightarrow> bool) \<Rightarrow> bool \<Rightarrow> sync_db \<Rightarrow> sync_db" where
  "mark_repos which third_party db = db\<lparr>sd_repos := map (\<lambda>r. if which (rp_name r) then r\<lparr>rp_third_party := third_party\<rparr> else r) (sd_repos db)\<rparr>"

definition sync_repos :: "('n, 'w) sync_env \<Rightarrow> nat \<Rightarrow> ('n, 'w) sync_state
    \<Rightarrow> (sync_err option \<times> ('n, 'w) sync_state) option" where
  "sync_repos env fuel s =
     (case get_updated_repos env fuel (ss_net s) of
        None \<Rightarrow> None
      | Some (Inl e, net) \<Rightarrow> Some (Some (Leaf (SyncHttp e)), s\<lparr>ss_net := net\<rparr>)
      | Some (Inr redhat_repos, net) \<Rightarrow>
          (let s = s\<lparr>ss_net := net\<rparr>
           in if redhat_repos = [] then Some (None, s)
              else if sy_faults env RedhatRepos
              then Some (Some (sync_db_error RedhatRepos ''Updating repo third_party flag for redhat content''), s)
              else (let s = s\<lparr>ss_db := mark_repos (\<lambda>n. n \<in> set redhat_repos) False (ss_db s)\<rparr>
                    in if sy_faults env ThirdPartyRepos
                       then Some (Some (sync_db_error ThirdPartyRepos ''Updating repo third_party flag for third party content''), s)
                       else Some (None, s\<lparr>ss_db := mark_repos (\<lambda>n. n \<notin> set redhat_repos) True (ss_db s)\<rparr>))))"

fun affected_loop :: "(string \<times> string list) list \<Rightarrow> string list \<Rightarrow> string list \<Rightarrow> string list \<times> string list" where
  "affected_loop [] repos packages = (repos, packages)"
| "affected_loop ((repo, names) # rest) repos packages =
     (if names = [] then affected_loop rest repos packages
      else affected_loop rest (repos @ [repo]) (fold (\<lambda>n ps. if n \<in> set ps then ps else ps @ [n]) names packages))"

definition get_updated_repos_with_packages :: "('n, 'w) sync_env \<Rightarrow> nat \<Rightarrow> string option \<Rightarrow> 'n
    \<Rightarrow> ((string list \<times> string list \<times> timestamp option \<times> http_error go_error option) \<times> 'n) option" where
  "get_updated_repos_with_packages env fuel modified_since net =
     (case get_vmaas_repos env fuel modified_since True net of
        None \<Rightarrow> None
      | Some (Inl e, net) \<Rightarrow> Some (([], [], None, Some e), net)
      | Some (Inr (repo_map, change), net) \<Rightarrow>
          (let (repos, packages) = affected_loop repo_map [] [] in Some ((repos, packages, change, None), net)))"

section \<open>Systems to evaluate again\<close>

definition last_eval_repo_based :: string where "last_eval_repo_based = ''last_eval_repo_based''"
definition last_sync :: string where "last_sync = ''last_sync''"
definition last_full_sync :: string where "last_full_sync = ''last_full_sync''"
definition vmaas_exported :: string where "vmaas_exported = ''vmaas_exported''"

definition system_eval_data :: "sync_db \<Rightarrow> system_inventory \<Rightarrow> eval_data list" where
  "system_eval_data db si = map (\<lambda>(a, org). \<lparr>ed_inventory = si_inventory_id si, ed_account = si_account si, ed_request = [],
     ed_org = Some org\<rparr>) (filter (\<lambda>(a, org). a = si_account si) (sd_accounts db))"

definition has_repo_and_package :: "sync_db \<Rightarrow> string list \<Rightarrow> string list \<Rightarrow> system_inventory \<Rightarrow> bool" where
  "has_repo_and_package db repos packages si \<longleftrightarrow>
     list_ex (\<lambda>(a, i, r). a = si_account si \<and> i = si_id si
       \<and> list_ex (\<lambda>repo. rp_id repo = r \<and> rp_name repo \<in> set repos) (sd_repos db)) (sd_system_repo db)
   \<and> list_ex (\<lambda>(a, i, n). a = si_account si \<and> i = si_id si
       \<and> list_ex (\<lambda>pn. nr_id pn = n \<and> nr_name pn \<in> set packages) (sd_names db)) (sd_system_packages db)"

definition get_repo_based_inventory_ids :: "sync_faults \<Rightarrow> sync_db \<Rightarrow> string list \<Rightarrow> string list \<Rightarrow> sync_err + eval_data list" where
  "get_repo_based_inventory_ids faults db repos packages =
     (if repos = [] \<or> packages = [] then Inr []
      else if faults RepoSystems then Inl (Leaf (SyncDb RepoSystems))
      else Inr (sort_key ed_account (remdups (concat (map (system_eval_data db)
             (filter (has_repo_and_package db repos packages) (sd_inventory db)))))))"

definition get_all_inventory_ids :: "sync_faults \<Rightarrow> sync_db \<Rightarrow> sync_err + eval_data list" where
  "get_all_inventory_ids faults db =
     (if faults AllSystems then Inl (Leaf (SyncDb AllSystems))
      else Inr (sort_key ed_account (concat (map (system_eval_data db) (sd_inventory db)))))"

text \<open>The missing time stamp is tested before the error.\<close>

definition get_current_repo_based_inventory_ids :: "('n, 'w) sync_env \<Rightarrow> nat \<Rightarrow> ('n, 'w) sync_state
    \<Rightarrow> ((sync_err + eval_data list) \<times> ('n, 'w) sync_state) option" where
  "get_current_repo_based_inventory_ids env fuel s =
     (case get_timestamp_kv (sy_faults env) last_eval_repo_based (ss_db s) of
        Inl e \<Rightarrow> Some (Inl e, s)
      | Inr last_eval \<Rightarrow>
          (case get_updated_repos_with_packages env fuel (map_option (sy_format_time env) last_eval) (ss_net s) of
             None \<Rightarrow> None
           | Some ((repos, packages, latest, err), net) \<Rightarrow>
               (let s = s\<lparr>ss_net := net\<rparr>
                in (case latest of
                      None \<Rightarrow> Some (Inr [], s)
                    | Some t \<Rightarrow>
                        (case err of
                           Some e \<Rightarrow> Some (Inl (Leaf (SyncHttp e)), s)
                         | None \<Rightarrow>
                             (case get_repo_based_inventory_ids (sy_faults env) (ss_db s) repos packages of
                                Inl e \<Rightarrow> Some (Inl e, s)
                              | Inr ids \<Rightarrow> Some (Inr ids, s\<lparr>ss_db :=
                                  update_timestamp_kv (sy_column env) (sy_faults env) last_eval_repo_based t (ss_db s)\<rparr>)))))))"

text \<open>The error of the writer is logged.  \<open>None\<close> is a panic of the writer's batches or used up fuel.\<close>

definition send_reevaluation_messages :: "('n, 'w) sync_env \<Rightarrow> nat \<Rightarrow> timestamp \<Rightarrow> ('n, 'w) sync_state
    \<Rightarrow> (sync_err option \<times> ('n, 'w) sync_state) option" where
  "send_reevaluation_messages env fuel now s =
     (if \<not> sy_recalc_send env then Some (None, s)
      else (case (if sy_repo_based env then get_current_repo_based_inventory_ids env fuel s
                  else Some (get_all_inventory_ids (sy_faults env) (ss_db s), s)) of
              None \<Rightarrow> None
            | Some (Inl e, s) \<Rightarrow> Some (Some e, s)
            | Some (Inr ids, s) \<Rightarrow>
                (case eval_write_events (sy_batch_size env) now (sy_shuffle env) (sy_enc env) (sy_writer env) ids (ss_topic s) of
                   None \<Rightarrow> None
                 | Some (err, topic) \<Rightarrow> Some (None, s\<lparr>ss_topic := topic\<rparr>))))"

section \<open>The job\<close>

definition is_sync_needed :: "timestamp option \<Rightarrow> timestamp option \<Rightarrow> bool" where
  "is_sync_needed db_exported exported =
     (case (db_exported, exported) of (Some d, Some v) \<Rightarrow> d < v | _ \<Rightarrow> True)"

definition vmaas_db_exported :: "('n, 'w) sync_env \<Rightarrow> 'n \<Rightarrow> timestamp option \<times> 'n" where
  "vmaas_db_exported env net =
     (case vmaas_request env (sy_db_change env) None net of (Inl e, net) \<Rightarrow> (None, net) | (Inr t, net) \<Rightarrow> (t, net))"

definition get_last_sync :: "sync_faults \<Rightarrow> string \<Rightarrow> sync_db \<Rightarrow> timestamp option" where
  "get_last_sync faults key db = (case get_timestamp_kv faults key db of Inl e \<Rightarrow> None | Inr t \<Rightarrow> t)"

definition sync_modified_since :: "('n, 'w) sync_env \<Rightarrow> timestamp \<Rightarrow> timestamp option \<Rightarrow> sync_db \<Rightarrow> string option" where
  "sync_modified_since env sync_start last_modified db =
     (case get_last_sync (sy_faults env) last_full_sync db of
        Some full \<Rightarrow> if full + sy_full_sync_cadence env * 3600 * one_second < sync_start then None
                    else map_option (sy_format_time env) last_modified
      | None \<Rightarrow> map_option (sy_format_time env) last_modified)"

text \<open>One step of \<open>SyncData\<close>, when it is enabled and the steps before it succeeded.\<close>

definition sync_step :: "bool \<Rightarrow> string \<Rightarrow> (('n, 'w) sync_state \<Rightarrow> (sync_err option \<times> ('n, 'w) sync_state) option)
    \<Rightarrow> (sync_err option \<times> ('n, 'w) sync_state) option \<Rightarrow> (sync_err option \<times> ('n, 'w) sync_state) option" where
  "sync_step enabled message step r =
     (case r of
        None \<Rightarrow> None
      | Some (Some e, s) \<Rightarrow> Some (Some e, s)
      | Some (None, s) \<Rightarrow>
          if \<not> enabled then Some (None, s)
          else (case step s of
                  None \<Rightarrow> None
                | Some (Some e, s) \<Rightarrow> Some (Some (Wrapped message e), s)
                | Some (None, s) \<Rightarrow> Some (None, s)))"

definition sync_data :: "('n, 'w) sync_env \<Rightarrow> nat \<Rightarrow> timestamp \<Rightarrow> timestamp option \<Rightarrow> timestamp option \<Rightarrow> ('n, 'w) sync_state
    \<Rightarrow> (sync_err option \<times> ('n, 'w) sync_state) option" where
  "sync_data env fuel sync_start last_modified exported s =
     (let modified_since = sync_modified_since env sync_start last_modified (ss_db s)
      in (case sync_step (sy_repos_sync env) ''Failed to sync repos'' (sync_repos env fuel)
               (sync_step (sy_packages_sync env) ''Failed to sync packages'' (sync_packages env fuel modified_since)
                 (sync_step (sy_advisories_sync env) ''Failed to sync advisories'' (sync_advisories env fuel modified_since)
                   (Some (None, s)))) of
            None \<Rightarrow> None
          | Some (Some e, s) \<Rightarrow> Some (Some e, s)
          | Some (None, s) \<Rightarrow>
              (let put = update_timestamp_kv (sy_column env) (sy_faults env);
                   db = put last_sync sync_start (ss_db s);
                   db = (if modified_since = None then put last_full_sync sync_start db else db);
                   db = (case exported of None \<Rightarrow> db | Some t \<Rightarrow> put vmaas_exported t db)
               in Some (None, s\<lparr>ss_db := db\<rparr>))))"

text \<open>\<open>LogFatal\<close> ends the process: the flag says whether it did.\<close>

definition run_sync :: "('n, 'w) sync_env \<Rightarrow> nat \<Rightarrow> timestamp \<Rightarrow> ('n, 'w) sync_state \<Rightarrow> (bool \<times> ('n, 'w) sync_state) option" where
  "run_sync env fuel now s =
     (let last_modified = (if sy_modified_since_sync env then get_last_sync (sy_faults env) vmaas_exported (ss_db s) else None);
          (exported, net) = vmaas_db_exported env (ss_net s);
          s = s\<lparr>ss_net := net\<rparr>
      in if \<not> is_sync_needed last_modified exported then Some (True, s)
         else (case sync_data env fuel now last_modified exported s of
                 None \<Rightarrow> None
               | Some (Some e, s) \<Rightarrow> Some (False, s)
               | Some (None, s) \<Rightarrow> map_option (\<lambda>(e, s). (True, s)) (send_reevaluation_messages env fuel now s)))"

end
