(* ===== verification/SyncStoreLaws.thy ===== *)
theory SyncStoreLaws
  imports SyncStore
begin

text \<open>
  Storing rows of a keyed table, once for packages and once for advisories (locale \<open>keyed_rows\<close>):
  after it the table holds exactly one row for every key, with the data that was sent under the id the
  key had.  From this, what a page of packages or of advisories leaves in the database.
\<close>

section \<open>Rows under a key\<close>

definition row_at :: "('r \<Rightarrow> 'k) \<Rightarrow> 'r list \<Rightarrow> 'k \<Rightarrow> 'r option" where
  "row_at key rows k = find (\<lambda>r. key r = k) rows"

definition table_ok :: "('r \<Rightarrow> 'k) \<Rightarrow> ('r \<Rightarrow> int) \<Rightarrow> 'r list \<Rightarrow> int \<Rightarrow> bool" where
  "table_ok key rid rows next_id \<longleftrightarrow> distinct (map key rows) \<and> distinct (map rid rows) \<and> (\<forall>r\<in>set rows. rid r < next_id)"

lemma row_at_Nil [simp]: "row_at key [] k = None"
  by (simp add: row_at_def)

lemma row_at_Cons [simp]: "row_at key (r # rs) k = (if key r = k then Some r else row_at key rs k)"
  by (simp add: row_at_def)

lemma row_at_append: "row_at key (a @ b) k = (case row_at key a k of None \<Rightarrow> row_at key b k | Some r \<Rightarrow> Some r)"
  by (induction a) auto

lemma row_at_None: "row_at key rows k = None \<longleftrightarrow> k \<notin> key ` set rows"
  by (induction rows) auto

lemma row_at_absent: "k \<notin> key ` set rows \<Longrightarrow> row_at key rows k = None"
  by (simp add: row_at_None)

lemma row_at_SomeD: "row_at key rows k = Some r \<Longrightarrow> r \<in> set rows \<and> key r = k"
  by (induction rows) (auto split: if_splits)

lemma row_at_mem: "distinct (map key rows) \<Longrightarrow> row_at key rows k = Some r \<longleftrightarrow> r \<in> set rows \<and> key r = k"
  by (induction rows) auto

lemma row_at_map: "(\<And>r. key (f r) = key r) \<Longrightarrow> row_at key (map f rows) k = map_option f (row_at key rows k)"
  by (induction rows) auto

lemma ids_by_key_get:
  "distinct (map key rows) \<Longrightarrow> gm_get (ids_by_key key rid rows) k = map_option rid (row_at key rows k)"
proof -
  have "distinct (map key rows) \<Longrightarrow> gm_get (fold (\<lambda>r m. gm_put (key r) (rid r) m) rows m) k
      = (case row_at key rows k of Some r \<Rightarrow> Some (rid r) | None \<Rightarrow> gm_get m k)" for m
    by (induction rows arbitrary: m) (auto simp: gomap row_at_absent split: option.splits)
  then show "distinct (map key rows) \<Longrightarrow> ?thesis" by (auto simp: ids_by_key_def split: option.splits)
qed

lemma row_at_filter: "row_at key (filter (\<lambda>r. key r \<in> S) rows) k = (if k \<in> S then row_at key rows k else None)"
  by (induction rows) auto

locale keyed_rows =
  fixes key :: "'r \<Rightarrow> 'k" and rid :: "'r \<Rightarrow> int" and overlay :: "'r \<Rightarrow> 'r \<Rightarrow> 'r" and set_id :: "int \<Rightarrow> 'r \<Rightarrow> 'r"
  assumes key_overlay [simp]: "key (overlay n r) = key r" and rid_overlay [simp]: "rid (overlay n r) = rid r"
    and key_set_id [simp]: "key (set_id i r) = key r" and rid_set_id [simp]: "rid (set_id i r) = i"
    and overlay_set_id [simp]: "overlay (set_id i n) r = overlay n r"
begin

lemma split_stored_at:
  "split_stored key set_id ids ns = (us, ss) \<Longrightarrow>
     row_at key us k = (case gm_get ids k of None \<Rightarrow> None | Some i \<Rightarrow> map_option (set_id i) (row_at key ns k))
   \<and> row_at key ss k = (case gm_get ids k of None \<Rightarrow> row_at key ns k | Some i \<Rightarrow> None)"
  by (induction ns arbitrary: us ss) (auto simp: Let_def split: prod.splits option.splits)

lemma split_stored_keys:
  "split_stored key set_id ids ns = (us, ss) \<Longrightarrow> (\<forall>u\<in>set us. key u \<in> key ` set ns) \<and> (\<forall>u\<in>set ss. key u \<in> key ` set ns)
   \<and> (\<forall>u\<in>set us. gm_get ids (key u) = Some (rid u))"
proof (induction ns arbitrary: us ss)
  case (Cons n ns)
  obtain us1 ss1 where s: "split_stored key set_id ids ns = (us1, ss1)" by fastforce
  show ?case using Cons.IH [OF s] Cons.prems s by (cases "gm_get ids (key n)") auto
qed simp

lemma split_stored_distinct:
  "split_stored key set_id ids ns = (us, ss) \<Longrightarrow> distinct (map key ns) \<Longrightarrow> distinct (map key us) \<and> distinct (map key ss)"
proof (induction ns arbitrary: us ss)
  case (Cons n ns)
  obtain us1 ss1 where s: "split_stored key set_id ids ns = (us1, ss1)" by fastforce
  have "key n \<notin> key ` set us1" "key n \<notin> key ` set ss1" using split_stored_keys [OF s] Cons.prems(2) by auto
  then show ?case using Cons.IH [OF s] Cons.prems s by (auto split: option.splits)
qed simp

lemma update_row_at:
  assumes "distinct (map rid rows)" "distinct (map key rows)" "row_at key rows (key u) = Some r" "rid r = i"
  shows "row_at key (update_row rid overlay i u rows) k
    = (if k = key u then Some (overlay u r) else row_at key rows k)"
proof -
  have r: "r \<in> set rows" "key r = key u" using row_at_SomeD [OF assms(3)] by auto
  have "row_at key (update_row rid overlay i u rows) k = map_option (\<lambda>r. if rid r = i then overlay u r else r) (row_at key rows k)"
    unfolding update_row_def by (rule row_at_map) simp
  also have "\<dots> = (if k = key u then Some (overlay u r) else row_at key rows k)"
  proof (cases "row_at key rows k")
    case None
    then show ?thesis using assms(3) by (cases "k = key u") simp_all
  next
    case (Some r')
    then have r': "r' \<in> set rows" "key r' = k" by (auto dest: row_at_SomeD)
    have inj: "inj_on key (set rows)" "inj_on rid (set rows)" using assms(1,2) by (simp_all add: distinct_map)
    have "r' = r" if "k = key u" by (rule inj_onD [OF inj(1)]) (use r r' that in simp_all)
    moreover have "r' = r" if "rid r' = i" by (rule inj_onD [OF inj(2)]) (use r r' that assms(4) in simp_all)
    ultimately have "rid r' = i \<longleftrightarrow> k = key u" using r' assms(4) r(2) by blast
    then show ?thesis using Some assms(3) by (cases "k = key u") simp_all
  qed
  finally show ?thesis .
qed

lemma update_row_keys: "map key (update_row rid overlay i u rows) = map key rows" "map rid (update_row rid overlay i u rows) = map rid rows"
  by (auto simp: update_row_def)

lemma update_loop_keys:
  "update_loop rid overlay fails us failed rows = (failed', rows') \<Longrightarrow> map key rows' = map key rows \<and> map rid rows' = map rid rows"
  by (induction us arbitrary: failed rows) (auto simp: update_row_keys split: if_splits)

lemma update_loop_all:
  assumes "\<forall>i. \<not> fails i" "distinct (map rid rows)" "distinct (map key rows)" "distinct (map key us)"
    and "\<forall>u\<in>set us. \<exists>r. row_at key rows (key u) = Some r \<and> rid r = rid u"
  shows "update_loop rid overlay fails us False rows = (False, rows') \<Longrightarrow>
    row_at key rows' k = (case row_at key us k of None \<Rightarrow> row_at key rows k
       | Some u \<Rightarrow> map_option (overlay u) (row_at key rows k))"
  using assms
proof (induction us arbitrary: rows)
  case (Cons u us)
  obtain r where r: "row_at key rows (key u) = Some r" "rid r = rid u" using Cons.prems(6) by auto
  let ?rows = "update_row rid overlay (rid u) u rows"
  note at = update_row_at [OF Cons.prems(3,4) r]
  have "\<forall>v\<in>set us. \<exists>r. row_at key ?rows (key v) = Some r \<and> rid r = rid v"
    using Cons.prems(5,6) by (simp add: at) (metis image_eqI)
  then have "row_at key rows' k = (case row_at key us k of None \<Rightarrow> row_at key ?rows k
       | Some u \<Rightarrow> map_option (overlay u) (row_at key ?rows k))"
    using Cons by (simp add: update_row_keys)
  moreover have "row_at key us (key u) = None" using Cons.prems(5) by (simp add: row_at_None)
  ultimately show ?case using r by (auto simp: at split: option.splits)
qed simp

lemma insert_all:
  assumes "insert_on_conflict_update key overlay set_id ns (rows, next_id) = (rows', next')"
    and "table_ok key rid rows next_id" "distinct (map key ns)"
  shows "table_ok key rid rows' next' \<and> next_id \<le> next'
   \<and> (case row_at key ns k of
        None \<Rightarrow> row_at key rows' k = row_at key rows k
      | Some n \<Rightarrow> (case row_at key rows k of
            Some r \<Rightarrow> row_at key rows' k = Some (overlay n r)
          | None \<Rightarrow> \<exists>i. row_at key rows' k = Some (set_id i n)))"
  using assms
proof (induction ns arbitrary: rows next_id)
  case (Cons n ns)
  let ?rows = "if key n \<in> key ` set rows then map (\<lambda>r. if key r = key n then overlay n r else r) rows else rows @ [set_id next_id n]"
  have step: "insert_on_conflict_update key overlay set_id ns (?rows, next_id + 1) = (rows', next')"
    using Cons.prems(1) by (simp add: if_distrib)
  have keys: "map key ?rows = (if key n \<in> key ` set rows then map key rows else map key rows @ [key n])"
    "map rid ?rows = (if key n \<in> key ` set rows then map rid rows else map rid rows @ [next_id])" by auto
  have "table_ok key rid ?rows (next_id + 1)"
    using Cons.prems(2) unfolding table_ok_def keys by (auto split: if_splits)
  then have IH: "table_ok key rid rows' next' \<and> next_id + 1 \<le> next'
   \<and> (case row_at key ns k of
        None \<Rightarrow> row_at key rows' k = row_at key ?rows k
      | Some n \<Rightarrow> (case row_at key ?rows k of
            Some r \<Rightarrow> row_at key rows' k = Some (overlay n r)
          | None \<Rightarrow> \<exists>i. row_at key rows' k = Some (set_id i n)))"
    using Cons.IH [OF step] Cons.prems(3) by simp
  have at: "row_at key ?rows k = (if k = key n then (case row_at key rows k of Some r \<Rightarrow> Some (overlay n r)
      | None \<Rightarrow> Some (set_id next_id n)) else row_at key rows k)"
  proof (cases "key n \<in> key ` set rows")
    case True
    have m: "row_at key (map (\<lambda>r. if key r = key n then overlay n r else r) rows) k
        = map_option (\<lambda>r. if key r = key n then overlay n r else r) (row_at key rows k)"
      by (rule row_at_map) simp
    show ?thesis unfolding if_P [OF True] m
    proof (cases "row_at key rows k")
      case None
      then have "k \<noteq> key n" using True by (auto simp: row_at_None)
      then show "map_option (\<lambda>r. if key r = key n then overlay n r else r) (row_at key rows k)
          = (if k = key n then (case row_at key rows k of None \<Rightarrow> Some (set_id next_id n) | Some r \<Rightarrow> Some (overlay n r))
             else row_at key rows k)" using None by simp
    next
      case (Some r)
      then have "key r = k" by (auto dest: row_at_SomeD)
      then show "map_option (\<lambda>r. if key r = key n then overlay n r else r) (row_at key rows k)
          = (if k = key n then (case row_at key rows k of None \<Rightarrow> Some (set_id next_id n) | Some r \<Rightarrow> Some (overlay n r))
             else row_at key rows k)" using Some by auto
    qed
  next
    case False
    then show ?thesis by (auto simp: row_at_append row_at_absent split: option.splits)
  qed
  show ?case
  proof (cases "key n = k")
    case True
    then have "row_at key ns k = None" using Cons.prems(3) by (auto simp: row_at_None)
    then show ?thesis using IH at True by (auto split: option.splits)
  next
    case False
    then show ?thesis using IH unfolding at by (auto split: option.splits)
  qed
qed (simp split: option.splits)

text \<open>Update and insert together, whether or not the lookup of the stored rows worked.\<close>

lemma stored_rows:
  assumes ok: "table_ok key rid rows next_id" and d: "distinct (map key ns)"
    and ids: "ids = ids_by_key key rid (if lost then [] else filter (\<lambda>r. key r \<in> key ` set ns) rows)"
    and split: "split_stored key set_id ids ns = (us, ss)"
    and upd: "\<forall>i. \<not> fails i" "update_loop rid overlay fails us False rows = (failed, rows1)"
    and ins: "insert_on_conflict_update key overlay set_id ss (rows1, next_id) = (rows', next')"
  shows "\<not> failed \<and> table_ok key rid rows' next' \<and> next_id \<le> next'
   \<and> (case row_at key ns k of
        None \<Rightarrow> row_at key rows' k = row_at key rows k
      | Some n \<Rightarrow> (case row_at key rows k of
            Some r \<Rightarrow> row_at key rows' k = Some (overlay n r)
          | None \<Rightarrow> \<exists>i. row_at key rows' k = Some (set_id i n)))"
proof -
  have t: "distinct (map key rows)" "distinct (map rid rows)" using ok by (auto simp: table_ok_def)
  have get: "gm_get ids k = (case row_at key ns k of None \<Rightarrow> None
      | Some n \<Rightarrow> if lost then None else map_option rid (row_at key rows k))" for k
    using t(1) row_at_None [of key ns k]
    by (cases "k \<in> key ` set ns") (auto simp: ids ids_by_key_get row_at_filter distinct_map_filter split: option.splits)
  note sp = split_stored_at [OF split] split_stored_keys [OF split] split_stored_distinct [OF split d]
  have nf: "\<not> failed"
  proof -
    have "update_loop rid overlay fails us False rows = (f, r) \<Longrightarrow> \<not> f" for us rows f r
      using upd(1) by (induction us arbitrary: rows) auto
    then show ?thesis using upd(2) by blast
  qed
  have stored: "\<forall>u\<in>set us. \<exists>r. row_at key rows (key u) = Some r \<and> rid r = rid u"
  proof
    fix u assume "u \<in> set us"
    then have "gm_get ids (key u) = Some (rid u)" using sp by blast
    then show "\<exists>r. row_at key rows (key u) = Some r \<and> rid r = rid u" by (auto simp: get split: if_splits option.splits)
  qed
  have at1: "row_at key rows1 k = (case row_at key us k of None \<Rightarrow> row_at key rows k
      | Some u \<Rightarrow> map_option (overlay u) (row_at key rows k))" for k
    using update_loop_all [OF upd(1) t(2,1) _ stored, of rows1] upd(2) sp(3) nf by simp
  have ok1: "table_ok key rid rows1 next_id"
  proof -
    note ks = update_loop_keys [OF upd(2)]
    then have "rid ` set rows1 = rid ` set rows" by (metis list.set_map)
    then show ?thesis using ok ks unfolding table_ok_def by (metis image_iff)
  qed
  have ss: "distinct (map key ss)" using sp d by blast
  note ins = insert_all [OF ins ok1 ss]
  have us_k: "row_at key us k = (case gm_get ids k of None \<Rightarrow> None | Some i \<Rightarrow> map_option (set_id i) (row_at key ns k))"
    and ss_k: "row_at key ss k = (case gm_get ids k of None \<Rightarrow> row_at key ns k | Some i \<Rightarrow> None)" for k using sp by auto
  show ?thesis
    using ins [of k] nf unfolding at1 us_k ss_k get
    by (cases "row_at key ns k"; cases "row_at key rows k"; cases lost) simp_all
qed

end

interpretation package_rows: keyed_rows package_key sk_id package_overlay package_set_id
  by unfold_locales (simp_all add: package_key_def package_overlay_def package_set_id_def)

interpretation advisory_rows: keyed_rows am_name am_id advisory_overlay advisory_set_id
  by unfold_locales (simp_all add: advisory_overlay_def advisory_set_id_def)

section \<open>Advisories\<close>

lemma advisory_name: "vmaas_data2_advisory tp name e sev types = Inr (Some a) \<Longrightarrow> am_name a = name \<and> am_id a = 0"
  by (auto simp: vmaas_data2_advisory_def split: option.splits)

lemma parse_loop_at:
  "parse_loop tp sev types data = Inr advisories \<Longrightarrow> wf_gomap data \<Longrightarrow>
     distinct (map am_name advisories) \<and> am_name ` set advisories \<subseteq> fst ` set data
   \<and> (case gm_get data name of None \<Rightarrow> row_at am_name advisories name = None
      | Some e \<Rightarrow> vmaas_data2_advisory tp name e sev types = Inr (row_at am_name advisories name))"
proof (induction tp sev types data arbitrary: advisories rule: parse_loop.induct)
  case (2 tp sev types n e data)
  obtain a as where a: "vmaas_data2_advisory tp n e sev types = Inr a" and as: "parse_loop tp sev types data = Inr as"
    and r: "advisories = (case a of None \<Rightarrow> [] | Some a \<Rightarrow> [a]) @ as"
    using 2(2) by (auto split: sum.splits)
  note IH = 2(1) [OF a as]
  have "row_at am_name as n = None" using IH 2(3) by (auto simp: row_at_None)
  then show ?case
    using IH 2(3) a r by (cases a) (auto dest: advisory_name simp del: map_of_eq_Some_iff split: option.splits)
qed simp

lemma advisory_overlay_set: "am_name n = am_name r \<Longrightarrow> advisory_overlay n r = advisory_set_id (am_id r) n"
  by (simp add: advisory_overlay_def advisory_set_id_def)

definition maps_loaded :: "sync_faults \<Rightarrow> sync_db \<Rightarrow> (string, int) gomap \<Rightarrow> (string, int) gomap \<Rightarrow> bool" where
  "maps_loaded faults db types severities \<longleftrightarrow> get_id_maps faults db = Inr (types, severities)"

text \<open>C18.  When a page of errata is stored and no update statement fails, every erratum with valid dates,
  a description and a summary has exactly one advisory with its data; an advisory stored before keeps
  its id.  All other advisories are as before, and names and ids stay unique.\<close>

theorem errata_page_stored:
  assumes ok: "table_ok am_name am_id (sd_advisories db) (sd_next_advisory db)" and data: "wf_gomap data"
    and upd: "\<forall>i. \<not> faults (AdvisoryUpdate i)" and run: "store_advisories tp faults data db = (None, db')"
  shows "table_ok am_name am_id (sd_advisories db') (sd_next_advisory db')
   \<and> (\<exists>types severities. maps_loaded faults db types severities \<and> (\<forall>name.
       case gm_get data name of
         None \<Rightarrow> row_at am_name (sd_advisories db') name = row_at am_name (sd_advisories db) name
       | Some e \<Rightarrow> (case vmaas_data2_advisory tp name e severities types of
             Inl err \<Rightarrow> False
           | Inr None \<Rightarrow> row_at am_name (sd_advisories db') name = row_at am_name (sd_advisories db) name
           | Inr (Some a) \<Rightarrow> (\<exists>i. row_at am_name (sd_advisories db') name = Some (advisory_set_id i a)
               \<and> (\<forall>r. row_at am_name (sd_advisories db) name = Some r \<longrightarrow> i = am_id r)))))"
proof -
  obtain types severities as where m: "maps_loaded faults db types severities" and as: "parse_loop tp severities types data = Inr as"
    using run by (auto simp: store_advisories_def parse_advisories_def maps_loaded_def split: sum.splits)
  have parsed: "parse_advisories tp faults db data = Inr as" using m as by (simp add: parse_advisories_def maps_loaded_def)
  note at = parse_loop_at [OF as data]
  let ?ids = "ids_by_key am_name am_id (if faults AdvisoriesLookup then []
      else filter (\<lambda>r. am_name r \<in> am_name ` set as) (sd_advisories db))"
  obtain us ss where split: "split_stored am_name advisory_set_id ?ids as = (us, ss)" by fastforce
  obtain failed rows1 where u: "update_loop am_id advisory_overlay (\<lambda>i. faults (AdvisoryUpdate i)) us False (sd_advisories db)
      = (failed, rows1)" by fastforce
  obtain rows2 next2 where i: "insert_on_conflict_update am_name advisory_overlay advisory_set_id ss
      (rows1, sd_next_advisory db) = (rows2, next2)" by fastforce
  have st: "table_ok am_name am_id (sd_advisories db') (sd_next_advisory db')
    \<and> (case row_at am_name as name of
        None \<Rightarrow> row_at am_name (sd_advisories db') name = row_at am_name (sd_advisories db) name
      | Some n \<Rightarrow> (case row_at am_name (sd_advisories db) name of
            Some r \<Rightarrow> row_at am_name (sd_advisories db') name = Some (advisory_overlay n r)
          | None \<Rightarrow> \<exists>i. row_at am_name (sd_advisories db') name = Some (advisory_set_id i n)))" for name
  proof (cases "as = []")
    case True
    then show ?thesis using run ok parsed by (simp add: store_advisories_def)
  next
    case False
    have db': "sd_advisories db' = rows2" "sd_next_advisory db' = next2"
      using run False parsed split u i by (auto simp: store_advisories_def Let_def split: if_splits)
    show ?thesis
      unfolding db' using advisory_rows.stored_rows [OF ok conjunct1 [OF at] refl split upd u i, of name] by blast
  qed
  have "case gm_get data name of
         None \<Rightarrow> row_at am_name (sd_advisories db') name = row_at am_name (sd_advisories db) name
       | Some e \<Rightarrow> (case vmaas_data2_advisory tp name e severities types of
             Inl err \<Rightarrow> False
           | Inr None \<Rightarrow> row_at am_name (sd_advisories db') name = row_at am_name (sd_advisories db) name
           | Inr (Some a) \<Rightarrow> (\<exists>i. row_at am_name (sd_advisories db') name = Some (advisory_set_id i a)
               \<and> (\<forall>r. row_at am_name (sd_advisories db) name = Some r \<longrightarrow> i = am_id r)))" for name
  proof (cases "row_at am_name as name")
    case None
    then show ?thesis using st [of name] at [of name] by (auto split: option.splits)
  next
    case (Some a)
    then obtain e where e: "gm_get data name = Some e" "vmaas_data2_advisory tp name e severities types = Inr (Some a)"
      using at [of name] by (auto split: option.splits)
    have "advisory_overlay a r = advisory_set_id (am_id r) a" if "row_at am_name (sd_advisories db) name = Some r" for r
      using advisory_name [OF e(2)] row_at_SomeD [OF that] by (simp add: advisory_overlay_set)
    then show ?thesis using st [of name] Some e by (auto split: option.splits)
  qed
  then show ?thesis using m st by blast
qed

section \<open>Packages\<close>

lemma parsed_names:
  "fst ` set (fold (\<lambda>it m. case parsed_item it of None \<Rightarrow> m | Some n \<Rightarrow> gm_put (nv_name n) (f it) m) items m)
    = fst ` set m \<union> {nv_name n | n it. it \<in> set items \<and> parsed_item it = Some n}"
  by (induction items arbitrary: m) (auto simp: dom_update split: option.splits)

lemma del_keys: "fst ` set (gm_del k m) = fst ` set m - {k}"
  by (induction m) auto

lemma removed_names: "fst ` set (fold (\<lambda>r m. gm_del (f r) m) rs m) = fst ` set m - f ` set rs"
  by (induction rs arbitrary: m) (auto simp: del_keys)

lemma insert_names_spec:
  "insert_names ns (rows, next_id) = (rows', next') \<Longrightarrow> table_ok nr_name nr_id rows next_id \<Longrightarrow>
     table_ok nr_name nr_id rows' next' \<and> set rows \<subseteq> set rows' \<and> nr_name ` set rows' = nr_name ` set rows \<union> fst ` set ns"
proof (induction ns arbitrary: rows next_id)
  case (Cons x ns)
  obtain n s where x: "x = (n, s)" by (cases x)
  let ?rows = "if n \<in> nr_name ` set rows then rows else rows @ [\<lparr>nr_id = next_id, nr_name = n, nr_summary = s\<rparr>]"
  have step: "insert_names ns (?rows, next_id + 1) = (rows', next')" using Cons.prems(1) x by (simp add: if_distrib)
  have "table_ok nr_name nr_id ?rows (next_id + 1)"
    using Cons.prems(2) by (auto simp: table_ok_def)
  from Cons.IH [OF step this] show ?case using x by (auto split: if_splits)
qed simp

text \<open>After the names of a page are stored, the map knows every name on the page.\<close>

lemma names_stored:
  assumes run: "store_package_names faults items db = (Inr ids, db')" and ok: "table_ok nr_name nr_id (sd_names db) (sd_next_name db)"
  shows "table_ok nr_name nr_id (sd_names db') (sd_next_name db') \<and> set (sd_names db) \<subseteq> set (sd_names db')
    \<and> sd_strings db' = sd_strings db \<and> sd_packages db' = sd_packages db \<and> sd_next_package db' = sd_next_package db
    \<and> (\<forall>it\<in>set items. \<forall>n. parsed_item it = Some n \<longrightarrow>
         (\<exists>r\<in>set (sd_names db'). nr_name r = nv_name n \<and> gm_get ids (nv_name n) = Some (nr_id r)))"
proof -
  obtain arr models where g: "get_package_arrays faults db items = (arr, models)" by fastforce
  obtain rows next' where i: "(if models = [] then (sd_names db, sd_next_name db)
      else insert_names models (sd_names db, sd_next_name db)) = (rows, next')" by fastforce
  have i': "insert_names models (sd_names db, sd_next_name db) = (rows, next')" using i by (cases models) auto
  note spec = insert_names_spec [OF i' ok]
  have db': "db' = db\<lparr>sd_names := rows, sd_next_name := next'\<rparr>"
    and ids: "ids = ids_by_key nr_name nr_id (filter (\<lambda>r. nr_name r \<in> set arr) rows)"
    using run g i by (auto simp: store_package_names_def get_package_name_map_def ids_by_key_def Let_def split: if_splits sum.splits)
  have arr: "set arr = {nv_name n | n it. it \<in> set items \<and> parsed_item it = Some n}"
  proof -
    have "arr = map fst (fold (\<lambda>it m. case parsed_item it of None \<Rightarrow> m | Some n \<Rightarrow> gm_put (nv_name n) (pi_summary it) m) items [])"
      using g by (simp add: get_package_arrays_def Let_def)
    then show ?thesis using parsed_names [of pi_summary items "[]"] by simp
  qed
  have sub: "set arr \<subseteq> fst ` set models \<union> nr_name ` set (sd_names db)"
  proof -
    define m where "m = fold (\<lambda>it m. case parsed_item it of None \<Rightarrow> m | Some n \<Rightarrow> gm_put (nv_name n) (pi_summary it) m) items []"
    define ex where "ex = (if faults NamesLookup then [] else filter (\<lambda>r. nr_name r \<in> set arr) (sd_names db))"
    have a: "arr = map fst m" using g by (simp add: get_package_arrays_def Let_def m_def)
    have "models = map (\<lambda>(n, s). (n, empty_ptr_to_nil (Some s))) (fold (\<lambda>r m. gm_del (nr_name r) m) ex m)"
      using g by (auto simp: get_package_arrays_def Let_def m_def [symmetric] ex_def a)
    then have "fst ` set models = fst ` set (fold (\<lambda>r m. gm_del (nr_name r) m) ex m)"
      by (simp add: image_image case_prod_beta)
    then have "fst ` set models = fst ` set m - nr_name ` set ex" by (simp only: removed_names)
    moreover have "nr_name ` set ex \<subseteq> nr_name ` set (sd_names db)" by (auto simp: ex_def)
    ultimately show ?thesis using a by auto
  qed
  have "nr_name ` set rows = nr_name ` set (sd_names db) \<union> fst ` set models" using spec by simp
  with sub have all: "set arr \<subseteq> nr_name ` set rows" by (simp add: Un_commute)
  have d: "distinct (map nr_name rows)" using spec by (simp add: table_ok_def)
  have "\<exists>r\<in>set rows. nr_name r = nv_name n \<and> gm_get ids (nv_name n) = Some (nr_id r)"
    if "it \<in> set items" "parsed_item it = Some n" for it n
  proof -
    have n: "nv_name n \<in> set arr" using that arr by blast
    then obtain r where r: "r \<in> set rows" "nr_name r = nv_name n" using all by auto
    then have "row_at nr_name rows (nv_name n) = Some r" using d by (simp add: row_at_mem)
    then show ?thesis using n r d by (auto simp: ids ids_by_key_get row_at_filter distinct_map_filter)
  qed
  then show ?thesis using spec db' by simp
qed

lemma collect_new:
  "p \<in> set (collect_packages get its seen) \<Longrightarrow> package_key p \<notin> set seen \<and> (\<exists>it\<in>set its. get it = Some p)"
  by (induction get its seen rule: collect_packages.induct) (auto split: option.splits if_splits)

lemma collect_distinct: "distinct (map package_key (collect_packages get its seen))"
  by (induction get its seen rule: collect_packages.induct) (auto split: option.splits dest: collect_new)

lemma collect_all:
  "it \<in> set its \<Longrightarrow> get it = Some p \<Longrightarrow>
     package_key p \<in> set seen \<or> package_key p \<in> package_key ` set (collect_packages get its seen)"
  by (induction get its seen rule: collect_packages.induct) (auto split: option.splits if_splits)

text \<open>The texts behind the hashes.\<close>

definition texts_ok :: "(string \<Rightarrow> string) \<Rightarrow> sync_db \<Rightarrow> bool" where
  "texts_ok sha256 db \<longleftrightarrow> (\<forall>(h, v)\<in>set (sd_strings db). h = sha256 v)"

definition has_text :: "(string \<Rightarrow> string) \<Rightarrow> sync_db \<Rightarrow> string \<Rightarrow> bool" where
  "has_text sha256 db t \<longleftrightarrow> (\<exists>v. gm_get (sd_strings db) (sha256 t) = Some v \<and> sha256 v = sha256 t)"

lemma string_map_spec:
  "(\<forall>(h, v)\<in>set m. h = sha v) \<Longrightarrow>
   (\<forall>(h, v)\<in>set (fold (\<lambda>it m. gm_put (sha (f it)) (f it) (gm_put (sha (g it)) (g it) m)) items m). h = sha v)
 \<and> fst ` set (fold (\<lambda>it m. gm_put (sha (f it)) (f it) (gm_put (sha (g it)) (g it) m)) items m)
    = fst ` set m \<union> (\<lambda>it. sha (f it)) ` set items \<union> (\<lambda>it. sha (g it)) ` set items"
proof (induction items arbitrary: m)
  case (Cons it items)
  have put: "\<forall>(h, v)\<in>set (gm_put (sha t) t m). h = sha v" if "\<forall>(h, v)\<in>set m. h = sha v" for t m
    using that by (induction m) auto
  show ?case using Cons.IH [OF put [OF put [OF Cons.prems]]] by (auto simp: dom_update)
qed simp

lemma missing_only_spec:
  "(\<forall>(h, v)\<in>set m. h = sha v) \<Longrightarrow> (\<forall>(h, v)\<in>set xs. h = sha v) \<Longrightarrow>
   (\<forall>(h, v)\<in>set (fold (\<lambda>(h, v) m. if gm_has m h then m else gm_put h v m) xs m). h = sha v)
 \<and> fst ` set (fold (\<lambda>(h, v) m. if gm_has m h then m else gm_put h v m) xs m) = fst ` set m \<union> fst ` set xs"
proof (induction xs arbitrary: m)
  case (Cons x xs)
  obtain h v where x: "x = (h, v)" by (cases x)
  have put: "\<forall>(h', v')\<in>set (gm_put h v m). h' = sha v'" using Cons.prems x by (induction m) auto
  have xs: "\<forall>(h, v)\<in>set xs. h = sha v" using Cons.prems(2) by simp
  show ?case
  proof (cases "gm_has m h")
    case True
    then have "h \<in> fst ` set m" by (simp add: map_of_eq_None_iff)
    then show ?thesis using Cons.IH [OF Cons.prems(1) xs] True x by (auto simp: insert_absorb)
  next
    case False
    then show ?thesis using Cons.IH [OF put xs] x by (simp add: dom_update)
  qed
qed simp

lemma strings_stored:
  assumes run: "store_strings sha256 faults items db = (None, db')" and ok: "texts_ok sha256 db"
    and empty: "\<forall>t. sha256 t = sha256 [] \<longrightarrow> t = []"
  shows "texts_ok sha256 db' \<and> sd_names db' = sd_names db \<and> sd_next_name db' = sd_next_name db
   \<and> sd_packages db' = sd_packages db \<and> sd_next_package db' = sd_next_package db
   \<and> (\<forall>it\<in>set items. \<forall>t\<in>{pi_summary it, pi_description it}. t \<noteq> [] \<longrightarrow> has_text sha256 db' t)"
proof -
  define m where "m = fold (\<lambda>it m. gm_put (sha256 (pi_summary it)) (pi_summary it)
        (gm_put (sha256 (pi_description it)) (pi_description it) m)) items []"
  have m: "\<forall>(h, v)\<in>set m. h = sha256 v" "fst ` set m = (\<lambda>it. sha256 (pi_summary it)) ` set items \<union> (\<lambda>it. sha256 (pi_description it)) ` set items"
    using string_map_spec [of "[]" sha256 pi_summary pi_description items] unfolding m_def by auto
  let ?xs = "filter (\<lambda>(h, v). v \<noteq> []) m"
  let ?new = "fold (\<lambda>(h, v) m. if gm_has m h then m else gm_put h v m) ?xs (sd_strings db)"
  have db': "db' = db\<lparr>sd_strings := ?new\<rparr>"
    using run by (auto simp: store_strings_def m_def [symmetric] Let_def split: if_splits)
  have new: "\<forall>(h, v)\<in>set ?new. h = sha256 v" "fst ` set ?new = fst ` set (sd_strings db) \<union> fst ` set ?xs"
    using missing_only_spec [of "sd_strings db" sha256 ?xs] ok m(1) by (auto simp: texts_ok_def)
  have "has_text sha256 db' t" if "it \<in> set items" "t \<in> {pi_summary it, pi_description it}" "t \<noteq> []" for it t
  proof -
    have "sha256 t \<in> fst ` set m" using that m(2) by auto
    then obtain v where v: "(sha256 t, v) \<in> set m" by auto
    then have "sha256 t = sha256 v" using m(1) by auto
    then have "v \<noteq> []" using empty that(3) by metis
    then have "(sha256 t, v) \<in> set ?xs" using v by simp
    then have "sha256 t \<in> fst ` set ?xs" by (rule image_eqI [rotated]) simp
    then have "sha256 t \<in> fst ` set ?new" unfolding new(2) by blast
    then have "gm_get ?new (sha256 t) \<noteq> None" unfolding map_of_eq_None_iff by blast
    then obtain v where v: "gm_get ?new (sha256 t) = Some v" by blast
    have "sha256 v = sha256 t" using bspec [OF new(1) map_of_SomeD [OF v]] by simp
    then show ?thesis using v db' by (auto simp: has_text_def)
  qed
  then show ?thesis using new(1) db' by (auto simp: texts_ok_def)
qed

text \<open>What a page leaves of one package: its name and its row, with the texts of one of its entries.\<close>

definition sync_ok :: "(string \<Rightarrow> string) \<Rightarrow> sync_db \<Rightarrow> bool" where
  "sync_ok sha256 db \<longleftrightarrow> table_ok nr_name nr_id (sd_names db) (sd_next_name db)
     \<and> table_ok package_key sk_id (sd_packages db) (sd_next_package db) \<and> texts_ok sha256 db"

definition same_package :: "nevra \<Rightarrow> nevra \<Rightarrow> bool" where
  "same_package n m \<longleftrightarrow> nv_name n = nv_name m \<and> evra_string n = evra_string m"

definition package_stored :: "(string \<Rightarrow> string) \<Rightarrow> sync_db \<Rightarrow> nevra \<Rightarrow> pkg_item \<Rightarrow> stored_package \<Rightarrow> bool" where
  "package_stored sha256 db n it p \<longleftrightarrow>
     p \<in> set (sd_packages db) \<and> sk_evra p = evra_string n
   \<and> (\<exists>r\<in>set (sd_names db). nr_id r = sk_name_id p \<and> nr_name r = nv_name n)
   \<and> sk_summary p = string_ptr2_hash sha256 (Some (pi_summary it))
   \<and> sk_description p = string_ptr2_hash sha256 (Some (pi_description it))
   \<and> (pi_summary it \<noteq> [] \<longrightarrow> has_text sha256 db (pi_summary it))
   \<and> (pi_description it \<noteq> [] \<longrightarrow> has_text sha256 db (pi_description it))"

lemma details_stored:
  assumes run: "store_or_update faults pkgs db = (None, db')" and d: "distinct (map package_key pkgs)"
    and ok: "table_ok package_key sk_id (sd_packages db) (sd_next_package db)" and upd: "\<forall>i. \<not> faults (PackageUpdate i)"
  shows "table_ok package_key sk_id (sd_packages db') (sd_next_package db')
    \<and> sd_strings db' = sd_strings db \<and> sd_names db' = sd_names db \<and> sd_next_name db' = sd_next_name db
    \<and> (case row_at package_key pkgs k of
        None \<Rightarrow> row_at package_key (sd_packages db') k = row_at package_key (sd_packages db) k
      | Some n \<Rightarrow> (case row_at package_key (sd_packages db) k of
            Some r \<Rightarrow> row_at package_key (sd_packages db') k = Some (package_overlay n r)
          | None \<Rightarrow> \<exists>i. row_at package_key (sd_packages db') k = Some (package_set_id i n)))"
proof -
  let ?ids = "ids_by_key package_key sk_id (if faults PackagesLookup then []
      else filter (\<lambda>r. package_key r \<in> package_key ` set pkgs) (sd_packages db))"
  obtain us ss where split: "split_stored package_key package_set_id ?ids pkgs = (us, ss)" by fastforce
  obtain failed rows1 where u: "update_loop sk_id package_overlay (\<lambda>i. faults (PackageUpdate i)) us False (sd_packages db)
      = (failed, rows1)" by fastforce
  obtain rows2 next2 where i: "insert_on_conflict_update package_key package_overlay package_set_id ss
      (rows1, sd_next_package db) = (rows2, next2)" by fastforce
  note st = package_rows.stored_rows [OF ok d refl split upd u i, of k]
  have db': "sd_packages db' = rows2" "sd_next_package db' = next2" "sd_strings db' = sd_strings db \<and> sd_names db' = sd_names db \<and> sd_next_name db' = sd_next_name db"
    using run split u i by (auto simp: store_or_update_def Let_def split: if_splits)
  show ?thesis using st db'(3) unfolding db'(1,2) by blast
qed

lemma summary_keeps:
  "update_package_name_summary faults ids db = (None, db') \<Longrightarrow>
     map nr_name (sd_names db') = map nr_name (sd_names db) \<and> map nr_id (sd_names db') = map nr_id (sd_names db)
   \<and> sd_next_name db' = sd_next_name db \<and> sd_packages db' = sd_packages db \<and> sd_next_package db' = sd_next_package db
   \<and> sd_strings db' = sd_strings db"
  by (auto simp: update_package_name_summary_def split: if_splits option.splits)

lemma table_ok_alt: "table_ok key rid rows n \<longleftrightarrow>
    distinct (map key rows) \<and> distinct (map rid rows) \<and> (\<forall>i\<in>set (map rid rows). i < n)"
  by (simp add: table_ok_def)

lemma table_ok_maps:
  "map key rows' = map key rows \<Longrightarrow> map rid rows' = map rid rows \<Longrightarrow> table_ok key rid rows' n = table_ok key rid rows n"
  by (simp only: table_ok_alt)

lemma maps_pair:
  assumes "map f xs = map f ys" "map g xs = map g ys" "y \<in> set ys"
  shows "\<exists>x\<in>set xs. f x = f y \<and> g x = g y"
proof -
  obtain i where i: "i < length ys" "ys ! i = y" using assms(3) by (auto simp: in_set_conv_nth)
  have "length xs = length ys" using assms(1) by (rule map_eq_imp_length_eq)
  then have "f (xs ! i) = f y" "g (xs ! i) = g y"
    using i arg_cong [OF assms(1), of "\<lambda>l. l ! i"] arg_cong [OF assms(2), of "\<lambda>l. l ! i"] by simp_all
  then show ?thesis using i \<open>length xs = length ys\<close> by (metis nth_mem)
qed

lemma listed_entry:
  assumes names: "table_ok nr_name nr_id names next_id"
    and ids: "\<forall>it\<in>set items. \<forall>n. parsed_item it = Some n \<longrightarrow>
      (\<exists>r\<in>set names. nr_name r = nv_name n \<and> gm_get ids (nv_name n) = Some (nr_id r))"
    and it: "it \<in> set items" "parsed_item it = Some n"
  shows "\<exists>q r. \<exists>it'\<in>set items. \<exists>n'.
      row_at package_key (collect_packages (get_package_from_item sha256 ids) items []) (nr_id r, evra_string n) = Some q
    \<and> r \<in> set names \<and> nr_name r = nv_name n \<and> parsed_item it' = Some n' \<and> same_package n' n
    \<and> get_package_from_item sha256 ids it' = Some q \<and> package_key q = (nr_id r, evra_string n)"
proof -
  let ?get = "get_package_from_item sha256 ids"
  obtain r where r: "r \<in> set names" "nr_name r = nv_name n" "gm_get ids (nv_name n) = Some (nr_id r)" using ids it by blast
  obtain p where p: "?get it = Some p" "package_key p = (nr_id r, evra_string n)"
    using it(2) r(3) by (simp add: get_package_from_item_def package_key_def)
  have "(nr_id r, evra_string n) \<in> package_key ` set (collect_packages ?get items [])"
    using collect_all [of it items ?get p "[]"] it(1) p by simp
  then obtain q where at: "row_at package_key (collect_packages ?get items []) (nr_id r, evra_string n) = Some q"
    using row_at_None [of package_key "collect_packages ?get items []" "(nr_id r, evra_string n)"]
    by (cases "row_at package_key (collect_packages ?get items []) (nr_id r, evra_string n)") simp_all
  then have q: "q \<in> set (collect_packages ?get items [])" "package_key q = (nr_id r, evra_string n)"
    using row_at_SomeD by fastforce+
  then obtain it' where it': "it' \<in> set items" "?get it' = Some q" using collect_new by blast
  then obtain n' where n': "parsed_item it' = Some n'" by (cases "parsed_item it'") (auto simp: get_package_from_item_def)
  obtain r' where r': "r' \<in> set names" "nr_name r' = nv_name n'" "gm_get ids (nv_name n') = Some (nr_id r')"
    using ids it'(1) n' by blast
  have same: "nr_id r' = nr_id r" "evra_string n' = evra_string n"
    using it'(2) n' r'(3) q(2) by (auto simp: get_package_from_item_def package_key_def)
  have inj: "inj_on nr_id (set names)" using names by (simp add: table_ok_def distinct_map)
  have "r' = r" by (rule inj_onD [OF inj same(1) r'(1) r(1)])
  then have "same_package n' n" using r(2) r'(2) same(2) by (simp add: same_package_def)
  then show ?thesis using at r it' n' q(2) by blast
qed

text \<open>C17.  When a page of packages is stored and no update statement fails, every entry with a readable
  NEVRA has exactly one package row under its name and EVRA, with the summary and description of one of
  the page's entries for that package, both found among the texts; packages that are not on the page
  are untouched and all tables stay well-formed.  The mark \<open>synced\<close> is set on new rows only: a package
  the evaluator had added keeps it unset although VMaaS now lists it.\<close>

theorem package_page_stored:
  assumes ok: "sync_ok sha256 db" and empty: "\<forall>t. sha256 t = sha256 [] \<longrightarrow> t = []"
    and upd: "\<forall>i. \<not> faults (PackageUpdate i)" and run: "store_pkg_list_data sha256 faults items db = (None, db')"
  shows "sync_ok sha256 db'
   \<and> (\<forall>it\<in>set items. \<forall>n. parsed_item it = Some n \<longrightarrow>
        (\<exists>p. \<exists>it'\<in>set items. \<exists>n'. parsed_item it' = Some n' \<and> same_package n' n \<and> package_stored sha256 db' n it' p
          \<and> (sk_synced p \<longleftrightarrow> (case row_at package_key (sd_packages db) (package_key p) of None \<Rightarrow> True | Some r \<Rightarrow> sk_synced r))))
   \<and> (\<forall>p\<in>set (sd_packages db). p \<in> set (sd_packages db')
        \<or> (\<exists>it\<in>set items. \<exists>n. parsed_item it = Some n \<and> sk_evra p = evra_string n
             \<and> (\<exists>r\<in>set (sd_names db'). nr_id r = sk_name_id p \<and> nr_name r = nv_name n)))"
proof -
  obtain db1 db2 db3 ids where s1: "store_strings sha256 faults items db = (None, db1)"
    and s2: "store_package_names faults items db1 = (Inr ids, db2)"
    and s3: "store_package_details sha256 faults ids items db2 = (None, db3)"
    and s4: "update_package_name_summary faults ids db3 = (None, db')"
    using run by (auto simp: store_pkg_list_data_def split: prod.splits option.splits sum.splits)
  note o = ok [unfolded sync_ok_def]
  have st: "texts_ok sha256 db1" "sd_names db1 = sd_names db" "sd_next_name db1 = sd_next_name db"
      "sd_packages db1 = sd_packages db" "sd_next_package db1 = sd_next_package db"
      "\<forall>it\<in>set items. \<forall>t\<in>{pi_summary it, pi_description it}. t \<noteq> [] \<longrightarrow> has_text sha256 db1 t"
    using strings_stored [OF s1 _ empty] o by blast+
  have nm: "table_ok nr_name nr_id (sd_names db2) (sd_next_name db2)" "sd_strings db2 = sd_strings db1"
      "sd_packages db2 = sd_packages db" "sd_next_package db2 = sd_next_package db"
      "\<forall>it\<in>set items. \<forall>n. parsed_item it = Some n \<longrightarrow>
         (\<exists>r\<in>set (sd_names db2). nr_name r = nv_name n \<and> gm_get ids (nv_name n) = Some (nr_id r))"
    using names_stored [OF s2] o st by auto
  let ?get = "get_package_from_item sha256 ids"
  let ?pkgs = "collect_packages ?get items []"
  have pk: "table_ok package_key sk_id (sd_packages db3) (sd_next_package db3)" "sd_strings db3 = sd_strings db1"
      "sd_names db3 = sd_names db2" "sd_next_name db3 = sd_next_name db2"
    and at: "case row_at package_key ?pkgs k of
        None \<Rightarrow> row_at package_key (sd_packages db3) k = row_at package_key (sd_packages db) k
      | Some n \<Rightarrow> (case row_at package_key (sd_packages db) k of
            Some r \<Rightarrow> row_at package_key (sd_packages db3) k = Some (package_overlay n r)
          | None \<Rightarrow> \<exists>i. row_at package_key (sd_packages db3) k = Some (package_set_id i n))" for k
    using details_stored [OF s3 [unfolded store_package_details_def] collect_distinct _ upd, unfolded nm(3,4)] o nm(2) by auto
  note sm = summary_keeps [OF s4]
  have ok': "sync_ok sha256 db'"
    using sm st(1) nm(1) pk table_ok_maps [of nr_name "sd_names db'" "sd_names db3" nr_id "sd_next_name db3"]
    by (simp add: sync_ok_def texts_ok_def)
  have strings: "sd_strings db' = sd_strings db1" and rows: "sd_packages db' = sd_packages db3" using sm pk(2) by simp_all
  have name_row: "\<exists>r'\<in>set (sd_names db'). nr_id r' = nr_id r \<and> nr_name r' = nr_name r" if "r \<in> set (sd_names db2)" for r
    using maps_pair [of nr_id "sd_names db'" "sd_names db3" nr_name r] sm that pk(3) by simp
  have entry: "\<exists>p. \<exists>it'\<in>set items. \<exists>n'. parsed_item it' = Some n' \<and> same_package n' n \<and> package_stored sha256 db' n it' p
      \<and> (sk_synced p \<longleftrightarrow> (case row_at package_key (sd_packages db) (package_key p) of None \<Rightarrow> True | Some r \<Rightarrow> sk_synced r))"
    if it: "it \<in> set items" "parsed_item it = Some n" for it n
  proof -
    obtain q r it' n' where e: "it' \<in> set items" "row_at package_key ?pkgs (nr_id r, evra_string n) = Some q"
        "r \<in> set (sd_names db2)" "nr_name r = nv_name n" "parsed_item it' = Some n'" "same_package n' n"
        "?get it' = Some q" "package_key q = (nr_id r, evra_string n)"
      using listed_entry [OF nm(1,5) it, of sha256] by blast
    have q: "sk_summary q = string_ptr2_hash sha256 (Some (pi_summary it'))" "sk_synced q"
        "sk_description q = string_ptr2_hash sha256 (Some (pi_description it'))"
      using e(5,7) by (auto simp: get_package_from_item_def)
    obtain p where p: "row_at package_key (sd_packages db3) (nr_id r, evra_string n) = Some p"
      and cols: "sk_summary p = sk_summary q" "sk_description p = sk_description q"
        "sk_synced p \<longleftrightarrow> (case row_at package_key (sd_packages db) (nr_id r, evra_string n) of None \<Rightarrow> True | Some r \<Rightarrow> sk_synced r)"
      using at [of "(nr_id r, evra_string n)"] e(2) q(2)
      by (auto simp: package_overlay_def package_set_id_def split: option.splits)
    have "p \<in> set (sd_packages db')" "package_key p = (nr_id r, evra_string n)" using row_at_SomeD [OF p] rows by auto
    moreover have "has_text sha256 db' t" if "t \<in> {pi_summary it', pi_description it'}" "t \<noteq> []" for t
      using st(6) e(1) that strings by (auto simp: has_text_def)
    ultimately have "package_stored sha256 db' n it' p"
      using name_row [OF e(3)] e(4) q cols by (simp add: package_stored_def package_key_def)
    then show ?thesis using e(1,5,6) cols(3) \<open>package_key p = (nr_id r, evra_string n)\<close> by metis
  qed
  have others: "p \<in> set (sd_packages db') \<or> (\<exists>it\<in>set items. \<exists>n. parsed_item it = Some n \<and> sk_evra p = evra_string n
      \<and> (\<exists>r\<in>set (sd_names db'). nr_id r = sk_name_id p \<and> nr_name r = nv_name n))" if "p \<in> set (sd_packages db)" for p
  proof (cases "row_at package_key ?pkgs (package_key p)")
    case None
    have "row_at package_key (sd_packages db) (package_key p) = Some p" using that o by (simp add: row_at_mem table_ok_def)
    then have "row_at package_key (sd_packages db3) (package_key p) = Some p" using at [of "package_key p"] None by simp
    then show ?thesis using rows by (auto dest: row_at_SomeD)
  next
    case (Some q)
    then obtain it where it: "it \<in> set items" "?get it = Some q" "package_key q = package_key p"
      using collect_new [of q ?get items "[]"] row_at_SomeD [OF Some] by auto
    then obtain n where n: "parsed_item it = Some n" by (cases "parsed_item it") (auto simp: get_package_from_item_def)
    obtain r where r: "r \<in> set (sd_names db2)" "nr_name r = nv_name n" "gm_get ids (nv_name n) = Some (nr_id r)"
      using nm(5) it(1) n by blast
    have "sk_evra p = evra_string n" "sk_name_id p = nr_id r"
      using it(2,3) n r(3) by (auto simp: get_package_from_item_def package_key_def)
    then show ?thesis using it(1) n name_row [OF r(1)] r(2) by auto
  qed
  show ?thesis using ok' entry others by blast
qed

section \<open>Concrete pages\<close>

definition sync_sample :: sync_db where
  "sync_sample = \<lparr>sd_strings = [], sd_names = [\<lparr>nr_id = 1, nr_name = ''bash'', nr_summary = None\<rparr>], sd_next_name = 2,
     sd_packages = [\<lparr>sk_id = 7, sk_name_id = 1, sk_evra = ''5.1-2.x86_64'', sk_description = None, sk_summary = None,
       sk_advisory = None, sk_synced = False\<rparr>], sd_next_package = 8,
     sd_advisories = [zero_advisory\<lparr>am_id := 3, am_name := ''RHSA-1''\<rparr>], sd_next_advisory = 4,
     sd_types = [(''unknown'', 0), (''Enhancement'', 1), (''security'', 3)], sd_severities = [(''Low'', 1)],
     sd_repos = [\<lparr>rp_id = 1, rp_name = ''epel'', rp_third_party = False\<rparr>, \<lparr>rp_id = 2, rp_name = ''baseos'', rp_third_party = False\<rparr>],
     sd_kv = [], sd_accounts = [], sd_inventory = [], sd_system_repo = [], sd_system_packages = []\<rparr>"

definition sample_items :: "pkg_item list" where
  "sample_items = [\<lparr>pi_nevra = ''bash-5.1-2.x86_64'', pi_summary = ''shell'', pi_description = ''a shell''\<rparr>]"

definition sample_erratum :: "string \<Rightarrow> erratum" where
  "sample_erratum summary = \<lparr>er_updated = ''u'', er_severity = ''low'', er_issued = ''i'', er_description = ''d'', er_solution = Some [],
     er_summary = summary, er_url = None, er_synopsis = ''s'', er_cve_list = [], er_package_list = [], er_type = ''newpackage'',
     er_requires_reboot = False, er_release_versions = []\<rparr>"

definition sample_times :: time_parsers where
  "sample_times = \<lparr>tp_no_tz = (\<lambda>t. if t = ''u'' then Some 5 else None), tp_rfc3339 = (\<lambda>t. if t = ''i'' then Some 4 else None)\<rparr>"

theorem package_page_stored_witness:
  "\<exists>db' p n. store_pkg_list_data (\<lambda>t. t) (\<lambda>x. False) sample_items sync_sample = (None, db') \<and> sync_ok (\<lambda>t. t) db'
     \<and> parsed_item (hd sample_items) = Some n \<and> package_stored (\<lambda>t. t) db' n (hd sample_items) p"
proof -
  have "fst (store_pkg_list_data (\<lambda>t. t) (\<lambda>x. False) sample_items sync_sample) = None" by code_simp
  then obtain db' where run: "store_pkg_list_data (\<lambda>t. t) (\<lambda>x. False) sample_items sync_sample = (None, db')"
    by (cases "store_pkg_list_data (\<lambda>t. t) (\<lambda>x. False) sample_items sync_sample") simp
  have ok: "sync_ok (\<lambda>t. t) sync_sample"
    by (simp add: sync_ok_def table_ok_def texts_ok_def sync_sample_def)
  have "parsed_item (hd sample_items) \<noteq> None" by code_simp
  then obtain n where n: "parsed_item (hd sample_items) = Some n" by blast
  have it: "set sample_items = {hd sample_items}" by (simp add: sample_items_def)
  show ?thesis
    using package_page_stored [OF ok _ _ run] run n unfolding it by fastforce
qed

theorem errata_page_stored_witness:
  "\<exists>db' i a. store_advisories sample_times (\<lambda>x. False) [(''RHSA-1'', sample_erratum ''new'')] sync_sample = (None, db')
     \<and> row_at am_name (sd_advisories db') ''RHSA-1'' = Some (advisory_set_id i a) \<and> i = 3 \<and> am_summary a = ''new'' \<and> am_type_id a = 1"
proof -
  let ?run = "store_advisories sample_times (\<lambda>x. False) [(''RHSA-1'', sample_erratum ''new'')] sync_sample"
  have "fst ?run = None" by code_simp
  then obtain db' where run: "?run = (None, db')" by (cases ?run) simp
  have ok: "table_ok am_name am_id (sd_advisories sync_sample) (sd_next_advisory sync_sample)"
    by (simp add: table_ok_def sync_sample_def)
  have "get_id_maps (\<lambda>x. False) sync_sample = Inr ([(''unknown'', 0), (''enhancement'', 1), (''security'', 3), (''newpackage'', 1)], [(''low'', 1)])"
    by code_simp
  moreover have "\<exists>a. vmaas_data2_advisory sample_times ''RHSA-1'' (sample_erratum ''new'') [(''low'', 1)]
      [(''unknown'', 0), (''enhancement'', 1), (''security'', 3), (''newpackage'', 1)] = Inr (Some a)
      \<and> am_summary a = ''new'' \<and> am_type_id a = 1"
  proof -
    have "case vmaas_data2_advisory sample_times ''RHSA-1'' (sample_erratum ''new'') [(''low'', 1)]
        [(''unknown'', 0), (''enhancement'', 1), (''security'', 3), (''newpackage'', 1)] of
        Inr (Some a) \<Rightarrow> am_summary a = ''new'' \<and> am_type_id a = 1 | _ \<Rightarrow> False" by code_simp
    then show ?thesis by (auto split: sum.splits option.splits)
  qed
  moreover have "row_at am_name (sd_advisories sync_sample) ''RHSA-1'' = Some (zero_advisory\<lparr>am_id := 3, am_name := ''RHSA-1''\<rparr>)"
    by (simp add: sync_sample_def)
  ultimately show ?thesis
    using errata_page_stored [OF ok _ _ run] run by (auto simp: maps_loaded_def dest!: spec [of _ "''RHSA-1''"])
qed

end
