(* ===== verification/SyncRunLaws.thy ===== *)
theory SyncRunLaws
  imports SyncRun SyncStoreLaws
begin

text \<open>
  When the loops of the synchronisation end, what they mark, and which changes it loses: packages of
  all but one entry of a content set and failures of VMaaS.
\<close>

section \<open>The page loops\<close>

lemma client_request_answer:
  "client_request e u d t out = (r, resp, None) \<Longrightarrow> r = out \<or> tr_decode t = Some (Some r)"
  by (auto simp: client_request_def Let_def split: if_splits prod.splits option.splits)

lemma vmaas_request_answer:
  "vmaas_request env exchange out net = (Inr r, net') \<Longrightarrow> r = out \<or> (\<exists>n. tr_decode (fst (exchange n)) = Some (Some r))"
proof -
  let ?f = "\<lambda>net. let (t, net) = exchange net in (client_request True True (sy_debug env) t out, net)"
  have "http_call_retry ?f [] budget attempt net = (Inr r, net') \<Longrightarrow> r = out \<or> (\<exists>n. tr_decode (fst (exchange n)) = Some (Some r))"
    for budget attempt net
  proof (induction budget arbitrary: attempt net)
    case (Suc budget)
    obtain x n1 where x: "?f net = (x, n1)" by (cases "?f net")
    obtain o1 resp err where "x = (o1, resp, err)" by (cases x)
    with x have f: "?f net = ((o1, resp, err), n1)" by simp
    then have c: "client_request True True (sy_debug env) (fst (exchange net)) out = (o1, resp, err)"
      by (auto simp: Let_def split: prod.splits)
    show ?case
    proof (cases err)
      case None
      then have "r = o1" using Suc.prems f by (simp add: status_code_found_def split: option.splits)
      then show ?thesis using client_request_answer [OF c [unfolded None]] by blast
    next
      case (Some e)
      then have "http_call_retry ?f [] budget (Suc attempt) n1 = (Inr r, net')"
        using Suc.prems f by (simp add: status_code_found_def split: option.splits)
      then show ?thesis by (rule Suc.IH)
    qed
  qed simp
  then show "vmaas_request env exchange out net = (Inr r, net') \<Longrightarrow> ?thesis" by (simp add: vmaas_request_def)
qed

lemma pages_loop_ends:
  assumes bounded: "\<And>page s pages. fst (process page s) = Inr pages \<Longrightarrow> pages \<le> bound"
  shows "m \<le> max bound page \<Longrightarrow> nat (max bound page + 2 - page) \<le> fuel \<Longrightarrow> \<exists>r. pages_loop process msg fuel page m s = Some r"
proof (induction fuel arbitrary: page m s)
  case 0
  then have "max bound page + 2 - page \<le> 0" by simp
  then show ?case by linarith
next
  case (Suc fuel)
  show ?case
  proof (cases "page \<le> m")
    case True
    obtain r s' where r: "process page s = (r, s')" by fastforce
    show ?thesis
    proof (cases r)
      case (Inr pages)
      then have b: "pages \<le> bound" using bounded [of page s pages] r by simp
      show ?thesis
      proof (cases "page < bound")
        case True
        then have "\<exists>x. pages_loop process msg fuel (page + 1) pages s' = Some x"
          using Suc.prems b by (intro Suc.IH) auto
        then show ?thesis using r Inr \<open>page \<le> m\<close> by simp
      next
        case False
        then have "pages \<le> page" using b by simp
        then have "fuel \<noteq> 0 \<Longrightarrow> pages_loop process msg fuel (page + 1) pages s' = Some (None, s')" by (cases fuel) simp_all
        moreover have "fuel \<noteq> 0" using Suc.prems(2) False by auto
        ultimately show ?thesis using r Inr \<open>page \<le> m\<close> by simp
      qed
    qed (simp add: True r)
  qed simp
qed

text \<open>C20.  The downloads of errata and of packages end, whatever the answers contain and whichever
  requests and statements fail, as long as no answer reports more than \<open>bound\<close> pages: then fuel for
  \<open>bound + 2\<close> rounds is enough.\<close>

theorem sync_pages_end:
  assumes bound: "1 \<le> bound"
    and errata: "\<forall>rq net r. tr_decode (fst (sy_errata env rq net)) = Some (Some r) \<longrightarrow> el_pages r \<le> bound"
    and packages: "\<forall>rq net r. tr_decode (fst (sy_pkg_list env rq net)) = Some (Some r) \<longrightarrow> pl_pages r \<le> bound"
  shows "\<exists>r r'. sync_advisories env (nat bound + 2) since s = Some r \<and> sync_packages env (nat bound + 2) since s = Some r'"
proof -
  have "\<exists>r. sync_advisories env (nat bound + 2) since s = Some r"
    unfolding sync_advisories_def
  proof (rule pages_loop_ends)
    fix page :: int and s pages
    assume "fst (download_and_process_erratas_page env since page s) = Inr pages"
    then show "pages \<le> bound"
      using bound errata by (auto simp: download_and_process_erratas_page_def vmaas_errata_request_def dest!: vmaas_request_answer
          split: prod.splits sum.splits option.splits)
  qed (use bound in simp_all)
  moreover have "\<exists>r. sync_packages env (nat bound + 2) since s = Some r"
    unfolding sync_packages_def
  proof (rule pages_loop_ends)
    fix page :: int and s pages
    assume "fst (download_and_process_pkg_list_page env since page s) = Inr pages"
    then show "pages \<le> bound"
      using bound packages by (auto simp: download_and_process_pkg_list_page_def vmaas_pkg_list_request_def dest!: vmaas_request_answer
          split: prod.splits sum.splits option.splits)
  qed (use bound in simp_all)
  ultimately show ?thesis by blast
qed

text \<open>C21.  The download of repositories has no such guarantee: once VMaaS reports fewer pages than have
  been read, and at least one, every further page is asked for and the loop never ends.\<close>

theorem repos_loop_runs_forever:
  assumes "\<forall>rq n. page \<le> rq_page rq \<longrightarrow> (\<exists>r n'. vmaas_request env (sy_repos env rq third_party)
      \<lparr>rr_pages = 0, rr_list = [], rr_latest_change = None\<rparr> n = (Inr r, n')
    \<and> 1 \<le> rr_pages r \<and> rr_pages r < page \<and> rr_latest_change r \<noteq> None)"
  shows "vmaas_repos_loop env since third_party fuel page repo_packages latest net = None"
proof -
  have "page \<le> p \<Longrightarrow> vmaas_repos_loop env since third_party fuel p m l n = None" for p m l n
  proof (induction fuel arbitrary: p m l n)
    case (Suc fuel)
    let ?rq = "\<lparr>rq_page = p, rq_page_size = sy_advisory_page_size env, rq_modified_since = since\<rparr>"
    obtain r n' where r: "vmaas_request env (sy_repos env ?rq third_party) \<lparr>rr_pages = 0, rr_list = [], rr_latest_change = None\<rparr> n = (Inr r, n')"
      "1 \<le> rr_pages r" "rr_pages r < page" "rr_latest_change r \<noteq> None" using assms Suc.prems by (metis page_request.select_convs(1))
    then obtain change where "rr_latest_change r = Some change" by blast
    moreover have "p \<noteq> rr_pages r" using r(3) Suc.prems by simp
    ultimately show ?case using r Suc.IH [of "p + 1"] Suc.prems by simp
  qed simp
  then show ?thesis by simp
qed

section \<open>Repositories\<close>

lemma content_set_get:
  "gm_get (content_set_loop k repos m) n
    = (if n = k \<and> repos \<noteq> [] then Some (get_repo_updated_packages (last repos)) else gm_get m n)"
  by (induction repos arbitrary: m) (auto simp: gomap)

lemma repository_list_get:
  "wf_gomap rs \<Longrightarrow> gm_get (repository_list_loop rs m) n = (case gm_get rs n of None \<Rightarrow> gm_get m n
     | Some content_set \<Rightarrow> Some (if content_set = [] then [] else get_repo_updated_packages (last content_set)))"
proof (induction rs arbitrary: m)
  case (Cons x rs)
  obtain k cs where x: "x = (k, cs)" by (cases x)
  have "gm_get rs k = None" using Cons.prems x by (simp add: map_of_eq_None_iff)
  then show ?case using Cons x by (cases "n = k") (auto simp: content_set_get gomap simp del: map_of_eq_Some_iff split: option.splits)
qed simp

lemma affected_loop_sets:
  "affected_loop m rs ps = (rs', ps') \<Longrightarrow> set rs' = set rs \<union> {r. \<exists>ns. (r, ns) \<in> set m \<and> ns \<noteq> []}
   \<and> set ps' = set ps \<union> {p. \<exists>r ns. (r, ns) \<in> set m \<and> p \<in> set ns}"
proof (induction m arbitrary: rs ps)
  case (Cons x m)
  obtain r ns where x: "x = (r, ns)" by (cases x)
  have "set (fold (\<lambda>n ps. if n \<in> set ps then ps else ps @ [n]) ns ps) = set ps \<union> set ns" for ps
    by (induction ns arbitrary: ps) auto
  moreover obtain rs1 ps1 where "affected_loop m rs1 ps1 = (rs', ps')"
      "set rs1 = (if ns = [] then set rs else insert r (set rs))" "set ps1 = set ps \<union> set ns"
    using Cons.prems x calculation by (cases "ns = []") auto
  ultimately show ?case using Cons.IH [of rs1 ps1] x by (auto split: if_splits)
qed simp

lemma mark_all: "mark_repos (\<lambda>n. n \<notin> S) True (mark_repos (\<lambda>n. n \<in> S) False db)
    = db\<lparr>sd_repos := map (\<lambda>r. r\<lparr>rp_third_party := rp_name r \<notin> S\<rparr>) (sd_repos db)\<rparr>"
  by (simp add: mark_repos_def)

text \<open>A repository synchronisation that succeeds leaves every repository marked as third-party
  exactly when VMaaS does not list it, and changes nothing else in the database; an empty list from
  VMaaS changes no repository at all.\<close>

theorem repos_marked:
  assumes "sync_repos env fuel s = Some (None, s')"
  shows "\<exists>repos net. get_updated_repos env fuel (ss_net s) = Some (Inr repos, net)
    \<and> s' = s\<lparr>ss_net := net, ss_db := (if repos = [] then ss_db s
        else (ss_db s)\<lparr>sd_repos := map (\<lambda>r. r\<lparr>rp_third_party := rp_name r \<notin> set repos\<rparr>) (sd_repos (ss_db s))\<rparr>)\<rparr>"
  using assms by (auto simp: sync_repos_def Let_def mark_all split: option.splits prod.splits sum.splits if_splits)

text \<open>C19.  Of the entries VMaaS sends for one repository (one for each architecture and release) only the
  last counts: the affected repositories are those whose last entry names an updated package, and the
  affected packages are the ones named there.  What the earlier entries name is forgotten, so systems
  that are affected by them only are not evaluated again.\<close>

theorem last_entry_counts:
  assumes answer: "vmaas_request env (sy_repos env \<lparr>rq_page = 1, rq_page_size = sy_advisory_page_size env,
        rq_modified_since = since\<rparr> True) \<lparr>rr_pages = 0, rr_list = [], rr_latest_change = None\<rparr> net = (Inr r, net')"
    and page: "rr_pages r = 1" "rr_latest_change r = Some change" and wf: "wf_gomap (rr_list r)" and fuel: "0 < fuel"
  shows "\<exists>repos packages. get_updated_repos_with_packages env fuel since net
        = Some ((repos, packages, Some (change + one_second), None), net')
    \<and> set repos = {k. \<exists>cs. gm_get (rr_list r) k = Some cs \<and> cs \<noteq> [] \<and> get_repo_updated_packages (last cs) \<noteq> []}
    \<and> set packages = {p. \<exists>k cs. gm_get (rr_list r) k = Some cs \<and> cs \<noteq> [] \<and> p \<in> set (get_repo_updated_packages (last cs))}"
proof -
  let ?m = "repository_list_loop (rr_list r) []"
  obtain repos packages where a: "affected_loop ?m [] [] = (repos, packages)" by fastforce
  have run: "get_updated_repos_with_packages env fuel since net
      = Some ((repos, packages, Some (change + one_second), None), net')"
    using answer page fuel a by (cases fuel) (simp_all add: get_updated_repos_with_packages_def get_vmaas_repos_def)
  have wf': "wf_gomap ?m"
  proof -
    have "wf_gomap m \<Longrightarrow> wf_gomap (content_set_loop k cs m)" for k cs m by (induction cs arbitrary: m) simp_all
    then have "wf_gomap m \<Longrightarrow> wf_gomap (repository_list_loop rs m)" for rs m by (induction rs arbitrary: m) auto
    then show ?thesis by simp
  qed
  have m: "(k, ns) \<in> set ?m \<longleftrightarrow> (\<exists>cs. gm_get (rr_list r) k = Some cs
      \<and> ns = (if cs = [] then [] else get_repo_updated_packages (last cs)))" for k ns
    unfolding gm_get_mem [OF wf', symmetric] repository_list_get [OF wf]
    by (cases "gm_get (rr_list r) k") (simp_all add: eq_commute [of _ ns])
  note sets = affected_loop_sets [OF a]
  have "set repos = {k. \<exists>cs. gm_get (rr_list r) k = Some cs \<and> cs \<noteq> [] \<and> get_repo_updated_packages (last cs) \<noteq> []}"
    using sets m by auto
  moreover have "p \<in> set packages \<longleftrightarrow> (\<exists>k cs. gm_get (rr_list r) k = Some cs \<and> cs \<noteq> []
      \<and> p \<in> set (get_repo_updated_packages (last cs)))" for p
  proof -
    have "p \<in> set packages \<longleftrightarrow> (\<exists>k ns. (k, ns) \<in> set ?m \<and> p \<in> set ns)" using sets by simp
    also have "\<dots> \<longleftrightarrow> (\<exists>k cs. gm_get (rr_list r) k = Some cs \<and> p \<in> set (if cs = [] then [] else get_repo_updated_packages (last cs)))"
      unfolding m by blast
    also have "\<dots> \<longleftrightarrow> (\<exists>k cs. gm_get (rr_list r) k = Some cs \<and> cs \<noteq> [] \<and> p \<in> set (get_repo_updated_packages (last cs)))"
    proof -
      have "p \<in> set (if cs = [] then [] else get_repo_updated_packages (last cs))
          \<longleftrightarrow> cs \<noteq> [] \<and> p \<in> set (get_repo_updated_packages (last cs))" for cs by simp
      then show ?thesis by presburger
    qed
    finally show ?thesis .
  qed
  then have "set packages = {p. \<exists>k cs. gm_get (rr_list r) k = Some cs \<and> cs \<noteq> []
      \<and> p \<in> set (get_repo_updated_packages (last cs))}" by blast
  ultimately show ?thesis using run by blast
qed

text \<open>C36.  When VMaaS cannot be reached, the search for systems to evaluate again reports success with no
  systems, just as when no repository has changed: the error is dropped because the missing time stamp
  is tested first.\<close>

theorem vmaas_failure_reads_as_no_change:
  assumes kv: "get_timestamp_kv (sy_faults env) last_eval_repo_based (ss_db s) = Inr last_eval"
    and failed: "get_vmaas_repos env fuel (map_option (sy_format_time env) last_eval) True (ss_net s) = Some (Inl e, net)"
  shows "get_current_repo_based_inventory_ids env fuel s = Some (Inr [], s\<lparr>ss_net := net\<rparr>)"
  using assms by (simp add: get_current_repo_based_inventory_ids_def get_updated_repos_with_packages_def)

section \<open>Concrete servers\<close>

definition vmaas_answer :: "'a \<Rightarrow> 'a transport" where
  "vmaas_answer v = \<lparr>tr_dump_request = True, tr_do = (Some 200, True), tr_dump_response = True, tr_decode = Some (Some v)\<rparr>"

definition vmaas_down :: "'a transport" where
  "vmaas_down = \<lparr>tr_dump_request = True, tr_do = (None, False), tr_dump_response = True, tr_decode = None\<rparr>"

definition sample_sync_env :: "(page_request \<Rightarrow> repos_response transport) \<Rightarrow> (unit, kafka_message list) sync_env" where
  "sample_sync_env repos = \<lparr>sy_faults = (\<lambda>x. False), sy_sha256 = (\<lambda>t. t), sy_times = sample_times, sy_format_time = (\<lambda>t. ''t''),
     sy_column = (\<lambda>t. t), sy_debug = False, sy_retries = 1, sy_errata = (\<lambda>rq n. (vmaas_answer \<lparr>el_pages = 1, el_errata = []\<rparr>, n)),
     sy_pkg_list = (\<lambda>rq n. (vmaas_answer \<lparr>pl_pages = 2, pl_packages = sample_items\<rparr>, n)), sy_repos = (\<lambda>rq tp n. (repos rq, n)),
     sy_db_change = (\<lambda>n. (vmaas_answer (Some 9), n)), sy_advisory_page_size = 500, sy_packages_page_size = 5,
     sy_modified_since_sync = True, sy_advisories_sync = True, sy_packages_sync = True, sy_repos_sync = True, sy_recalc_send = True,
     sy_repo_based = True, sy_full_sync_cadence = 168, sy_batch_size = 10, sy_shuffle = (\<lambda>x. x), sy_enc = (\<lambda>e. Some ''e''),
     sy_writer = append_writer\<rparr>"

definition sync_state_sample :: "(unit, kafka_message list) sync_state" where
  "sync_state_sample = \<lparr>ss_db = sync_sample, ss_net = (), ss_topic = []\<rparr>"

theorem sync_pages_end_witness:
  "\<exists>r r'. sync_advisories (sample_sync_env (\<lambda>rq. vmaas_down)) 4 None sync_state_sample = Some r
     \<and> sync_packages (sample_sync_env (\<lambda>rq. vmaas_down)) 4 None sync_state_sample = Some r'"
  using sync_pages_end [of 2 "sample_sync_env (\<lambda>rq. vmaas_down)" None sync_state_sample]
  by (simp add: sample_sync_env_def vmaas_answer_def)

definition shrinking_server :: "page_request \<Rightarrow> repos_response transport" where
  "shrinking_server rq = vmaas_answer \<lparr>rr_pages = (if rq_page rq = 1 then 3 else 1), rr_list = [], rr_latest_change = Some 0\<rparr>"

lemma vmaas_answered:
  "exchange net = (vmaas_answer r, net') \<Longrightarrow> 0 < sy_retries env \<Longrightarrow> vmaas_request env exchange out net = (Inr r, net')"
  by (cases "sy_retries env") (simp_all add: vmaas_request_def vmaas_answer_def client_request_def call_api_def
      try_get_status_code_def status_code_found_def)

theorem repos_loop_runs_forever_witness:
  "\<forall>fuel. get_vmaas_repos (sample_sync_env shrinking_server) fuel None True () = None"
proof
  fix fuel
  let ?env = "sample_sync_env shrinking_server" and ?none = "\<lparr>rr_pages = 0, rr_list = [], rr_latest_change = None\<rparr>"
  have a: "vmaas_request ?env (sy_repos ?env rq True) ?none n
      = (Inr \<lparr>rr_pages = (if rq_page rq = 1 then 3 else 1), rr_list = [], rr_latest_change = Some 0\<rparr>, n)" for rq n
    by (rule vmaas_answered) (simp_all add: sample_sync_env_def shrinking_server_def)
  have "vmaas_repos_loop ?env None True f 2 m l n = None" for f m l n
    by (rule repos_loop_runs_forever) (simp add: a)
  then show "get_vmaas_repos ?env fuel None True () = None" by (cases fuel) (simp_all add: get_vmaas_repos_def a)
qed

definition two_entries :: "page_request \<Rightarrow> repos_response transport" where
  "two_entries rq = vmaas_answer \<lparr>rr_pages = 1,
     rr_list = [(''baseos'', [[(''updated_package_names'', JArray [JText ''bash''])], [(''updated_package_names'', JArray [])]])],
     rr_latest_change = Some 0\<rparr>"

theorem repos_marked_witness:
  "\<exists>s. sync_repos (sample_sync_env two_entries) 1 sync_state_sample = Some (None, s)
     \<and> map (\<lambda>r. (rp_name r, rp_third_party r)) (sd_repos (ss_db s)) = [(''epel'', True), (''baseos'', False)]"
proof -
  let ?env = "sample_sync_env two_entries"
  have "case sync_repos ?env 1 sync_state_sample of Some (None, s) \<Rightarrow> True | _ \<Rightarrow> False" by code_simp
  then obtain s where run: "sync_repos ?env 1 sync_state_sample = Some (None, s)" by (auto split: option.splits)
  have "get_updated_repos ?env 1 (ss_net sync_state_sample) = Some (Inr [''baseos''], ())" by code_simp
  then show ?thesis using repos_marked [OF run] run by (auto simp: sync_state_sample_def sync_sample_def)
qed

theorem last_entry_counts_witness:
  "\<exists>repos packages. get_updated_repos_with_packages (sample_sync_env two_entries) 1 None ()
      = Some ((repos, packages, Some one_second, None), ()) \<and> ''bash'' \<notin> set packages \<and> repos = []"
proof -
  let ?env = "sample_sync_env two_entries"
  let ?r = "\<lparr>rr_pages = 1, rr_list = [(''baseos'', [[(''updated_package_names'', JArray [JText ''bash''])],
      [(''updated_package_names'', JArray [])]])], rr_latest_change = Some (0 :: int)\<rparr>"
  have a: "vmaas_request ?env (sy_repos ?env \<lparr>rq_page = 1, rq_page_size = sy_advisory_page_size ?env,
      rq_modified_since = None\<rparr> True) \<lparr>rr_pages = 0, rr_list = [], rr_latest_change = None\<rparr> () = (Inr ?r, ())"
    by (rule vmaas_answered) (simp_all add: sample_sync_env_def two_entries_def)
  have none: "get_repo_updated_packages [(''updated_package_names'', JArray [])] = []" by (simp add: get_repo_updated_packages_def)
  obtain repos packages where run: "get_updated_repos_with_packages ?env 1 None () = Some ((repos, packages, Some (0 + one_second), None), ())"
    and sets: "set repos = {k. \<exists>cs. gm_get (rr_list ?r) k = Some cs \<and> cs \<noteq> [] \<and> get_repo_updated_packages (last cs) \<noteq> []}"
      "set packages = {p. \<exists>k cs. gm_get (rr_list ?r) k = Some cs \<and> cs \<noteq> [] \<and> p \<in> set (get_repo_updated_packages (last cs))}"
    using last_entry_counts [OF a, of 0 1] by fastforce
  have "set repos = {}" "set packages = {}" using sets by (auto simp: none split: if_splits)
  then show ?thesis using run by auto
qed

theorem vmaas_failure_reads_as_no_change_witness:
  "get_current_repo_based_inventory_ids (sample_sync_env (\<lambda>rq. vmaas_down)) 1 sync_state_sample = Some (Inr [], sync_state_sample)"
proof -
  let ?env = "sample_sync_env (\<lambda>rq. vmaas_down)"
  have kv: "get_timestamp_kv (sy_faults ?env) last_eval_repo_based (ss_db sync_state_sample) = Inr None" by code_simp
  have "case get_vmaas_repos ?env 1 (map_option (sy_format_time ?env) None) True (ss_net sync_state_sample) of
      Some (Inl e, n) \<Rightarrow> True | _ \<Rightarrow> False" by code_simp
  then obtain e n where "get_vmaas_repos ?env 1 (map_option (sy_format_time ?env) None) True (ss_net sync_state_sample) = Some (Inl e, n)"
    by (auto split: option.splits sum.splits)
  from vmaas_failure_reads_as_no_change [OF kv this] show ?thesis by (simp add: sync_state_sample_def)
qed

end
