(* ===== verification/Aggregator.thy ===== *)
theory Aggregator
  imports Publishing
begin

text \<open>
  The aggregator (\<open>aggregator/\<close>): it buffers the advisory updates the evaluator publishes, recounts the
  advisories of the accounts they name (\<open>refresh_account_advisory_caches_multi\<close> of
  \<open>create_schema.sql\<close>), compares the counts with the older table and notifies the account of new
  advisories.  A statement fails when \<open>faults\<close> says so; the warnings of the comparison are values;
  \<open>ag_order\<close> is the order in which the runtime walks the map of accounts.
\<close>

section \<open>Tables\<close>

record account_advisory =
  aa_applicable :: int
  aa_installable :: int
  aa_notified :: "timestamp option"

record agg_db =
  gd_inventory :: "system_inventory list"
  gd_patch :: "(int \<times> int, system_patch) gomap"
  gd_system_advisories :: "(advisory_key, int) gomap"
  gd_account_advisory :: "(int \<times> uuid \<times> int, account_advisory) gomap"
  gd_legacy :: "(int \<times> int, int \<times> int) gomap"
  gd_accounts :: "(int, string) gomap"
  gd_metadata :: "advisory_metadata list"
  gd_types :: "(int, string) gomap"

datatype agg_site =
    RefreshCounts int | DriftNew int | DriftLegacy int | Unnotified int | OrgLookup int | MarkNotified int | CommitNotified int

datatype drift = MissingInNew int | CountMismatch int | MissingInLegacy int

record 'w agg_env =
  ag_faults :: "agg_site \<Rightarrow> bool"
  ag_parse :: "string \<Rightarrow> advisory_update_event option"
  ag_batch_size :: int
  ag_enabled :: bool
  ag_publisher :: "'w writer option"
  ag_format_time :: "timestamp \<Rightarrow> string"
  ag_encode :: "notification \<Rightarrow> string option"
  ag_order :: "(int, int list) gomap \<Rightarrow> (int, int list) gomap"

record 'w agg_state =
  gs_buffer :: "advisory_update_event list"
  gs_db :: agg_db
  gs_out :: 'w
  gs_drift :: "(int \<times> drift) list"

section \<open>Counting\<close>

text \<open>The join of \<open>current_counts\<close>: a row per system advisory whose system is evaluated, not stale and in
  a workspace; then the groups with their two counts.\<close>

definition counted_rows :: "agg_db \<Rightarrow> int \<Rightarrow> int list \<Rightarrow> ((int \<times> uuid \<times> int) \<times> int) list" where
  "counted_rows db account ids = concat (map (\<lambda>((a, s, i), status).
     if a = account \<and> i \<in> set ids
        \<and> (case gm_get (gd_patch db) (a, s) of None \<Rightarrow> False | Some p \<Rightarrow> sp_last_evaluation p \<noteq> None)
     then concat (map (\<lambda>si. if si_account si = a \<and> si_id si = s \<and> \<not> si_stale si
            then (case si_workspace_id si of None \<Rightarrow> [] | Some w \<Rightarrow> [((a, w, i), status)]) else []) (gd_inventory db))
     else []) (gd_system_advisories db))"

definition group_counts :: "('k \<times> int) list \<Rightarrow> ('k \<times> int \<times> int) list" where
  "group_counts rows = map (\<lambda>k. (k, int (length (filter (\<lambda>r. fst r = k \<and> snd r = INSTALLABLE) rows)),
     int (length (filter (\<lambda>r. fst r = k) rows)))) (remdups (map fst rows))"

definition upsert_counts :: "(int \<times> uuid \<times> int) \<times> int \<times> int \<Rightarrow> (int \<times> uuid \<times> int, account_advisory) gomap
    \<Rightarrow> (int \<times> uuid \<times> int, account_advisory) gomap" where
  "upsert_counts = (\<lambda>(k, installable, applicable) m.
     gm_put k \<lparr>aa_applicable = applicable, aa_installable = installable,
       aa_notified = (case gm_get m k of None \<Rightarrow> None | Some r \<Rightarrow> aa_notified r)\<rparr> m)"

definition refresh_account_advisory_caches_multi :: "int list \<Rightarrow> int \<Rightarrow> agg_db \<Rightarrow> agg_db" where
  "refresh_account_advisory_caches_multi ids account db =
     (let counts = group_counts (counted_rows db account ids);
          kept = filter (\<lambda>((a, w, i), r). \<not> ((a, w, i) \<notin> fst ` set counts \<and> i \<in> set ids \<and> a = account)) (gd_account_advisory db)
      in db\<lparr>gd_account_advisory := fold upsert_counts counts kept\<rparr>)"

section \<open>Comparing with the older table\<close>

definition summed_counts :: "agg_db \<Rightarrow> int \<Rightarrow> int list \<Rightarrow> (int, int \<times> int) gomap" where
  "summed_counts db account ids =
     (let rows = filter (\<lambda>((a, w, i), r). a = account \<and> i \<in> set ids) (gd_account_advisory db)
      in map (\<lambda>i. (i, sum_list (map (\<lambda>((a, w, j), r). if j = i then aa_applicable r else 0) rows),
             sum_list (map (\<lambda>((a, w, j), r). if j = i then aa_installable r else 0) rows)))
           (remdups (map (\<lambda>((a, w, i), r). i) rows)))"

definition legacy_counts :: "agg_db \<Rightarrow> int \<Rightarrow> int list \<Rightarrow> (int \<times> int \<times> int) list" where
  "legacy_counts db account ids = map (\<lambda>((a, i), c). (i, c)) (filter (\<lambda>((a, i), c). a = account \<and> i \<in> set ids) (gd_legacy db))"

fun drift_loop :: "(int \<times> int \<times> int) list \<Rightarrow> (int, int \<times> int) gomap \<Rightarrow> drift list" where
  "drift_loop [] new = map (\<lambda>(i, c). MissingInLegacy i) new"
| "drift_loop ((i, c) # legacy) new =
     (case gm_get new i of
        None \<Rightarrow> MissingInNew i # drift_loop legacy new
      | Some c' \<Rightarrow> (if c \<noteq> c' then [CountMismatch i] else []) @ drift_loop legacy (gm_del i new))"

definition check_advisory_drift :: "(agg_site \<Rightarrow> bool) \<Rightarrow> agg_db \<Rightarrow> int \<Rightarrow> int list \<Rightarrow> drift list" where
  "check_advisory_drift faults db account ids =
     (if ids = [] then []
      else if faults (DriftNew account) then []
      else if faults (DriftLegacy account) then []
      else drift_loop (legacy_counts db account ids) (summed_counts db account ids))"

section \<open>Notifying\<close>

definition get_unnotified :: "agg_db \<Rightarrow> int \<Rightarrow> int list \<Rightarrow> notif_advisory list" where
  "get_unnotified db account ids =
     sort_key na_name (remdups (concat (map (\<lambda>((a, w, i), r).
       if a = account \<and> i \<in> set ids \<and> aa_notified r = None \<and> 0 < aa_installable r
       then concat (map (\<lambda>am. case gm_get (gd_types db) (am_type_id am) of None \<Rightarrow> []
              | Some t \<Rightarrow> [\<lparr>na_id = am_id am, na_name = am_name am, na_type = t, na_synopsis = am_synopsis am\<rparr>])
            (filter (\<lambda>am. am_id am = i) (gd_metadata db)))
       else []) (gd_account_advisory db))))"

definition agg_mark_advisories_notified :: "int \<Rightarrow> int list \<Rightarrow> timestamp \<Rightarrow> agg_db \<Rightarrow> agg_db" where
  "agg_mark_advisories_notified account ids now db = db\<lparr>gd_account_advisory := map (\<lambda>((a, w, i), r).
     ((a, w, i), if a = account \<and> i \<in> set ids then r\<lparr>aa_notified := Some now\<rparr> else r)) (gd_account_advisory db)\<rparr>"

text \<open>The flag is an error; without a commit the transaction is rolled back.\<close>

definition publish_new_advisory_notification :: "'w agg_env \<Rightarrow> timestamp \<Rightarrow> int \<Rightarrow> int list \<Rightarrow> agg_db \<Rightarrow> 'w \<Rightarrow> bool \<times> agg_db \<times> 'w" where
  "publish_new_advisory_notification env now account ids db out =
     (case ag_publisher env of
        None \<Rightarrow> (True, db, out)
      | Some w \<Rightarrow>
          if \<not> ag_enabled env then (True, db, out)
          else if ag_faults env (Unnotified account) then (False, db, out)
          else (let advisories = get_unnotified db account ids
                in if advisories = [] then (True, db, out)
                   else if ag_faults env (OrgLookup account) then (False, db, out)
                   else (let org = (case gm_get (gd_accounts db) account of None \<Rightarrow> [] | Some org \<Rightarrow> org)
                         in (case make_account_notification (ag_format_time env) now org ''new-advisory'' advisories of
                               Inl e \<Rightarrow> (False, db, out)
                             | Inr notif \<Rightarrow>
                                 (case message_from_json (ag_encode env) org notif [] of
                                    Inl e \<Rightarrow> (False, db, out)
                                  | Inr msg \<Rightarrow>
                                      (case w [msg] out of
                                         (Some e, out) \<Rightarrow> (False, db, out)
                                       | (None, out) \<Rightarrow>
                                           if ag_faults env (MarkNotified account) then (False, db, out)
                                           else if ag_faults env (CommitNotified account) then (False, db, out)
                                           else (True, agg_mark_advisories_notified account (map na_id advisories) now db, out)))))))"

section \<open>Batches\<close>

fun group_advisory_updates :: "advisory_update_event list \<Rightarrow> (int, int list) gomap \<Rightarrow> (int, int list) gomap" where
  "group_advisory_updates [] sets = sets"
| "group_advisory_updates (e # es) sets =
     (let ids = (case gm_get sets (au_account e) of None \<Rightarrow> [] | Some ids \<Rightarrow> ids)
      in group_advisory_updates es
           (gm_put (au_account e) (fold (\<lambda>i ids. if i \<in> set ids then ids else ids @ [i]) (au_advisories e) ids) sets))"

text \<open>Errors are logged.\<close>

fun process_advisory_batch :: "'w agg_env \<Rightarrow> timestamp \<Rightarrow> (int, int list) gomap \<Rightarrow> 'w agg_state \<Rightarrow> 'w agg_state" where
  "process_advisory_batch env now [] s = s"
| "process_advisory_batch env now ((account, ids) # grouped) s =
     (if ag_faults env (RefreshCounts account) then process_advisory_batch env now grouped s
      else (let db = refresh_account_advisory_caches_multi ids account (gs_db s);
                warnings = check_advisory_drift (ag_faults env) db account ids;
                (ok, db, out) = publish_new_advisory_notification env now account ids db (gs_out s)
            in process_advisory_batch env now grouped
                 (s\<lparr>gs_db := db, gs_out := out, gs_drift := gs_drift s @ map (Pair account) warnings\<rparr>)))"

definition flush_advisory_buffer :: "'w agg_env \<Rightarrow> timestamp \<Rightarrow> 'w agg_state \<Rightarrow> 'w agg_state" where
  "flush_advisory_buffer env now s =
     (if gs_buffer s = [] then s
      else process_advisory_batch env now (ag_order env (group_advisory_updates (gs_buffer s) [])) (s\<lparr>gs_buffer := []\<rparr>))"

definition advisory_update_handler :: "'w agg_env \<Rightarrow> timestamp \<Rightarrow> kafka_message \<Rightarrow> 'w agg_state \<Rightarrow> 'w agg_state" where
  "advisory_update_handler env now m s =
     (case ag_parse env (km_value m) of
        None \<Rightarrow> s
      | Some event \<Rightarrow>
          (let s = s\<lparr>gs_buffer := gs_buffer s @ [event]\<rparr>
           in if ag_batch_size env \<le> int (length (gs_buffer s)) then flush_advisory_buffer env now s else s))"

text \<open>A run of the process: messages, and firings of the timer that every message resets.\<close>

datatype agg_input = AggMessage kafka_message | AggTimer

fun run_aggregator :: "'w agg_env \<Rightarrow> (timestamp \<times> agg_input) list \<Rightarrow> 'w agg_state \<Rightarrow> 'w agg_state" where
  "run_aggregator env [] s = s"
| "run_aggregator env ((now, AggMessage m) # ins) s = run_aggregator env ins (advisory_update_handler env now m s)"
| "run_aggregator env ((now, AggTimer) # ins) s = run_aggregator env ins (flush_advisory_buffer env now s)"

end
