(* ===== verification/AggregatorLaws.thy ===== *)
theory AggregatorLaws
  imports Aggregator "HOL-Library.Multiset"
begin

text \<open>
  The counts of the aggregator against a direct definition of what they count, the notifications it
  sends, and what its comparison with the older table reports.
\<close>

section \<open>What is counted\<close>

text \<open>A system of account \<open>a\<close> that counts for workspace \<open>w\<close>, and how many of them an advisory has.\<close>

definition counts_for :: "agg_db \<Rightarrow> int \<Rightarrow> int \<Rightarrow> uuid \<Rightarrow> bool" where
  "counts_for db a s w \<longleftrightarrow>
     (\<exists>p. gm_get (gd_patch db) (a, s) = Some p \<and> sp_last_evaluation p \<noteq> None)
   \<and> (\<exists>si\<in>set (gd_inventory db). si_account si = a \<and> si_id si = s \<and> \<not> si_stale si \<and> si_workspace_id si = Some w)"

definition systems_with :: "agg_db \<Rightarrow> int \<Rightarrow> uuid \<Rightarrow> int \<Rightarrow> (int \<Rightarrow> bool) \<Rightarrow> nat" where
  "systems_with db a w i status = card {s. \<exists>st. gm_get (gd_system_advisories db) (a, s, i) = Some st \<and> status st \<and> counts_for db a s w}"

definition agg_ok :: "agg_db \<Rightarrow> bool" where
  "agg_ok db \<longleftrightarrow> wf_gomap (gd_system_advisories db) \<and> distinct (map (\<lambda>si. (si_account si, si_id si)) (gd_inventory db))"

lemma same_key: "distinct (map f xs) \<Longrightarrow> x \<in> set xs \<Longrightarrow> y \<in> set xs \<Longrightarrow> f x = f y \<Longrightarrow> x = y"
  by (metis distinct_map inj_onD)

lemma inventory_join:
  "distinct (map (\<lambda>si. (si_account si, si_id si)) sis) \<Longrightarrow>
   concat (map (\<lambda>si. if si_account si = a \<and> si_id si = s \<and> \<not> si_stale si
       then (case si_workspace_id si of None \<Rightarrow> [] | Some w \<Rightarrow> [((a, w, i), st)]) else []) sis)
   = (case find (\<lambda>si. si_account si = a \<and> si_id si = s) sis of None \<Rightarrow> []
      | Some si \<Rightarrow> if si_stale si then [] else (case si_workspace_id si of None \<Rightarrow> [] | Some w \<Rightarrow> [((a, w, i), st)]))"
proof (induction sis)
  case (Cons x sis)
  show ?case
  proof (cases "si_account x = a \<and> si_id x = s")
    case True
    then have "(a, s) \<notin> set (map (\<lambda>si. (si_account si, si_id si)) sis)" using Cons.prems by simp
    then have none: "find (\<lambda>si. si_account si = a \<and> si_id si = s) sis = None" by (auto simp: find_None_iff image_iff)
    have "concat (map (\<lambda>si. if si_account si = a \<and> si_id si = s \<and> \<not> si_stale si
        then (case si_workspace_id si of None \<Rightarrow> [] | Some w \<Rightarrow> [((a, w, i), st)]) else []) sis) = []"
      using Cons.IH Cons.prems none by simp
    then show ?thesis using True by simp
  next
    case False
    then show ?thesis using Cons.IH Cons.prems by auto
  qed
qed simp

text \<open>The workspace a system counts for.\<close>

definition counted_in :: "agg_db \<Rightarrow> int \<Rightarrow> int \<Rightarrow> uuid option" where
  "counted_in db a s =
     (if (case gm_get (gd_patch db) (a, s) of None \<Rightarrow> False | Some p \<Rightarrow> sp_last_evaluation p \<noteq> None)
      then (case find (\<lambda>si. si_account si = a \<and> si_id si = s) (gd_inventory db) of None \<Rightarrow> None
            | Some si \<Rightarrow> if si_stale si then None else si_workspace_id si)
      else None)"

lemma counted_in_iff:
  assumes "agg_ok db"
  shows "counted_in db a s = Some w \<longleftrightarrow> counts_for db a s w"
proof -
  have d: "distinct (map (\<lambda>si. (si_account si, si_id si)) (gd_inventory db))" using assms by (simp add: agg_ok_def)
  show ?thesis
  proof (cases "find (\<lambda>si. si_account si = a \<and> si_id si = s) (gd_inventory db)")
    case None
    then have "\<forall>si\<in>set (gd_inventory db). \<not> (si_account si = a \<and> si_id si = s)" by (simp add: find_None_iff)
    then show ?thesis using None by (auto simp: counted_in_def counts_for_def)
  next
    case (Some si)
    then have si: "si \<in> set (gd_inventory db)" "si_account si = a" "si_id si = s" by (auto simp: find_Some_iff)
    have "x = si" if "x \<in> set (gd_inventory db)" "si_account x = a" "si_id x = s" for x
      using same_key [OF d that(1) si(1)] that si by simp
    then have "(\<exists>x\<in>set (gd_inventory db). si_account x = a \<and> si_id x = s \<and> \<not> si_stale x \<and> si_workspace_id x = Some w)
        \<longleftrightarrow> \<not> si_stale si \<and> si_workspace_id si = Some w" using si by blast
    then show ?thesis using Some by (auto simp: counted_in_def counts_for_def split: option.splits)
  qed
qed

definition counted_entry :: "agg_db \<Rightarrow> int \<Rightarrow> int list \<Rightarrow> (int \<times> int \<times> int) \<times> int \<Rightarrow> ((int \<times> uuid \<times> int) \<times> int) list" where
  "counted_entry db account ids = (\<lambda>((a, s, i), st).
     if a = account \<and> i \<in> set ids then (case counted_in db a s of None \<Rightarrow> [] | Some w \<Rightarrow> [((a, w, i), st)]) else [])"

lemma counted_rows_eq:
  assumes "agg_ok db"
  shows "counted_rows db account ids = concat (map (counted_entry db account ids) (gd_system_advisories db))"
proof -
  have d: "distinct (map (\<lambda>si. (si_account si, si_id si)) (gd_inventory db))" using assms by (simp add: agg_ok_def)
  show ?thesis
    unfolding counted_rows_def inventory_join [OF d]
    by (intro arg_cong [of _ _ concat] map_cong refl) (auto simp: counted_in_def counted_entry_def split: option.splits)
qed

lemma counted_entry_hit:
  "filter (\<lambda>r. fst r = (account, w, i) \<and> Q (snd r)) (counted_entry db account ids r)
   = (if fst (fst r) = account \<and> snd (snd (fst r)) = i \<and> i \<in> set ids \<and> Q (snd r)
         \<and> counted_in db account (fst (snd (fst r))) = Some w then [((account, w, i), snd r)] else [])"
  (is "_ = (if ?hit then _ else _)")
proof -
  obtain a s j st where r: "r = ((a, s, j), st)" by (metis prod_cases4 surj_pair)
  have hit: "?hit \<longleftrightarrow> a = account \<and> j = i \<and> i \<in> set ids \<and> Q st \<and> counted_in db account s = Some w" by (simp only: r fst_conv snd_conv)
  show ?thesis
  proof (cases "a = account \<and> j \<in> set ids")
    case False
    then have "counted_entry db account ids r = []" unfolding r counted_entry_def prod.case by (simp only: if_False)
    moreover have "\<not> ?hit" using False unfolding hit by blast
    ultimately show ?thesis by (simp only: filter.simps if_False)
  next
    case True
    then have c: "counted_entry db account ids r = (case counted_in db account s of None \<Rightarrow> [] | Some v \<Rightarrow> [((account, v, j), st)])"
      unfolding r counted_entry_def prod.case by (simp only: if_True simp_thms)
    show ?thesis
    proof (cases "counted_in db account s")
      case None
      then have "counted_entry db account ids r = []" "\<not> ?hit" unfolding c hit by simp_all
      then show ?thesis by (simp only: filter.simps if_False)
    next
      case (Some v)
      then have e: "counted_entry db account ids r = [((account, v, j), st)]" unfolding c by simp
      have "?hit \<longleftrightarrow> (account, v, j) = (account, w, i) \<and> Q st" using True Some unfolding hit by auto
      then have "filter (\<lambda>r. fst r = (account, w, i) \<and> Q (snd r)) [((account, v, j), st)]
          = (if ?hit then [((account, v, j), st)] else [])" by (simp only: filter.simps fst_conv snd_conv)
      also have "\<dots> = (if ?hit then [((account, w, i), snd r)] else [])"
      proof (cases "?hit")
        case True
        then have "v = w" "j = i" using Some unfolding hit by simp_all
        then show ?thesis by (simp only: r snd_conv)
      qed (simp only: if_False)
      finally show ?thesis unfolding e .
    qed
  qed
qed

lemma counted_entry_account: "x \<in> set (counted_entry db account ids r) \<Longrightarrow> fst (fst x) = account"
proof -
  assume x: "x \<in> set (counted_entry db account ids r)"
  obtain a s j st where r: "r = ((a, s, j), st)" by (metis prod_cases4 surj_pair)
  show "fst (fst x) = account"
    using x unfolding r counted_entry_def prod.case
    by (cases "a = account \<and> j \<in> set ids"; cases "counted_in db a s") (simp_all only: simp_thms if_True if_False option.case list.set empty_iff insert_iff fst_conv)
qed

lemma counted_length:
  assumes ok: "agg_ok db"
  shows "length (filter (\<lambda>r. fst r = (account, w, i) \<and> Q (snd r)) (counted_rows db account ids))
    = (if i \<in> set ids then systems_with db account w i Q else 0)"
proof -
  have wf: "wf_gomap (gd_system_advisories db)" using ok by (simp add: agg_ok_def)
  let ?hit = "\<lambda>r. fst (fst r) = account \<and> snd (snd (fst r)) = i \<and> i \<in> set ids \<and> Q (snd r)
      \<and> counted_in db account (fst (snd (fst r))) = Some w"
  have "length (filter (\<lambda>r. fst r = (account, w, i) \<and> Q (snd r)) (concat (map (counted_entry db account ids) rows)))
    = length (filter ?hit rows)" for rows
    by (induction rows) (simp_all add: counted_entry_hit del: filter.simps(2), simp_all)
  then have "length (filter (\<lambda>r. fst r = (account, w, i) \<and> Q (snd r)) (counted_rows db account ids))
      = length (filter ?hit (gd_system_advisories db))" unfolding counted_rows_eq [OF ok] .
  also have "\<dots> = card (set (map fst (filter ?hit (gd_system_advisories db))))"
    using distinct_card [OF distinct_map_filter [OF wf]] by simp
  also have "set (map fst (filter ?hit (gd_system_advisories db))) = (if i \<in> set ids then (\<lambda>s. (account, s, i)) `
      {s. \<exists>st. gm_get (gd_system_advisories db) (account, s, i) = Some st \<and> Q st \<and> counts_for db account s w} else {})"
    using wf by (force simp: counted_in_iff [OF ok])
  also have "card \<dots> = (if i \<in> set ids then systems_with db account w i Q else 0)"
    by (simp add: systems_with_def card_image inj_on_def)
  finally show ?thesis .
qed

section \<open>Recounting\<close>

lemma group_counts_get:
  "gm_get (group_counts rows) k = (if k \<in> fst ` set rows then Some (int (length (filter (\<lambda>r. fst r = k \<and> snd r = INSTALLABLE) rows)),
     int (length (filter (\<lambda>r. fst r = k) rows))) else None)"
  by (simp add: group_counts_def map_of_map_restrict restrict_map_def)

lemma group_counts_keys: "fst ` set (group_counts rows) = fst ` set rows" "wf_gomap (group_counts rows)"
  by (simp_all add: group_counts_def image_image comp_def)

lemma upsert_fold_get:
  "wf_gomap cs \<Longrightarrow> gm_get (fold upsert_counts cs m) k = (case gm_get cs k of None \<Rightarrow> gm_get m k
     | Some (inst, appl) \<Rightarrow> Some \<lparr>aa_applicable = appl, aa_installable = inst,
         aa_notified = (case gm_get m k of None \<Rightarrow> None | Some r \<Rightarrow> aa_notified r)\<rparr>)"
proof (induction cs arbitrary: m)
  case (Cons c cs)
  obtain k' inst appl where c: "c = (k', inst, appl)" by (metis prod_cases3)
  have "gm_get cs k' = None" using Cons.prems c by (simp add: map_of_eq_None_iff)
  then show ?case using Cons c by (cases "k = k'") (auto simp: upsert_counts_def gomap split: option.splits prod.splits)
qed simp

lemma filter_key_get: "gm_get (filter (\<lambda>((a, w, i), r). P a w i) m) (a, w, i) = (if P a w i then gm_get m (a, w, i) else None)"
  by (induction m) auto

text \<open>The two counts of a row, as stored and as they should be.\<close>

definition stored_counts :: "agg_db \<Rightarrow> int \<times> uuid \<times> int \<Rightarrow> (int \<times> int) option" where
  "stored_counts db k = map_option (\<lambda>r. (aa_applicable r, aa_installable r)) (gm_get (gd_account_advisory db) k)"

definition true_counts :: "agg_db \<Rightarrow> int \<Rightarrow> uuid \<Rightarrow> int \<Rightarrow> (int \<times> int) option" where
  "true_counts db a w i = (if systems_with db a w i (\<lambda>_. True) = 0 then None
     else Some (int (systems_with db a w i (\<lambda>_. True)), int (systems_with db a w i (\<lambda>st. st = INSTALLABLE))))"

lemma counted_keys:
  assumes "agg_ok db"
  shows "(a, w, i) \<in> fst ` set (counted_rows db account ids)
    \<longleftrightarrow> a = account \<and> i \<in> set ids \<and> systems_with db a w i (\<lambda>_. True) \<noteq> 0"
proof (cases "a = account")
  case True
  have "(a, w, i) \<in> fst ` set (counted_rows db account ids)
      \<longleftrightarrow> length (filter (\<lambda>r. fst r = (account, w, i) \<and> True) (counted_rows db account ids)) \<noteq> 0"
    using True by (force simp: filter_empty_conv image_iff)
  also have "\<dots> \<longleftrightarrow> i \<in> set ids \<and> systems_with db account w i (\<lambda>_. True) \<noteq> 0"
    unfolding counted_length [OF assms, where Q = "\<lambda>_. True"] by simp
  finally show ?thesis using True by simp
next
  case False
  then show ?thesis using counted_entry_account unfolding counted_rows_eq [OF assms] by force
qed

lemma refresh_get:
  assumes ok: "agg_ok db"
  shows "gm_get (gd_account_advisory (refresh_account_advisory_caches_multi ids account db)) (a, w, i)
    = (if a = account \<and> i \<in> set ids
       then map_option (\<lambda>(appl, inst). \<lparr>aa_applicable = appl, aa_installable = inst,
              aa_notified = (case gm_get (gd_account_advisory db) (a, w, i) of None \<Rightarrow> None | Some r \<Rightarrow> aa_notified r)\<rparr>) (true_counts db a w i)
       else gm_get (gd_account_advisory db) (a, w, i))"
proof -
  let ?rows = "counted_rows db account ids"
  have len: "length (filter (\<lambda>r. fst r = (account, w, i)) ?rows) = (if i \<in> set ids then systems_with db account w i (\<lambda>_. True) else 0)"
    using counted_length [OF ok, where Q = "\<lambda>_. True", of account w i ids] by simp
  have inst: "length (filter (\<lambda>r. fst r = (account, w, i) \<and> snd r = INSTALLABLE) ?rows)
      = (if i \<in> set ids then systems_with db account w i (\<lambda>st. st = INSTALLABLE) else 0)"
    using counted_length [OF ok, where Q = "\<lambda>st. st = INSTALLABLE", of account w i ids] .
  have counts: "gm_get (group_counts ?rows) (a, w, i) = (if a = account \<and> i \<in> set ids then map_option prod.swap (true_counts db a w i) else None)"
    by (auto simp: group_counts_get counted_keys [OF ok] true_counts_def len inst)
  have "(a, w, i) \<in> fst ` set (group_counts ?rows) \<longleftrightarrow> a = account \<and> i \<in> set ids \<and> true_counts db a w i \<noteq> None"
    unfolding group_counts_keys counted_keys [OF ok] by (simp add: true_counts_def)
  then have kept: "\<not> ((a, w, i) \<notin> fst ` set (group_counts ?rows) \<and> i \<in> set ids \<and> a = account)
      \<longleftrightarrow> \<not> (a = account \<and> i \<in> set ids \<and> true_counts db a w i = None)" by blast
  have after: "gd_account_advisory (refresh_account_advisory_caches_multi ids account db) = fold upsert_counts (group_counts ?rows)
      (filter (\<lambda>((a, w, i), r). \<not> ((a, w, i) \<notin> fst ` set (group_counts ?rows) \<and> i \<in> set ids \<and> a = account)) (gd_account_advisory db))"
    by (simp add: refresh_account_advisory_caches_multi_def Let_def)
  show ?thesis
    unfolding after upsert_fold_get [OF group_counts_keys(2)] counts filter_key_get kept
    by (cases "true_counts db a w i"; cases "a = account \<and> i \<in> set ids") (auto split: prod.splits)
qed

lemma refresh_counts:
  "agg_ok db \<Longrightarrow> stored_counts (refresh_account_advisory_caches_multi ids account db) (a, w, i)
     = (if a = account \<and> i \<in> set ids then true_counts db a w i else stored_counts db (a, w, i))"
  by (cases "true_counts db a w i") (auto simp: stored_counts_def refresh_get)

lemma refresh_frame:
  "gd_inventory (refresh_account_advisory_caches_multi ids account db) = gd_inventory db"
  "gd_patch (refresh_account_advisory_caches_multi ids account db) = gd_patch db"
  "gd_system_advisories (refresh_account_advisory_caches_multi ids account db) = gd_system_advisories db"
  "gd_metadata (refresh_account_advisory_caches_multi ids account db) = gd_metadata db"
  "gd_types (refresh_account_advisory_caches_multi ids account db) = gd_types db"
  by (simp_all add: refresh_account_advisory_caches_multi_def Let_def)

section \<open>An account with one system\<close>

definition example_agg_db :: agg_db where
  "example_agg_db = \<lparr>gd_inventory = [zero_inventory\<lparr>si_id := 5, si_account := 1, si_workspace_id := Some ''w''\<rparr>],
     gd_patch = [((1, 5), zero_patch\<lparr>sp_last_evaluation := Some 3\<rparr>)], gd_system_advisories = [((1, 5, 7), INSTALLABLE)],
     gd_account_advisory = [], gd_legacy = [((1, 7), (2, 1))], gd_accounts = [(1, ''org'')],
     gd_metadata = [zero_advisory\<lparr>am_id := 7, am_name := ''RHSA'', am_type_id := 3\<rparr>], gd_types = [(3, ''security'')]\<rparr>"

definition example_agg_env :: "kafka_message list agg_env" where
  "example_agg_env = \<lparr>ag_faults = (\<lambda>_. False), ag_parse = (\<lambda>_. Some \<lparr>au_account = 1, au_workspace = [], au_advisories = [7], au_produced = 0\<rparr>), ag_batch_size = 10,
     ag_enabled = True, ag_publisher = Some (\<lambda>ms out. (None, out @ ms)), ag_format_time = (\<lambda>_. ''now''),
     ag_encode = (\<lambda>_. Some ''body''), ag_order = (\<lambda>m. m)\<rparr>"

definition example_agg_state :: "kafka_message list agg_state" where
  "example_agg_state = \<lparr>gs_buffer = [], gs_db = example_agg_db, gs_out = [], gs_drift = []\<rparr>"

lemma example_ok: "agg_ok (gs_db example_agg_state)" "\<And>m. set (ag_order example_agg_env m) = set m"
    "\<not> ag_faults example_agg_env site"
  by (simp_all add: agg_ok_def example_agg_state_def example_agg_db_def example_agg_env_def)

lemma example_true_counts: "true_counts (gs_db example_agg_state) 1 ''w'' 7 = Some (1, 1)"
proof -
  have "{s. \<exists>st. gm_get (gd_system_advisories example_agg_db) (1, s, 7) = Some st \<and> Q st \<and> counts_for example_agg_db 1 s ''w''}
      = (if Q INSTALLABLE then {5} else {})" for Q
    by (auto simp: example_agg_db_def counts_for_def zero_inventory_def zero_patch_def split: if_splits)
  then have "systems_with example_agg_db 1 ''w'' 7 Q = (if Q INSTALLABLE then 1 else 0)" for Q
    unfolding systems_with_def by simp
  then show ?thesis unfolding true_counts_def example_agg_state_def agg_state.simps by simp
qed

section \<open>Notifying\<close>

lemma mark_get:
  "gm_get (gd_account_advisory (agg_mark_advisories_notified account ids now db)) (a, w, i)
   = map_option (\<lambda>r. if a = account \<and> i \<in> set ids then r\<lparr>aa_notified := Some now\<rparr> else r) (gm_get (gd_account_advisory db) (a, w, i))"
proof -
  have "gm_get (map (\<lambda>((a, w, i), r). ((a, w, i), if a = account \<and> i \<in> set ids then r\<lparr>aa_notified := Some now\<rparr> else r)) m) (a, w, i)
      = map_option (\<lambda>r. if a = account \<and> i \<in> set ids then r\<lparr>aa_notified := Some now\<rparr> else r) (gm_get m (a, w, i))" for m
    by (induction m) auto
  then show ?thesis by (simp add: agg_mark_advisories_notified_def)
qed

lemma mark_frame:
  "gd_inventory (agg_mark_advisories_notified account ids now db) = gd_inventory db"
  "gd_patch (agg_mark_advisories_notified account ids now db) = gd_patch db"
  "gd_system_advisories (agg_mark_advisories_notified account ids now db) = gd_system_advisories db"
  "gd_metadata (agg_mark_advisories_notified account ids now db) = gd_metadata db"
  "gd_types (agg_mark_advisories_notified account ids now db) = gd_types db"
  by (simp_all add: agg_mark_advisories_notified_def)

text \<open>One publication: nothing changes, or the message is written and what it names is marked.\<close>

lemma publish_cases:
  assumes p: "publish_new_advisory_notification env now account ids db out = (ok, db', out')"
  shows "(db' = db \<and> (ok \<and> ag_enabled env \<and> ag_publisher env \<noteq> None \<longrightarrow> get_unnotified db account ids = []))
    \<or> (ok \<and> (\<exists>w msg org notif. ag_publisher env = Some w \<and> w [msg] out = (None, out')
         \<and> make_account_notification (ag_format_time env) now org ''new-advisory'' (get_unnotified db account ids) = Inr notif
         \<and> message_from_json (ag_encode env) org notif [] = Inr msg)
       \<and> db' = agg_mark_advisories_notified account (map na_id (get_unnotified db account ids)) now db)"
proof (cases "ag_publisher env")
  case None
  then show ?thesis using p by (simp add: publish_new_advisory_notification_def)
next
  case (Some w)
  let ?todo = "get_unnotified db account ids"
  let ?org = "case gm_get (gd_accounts db) account of None \<Rightarrow> [] | Some org \<Rightarrow> org"
  note p = p [unfolded publish_new_advisory_notification_def Some option.case Let_def]
  consider "\<not> ag_enabled env" | "ag_enabled env" "ag_faults env (Unnotified account)"
    | "ag_enabled env" "\<not> ag_faults env (Unnotified account)" "?todo = []"
    | "ag_enabled env" "\<not> ag_faults env (Unnotified account)" "?todo \<noteq> []" "ag_faults env (OrgLookup account)"
    | "ag_enabled env" "\<not> ag_faults env (Unnotified account)" "?todo \<noteq> []" "\<not> ag_faults env (OrgLookup account)" by blast
  then show ?thesis
  proof cases
    case 5
    have on: "\<not> \<not> ag_enabled env" using 5(1) by simp
    note p = p [unfolded if_not_P [OF on] if_not_P [OF 5(2)] if_not_P [OF 5(3)] if_not_P [OF 5(4)]]
    show ?thesis
    proof (cases "make_account_notification (ag_format_time env) now ?org ''new-advisory'' ?todo")
      case (Inl e)
      then show ?thesis using p by (simp only: sum.case prod.inject simp_thms)
    next
      case notif: (Inr notif)
      note p = p [unfolded notif sum.case]
      show ?thesis
      proof (cases "message_from_json (ag_encode env) ?org notif []")
        case (Inl e)
        then show ?thesis using p by (simp only: sum.case prod.inject simp_thms)
      next
        case msg: (Inr msg)
        obtain res out2 where w: "w [msg] out = (res, out2)" by fastforce
        note p = p [unfolded msg sum.case w prod.case]
        show ?thesis
        proof (cases res)
          case None
          show ?thesis
          proof (cases "ag_faults env (MarkNotified account) \<or> ag_faults env (CommitNotified account)")
            case True
            then show ?thesis using p by (auto simp only: None option.case if_True if_False prod.inject simp_thms split: if_splits)
          next
            case False
            then have r: "ok" "db' = agg_mark_advisories_notified account (map na_id ?todo) now db" "out' = out2"
              using p by (simp_all only: None option.case if_False prod.inject de_Morgan_disj simp_thms)
            then show ?thesis using Some notif msg w None by blast
          qed
        qed (use p in \<open>simp only: option.case prod.inject simp_thms\<close>)
      qed
    qed
  qed (use p in \<open>simp_all only: if_True if_False prod.inject simp_thms\<close>)
qed

lemma mark_counts: "stored_counts (agg_mark_advisories_notified account ids now db) k = stored_counts db k"
  by (cases k) (auto simp: stored_counts_def mark_get option.map_comp comp_def intro!: option.map_cong)

lemma unnotified_iff:
  "x \<in> set (get_unnotified db account ids) \<longleftrightarrow> (\<exists>w i r am t. ((account, w, i), r) \<in> set (gd_account_advisory db) \<and> i \<in> set ids
     \<and> aa_notified r = None \<and> 0 < aa_installable r \<and> am \<in> set (gd_metadata db) \<and> am_id am = i
     \<and> gm_get (gd_types db) (am_type_id am) = Some t
     \<and> x = \<lparr>na_id = am_id am, na_name = am_name am, na_type = t, na_synopsis = am_synopsis am\<rparr>)"
  (is "_ \<longleftrightarrow> ?r")
proof -
  have e: "x \<in> set (case gm_get (gd_types db) (am_type_id am) of None \<Rightarrow> []
      | Some t \<Rightarrow> [\<lparr>na_id = am_id am, na_name = am_name am, na_type = t, na_synopsis = am_synopsis am\<rparr>])
    \<longleftrightarrow> (\<exists>t. gm_get (gd_types db) (am_type_id am) = Some t
      \<and> x = \<lparr>na_id = am_id am, na_name = am_name am, na_type = t, na_synopsis = am_synopsis am\<rparr>)" for am
    by (cases "gm_get (gd_types db) (am_type_id am)") simp_all
  show ?thesis unfolding get_unnotified_def set_sort set_remdups set_concat set_map by (fastforce simp: e split: if_splits)
qed

lemma marked_not_unnotified:
  "get_unnotified (agg_mark_advisories_notified account (map na_id (get_unnotified db account ids)) now db) account ids = []"
  (is "get_unnotified ?after _ _ = []")
proof -
  have "x \<notin> set (get_unnotified ?after account ids)" for x
  proof
    assume "x \<in> set (get_unnotified ?after account ids)"
    then obtain w i r am t where r: "((account, w, i), r) \<in> set (gd_account_advisory ?after)" "i \<in> set ids" "aa_notified r = None"
        "0 < aa_installable r" and am: "am \<in> set (gd_metadata db)" "am_id am = i" "gm_get (gd_types db) (am_type_id am) = Some t"
      unfolding unnotified_iff mark_frame by blast
    obtain r0 where r0: "((account, w, i), r0) \<in> set (gd_account_advisory db)"
        "r = (if i \<in> set (map na_id (get_unnotified db account ids)) then r0\<lparr>aa_notified := Some now\<rparr> else r0)"
      using r(1) by (auto simp: agg_mark_advisories_notified_def)
    have "\<lparr>na_id = am_id am, na_name = am_name am, na_type = t, na_synopsis = am_synopsis am\<rparr> \<in> set (get_unnotified db account ids)"
      unfolding unnotified_iff using r r0 am by (force split: if_splits)
    then have "i \<in> set (map na_id (get_unnotified db account ids))" using am(2) by force
    then show False using r(3) r0(2) by simp
  qed
  then show ?thesis by (meson last_in_set)
qed

text \<open>C16.  An account is told once of its new advisories: they are marked only after the message that lists them
  has been written, a failure changes nothing, and when the publication succeeds none of them is left to tell.\<close>

theorem new_advisories_notified_once:
  assumes "publish_new_advisory_notification env now account ids db out = (ok, db', out')"
  shows "(\<not> ok \<longrightarrow> db' = db)
    \<and> (ok \<and> ag_enabled env \<and> ag_publisher env \<noteq> None \<longrightarrow> get_unnotified db' account ids = [])
    \<and> (db' \<noteq> db \<longrightarrow> (\<exists>w msg notif. ag_publisher env = Some w \<and> w [msg] out = (None, out')
         \<and> ag_encode env notif = Some (km_value msg) \<and> nt_events notif = get_unnotified db account ids
         \<and> db' = agg_mark_advisories_notified account (map na_id (nt_events notif)) now db))
    \<and> stored_counts db' k = stored_counts db k"
  using publish_cases [OF assms]
proof
  assume "ok \<and> (\<exists>w msg org notif. ag_publisher env = Some w \<and> w [msg] out = (None, out')
       \<and> make_account_notification (ag_format_time env) now org ''new-advisory'' (get_unnotified db account ids) = Inr notif
       \<and> message_from_json (ag_encode env) org notif [] = Inr msg)
     \<and> db' = agg_mark_advisories_notified account (map na_id (get_unnotified db account ids)) now db"
  then obtain w msg org notif where h: "ok" "ag_publisher env = Some w" "w [msg] out = (None, out')"
      "make_account_notification (ag_format_time env) now org ''new-advisory'' (get_unnotified db account ids) = Inr notif"
      "message_from_json (ag_encode env) org notif [] = Inr msg"
      "db' = agg_mark_advisories_notified account (map na_id (get_unnotified db account ids)) now db" by blast
  have n: "nt_events notif = get_unnotified db account ids" using h(4) by (auto simp: make_account_notification_def split: if_splits)
  have m: "ag_encode env notif = Some (km_value msg)" using h(5) by (auto simp: message_from_json_def split: option.splits)
  have "\<exists>w msg notif. ag_publisher env = Some w \<and> w [msg] out = (None, out') \<and> ag_encode env notif = Some (km_value msg)
      \<and> nt_events notif = get_unnotified db account ids
      \<and> db' = agg_mark_advisories_notified account (map na_id (nt_events notif)) now db"
    using h n m by metis
  moreover have "get_unnotified db' account ids = []" "stored_counts db' k = stored_counts db k"
    unfolding h(6) by (rule marked_not_unnotified mark_counts)+
  ultimately show ?thesis using h(1) by blast
qed auto

theorem new_advisories_notified_once_witness:
  "case publish_new_advisory_notification example_agg_env 9 1 [7] (refresh_account_advisory_caches_multi [7] 1 example_agg_db) [] of
     (ok, db', out') \<Rightarrow> ok \<and> length out' = 1 \<and> get_unnotified db' 1 [7] = []"
proof -
  let ?db = "refresh_account_advisory_caches_multi [7] 1 example_agg_db"
  obtain ok db' out' where p: "publish_new_advisory_notification example_agg_env 9 1 [7] ?db [] = (ok, db', out')"
    by (metis prod_cases3)
  have "case publish_new_advisory_notification example_agg_env 9 1 [7] ?db [] of (ok, db', out') \<Rightarrow> ok \<and> length out' = 1"
    by code_simp
  moreover have "ag_enabled example_agg_env" "ag_publisher example_agg_env \<noteq> None" by (simp_all add: example_agg_env_def)
  ultimately show ?thesis using new_advisories_notified_once [OF p] unfolding p prod.case by blast
qed

section \<open>A run of the aggregator\<close>

lemma true_counts_frame:
  assumes "gd_inventory db' = gd_inventory db" "gd_patch db' = gd_patch db" "gd_system_advisories db' = gd_system_advisories db"
  shows "true_counts db' a w i = true_counts db a w i" "agg_ok db' = agg_ok db"
  by (simp_all only: true_counts_def systems_with_def counts_for_def agg_ok_def assms)

text \<open>What the counting reads is the same before and after a step.\<close>

definition same_systems :: "agg_db \<Rightarrow> agg_db \<Rightarrow> bool" where
  "same_systems db' db \<longleftrightarrow> gd_inventory db' = gd_inventory db \<and> gd_patch db' = gd_patch db
     \<and> gd_system_advisories db' = gd_system_advisories db"

lemma same_systems_counts:
  "same_systems db' db \<Longrightarrow> true_counts db' a w i = true_counts db a w i"
  "same_systems db' db \<Longrightarrow> agg_ok db' = agg_ok db"
  unfolding same_systems_def by (elim conjE, rule true_counts_frame; assumption)+

lemma same_systems_trans: "same_systems c b \<Longrightarrow> same_systems b a \<Longrightarrow> same_systems c a"
  by (simp add: same_systems_def)

lemma publish_frame:
  assumes "publish_new_advisory_notification env now account ids db out = (ok, db', out')"
  shows "same_systems db' db" "stored_counts db' k = stored_counts db k"
  using publish_cases [OF assms] by (auto simp: same_systems_def mark_frame mark_counts)

lemma batch_step:
  assumes ok: "agg_ok (gs_db s)" and up: "\<not> ag_faults env (RefreshCounts account)"
  obtains s' where "process_advisory_batch env now ((account, ids) # grouped) s = process_advisory_batch env now grouped s'"
    "same_systems (gs_db s') (gs_db s)" "gs_buffer s' = gs_buffer s"
    "\<And>a w i. stored_counts (gs_db s') (a, w, i)
       = (if a = account \<and> i \<in> set ids then true_counts (gs_db s) a w i else stored_counts (gs_db s) (a, w, i))"
proof -
  let ?db = "refresh_account_advisory_caches_multi ids account (gs_db s)"
  obtain flag db out where p: "publish_new_advisory_notification env now account ids ?db (gs_out s) = (flag, db, out)"
    by (metis prod_cases3)
  let ?s = "s\<lparr>gs_db := db, gs_out := out, gs_drift := gs_drift s @ map (Pair account) (check_advisory_drift (ag_faults env) ?db account ids)\<rparr>"
  have e: "process_advisory_batch env now ((account, ids) # grouped) s = process_advisory_batch env now grouped ?s"
    by (simp add: up p Let_def)
  have same: "same_systems (gs_db ?s) (gs_db s)"
    using publish_frame(1) [OF p] by (simp add: same_systems_def refresh_frame)
  have c: "stored_counts (gs_db ?s) (a, w, i)
      = (if a = account \<and> i \<in> set ids then true_counts (gs_db s) a w i else stored_counts (gs_db s) (a, w, i))" for a w i
    using publish_frame(2) [OF p, of "(a, w, i)"] by (simp add: refresh_counts [OF ok])
  show ?thesis by (rule that [OF e same _ c]) simp
qed

lemma batch_counts:
  "agg_ok (gs_db s) \<Longrightarrow> same_systems (gs_db (process_advisory_batch env now grouped s)) (gs_db s)
     \<and> gs_buffer (process_advisory_batch env now grouped s) = gs_buffer s
     \<and> (\<forall>a w i. stored_counts (gs_db (process_advisory_batch env now grouped s)) (a, w, i)
          = (if (\<exists>ids. (a, ids) \<in> set grouped \<and> i \<in> set ids) \<and> \<not> ag_faults env (RefreshCounts a)
             then true_counts (gs_db s) a w i else stored_counts (gs_db s) (a, w, i)))"
proof (induction grouped arbitrary: s)
  case Nil
  then show ?case by (simp add: same_systems_def)
next
  case (Cons g grouped)
  obtain account ids where g: "g = (account, ids)" by fastforce
  show ?case
  proof (cases "ag_faults env (RefreshCounts account)")
    case True
    then have "process_advisory_batch env now (g # grouped) s = process_advisory_batch env now grouped s" by (simp add: g)
    then show ?thesis using Cons.IH [OF Cons.prems] True by (auto simp: g)
  next
    case False
    obtain s' where s': "process_advisory_batch env now (g # grouped) s = process_advisory_batch env now grouped s'"
      "same_systems (gs_db s') (gs_db s)" "gs_buffer s' = gs_buffer s"
      "\<And>a w i. stored_counts (gs_db s') (a, w, i)
         = (if a = account \<and> i \<in> set ids then true_counts (gs_db s) a w i else stored_counts (gs_db s) (a, w, i))"
      using batch_step [OF Cons.prems False] unfolding g by metis
    have ok: "agg_ok (gs_db s')" using Cons.prems same_systems_counts(2) [OF s'(2)] by simp
    show ?thesis unfolding s'(1)
    proof (intro conjI allI)
      show "same_systems (gs_db (process_advisory_batch env now grouped s')) (gs_db s)"
        using Cons.IH [OF ok] s'(2) same_systems_trans by blast
      show "gs_buffer (process_advisory_batch env now grouped s') = gs_buffer s" using Cons.IH [OF ok] s'(3) by simp
      fix a w i
      show "stored_counts (gs_db (process_advisory_batch env now grouped s')) (a, w, i)
          = (if (\<exists>ids. (a, ids) \<in> set (g # grouped) \<and> i \<in> set ids) \<and> \<not> ag_faults env (RefreshCounts a)
             then true_counts (gs_db s) a w i else stored_counts (gs_db s) (a, w, i))"
        using Cons.IH [OF ok] s'(4) [of a w i] same_systems_counts(1) [OF s'(2)] False by (auto simp: g)
    qed
  qed
qed

lemma group_updates_get:
  "(\<exists>ids. gm_get (group_advisory_updates es sets) a = Some ids \<and> i \<in> set ids)
   \<longleftrightarrow> (\<exists>ids. gm_get sets a = Some ids \<and> i \<in> set ids) \<or> (\<exists>e\<in>set es. au_account e = a \<and> i \<in> set (au_advisories e))"
proof (induction es arbitrary: sets)
  case (Cons e es)
  have add: "set (fold (\<lambda>i ids. if i \<in> set ids then ids else ids @ [i]) new ids) = set new \<union> set ids" for new ids :: "int list"
    by (induction new arbitrary: ids) auto
  show ?case unfolding group_advisory_updates.simps Let_def Cons.IH
    by (cases "au_account e = a") (auto simp: gomap add split: option.splits)
qed simp

lemma group_updates_wf: "wf_gomap sets \<Longrightarrow> wf_gomap (group_advisory_updates es sets)"
  by (induction es arbitrary: sets) (simp_all add: Let_def)

text \<open>An advisory of an account waits in the buffer.\<close>

definition waiting :: "'w agg_state \<Rightarrow> int \<Rightarrow> int \<Rightarrow> bool" where
  "waiting s a i \<longleftrightarrow> (\<exists>e\<in>set (gs_buffer s). au_account e = a \<and> i \<in> set (au_advisories e))"

lemma flush_counts:
  assumes ok: "agg_ok (gs_db s)" and order: "\<And>m. set (ag_order env m) = set m"
  shows "same_systems (gs_db (flush_advisory_buffer env now s)) (gs_db s)"
    "gs_buffer (flush_advisory_buffer env now s) = []"
    "stored_counts (gs_db (flush_advisory_buffer env now s)) (a, w, i)
      = (if waiting s a i \<and> \<not> ag_faults env (RefreshCounts a) then true_counts (gs_db s) a w i else stored_counts (gs_db s) (a, w, i))"
proof -
  let ?g = "group_advisory_updates (gs_buffer s) []"
  have "(\<exists>ids. (a, ids) \<in> set (ag_order env ?g) \<and> i \<in> set ids) \<longleftrightarrow> (\<exists>ids. gm_get ?g a = Some ids \<and> i \<in> set ids)"
    using group_updates_wf [of "[]" "gs_buffer s"] by (simp add: order)
  then have g: "(\<exists>ids. (a, ids) \<in> set (ag_order env ?g) \<and> i \<in> set ids) \<longleftrightarrow> waiting s a i"
    unfolding group_updates_get by (simp add: waiting_def)
  have ok': "agg_ok (gs_db (s\<lparr>gs_buffer := []\<rparr>))" using ok by simp
  note b = batch_counts [OF ok', of env now "ag_order env ?g"]
  show "same_systems (gs_db (flush_advisory_buffer env now s)) (gs_db s)"
    "gs_buffer (flush_advisory_buffer env now s) = []"
    using b by (simp_all add: flush_advisory_buffer_def same_systems_def)
  show "stored_counts (gs_db (flush_advisory_buffer env now s)) (a, w, i)
      = (if waiting s a i \<and> \<not> ag_faults env (RefreshCounts a) then true_counts (gs_db s) a w i else stored_counts (gs_db s) (a, w, i))"
  proof (cases "gs_buffer s = []")
    case True
    then show ?thesis by (simp add: flush_advisory_buffer_def waiting_def)
  next
    case False
    then show ?thesis using b g by (simp add: flush_advisory_buffer_def)
  qed
qed

text \<open>Every advisory named so far has its count, or waits.\<close>

lemma handler_counts:
  assumes ok: "agg_ok (gs_db s)" and order: "\<And>m. set (ag_order env m) = set m" and up: "\<not> ag_faults env (RefreshCounts a)"
  shows "same_systems (gs_db (advisory_update_handler env now m s)) (gs_db s)"
    "stored_counts (gs_db s) (a, w, i) = true_counts (gs_db s) a w i \<or> waiting s a i
       \<or> (\<exists>e. ag_parse env (km_value m) = Some e \<and> au_account e = a \<and> i \<in> set (au_advisories e)) \<Longrightarrow>
     stored_counts (gs_db (advisory_update_handler env now m s)) (a, w, i) = true_counts (gs_db s) a w i
       \<or> waiting (advisory_update_handler env now m s) a i"
proof -
  have "same_systems (gs_db (advisory_update_handler env now m s)) (gs_db s)
    \<and> (stored_counts (gs_db s) (a, w, i) = true_counts (gs_db s) a w i \<or> waiting s a i
       \<or> (\<exists>e. ag_parse env (km_value m) = Some e \<and> au_account e = a \<and> i \<in> set (au_advisories e)) \<longrightarrow>
      stored_counts (gs_db (advisory_update_handler env now m s)) (a, w, i) = true_counts (gs_db s) a w i
       \<or> waiting (advisory_update_handler env now m s) a i)"
  proof (cases "ag_parse env (km_value m)")
    case None
    then show ?thesis by (auto simp: advisory_update_handler_def same_systems_def)
  next
    case (Some e)
    let ?s = "s\<lparr>gs_buffer := gs_buffer s @ [e]\<rparr>"
    have h: "advisory_update_handler env now m s
        = (if ag_batch_size env \<le> int (length (gs_buffer ?s)) then flush_advisory_buffer env now ?s else ?s)"
      by (simp add: advisory_update_handler_def Some Let_def)
    have w: "waiting ?s a i \<longleftrightarrow> waiting s a i \<or> (au_account e = a \<and> i \<in> set (au_advisories e))"
      by (auto simp: waiting_def)
    have ok': "agg_ok (gs_db ?s)" using ok by simp
    show ?thesis
    proof (cases "ag_batch_size env \<le> int (length (gs_buffer ?s))")
      case True
      then have h: "advisory_update_handler env now m s = flush_advisory_buffer env now ?s" unfolding h by (rule if_P)
      show ?thesis unfolding h using flush_counts(1,2) [OF ok' order] flush_counts(3) [OF ok' order, where a = a and w = w and i = i] w Some up by auto
    next
      case False
      then have h: "advisory_update_handler env now m s = ?s" unfolding h by (rule if_not_P)
      show ?thesis unfolding h using w Some by (auto simp: same_systems_def)
    qed
  qed
  then show "same_systems (gs_db (advisory_update_handler env now m s)) (gs_db s)"
    "stored_counts (gs_db s) (a, w, i) = true_counts (gs_db s) a w i \<or> waiting s a i
       \<or> (\<exists>e. ag_parse env (km_value m) = Some e \<and> au_account e = a \<and> i \<in> set (au_advisories e)) \<Longrightarrow>
     stored_counts (gs_db (advisory_update_handler env now m s)) (a, w, i) = true_counts (gs_db s) a w i
       \<or> waiting (advisory_update_handler env now m s) a i" by blast+
qed

lemma run_counts:
  assumes order: "\<And>m. set (ag_order env m) = set m" and up: "\<not> ag_faults env (RefreshCounts a)"
  shows "agg_ok (gs_db s) \<Longrightarrow> same_systems (gs_db (run_aggregator env ins s)) (gs_db s)
    \<and> (stored_counts (gs_db s) (a, w, i) = true_counts (gs_db s) a w i \<or> waiting s a i
       \<or> (\<exists>now m e. (now, AggMessage m) \<in> set ins \<and> ag_parse env (km_value m) = Some e \<and> au_account e = a \<and> i \<in> set (au_advisories e)) \<longrightarrow>
      stored_counts (gs_db (run_aggregator env ins s)) (a, w, i) = true_counts (gs_db s) a w i \<or> waiting (run_aggregator env ins s) a i)"
proof (induction ins arbitrary: s)
  case Nil
  then show ?case by (auto simp: same_systems_def)
next
  case (Cons x ins)
  obtain now inp where x: "x = (now, inp)" by fastforce
  have step: "same_systems (gs_db s') (gs_db s)
      \<Longrightarrow> (stored_counts (gs_db s) (a, w, i) = true_counts (gs_db s) a w i \<or> waiting s a i
         \<or> (\<exists>m e. inp = AggMessage m \<and> ag_parse env (km_value m) = Some e \<and> au_account e = a \<and> i \<in> set (au_advisories e)) \<Longrightarrow>
        stored_counts (gs_db s') (a, w, i) = true_counts (gs_db s) a w i \<or> waiting s' a i)
      \<Longrightarrow> run_aggregator env (x # ins) s = run_aggregator env ins s' \<Longrightarrow> ?case" for s'
  proof -
    assume same: "same_systems (gs_db s') (gs_db s)" and run: "run_aggregator env (x # ins) s = run_aggregator env ins s'"
      and now: "stored_counts (gs_db s) (a, w, i) = true_counts (gs_db s) a w i \<or> waiting s a i
         \<or> (\<exists>m e. inp = AggMessage m \<and> ag_parse env (km_value m) = Some e \<and> au_account e = a \<and> i \<in> set (au_advisories e)) \<Longrightarrow>
        stored_counts (gs_db s') (a, w, i) = true_counts (gs_db s) a w i \<or> waiting s' a i"
    have ok: "agg_ok (gs_db s')" and t: "true_counts (gs_db s') a w i = true_counts (gs_db s) a w i"
      using same_systems_counts [OF same] Cons.prems by simp_all
    show ?case unfolding run using Cons.IH [OF ok] same_systems_trans [OF _ same] now unfolding t set_simps x by blast
  qed
  show ?case
  proof (cases inp)
    case (AggMessage m)
    show ?thesis using handler_counts(1) [OF Cons.prems order up] handler_counts(2) [OF Cons.prems order up, where w = w and i = i and m = m] by (intro step) (auto simp: x AggMessage)
  next
    case AggTimer
    show ?thesis using flush_counts(1,2) [OF Cons.prems order] flush_counts(3) [OF Cons.prems order, where a = a and w = w and i = i] up by (intro step) (auto simp: x AggTimer)
  qed
qed

text \<open>C15.  After a run that ends with the timer, the stored counts of every advisory a message named are the numbers
  of systems of that workspace it applies to and can be installed on, and an advisory without such systems has no row.\<close>

theorem aggregated_counts_exact:
  assumes "agg_ok (gs_db s)" "\<And>m. set (ag_order env m) = set m" "\<not> ag_faults env (RefreshCounts a)"
    and "(now, AggMessage m) \<in> set ins" "ag_parse env (km_value m) = Some e" "au_account e = a" "i \<in> set (au_advisories e)"
  shows "stored_counts (gs_db (flush_advisory_buffer env t (run_aggregator env ins s))) (a, w, i) = true_counts (gs_db s) a w i"
proof -
  let ?r = "run_aggregator env ins s"
  have run: "same_systems (gs_db ?r) (gs_db s)" "stored_counts (gs_db ?r) (a, w, i) = true_counts (gs_db s) a w i \<or> waiting ?r a i"
    using run_counts [OF assms(2,3,1), of ins w i] assms(4-) by blast+
  have "agg_ok (gs_db ?r)" using same_systems_counts(2) [OF run(1)] assms(1) by simp
  then show ?thesis
    using flush_counts(3) [of ?r env t a w i] assms(2,3) run(2) same_systems_counts(1) [OF run(1)] by (simp split: if_splits)
qed

theorem aggregated_counts_exact_witness:
  "stored_counts (gs_db (flush_advisory_buffer example_agg_env 9 (run_aggregator example_agg_env
     [(4, AggMessage \<lparr>km_key = [], km_value = ''m'', km_headers = []\<rparr>)] example_agg_state))) (1, ''w'', 7) = Some (1, 1)"
  using aggregated_counts_exact [OF example_ok(1,2,3), of 4 "\<lparr>km_key = [], km_value = ''m'', km_headers = []\<rparr>"
      "[(4, AggMessage \<lparr>km_key = [], km_value = ''m'', km_headers = []\<rparr>)]" "\<lparr>au_account = 1, au_workspace = [], au_advisories = [7], au_produced = 0\<rparr>" 1 7 9 "''w''"]
  by (simp add: example_true_counts example_agg_env_def)

section \<open>The comparison with the older table\<close>

text \<open>The sums over the workspaces of an account.\<close>

definition account_totals :: "agg_db \<Rightarrow> int \<Rightarrow> int \<Rightarrow> (int \<times> int) option" where
  "account_totals db account i =
     (let rows = map snd (filter (\<lambda>((a, w, j), r). a = account \<and> j = i) (gd_account_advisory db))
      in if rows = [] then None else Some (sum_list (map aa_applicable rows), sum_list (map aa_installable rows)))"

lemma drift_loop_set:
  "wf_gomap legacy \<Longrightarrow> wf_gomap new \<Longrightarrow> set (drift_loop legacy new)
     = {MissingInNew i | i. gm_has legacy i \<and> gm_get new i = None}
     \<union> {CountMismatch i | i c c'. gm_get legacy i = Some c \<and> gm_get new i = Some c' \<and> c \<noteq> c'}
     \<union> {MissingInLegacy i | i. gm_get legacy i = None \<and> gm_has new i}"
proof (induction legacy arbitrary: new)
  case Nil
  then show ?case by (force simp: map_of_eq_None_iff)
next
  case (Cons l legacy)
  obtain i c where l: "l = (i, c)" by (cases l)
  have i: "gm_get legacy i = None" and wf: "wf_gomap legacy" using Cons.prems l by (simp_all add: map_of_eq_None_iff)
  have rest: "gm_get legacy j = (if j = i then None else gm_get (l # legacy) j)" for j using i by (simp add: l)
  show ?case
  proof (cases "gm_get new i")
    case None
    then have "set (drift_loop (l # legacy) new) = insert (MissingInNew i) (set (drift_loop legacy new))" by (simp add: l)
    then show ?thesis unfolding Cons.IH [OF wf Cons.prems(2)] rest using None by (auto simp: l)
  next
    case (Some c')
    then have "set (drift_loop (l # legacy) new) = (if c \<noteq> c' then {CountMismatch i} else {}) \<union> set (drift_loop legacy (gm_del i new))"
      by (simp add: l)
    then show ?thesis unfolding Cons.IH [OF wf gm_del_wf [OF Cons.prems(2)]] rest using Some by (cases c; cases c') (auto simp: l gomap)
  qed
qed

lemma summed_counts_get:
  "gm_get (summed_counts db account ids) i = (if i \<in> set ids then account_totals db account i else None)" "wf_gomap (summed_counts db account ids)"
proof -
  let ?rows = "filter (\<lambda>((a, w, i), r). a = account \<and> i \<in> set ids) (gd_account_advisory db)"
  have sums: "sum_list (map (\<lambda>((a, w, j), r). if j = i then f r else 0) (filter (\<lambda>((a, w, i), r). a = account \<and> i \<in> set ids) m))
      = (if i \<in> set ids then sum_list (map f (map snd (filter (\<lambda>((a, w, j), r). a = account \<and> j = i) m))) else 0)"
    for f :: "account_advisory \<Rightarrow> int" and m :: "((int \<times> uuid \<times> int) \<times> account_advisory) list"
    by (induction m) (auto split: if_splits)
  have keys: "i \<in> set (map (\<lambda>((a, w, i), r). i) ?rows)
      \<longleftrightarrow> i \<in> set ids \<and> filter (\<lambda>((a, w, j), r). a = account \<and> j = i) (gd_account_advisory db) \<noteq> []"
    by (force simp: filter_empty_conv)
  have "gm_get (summed_counts db account ids) i = (if i \<in> set (map (\<lambda>((a, w, i), r). i) ?rows)
      then Some (sum_list (map (\<lambda>((a, w, j), r). if j = i then aa_applicable r else 0) ?rows),
             sum_list (map (\<lambda>((a, w, j), r). if j = i then aa_installable r else 0) ?rows)) else None)"
    unfolding summed_counts_def Let_def map_of_map_restrict restrict_map_def set_remdups comp_def by simp
  then show "gm_get (summed_counts db account ids) i = (if i \<in> set ids then account_totals db account i else None)"
    unfolding sums keys by (simp add: account_totals_def)
  show "wf_gomap (summed_counts db account ids)" by (simp add: summed_counts_def Let_def comp_def)
qed

lemma legacy_counts_get:
  assumes "wf_gomap (gd_legacy db)"
  shows "gm_get (legacy_counts db account ids) i = (if i \<in> set ids then gm_get (gd_legacy db) (account, i) else None)"
    "wf_gomap (legacy_counts db account ids)"
proof -
  have "gm_get (map (\<lambda>((a, i), c). (i, c)) (filter (\<lambda>((a, i), c). a = account \<and> i \<in> set ids) m)) i
      = (if i \<in> set ids then gm_get m (account, i) else None)" for m :: "(int \<times> int, int \<times> int) gomap"
    by (induction m) auto
  then show "gm_get (legacy_counts db account ids) i = (if i \<in> set ids then gm_get (gd_legacy db) (account, i) else None)"
    by (simp add: legacy_counts_def)
  have "wf_gomap m \<Longrightarrow> wf_gomap (map (\<lambda>((a, i), c). (i, c)) (filter (\<lambda>((a, i), c). a = account \<and> i \<in> set ids) m))"
    for m :: "(int \<times> int, int \<times> int) gomap"
    by (induction m) force+
  then show "wf_gomap (legacy_counts db account ids)" using assms by (simp add: legacy_counts_def)
qed

text \<open>C39.  The comparison warns about an advisory exactly when the account's totals differ from the older table.\<close>

theorem drift_check_exact:
  assumes "wf_gomap (gd_legacy db)" "\<not> faults (DriftNew account)" "\<not> faults (DriftLegacy account)"
  shows "set (check_advisory_drift faults db account ids)
     = {MissingInNew i | i. i \<in> set ids \<and> gm_has (gd_legacy db) (account, i) \<and> account_totals db account i = None}
     \<union> {CountMismatch i | i c c'. i \<in> set ids \<and> gm_get (gd_legacy db) (account, i) = Some c
          \<and> account_totals db account i = Some c' \<and> c \<noteq> c'}
     \<union> {MissingInLegacy i | i. i \<in> set ids \<and> gm_get (gd_legacy db) (account, i) = None \<and> account_totals db account i \<noteq> None}"
proof (cases "ids = []")
  case False
  then have "set (check_advisory_drift faults db account ids) = set (drift_loop (legacy_counts db account ids) (summed_counts db account ids))"
    using assms by (simp add: check_advisory_drift_def)
  then show ?thesis
    unfolding drift_loop_set [OF legacy_counts_get(2) [OF assms(1)] summed_counts_get(2)] legacy_counts_get(1) [OF assms(1)] summed_counts_get(1)
    by (auto split: if_splits)
qed (simp add: check_advisory_drift_def)

theorem drift_check_exact_witness:
  "check_advisory_drift (\<lambda>_. False) example_agg_db 1 [7, 8] = [MissingInNew 7]
   \<and> set (check_advisory_drift (\<lambda>_. False) example_agg_db 1 [7, 8])
     = {MissingInNew i | i. i \<in> {7, 8} \<and> gm_has (gd_legacy example_agg_db) (1, i) \<and> account_totals example_agg_db 1 i = None}
     \<union> {CountMismatch i | i c c'. i \<in> {7, 8} \<and> gm_get (gd_legacy example_agg_db) (1, i) = Some c
          \<and> account_totals example_agg_db 1 i = Some c' \<and> c \<noteq> c'}
     \<union> {MissingInLegacy i | i. i \<in> {7, 8} \<and> gm_get (gd_legacy example_agg_db) (1, i) = None \<and> account_totals example_agg_db 1 i \<noteq> None}"
proof
  show "check_advisory_drift (\<lambda>_. False) example_agg_db 1 [7, 8] = [MissingInNew 7]"
    by (simp add: check_advisory_drift_def legacy_counts_def summed_counts_def example_agg_db_def)
qed (use drift_check_exact [of example_agg_db "\<lambda>_. False" 1 "[7, 8]"] in \<open>simp only: list.set, simp add: example_agg_db_def\<close>)

end
