(* ===== verification/Spec2Isabelle.thy ===== *)
theory Spec2Isabelle
  imports EvaluateLaws KafkaEventsLaws ListenerInvariant EventBuffer TemplatesLaws AccessLaws PagingLaws TemplateAssignLaws SyncRunLaws AggregatorLaws
begin

text \<open>
  A verification development for patchman-engine, the backend of Red Hat Insights Patch: it keeps, for
  every registered system, which advisories and package updates apply to it.

  \<^bold>\<open>The program.\<close>  The listener (\<open>listener/\<close>) consumes Kafka messages of the host inventory and of content
  sources, stores systems, repositories and templates in PostgreSQL and asks for evaluations.  The
  evaluator (\<open>evaluator/\<close>) consumes those requests: it asks VMaaS for the updates of a system, merges them
  with those the system's own package manager reported, stores advisories and packages of the system with
  the counts per account, and publishes notifications.  The manager (\<open>manager/\<close>) serves the REST API over the
  same tables.  The aggregator and the tasks refresh caches and import the data of VMaaS.  They share the
  models, error values, Kafka events and HTTP clients of \<open>base/\<close>.

  \<^bold>\<open>Conventions.\<close>  A definition carries the name of the Go function it translates.  Go maps are association
  lists (\<open>gomap\<close>): one list is one iteration order, so a theorem about all lists covers every order the
  runtime may choose.  Go's \<open>int\<close> is an \<open>int\<close> whose wrap-around is written out where it can matter
  (\<open>wrap64\<close>).  A pointer or a nullable column is an option.  An error is a \<open>go_error\<close> with the sentinels and
  wrappers the code uses, a fallible function returns \<open>error + result\<close>, and an outer \<open>None\<close> is a panic.  A
  loop without a visible bound takes fuel (the merge of update lists, the retry loops); the theorems prove
  that enough fuel exists, or for which inputs none does.  Tables are lists of records with the
  constraints of \<open>database_admin/schema/create_schema.sql\<close> as predicates; each SQL statement may fail, as
  the argument \<open>faults\<close> decides, and a failed statement aborts the rest of its transaction.  JSON, hashing, the
  HTTP exchanges, the Kafka writer and third-party parsers are arguments of the definitions; what is
  relied on is a named hypothesis (\<open>go_order\<close>, \<open>lru_ok\<close>, \<open>tq_ok\<close>, \<open>buffer_setup\<close>, ...).  Specifications that
  a theorem compares the code with (\<open>advisories_stored\<close>, \<open>listed_latest\<close>, \<open>host_columns\<close>, \<open>fits_template\<close>, ...) are
  written without the functions of the code they specify.

  \<^bold>\<open>Foundations.\<close>
  \<^item> \<open>Prelude\<close>: 64-bit integers, Go maps, lists.  \<open>GoStrings\<close>, \<open>GoText\<close>: comparison functions and the parts of
    \<open>strings\<close>, \<open>strconv\<close>, \<open>fmt\<close> in use.  \<open>GoRegexp\<close>: leftmost-first matching.  \<open>GoErrors\<close>: \<open>base/errors.go\<close>.
  \<^item> \<open>Retry\<close>: \<open>base/utils/http.go\<close>, \<open>base/api/client.go\<close> and the consumer loops of \<open>base/mqueue\<close>; a retried call
    ends with the first deciding attempt, a message is committed after its handler succeeded.
  \<^item> \<open>KafkaEvents\<close>, \<open>KafkaEventsLaws\<close>: the events of \<open>base/mqueue\<close> and their batching.
  \<^item> \<open>Models\<close>: \<open>base/models/models.go\<close>.  \<open>Vmaas\<close>: \<open>base/vmaas/vmaas.go\<close>.

  \<^bold>\<open>The evaluator.\<close>
  \<^item> \<open>Nevra\<close>: package names (\<open>base/utils/rpm.go\<close>); the parser accepts exactly the printed forms.
  \<^item> \<open>VmaasMerge\<close>: merging two responses (\<open>base/utils/vmaas.go\<close>): sorted, complete, and for which inputs it hangs.
  \<^item> \<open>EvalStore\<close>, \<open>Advisories\<close>, \<open>AdvisoryLaws\<close>: \<open>evaluate_advisories.go\<close>; the stored rows are the reported
    advisories and the account counts follow the rows.
  \<^item> \<open>PackageCache\<close>, \<open>PackageCacheLaws\<close>: \<open>package_cache.go\<close>.  The cache outlives changes of the tables:
    \<open>cache_run\<close> is a history of tables, lookups and evictions, \<open>coherent\<close> says that every entry has the identity
    (id, name, version) of a row of the tables of the moment.  A lookup keeps \<open>coherent\<close> and answers up to texts
    what the database would.
  \<^item> \<open>Packages\<close>, \<open>PackageLaws\<close>, \<open>PackageLazyLaws\<close>: \<open>evaluate_packages.go\<close>; the stored packages are the listed
    ones with their newest updates, also after the names the tables lacked were saved lazily.
  \<^item> \<open>VmaasCache\<close>, \<open>UpdatesData\<close>, \<open>UpdatesDataLaws\<close>: the response cache and where updates come from.
  \<^item> \<open>Publishing\<close>, \<open>Evaluate\<close>, \<open>EvaluateStored\<close>, \<open>EvaluateLaws\<close>: \<open>evaluate.go\<close> and what it publishes; an evaluation
    stores all of its results or none.  \<open>EvaluateStored\<close> puts the results of the advisory and the package lemmas
    together, from the loading of a system to the commit.

  \<^bold>\<open>The listener.\<close>
  \<^item> \<open>Host\<close>, \<open>ListenerStore\<close>, \<open>Upload\<close>, \<open>ListenerEvents\<close>: host messages, the tables and statements, \<open>upload.go\<close>,
    \<open>rhsm.go\<close>, \<open>event_buffers.go\<close>, \<open>events.go\<close>.
  \<^item> \<open>ListenerStoreLaws\<close>, \<open>UploadLaws\<close>, \<open>UploadSafety\<close>, \<open>ListenerInvariant\<close>: what an upload stores, what a failed
    one leaves alone, and the constraints of the tables over every run of messages.
  \<^item> \<open>EventBuffer\<close>: the buffers as a transition system over the model's own append and flush.  The topic is read
    back from what the writer was given, by a decoder that is a parameter: nothing is sent twice or kept back for
    ever, and nothing is lost unless a write fails.
  \<^item> \<open>Templates\<close>, \<open>TemplatesLaws\<close>: \<open>templates.go\<close>, \<open>template_advisories.go\<close>, \<open>template_recalc.go\<close>.

  \<^bold>\<open>The manager.\<close>
  \<^item> \<open>Access\<close>, \<open>AccessLaws\<close>: RBAC, Kessel and authentication (\<open>manager/middlewares\<close>) and the query every handler
    starts from; which systems a request can see.
  \<^item> \<open>Filters\<close>, \<open>FilterLaws\<close>: columns, filters, search, sort and tags of the list endpoints (\<open>base/database/query.go\<close>,
    \<open>manager/controllers/filter.go\<close>, \<open>utils.go\<close>): clauses with text of the endpoint and placeholders for the rest.
  \<^item> \<open>Paging\<close>, \<open>PagingLaws\<close>: limit, offset and links (\<open>paging.go\<close>, \<open>base/utils/gin.go\<close>).  \<open>PagingLaws\<close> also has
    \<open>net/url\<close>'s reading of a query (splitting at \<open>&\<close>, refusing \<open>;\<close>, decoding \<open>%\<close> and \<open>+\<close>), so that a link is followed
    as the server would read it.
  \<^item> \<open>TemplateAssign\<close>, \<open>TemplateAssignLaws\<close>: the handlers that move systems between templates, Candlepin's part and
    \<open>manager/kafka\<close>.

  \<^bold>\<open>The tasks and the aggregator.\<close>
  \<^item> \<open>SyncStore\<close>, \<open>SyncStoreLaws\<close>: what a page of packages or errata stores (\<open>package_sync.go\<close>, \<open>advisory_sync.go\<close>).
  \<^item> \<open>SyncRun\<close>, \<open>SyncRunLaws\<close>: the download loops, the search for systems to evaluate again and the job around them
    (\<open>repo_based.go\<close>, \<open>repo_sync.go\<close>, \<open>send_messages.go\<close>, \<open>dbchange.go\<close>, \<open>vmaas_sync.go\<close>).  The loops over the pages of
    errata and packages end with two turns of fuel more than the bound on the pages; the loop over repositories
    is shown to need more than any fuel when VMaaS comes to have fewer pages than were read.
  \<^item> \<open>Aggregator\<close>, \<open>AggregatorLaws\<close>: the buffer of advisory updates, the stored procedure that recounts an account,
    the comparison with the older counts and the notification of new advisories (\<open>aggregator/\<close>).

  \<^bold>\<open>Not modelled.\<close>  Concurrent transactions are serial here, their isolation is PostgreSQL's.  The parsers of
  JSON, URLs, UUIDs and times, SHA-256, gzip and the RPM label comparison are arguments.  Casts between
  text and \<open>uuid\<close> are equality of the canonical text: a message that spells a UUID in another way would be
  told apart here and not by PostgreSQL.  The page counters are unbounded integers.  Left out are the SELECTs of
  the list and detail handlers and the JSON or CSV they print, the culling, cache refresh, cleaning and repacking
  jobs of \<open>tasks/\<close>, the admin API of \<open>turnpike/\<close>, and what carries no logic of the program's purpose: configuration,
  logging, metrics, profilers, the start of the processes, migrations, the mock platform and the generated OpenAPI
  documentation.
\<close>

end
